(* ===== verification/Prelude.thy ===== *)
theory Prelude
  imports Main "HOL-Library.AList"
begin

text \<open>
  Shared vocabulary of the development: JavaScript values as HOL values (template strings,
  decimal printing, insertion-ordered \<^verbatim>\<open>Map\<close>, optional chaining), the
  collections the component proofs draw on, and the generic lemmas about them.

  A JavaScript \<^verbatim>\<open>Map\<close> (and an object read as a record of strings) is an
  association list in insertion order: \<open>AList.update\<close> overwrites in place or appends, which
  is exactly \<^verbatim>\<open>Map.prototype.set\<close>, and \<open>map_of\<close> is
  \<^verbatim>\<open>Map.prototype.get\<close>.
\<close>

named_theorems model_defs "definitions of the small predicates of model.ts"
named_theorems decide_defs "definitions of the pure decision functions"
named_theorems store_defs "definitions of the store primitives"

type_synonym timestamp = int
type_synonym params = "(string \<times> string) list"

subsection \<open>Decimal printing\<close>

definition digitChar :: "nat \<Rightarrow> char" where
  "digitChar d = char_of (48 + d)"

fun showNat :: "nat \<Rightarrow> string" where
  "showNat n = (if n < 10 then [digitChar n] else showNat (n div 10) @ [digitChar (n mod 10)])"

declare showNat.simps [simp del]

definition isDigit :: "char \<Rightarrow> bool" where
  "isDigit c \<longleftrightarrow> 48 \<le> (of_char c :: nat) \<and> (of_char c :: nat) \<le> 57"

definition digitVal :: "char \<Rightarrow> nat" where
  "digitVal c = of_char c - 48"

definition readNat :: "string \<Rightarrow> nat" where
  "readNat s = foldl (\<lambda>n c. 10 * n + digitVal c) 0 s"

lemma of_char_digitChar [simp]: "d < 10 \<Longrightarrow> (of_char (digitChar d) :: nat) = 48 + d"
  by (simp add: digitChar_def)

lemma isDigit_digitChar [simp]: "d < 10 \<Longrightarrow> isDigit (digitChar d)"
  by (simp add: isDigit_def)

lemma digitVal_digitChar [simp]: "d < 10 \<Longrightarrow> digitVal (digitChar d) = d"
  by (simp add: digitVal_def)

lemma showNat_digits: "\<forall>c \<in> set (showNat n). isDigit c"
proof (induction n rule: showNat.induct)
  case (1 n)
  show ?case
  proof (cases "n < 10")
    case True
    then show ?thesis by (subst showNat.simps) simp
  next
    case False
    with "1.IH" show ?thesis by (subst showNat.simps) auto
  qed
qed

lemma showNat_nonempty [simp]: "showNat n \<noteq> []"
  by (subst showNat.simps) simp

lemma readNat_snoc: "readNat (s @ [c]) = 10 * readNat s + digitVal c"
  by (simp add: readNat_def)

lemma readNat_showNat [simp]: "readNat (showNat n) = n"
proof (induction n rule: showNat.induct)
  case (1 n)
  show ?case
  proof (cases "n < 10")
    case True
    then show ?thesis by (subst showNat.simps) (simp add: readNat_def)
  next
    case False
    with "1.IH" have "readNat (showNat (n div 10)) = n div 10" by simp
    with False show ?thesis by (subst showNat.simps) (simp add: readNat_snoc)
  qed
qed

lemma showNat_inject [simp]: "showNat m = showNat n \<longleftrightarrow> m = n"
  by (metis readNat_showNat)

lemma length_showNat: "n < 10 ^ k \<Longrightarrow> 0 < k \<Longrightarrow> length (showNat n) \<le> k"
proof (induction n arbitrary: k rule: showNat.induct)
  case (1 n)
  show ?case
  proof (cases "n < 10")
    case True
    with "1.prems" show ?thesis by (subst showNat.simps) simp
  next
    case False
    with "1.prems" have "k \<noteq> 1" by auto
    with "1.prems" obtain k' where k: "k = Suc k'" and "0 < k'"
      by (metis One_nat_def Suc_pred neq0_conv)
    with "1.prems" have "n div 10 < 10 ^ k'" by auto
    with False "1.IH" \<open>0 < k'\<close> have "length (showNat (n div 10)) \<le> k'" by blast
    with False k show ?thesis by (subst showNat.simps) simp
  qed
qed

subsection \<open>Splitting a string at its last separator\<close>

text \<open>Two strings that end in digit runs after the same non-digit suffix agree part by part.\<close>

lemma digits_suffix_inject:
  assumes "xs @ c # ds = ys @ c # es"
    and "\<forall>d \<in> set ds. d \<noteq> c" and "\<forall>d \<in> set es. d \<noteq> c"
  shows "xs = ys \<and> ds = es"
  using assms
proof (induction xs arbitrary: ys)
  case Nil
  then show ?case by (cases ys) auto
next
  case (Cons x xs)
  then show ?case by (cases ys) auto
qed

subsection \<open>Code-unit order on strings\<close>

fun strLess :: "string \<Rightarrow> string \<Rightarrow> bool" where
  "strLess [] [] = False"
| "strLess [] (c # cs) = True"
| "strLess (c # cs) [] = False"
| "strLess (c # cs) (d # ds) =
     ((of_char c :: nat) < of_char d \<or> (c = d \<and> strLess cs ds))"

lemma strLess_irrefl [simp]: "\<not> strLess s s"
  by (induction s) auto

lemma strLess_trans: "strLess a b \<Longrightarrow> strLess b c \<Longrightarrow> strLess a c"
proof (induction a b arbitrary: c rule: strLess.induct)
  case (2 d ds)
  then show ?case by (cases c) auto
next
  case (4 x xs y ys)
  then show ?case by (cases c) auto
qed auto

lemma strLess_total: "a \<noteq> b \<Longrightarrow> strLess a b \<or> strLess b a"
proof (induction a b rule: strLess.induct)
  case (4 c cs d ds)
  have "c = d \<or> (of_char c :: nat) < of_char d \<or> (of_char d :: nat) < of_char c"
    by (metis linorder_neqE_nat of_char_eq_iff)
  with 4 show ?case by auto
qed auto

subsection \<open>Insertion-ordered maps\<close>

text \<open>The contract of \<^verbatim>\<open>Map\<close> the stores rely on.\<close>

locale ordered_map =
  fixes get :: "'m \<Rightarrow> 'k \<Rightarrow> 'v option"
    and put :: "'k \<Rightarrow> 'v \<Rightarrow> 'm \<Rightarrow> 'm"
    and items :: "'m \<Rightarrow> 'v list"
    and invar :: "'m \<Rightarrow> bool"
  assumes get_put: "get (put k v m) k' = (if k' = k then Some v else get m k')"
    and items_get: "invar m \<Longrightarrow> v \<in> set (items m) \<longleftrightarrow> (\<exists>k. get m k = Some v)"
    and invar_put: "invar m \<Longrightarrow> invar (put k v m)"
begin

lemma get_put_same [simp]: "get (put k v m) k = Some v"
  by (simp add: get_put)

lemma get_put_other [simp]: "k' \<noteq> k \<Longrightarrow> get (put k v m) k' = get m k'"
  by (simp add: get_put)

lemma items_putD: "invar m \<Longrightarrow> w \<in> set (items (put k v m)) \<Longrightarrow> w = v \<or> w \<in> set (items m)"
  by (auto simp: items_get invar_put get_put split: if_splits)

lemma items_put_new: "invar m \<Longrightarrow> v \<in> set (items (put k v m))"
  by (auto simp: items_get invar_put get_put)

end

definition keysDistinct :: "('k \<times> 'v) list \<Rightarrow> bool" where
  "keysDistinct m \<longleftrightarrow> distinct (map fst m)"

interpretation js: ordered_map map_of AList.update "map snd" keysDistinct
proof
  show "map_of (AList.update k v m) k' = (if k' = k then Some v else map_of m k')"
    for k :: 'a and v :: 'b and m k'
    by (simp add: update_conv)
  show "keysDistinct m \<Longrightarrow> v \<in> set (map snd m) \<longleftrightarrow> (\<exists>k. map_of m k = Some v)"
    for m :: "('a \<times> 'b) list" and v
    by (force simp: keysDistinct_def intro: map_of_is_SomeI dest: map_of_SomeD)
  show "keysDistinct m \<Longrightarrow> keysDistinct (AList.update k v m)"
    for k :: 'a and v :: 'b and m
    by (simp add: keysDistinct_def distinct_update)
qed

lemma keysDistinct_Nil [simp]: "keysDistinct []"
  by (simp add: keysDistinct_def)

subsection \<open>Optional reads\<close>

text \<open>\<open>params?.[key]\<close>: the record may be absent, and so may the key.\<close>

definition paramOf :: "params option \<Rightarrow> string \<Rightarrow> string option" where
  "paramOf ps k = (case ps of None \<Rightarrow> None | Some m \<Rightarrow> map_of m k)"

text \<open>\<open>x ?? d\<close>\<close>

definition orElse :: "'a option \<Rightarrow> 'a \<Rightarrow> 'a" where
  "orElse x d = (case x of None \<Rightarrow> d | Some v \<Rightarrow> v)"

lemma orElse_simps [simp]: "orElse None d = d" "orElse (Some v) d = v"
  by (simp_all add: orElse_def)

text \<open>\<open>x ?? y\<close> with an optional default.\<close>

definition orOpt :: "'a option \<Rightarrow> 'a option \<Rightarrow> 'a option" where
  "orOpt x y = (case x of None \<Rightarrow> y | Some v \<Rightarrow> Some v)"

lemma orOpt_simps [simp]: "orOpt None y = y" "orOpt (Some v) y = Some v"
  by (simp_all add: orOpt_def)

subsection \<open>Stable sorting by a strict order\<close>

text \<open>\<^verbatim>\<open>Array.prototype.sort\<close> is stable; inserting before the first strictly
  greater element, from the right, gives the same result for a strict weak order.\<close>

fun insertBy :: "('a \<Rightarrow> 'a \<Rightarrow> bool) \<Rightarrow> 'a \<Rightarrow> 'a list \<Rightarrow> 'a list" where
  "insertBy lt x [] = [x]"
| "insertBy lt x (y # ys) = (if lt y x then y # insertBy lt x ys else x # y # ys)"

fun sortBy :: "('a \<Rightarrow> 'a \<Rightarrow> bool) \<Rightarrow> 'a list \<Rightarrow> 'a list" where
  "sortBy lt [] = []"
| "sortBy lt (x # xs) = insertBy lt x (sortBy lt xs)"

lemma set_insertBy [simp]: "set (insertBy lt x ys) = insert x (set ys)"
  by (induction ys) auto

lemma set_sortBy [simp]: "set (sortBy lt xs) = set xs"
  by (induction xs) auto

lemma length_insertBy [simp]: "length (insertBy lt x ys) = Suc (length ys)"
  by (induction ys) auto

lemma length_sortBy [simp]: "length (sortBy lt xs) = length xs"
  by (induction xs) auto

lemma sortBy_Nil_iff [simp]: "sortBy lt xs = [] \<longleftrightarrow> xs = []"
  by (metis length_0_conv length_sortBy)

lemma distinct_insertBy [simp]: "distinct (insertBy lt x ys) \<longleftrightarrow> x \<notin> set ys \<and> distinct ys"
  by (induction ys) auto

lemma distinct_sortBy [simp]: "distinct (sortBy lt xs) \<longleftrightarrow> distinct xs"
  by (induction xs) auto

locale strict_weak_order =
  fixes lt :: "'a \<Rightarrow> 'a \<Rightarrow> bool"
  assumes lt_asym: "lt x y \<Longrightarrow> \<not> lt y x"
    and lt_negtrans: "lt x z \<Longrightarrow> lt x y \<or> lt y z"
begin

lemma lt_irrefl: "\<not> lt x x"
  using lt_asym by blast

lemma sorted_insertBy:
  "sorted_wrt (\<lambda>a b. \<not> lt b a) ys \<Longrightarrow> sorted_wrt (\<lambda>a b. \<not> lt b a) (insertBy lt x ys)"
proof (induction ys)
  case Nil
  then show ?case by simp
next
  case (Cons y ys)
  show ?case
  proof (cases "lt y x")
    case True
    with Cons lt_asym show ?thesis by auto
  next
    case False
    with Cons.prems lt_negtrans have "\<forall>z \<in> set ys. \<not> lt z x" by fastforce
    with False Cons.prems show ?thesis by simp
  qed
qed

lemma sorted_sortBy: "sorted_wrt (\<lambda>a b. \<not> lt b a) (sortBy lt xs)"
  by (induction xs) (auto simp: sorted_insertBy)

lemma hd_sortBy_minimal:
  assumes "xs \<noteq> []" and "y \<in> set xs"
  shows "\<not> lt y (hd (sortBy lt xs))"
proof -
  from assms(1) obtain z zs where s: "sortBy lt xs = z # zs"
    by (metis list.exhaust sortBy_Nil_iff)
  with sorted_sortBy [of xs] have "\<forall>w \<in> set zs. \<not> lt w z" by simp
  moreover from assms(2) s have "y = z \<or> y \<in> set zs"
    by (metis set_ConsD set_sortBy)
  ultimately show ?thesis using s lt_irrefl by auto
qed

end

end
