(* ===== verification/Contracts.thy ===== *)
theory Contracts
  imports Prelude
begin

text \<open>
  The shared contracts of \<^verbatim>\<open>libs/dispatch-contracts\<close> the orchestrator's
  records are made of: tracker issues and their source keys, triage publication receipts,
  placement observations with the execution phase read from them, label routing records, the
  queue classes, the pipeline table and the attempt markers.

  Timestamps are instants in milliseconds since the epoch: the records hold ISO-8601 UTC
  strings, which the code either compares after \<^verbatim>\<open>Date.parse\<close> or, where they
  come from \<^verbatim>\<open>toISOString\<close>, as strings (the theory \<open>JS_Date\<close> proves that
  the two orders agree on that format).
\<close>

subsection \<open>Character classes of the identifier patterns\<close>

definition isLower :: "char \<Rightarrow> bool" where
  "isLower c \<longleftrightarrow> 97 \<le> (of_char c :: nat) \<and> (of_char c :: nat) \<le> 122"

definition isUpper :: "char \<Rightarrow> bool" where
  "isUpper c \<longleftrightarrow> 65 \<le> (of_char c :: nat) \<and> (of_char c :: nat) \<le> 90"

text \<open>\<^verbatim>\<open>[\w.-]\<close>\<close>

definition repoChar :: "char \<Rightarrow> bool" where
  "repoChar c \<longleftrightarrow> isLower c \<or> isUpper c \<or> isDigit c \<or> c = CHR ''_'' \<or> c = CHR ''.'' \<or> c = CHR ''-''"

text \<open>\<^verbatim>\<open>/^[\w.-]+\/[\w.-]+$/u\<close>\<close>

definition repoNamePattern :: "string \<Rightarrow> bool" where
  "repoNamePattern s \<longleftrightarrow>
     (let owner = takeWhile (\<lambda>c. c \<noteq> CHR ''/'') s;
          rest = dropWhile (\<lambda>c. c \<noteq> CHR ''/'') s
      in owner \<noteq> [] \<and> list_all repoChar owner \<and>
         rest \<noteq> [] \<and> tl rest \<noteq> [] \<and> list_all repoChar (tl rest))"

definition hexChar :: "char \<Rightarrow> bool" where
  "hexChar c \<longleftrightarrow> isDigit c \<or> (97 \<le> (of_char c :: nat) \<and> (of_char c :: nat) \<le> 102)"

text \<open>\<^verbatim>\<open>z.string().min(lo).max(hi)\<close>\<close>

definition lengthWithin :: "nat \<Rightarrow> nat \<Rightarrow> string \<Rightarrow> bool" where
  "lengthWithin lo hi s \<longleftrightarrow> lo \<le> length s \<and> length s \<le> hi"

definition optHolds :: "('a \<Rightarrow> bool) \<Rightarrow> 'a option \<Rightarrow> bool" where
  "optHolds P x = (case x of None \<Rightarrow> True | Some v \<Rightarrow> P v)"

lemma optHolds_simps [simp]: "optHolds P None" "optHolds P (Some v) = P v"
  by (simp_all add: optHolds_def)

subsection \<open>Tracker issues\<close>

datatype issueReference =
    GithubIssue (gi_repo: string) (gi_issue: nat)
  | LinearIssue (li_organizationId: string) (li_issueId: string)

definition issueSourceKey :: "issueReference \<Rightarrow> string" where
  "issueSourceKey i =
     (case i of
        GithubIssue r n \<Rightarrow> ''github:'' @ r @ ''#'' @ showNat n
      | LinearIssue org iss \<Rightarrow> ''linear:'' @ org @ '':'' @ iss)"

datatype openState = IssueOpen | IssueClosed

record issueStatus =
  is_id :: string
  is_name :: string
  is_type :: string

record idName =
  in_id :: string
  in_name :: string

record trackerIssue =
  ti_reference :: issueReference
  ti_identifier :: string
  ti_url :: string
  ti_title :: string
  ti_description :: string
  ti_state :: openState
  ti_updatedAt :: timestamp
  ti_teamId :: "string option"
  ti_status :: "issueStatus option"
  ti_labels :: "idName list"
  ti_assignees :: "idName list"

record trackerIssueProjection =
  tp_issue :: trackerIssue
  tp_repo :: "string option"
  tp_observedAt :: timestamp

subsection \<open>Triage publication, placement, routing and queue class\<close>

datatype triageState = TriagePending | TriageComplete | TriageSuperseded | TriageFailed

datatype commentId = NumberId nat | UuidId string

record sourceComment =
  sc_id :: commentId
  sc_body :: string
  sc_updatedAt :: timestamp

record triagePublication =
  tr_state :: triageState
  tr_commentBody :: "string option"
  tr_commentId :: "commentId option"
  tr_sourceComment :: "sourceComment option"
  tr_addedLabels :: "string list option"
  tr_dispatchRequested :: "timestamp option"
  tr_dispatchObserved :: "bool option"
  tr_error :: "string option"

datatype placementPhase = WaitingForPlacement | PlacementBootstrapping | PlacementUnavailable

datatype placementReason =
  ReasonPending | ReasonUnschedulable | ReasonScheduled | ReasonInventoryUnavailable | ReasonLaunchPending

record runPlacement =
  pl_phase :: placementPhase
  pl_reason :: placementReason
  pl_observedAt :: timestamp
  pl_jobCreatedAt :: "timestamp option"

datatype routingStatus = RoutingAccepted | RoutingRefused

record acceptedGeneration =
  ag_runId :: string
  ag_requestedAt :: timestamp
  ag_pipeline :: string

record providerRouting =
  pr_requestId :: string
  pr_requestedAt :: timestamp
  pr_actor :: string
  pr_requestedPipeline :: string
  pr_effectivePipeline :: string
  pr_status :: routingStatus
  pr_reason :: "string option"
  pr_fromRunId :: "string option"
  pr_acceptedGeneration :: "acceptedGeneration option"
  pr_successorRunId :: "string option"

datatype queuePriority = Urgent | Normal | Background

record humanNeededAction =
  hn_text :: string
  hn_command :: "string option"

text \<open>\<open>providerRoutingSchema.parse\<close> accepts exactly the bounded records.\<close>

definition validProviderRouting :: "providerRouting \<Rightarrow> bool" where
  "validProviderRouting p \<longleftrightarrow>
     lengthWithin 1 1024 (pr_requestId p) \<and>
     lengthWithin 1 128 (pr_actor p) \<and>
     lengthWithin 1 128 (pr_requestedPipeline p) \<and>
     lengthWithin 1 128 (pr_effectivePipeline p) \<and>
     optHolds (lengthWithin 1 128) (pr_reason p) \<and>
     optHolds (lengthWithin 1 1024) (pr_fromRunId p) \<and>
     optHolds (\<lambda>g. lengthWithin 1 1024 (ag_runId g) \<and> lengthWithin 1 128 (ag_pipeline g))
       (pr_acceptedGeneration p) \<and>
     optHolds (lengthWithin 1 1024) (pr_successorRunId p)"

subsection \<open>Pipelines\<close>

datatype agentPipeline = Claude | Codex | Opencode | Agy

record pipelineContract =
  pc_pipeline :: string
  pc_displayName :: string
  pc_label :: string
  pc_reviewLabel :: string
  pc_replyTrigger :: string
  pc_replyTriggerAliases :: "string list"
  pc_redispatchCommand :: string
  pc_botLogin :: string

definition PIPELINE_CONTRACTS :: "(string \<times> pipelineContract) list" where
  "PIPELINE_CONTRACTS =
    [(''claude'', \<lparr>pc_pipeline = ''claude'', pc_displayName = ''Claude'', pc_label = ''agent:claude'',
        pc_reviewLabel = ''review:claude'', pc_replyTrigger = ''@claude'',
        pc_replyTriggerAliases = [''@agent''], pc_redispatchCommand = ''@claude'',
        pc_botLogin = ''claude[bot]''\<rparr>),
     (''codex'', \<lparr>pc_pipeline = ''codex'', pc_displayName = ''Codex'', pc_label = ''agent:codex'',
        pc_reviewLabel = ''review:codex'', pc_replyTrigger = ''/codex'',
        pc_replyTriggerAliases = [], pc_redispatchCommand = ''/codex'',
        pc_botLogin = ''agent-lcars[bot]''\<rparr>),
     (''opencode'', \<lparr>pc_pipeline = ''opencode'', pc_displayName = ''OpenCode'', pc_label = ''agent:opencode'',
        pc_reviewLabel = ''review:opencode'', pc_replyTrigger = ''/oc'',
        pc_replyTriggerAliases = [''/opencode''], pc_redispatchCommand = ''/opencode'',
        pc_botLogin = ''agent-lcars[bot]''\<rparr>),
     (''agy'', \<lparr>pc_pipeline = ''agy'', pc_displayName = ''Antigravity'', pc_label = ''agent:agy'',
        pc_reviewLabel = ''review:agy'', pc_replyTrigger = ''/agy'',
        pc_replyTriggerAliases = [''/antigravity''], pc_redispatchCommand = ''/agy'',
        pc_botLogin = ''agent-lcars[bot]''\<rparr>)]"

definition DISPATCH_PIPELINES :: "string list" where
  "DISPATCH_PIPELINES = map fst PIPELINE_CONTRACTS"

definition AGENT_LABELS :: "(string \<times> string) list" where
  "AGENT_LABELS = map (\<lambda>(p, c). (pc_label c, p)) PIPELINE_CONTRACTS"

definition REVIEW_LABELS :: "(string \<times> string) list" where
  "REVIEW_LABELS = map (\<lambda>(p, c). (pc_reviewLabel c, p)) PIPELINE_CONTRACTS"

definition REPLY_COMMANDS :: "(string \<times> string) list" where
  "REPLY_COMMANDS =
     concat (map (\<lambda>(p, c). map (\<lambda>cmd. (cmd, p)) (pc_replyTrigger c # pc_replyTriggerAliases c))
       PIPELINE_CONTRACTS)"

definition AGENT_BOT_LOGINS :: "string list" where
  "AGENT_BOT_LOGINS = rev (remdups (rev (map (pc_botLogin \<circ> snd) PIPELINE_CONTRACTS)))"

definition isDispatchPipeline :: "string \<Rightarrow> bool" where
  "isDispatchPipeline p \<longleftrightarrow> map_of PIPELINE_CONTRACTS p \<noteq> None"

definition pipelineContractOf :: "string \<Rightarrow> string + pipelineContract" where
  "pipelineContractOf p =
     (case map_of PIPELINE_CONTRACTS p of
        None \<Rightarrow> Inl (''Unsupported worker pipeline: '' @ p)
      | Some c \<Rightarrow> Inr c)"

subsection \<open>Attempt identity and claim markers\<close>

definition MAX_SAFE_INTEGER :: nat where
  "MAX_SAFE_INTEGER = 9007199254740991"

text \<open>\<^verbatim>\<open>/\/r(\d+)$/u\<close>: the longest run of digits at the end, after \<open>/r\<close>.\<close>

definition parseRunGeneration :: "string \<Rightarrow> nat option" where
  "parseRunGeneration runId =
     (let ds = takeWhile isDigit (rev runId);
          rest = dropWhile isDigit (rev runId)
      in case rest of
           c # d # _ \<Rightarrow>
             if ds \<noteq> [] \<and> c = CHR ''r'' \<and> d = CHR ''/''
             then (let n = readNat (rev ds) in if n \<le> MAX_SAFE_INTEGER then Some n else None)
             else None
         | _ \<Rightarrow> None)"

definition formatAttemptId :: "nat \<Rightarrow> string \<Rightarrow> string" where
  "formatAttemptId generation intentId = ''g'' @ showNat generation @ '':'' @ intentId"

definition formatClaimMarker :: "string \<Rightarrow> string" where
  "formatClaimMarker attemptId = ''<!-- attempt-claim:'' @ attemptId @ '' -->''"

lemma takeWhile_rev_showNat:
  "takeWhile isDigit (rev (p @ ''/r'' @ showNat n)) = rev (showNat n)"
  "dropWhile isDigit (rev (p @ ''/r'' @ showNat n)) = CHR ''r'' # CHR ''/'' # rev p"
proof -
  have d: "\<And>c. c \<in> set (rev (showNat n)) \<Longrightarrow> isDigit c" using showNat_digits by auto
  have r: "\<not> isDigit CHR ''r''" by (simp add: isDigit_def)
  show "takeWhile isDigit (rev (p @ ''/r'' @ showNat n)) = rev (showNat n)"
    using r takeWhile_append2 [where P = isDigit and xs = "rev (showNat n)" and ys = "CHR ''r'' # CHR ''/'' # rev p", OF d] by simp
  show "dropWhile isDigit (rev (p @ ''/r'' @ showNat n)) = CHR ''r'' # CHR ''/'' # rev p"
    using r dropWhile_append2 [where P = isDigit and xs = "rev (showNat n)" and ys = "CHR ''r'' # CHR ''/'' # rev p", OF d] by simp
qed

lemma parseRunGeneration_run_id:
  "n \<le> MAX_SAFE_INTEGER \<Longrightarrow> parseRunGeneration (p @ ''/r'' @ showNat n) = Some n"
  unfolding parseRunGeneration_def Let_def takeWhile_rev_showNat by simp

lemma showNat_neq: "\<not> isDigit c \<Longrightarrow> \<forall>d \<in> set (showNat n). d \<noteq> c"
  using showNat_digits by blast

lemma not_digit_seps [simp]:
  "\<not> isDigit CHR ''#''" "\<not> isDigit CHR ''/''" "\<not> isDigit CHR '':''" "\<not> isDigit CHR ''r''"
  by (simp_all add: isDigit_def)

subsection \<open>Execution phase\<close>

definition PLACEMENT_STALENESS_MS :: int where
  "PLACEMENT_STALENESS_MS = 180000"

datatype executionPhase =
  PhaseQueued | PhaseClaimed | PhaseWaitingForPlacement | PhaseBootstrapping
  | PhaseProviderExecution | PhaseUnavailable

subsection \<open>Schemas of the tracker records\<close>

text \<open>The string formats the validation library itself decides are its predicates, a
  parameter of the schemas: \<^verbatim>\<open>z.url\<close>, \<^verbatim>\<open>z.uuid\<close>
  and \<^verbatim>\<open>z.iso.datetime\<close>.\<close>

record zodFormats =
  zf_url :: "string \<Rightarrow> bool"
  zf_uuid :: "string \<Rightarrow> bool"
  zf_datetime :: "string \<Rightarrow> bool"

fun validIssueReference :: "zodFormats \<Rightarrow> issueReference \<Rightarrow> bool" where
  "validIssueReference z (GithubIssue repo issue) =
     (length repo \<le> 140 \<and> repoNamePattern repo \<and> 0 < issue \<and> issue \<le> MAX_SAFE_INTEGER)"
| "validIssueReference z (LinearIssue org issue) = (zf_uuid z org \<and> zf_uuid z issue)"

definition validIdName :: "idName \<Rightarrow> bool" where
  "validIdName x \<longleftrightarrow> lengthWithin 1 256 (in_id x) \<and> lengthWithin 0 256 (in_name x)"

definition validTrackerIssue :: "zodFormats \<Rightarrow> trackerIssue \<Rightarrow> bool" where
  "validTrackerIssue z i \<longleftrightarrow>
     validIssueReference z (ti_reference i) \<and>
     lengthWithin 1 256 (ti_identifier i) \<and>
     zf_url z (ti_url i) \<and> lengthWithin 0 2048 (ti_url i) \<and>
     lengthWithin 1 256 (ti_title i) \<and>
     lengthWithin 0 65536 (ti_description i) \<and>
     optHolds (zf_uuid z) (ti_teamId i) \<and>
     optHolds (\<lambda>st. lengthWithin 1 256 (is_id st) \<and> lengthWithin 0 256 (is_name st) \<and>
                    lengthWithin 0 128 (is_type st)) (ti_status i) \<and>
     length (ti_labels i) \<le> 256 \<and> list_all validIdName (ti_labels i) \<and>
     length (ti_assignees i) \<le> 256 \<and> list_all validIdName (ti_assignees i)"

definition validTrackerIssueProjection :: "zodFormats \<Rightarrow> trackerIssueProjection \<Rightarrow> bool" where
  "validTrackerIssueProjection z p \<longleftrightarrow>
     validTrackerIssue z (tp_issue p) \<and>
     optHolds (\<lambda>r. length r \<le> 140 \<and> repoNamePattern r) (tp_repo p)"

end
