(* ===== verification/Json.thy ===== *)
theory Json
  imports Prelude
begin

text \<open>
  JSON values and \<^verbatim>\<open>JSON.stringify\<close>, as far as the opaque work payloads use them: an
  object is its properties in insertion order, and numbers are integers. The text determines
  the value, so comparing two \<^verbatim>\<open>JSON.stringify\<close> texts, as the code does, is comparing
  the values.
\<close>

datatype json =
    JNull
  | JBool bool
  | JNum int
  | JStr string
  | JArr "json list"
  | JObj "(string \<times> json) list"

definition hexDigit :: "nat \<Rightarrow> char" where
  "hexDigit n = (if n < 10 then digitChar n else char_of (87 + n))"

definition escapeChar :: "char \<Rightarrow> string" where
  "escapeChar c =
     (let n = (of_char c :: nat)
      in if n = 34 then [CHR 0x5C, CHR 0x22]
         else if n = 92 then [CHR 0x5C, CHR 0x5C]
         else if n = 8 then [CHR 0x5C, CHR ''b'']
         else if n = 9 then [CHR 0x5C, CHR ''t'']
         else if n = 10 then [CHR 0x5C, CHR ''n'']
         else if n = 12 then [CHR 0x5C, CHR ''f'']
         else if n = 13 then [CHR 0x5C, CHR ''r'']
         else if n < 32 then CHR 0x5C # ''u00'' @ [hexDigit (n div 16), hexDigit (n mod 16)]
         else [c])"

definition quoteText :: "string \<Rightarrow> string" where
  "quoteText s = CHR 0x22 # concat (map escapeChar s) @ [CHR 0x22]"

definition showInt :: "int \<Rightarrow> string" where
  "showInt n = (if n < 0 then CHR ''-'' # showNat (nat (- n)) else showNat (nat n))"

fun joinText :: "string list \<Rightarrow> string" where
  "joinText [] = []"
| "joinText [t] = t"
| "joinText (t # ts) = t @ CHR '','' # joinText ts"

fun jsonText :: "json \<Rightarrow> string" where
  "jsonText JNull = ''null''"
| "jsonText (JBool b) = (if b then ''true'' else ''false'')"
| "jsonText (JNum n) = showInt n"
| "jsonText (JStr s) = quoteText s"
| "jsonText (JArr xs) = CHR ''['' # joinText (map jsonText xs) @ '']''"
| "jsonText (JObj kvs) =
     CHR ''{'' # joinText (map (\<lambda>(k, v). quoteText k @ CHR '':'' # jsonText v) kvs) @ ''}''"

text \<open>\<^verbatim>\<open>value[key]\<close> of an object, and reading a string.\<close>

definition jsonField :: "json \<Rightarrow> string \<Rightarrow> json option" where
  "jsonField j k = (case j of JObj kvs \<Rightarrow> map_of kvs k | _ \<Rightarrow> None)"

subsection \<open>The text determines the value\<close>

text \<open>A text is self-delimiting when what follows it cannot be mistaken for a part of it.\<close>

definition delimited :: "string \<Rightarrow> bool" where
  "delimited x \<longleftrightarrow> x = [] \<or> \<not> isDigit (hd x)"

text \<open>Reading back one escaped character.\<close>

definition hexValue :: "char \<Rightarrow> nat" where
  "hexValue c = (if isDigit c then digitVal c else of_char c - 87)"

definition escapedCode :: "char \<Rightarrow> nat" where
  "escapedCode c =
     (if c = CHR ''b'' then 8 else if c = CHR ''t'' then 9 else if c = CHR ''n'' then 10
      else if c = CHR ''f'' then 12 else if c = CHR ''r'' then 13 else of_char c)"

definition unescapeText :: "string \<Rightarrow> char \<times> string" where
  "unescapeText s =
     (if hd s \<noteq> CHR 0x5C then (hd s, tl s)
      else if s ! 1 = CHR ''u'' then (char_of (16 * hexValue (s ! 4) + hexValue (s ! 5)), drop 6 s)
      else (char_of (escapedCode (s ! 1)), drop 2 s))"

lemma hexValue_hexDigit: "n < 16 \<Longrightarrow> hexValue (hexDigit n) = n"
  by (auto simp: hexValue_def hexDigit_def isDigit_def)

lemma of_char_code: "(of_char c :: nat) = n \<Longrightarrow> c = char_of n"
  by (metis char_of_char)

lemma char_codes:
  "char_of (34 :: nat) = CHR 0x22" "char_of (92 :: nat) = CHR 0x5C" "char_of (8 :: nat) = CHR 0x08"
  "char_of (9 :: nat) = CHR 0x09" "char_of (10 :: nat) = CHR 0x0A" "char_of (12 :: nat) = CHR 0x0C"
  "char_of (13 :: nat) = CHR 0x0D"
  by code_simp+

lemma unescape_escape [simp]: "unescapeText (escapeChar c @ x) = (c, x)"
proof -
  define n where "n = (of_char c :: nat)"
  have c: "c = char_of n" by (simp add: n_def)
  consider "n = 34" | "n = 92" | "n = 8" | "n = 9" | "n = 10" | "n = 12" | "n = 13"
    | "n < 32" "n \<noteq> 8" "n \<noteq> 9" "n \<noteq> 10" "n \<noteq> 12" "n \<noteq> 13" | "32 \<le> n" "n \<noteq> 34" "n \<noteq> 92"
    by linarith
  then show ?thesis
  proof cases
    case 8
    let ?h = "hexDigit (n div 16)" and ?l = "hexDigit (n mod 16)"
    have esc: "escapeChar c = [CHR 0x5C, CHR ''u'', CHR ''0'', CHR ''0'', ?h, ?l]"
      using 8 by (simp add: escapeChar_def n_def Let_def)
    have "n div 16 < 16" "n mod 16 < 16" using 8 by auto
    then have "16 * hexValue ?h + hexValue ?l = n" by (simp add: hexValue_hexDigit)
    then have "unescapeText (escapeChar c @ x) = (char_of n, x)" by (simp add: esc unescapeText_def)
    then show ?thesis by (simp add: c [symmetric])
  next
    case 9
    then have "escapeChar c = [c]" "c \<noteq> CHR 0x5C" by (auto simp: escapeChar_def n_def)
    then show ?thesis by (simp add: unescapeText_def)
  qed (simp_all add: c char_codes escapeChar_def unescapeText_def escapedCode_def)
qed

lemma escape_prefix_free: "escapeChar c @ x = escapeChar d @ y \<longleftrightarrow> c = d \<and> x = y"
  by (metis unescape_escape prod.inject)

lemma escape_no_quote: "escapeChar c @ x \<noteq> CHR 0x22 # y"
  by (auto simp: escapeChar_def Let_def)

lemma quoted_prefix_free:
  "concat (map escapeChar s) @ CHR 0x22 # x = concat (map escapeChar t) @ CHR 0x22 # y
     \<longleftrightarrow> s = t \<and> x = y"
proof (induction s arbitrary: t)
  case Nil
  then show ?case by (cases t) (auto simp: escape_no_quote [symmetric] dest: sym)
next
  case (Cons c s)
  then show ?case by (cases t) (auto simp: escape_prefix_free escape_no_quote)
qed

lemma quote_prefix_free: "quoteText s @ x = quoteText t @ y \<longleftrightarrow> s = t \<and> x = y"
  by (simp add: quoteText_def quoted_prefix_free)

lemma takeWhile_digits: "delimited x \<Longrightarrow> takeWhile isDigit (showNat n @ x) = showNat n"
  using showNat_digits [of n] by (cases x) (auto simp: delimited_def takeWhile_append2 takeWhile_eq_Nil_iff)

lemma showNat_prefix_free:
  "delimited x \<Longrightarrow> delimited y \<Longrightarrow> showNat m @ x = showNat n @ y \<longleftrightarrow> m = n \<and> x = y"
  by (metis same_append_eq showNat_inject takeWhile_digits)

lemma showNat_head: "showNat n @ x = c # y \<Longrightarrow> isDigit c"
  using showNat_digits [of n] showNat_nonempty [of n] by (cases "showNat n") auto

lemma showInt_prefix_free:
  assumes "delimited x" and "delimited y"
  shows "showInt m @ x = showInt n @ y \<longleftrightarrow> m = n \<and> x = y"
  using assms showNat_head [of _ _ "CHR ''-''"] showNat_prefix_free [of x y]
  by (auto simp: showInt_def isDigit_def eq_nat_nat_iff dest!: sym [of "CHR ''-'' # _"])

lemma json_heads:
  "\<exists>c t. jsonText (JNum n) = c # t \<and> (isDigit c \<or> c = CHR ''-'')"
  using showNat_digits [of "nat n"] showNat_nonempty [of "nat n"]
  by (cases "showNat (nat n)") (auto simp: showInt_def)

text \<open>Elements of an array or object: a non-empty text after which comes a comma or the closing
  bracket.\<close>

definition prefixFree :: "('a \<Rightarrow> string) \<Rightarrow> 'a \<Rightarrow> bool" where
  "prefixFree pr a \<longleftrightarrow>
     (\<forall>b x y. delimited x \<longrightarrow> delimited y \<longrightarrow> pr a @ x = pr b @ y \<longrightarrow> a = b \<and> x = y)"

definition elemsRest :: "('a \<Rightarrow> string) \<Rightarrow> char \<Rightarrow> 'a list \<Rightarrow> string \<Rightarrow> string" where
  "elemsRest pr cl l z =
     (case l of [] \<Rightarrow> cl # z | _ \<Rightarrow> CHR '','' # joinText (map pr l) @ cl # z)"

lemma join_Cons: "joinText (map pr (b # l)) @ cl # z = pr b @ elemsRest pr cl l z"
  by (cases l) (simp_all add: elemsRest_def)

lemma join_prefix_free:
  assumes "\<forall>a \<in> set as. prefixFree pr a" and head: "\<And>b z w. pr b @ z \<noteq> cl # w"
    and cl: "cl \<noteq> CHR '',''" "\<not> isDigit cl"
    and "joinText (map pr as) @ cl # x = joinText (map pr bs) @ cl # y"
  shows "as = bs \<and> x = y"
  using assms(1,5)
proof (induction as arbitrary: bs)
  case Nil
  show ?case
  proof (cases bs)
    case (Cons b l)
    with Nil.prems(2) have "pr b @ elemsRest pr cl l y = cl # x"
      using join_Cons [of pr b l cl y] by simp
    with head show ?thesis by blast
  qed (use Nil in simp)
next
  case (Cons a as)
  have del: "delimited (elemsRest pr cl l z)" for l z
    using cl(2) by (cases l) (simp_all add: elemsRest_def delimited_def isDigit_def)
  show ?case
  proof (cases bs)
    case Nil
    with Cons.prems(2) have "pr a @ elemsRest pr cl as x = cl # y"
      using join_Cons [of pr a as cl x] by simp
    with head show ?thesis by blast
  next
    case (Cons b l)
    with Cons.prems(2) have "pr a @ elemsRest pr cl as x = pr b @ elemsRest pr cl l y"
      using join_Cons [of pr a as cl x] join_Cons [of pr b l cl y] by simp
    with Cons.prems(1) del have "a = b" and r: "elemsRest pr cl as x = elemsRest pr cl l y"
      unfolding prefixFree_def by (metis list.set_intros(1))+
    have "as = l \<and> x = y"
    proof (cases "as = [] \<or> l = []")
      case True
      with r cl(1) show ?thesis by (auto simp: elemsRest_def split: list.splits)
    next
      case False
      with r have "joinText (map pr as) @ cl # x = joinText (map pr l) @ cl # y"
        by (auto simp: elemsRest_def split: list.splits)
      with Cons.IH [of l] Cons.prems(1) show ?thesis by simp
    qed
    with \<open>a = b\<close> Cons show ?thesis by simp
  qed
qed

definition memberText :: "string \<times> json \<Rightarrow> string" where
  "memberText = (\<lambda>(k, v). quoteText k @ CHR '':'' # jsonText v)"

lemma memberText_prefix_free: "prefixFree jsonText v \<Longrightarrow> prefixFree memberText (k, v)"
  unfolding prefixFree_def memberText_def
  by (auto simp: quote_prefix_free)

lemma member_head: "memberText m @ z \<noteq> CHR ''}'' # w"
  by (simp add: memberText_def quoteText_def split: prod.splits)

definition jsonKind :: "json \<Rightarrow> nat" where
  "jsonKind j = (case j of JNull \<Rightarrow> 0 | JBool True \<Rightarrow> 1 | JBool False \<Rightarrow> 2 | JNum _ \<Rightarrow> 3 | JStr _ \<Rightarrow> 4 | JArr _ \<Rightarrow> 5 | JObj _ \<Rightarrow> 6)"

definition kindOfHead :: "char \<Rightarrow> nat" where
  "kindOfHead c =
     (if c = CHR ''n'' then 0 else if c = CHR ''t'' then 1 else if c = CHR ''f'' then 2
      else if c = CHR 0x22 then 4 else if c = CHR ''['' then 5 else if c = CHR ''{'' then 6 else 3)"

lemma digit_kind: "isDigit c \<or> c = CHR ''-'' \<Longrightarrow> kindOfHead c = 3 \<and> c \<noteq> CHR '']''"
proof -
  have "\<not> isDigit (CHR ''n'')" "\<not> isDigit (CHR ''t'')" "\<not> isDigit (CHR ''f'')" "\<not> isDigit (CHR 0x22)"
    "\<not> isDigit (CHR ''['')" "\<not> isDigit (CHR ''{'')" "\<not> isDigit (CHR '']'')" by code_simp+
  moreover assume "isDigit c \<or> c = CHR ''-''"
  ultimately have "c \<noteq> CHR ''n'' \<and> c \<noteq> CHR ''t'' \<and> c \<noteq> CHR ''f'' \<and> c \<noteq> CHR 0x22 \<and> c \<noteq> CHR ''['' \<and>
      c \<noteq> CHR ''{'' \<and> c \<noteq> CHR '']''" by (elim disjE) (auto simp only: char.inject simp_thms)
  then show ?thesis by (simp add: kindOfHead_def)
qed

lemma json_head: "jsonText j \<noteq> [] \<and> kindOfHead (hd (jsonText j)) = jsonKind j \<and> hd (jsonText j) \<noteq> CHR '']''"
proof (cases j)
  case (JNum n)
  from json_heads [of n] obtain c t where "jsonText (JNum n) = c # t" "isDigit c \<or> c = CHR ''-''" by blast
  with digit_kind [of c] JNum show ?thesis by (simp add: jsonKind_def del: jsonText.simps)
qed (auto simp: kindOfHead_def jsonKind_def quoteText_def)

lemma same_jsonKind: "jsonText a @ x = jsonText b @ y \<Longrightarrow> jsonKind a = jsonKind b"
  using json_head [of a] json_head [of b] by (metis hd_append2)

lemma atoms_prefix_free:
  assumes "jsonKind a < 5" and "delimited x" and "delimited y" and eq: "jsonText a @ x = jsonText b @ y"
  shows "a = b \<and> x = y"
  using assms same_jsonKind [OF eq]
  by (cases a; cases b) (auto simp: jsonKind_def showInt_prefix_free quote_prefix_free split: bool.splits)

lemma jsonText_prefix_free: "prefixFree jsonText a"
proof (induction a)
  case (JArr as)
  show ?case unfolding prefixFree_def
  proof (intro allI impI)
    fix b x y assume eq: "jsonText (JArr as) @ x = jsonText b @ y"
    with same_jsonKind [OF eq] obtain bs where b: "b = JArr bs"
      by (auto simp: jsonKind_def split: json.splits bool.splits)
    have "as = bs \<and> x = y"
      by (rule join_prefix_free [where pr = jsonText and cl = "CHR '']''"])
        (use JArr eq b json_head in \<open>auto simp: isDigit_def\<close>, metis hd_append2 list.sel(1))
    with b show "JArr as = b \<and> x = y" by simp
  qed
next
  case (JObj as)
  have mem: "memberText = (\<lambda>(k, v). quoteText k @ CHR '':'' # jsonText v)" by (rule memberText_def)
  show ?case unfolding prefixFree_def
  proof (intro allI impI)
    fix b x y assume eq: "jsonText (JObj as) @ x = jsonText b @ y"
    with same_jsonKind [OF eq] obtain bs where b: "b = JObj bs"
      by (auto simp: jsonKind_def split: json.splits bool.splits)
    have "\<forall>m \<in> set as. prefixFree memberText m"
      using JObj memberText_prefix_free by (auto intro: snds.intros)
    then have "as = bs \<and> x = y"
      by (rule join_prefix_free [OF _ member_head])
        (use eq b in \<open>simp_all add: isDigit_def mem [symmetric]\<close>)
    with b show "JObj as = b \<and> x = y" by simp
  qed
qed (auto simp: prefixFree_def jsonKind_def split: bool.splits dest: atoms_prefix_free [rotated 3] simp del: jsonText.simps)

lemma jsonText_inject: "jsonText a = jsonText b \<longleftrightarrow> a = b"
  using jsonText_prefix_free [of a] unfolding prefixFree_def by (metis delimited_def append_Nil2)

end
