(* ===== verification/Model.thy ===== *)
theory Model
  imports Contracts Json
begin

text \<open>
  The durable records of \<^verbatim>\<open>libs/orchestrator/src/model.ts\<close>: anchors, runs with
  their queue claim, credential operation, fallback policy, delivery binding and event history,
  tasks (the mutex), outbox entries and anchor projections, together with the schema bounds and
  the small predicates every decision uses. An optional field is an \<open>option\<close>; the opaque
  work payload is a JSON value, of which the orchestrator looks only at its text.
\<close>

subsection \<open>Anchors, task keys and run identifiers\<close>

definition GITHUB_REPO_MAX_LENGTH :: nat where
  "GITHUB_REPO_MAX_LENGTH = 140"

definition GITHUB_ISSUE_MAX :: nat where
  "GITHUB_ISSUE_MAX = MAX_SAFE_INTEGER"

datatype taskId = GithubAnchor (ga_repo: string) (ga_issue: nat) | WorkAnchor (wa_workId: string)

definition workIdChar :: "char \<Rightarrow> bool" where
  "workIdChar c \<longleftrightarrow> isDigit c \<or>
     (isUpper c \<and> c \<noteq> CHR ''I'' \<and> c \<noteq> CHR ''L'' \<and> c \<noteq> CHR ''O'' \<and> c \<noteq> CHR ''U'')"

definition WORK_ID_RE :: "string \<Rightarrow> bool" where
  "WORK_ID_RE s \<longleftrightarrow> length s = 26 \<and> list_all workIdChar s"

fun validTaskId :: "taskId \<Rightarrow> bool" where
  "validTaskId (GithubAnchor repo issue) =
     (length repo \<le> GITHUB_REPO_MAX_LENGTH \<and> repoNamePattern repo \<and>
      0 < issue \<and> issue \<le> GITHUB_ISSUE_MAX)"
| "validTaskId (WorkAnchor w) = WORK_ID_RE w"

fun isWorkAnchor :: "taskId \<Rightarrow> bool" where
  "isWorkAnchor (GithubAnchor _ _) = False"
| "isWorkAnchor (WorkAnchor _) = True"

fun taskKey :: "taskId \<Rightarrow> string" where
  "taskKey (WorkAnchor w) = ''work:'' @ w"
| "taskKey (GithubAnchor repo issue) = repo @ ''#'' @ showNat issue"

text \<open>The identifier \<^verbatim>\<open>mintRun\<close> gives the \<open>n\<close>th run of a task.\<close>

definition runIdFor :: "taskId \<Rightarrow> nat \<Rightarrow> string" where
  "runIdFor t n = taskKey t @ ''/r'' @ showNat n"

definition RUN_ID_MAX_LENGTH :: nat where
  "RUN_ID_MAX_LENGTH =
     GITHUB_REPO_MAX_LENGTH + 1 + length (showNat GITHUB_ISSUE_MAX) + 2
       + length (showNat (GITHUB_ISSUE_MAX + 1))"

definition DEPENDENT_REQUEST_ID_MAX_LENGTH :: nat where
  "DEPENDENT_REQUEST_ID_MAX_LENGTH = length ''fallback:'' + RUN_ID_MAX_LENGTH"

definition OUTBOX_ENTRY_ID_MAX_LENGTH :: nat where
  "OUTBOX_ENTRY_ID_MAX_LENGTH = length ''delivery-outcome/'' + RUN_ID_MAX_LENGTH"

subsection \<open>Run state, request identity, result, queue claim and events\<close>

datatype runState = Pending | Running | Finished | Canceled | Lost

datatype requestSource = Caller | AutoRetry | ProviderFallbackRequested | DeliveryCorrection

fun showSource :: "requestSource \<Rightarrow> string" where
  "showSource Caller = ''caller''"
| "showSource AutoRetry = ''auto-retry''"
| "showSource ProviderFallbackRequested = ''provider-fallback''"
| "showSource DeliveryCorrection = ''delivery-correction''"

definition requestHistoryKey :: "requestSource \<Rightarrow> string \<Rightarrow> string" where
  "requestHistoryKey source requestId = showSource source @ '':'' @ requestId"

definition isLive :: "runState \<Rightarrow> bool" where
  "isLive s \<longleftrightarrow> s \<in> set [Pending, Running]"

record runResult =
  rr_ok :: bool
  rr_summary :: "string option"
  rr_ref :: "string option"
  rr_relatedRefs :: "string list option"
  rr_message :: "string option"
  rr_humanNeededActions :: "humanNeededAction list option"

datatype queueState = Queued | Claimed | Retired

datatype startupState = StartupWaiting | StartupPlaced

record startupPlacement =
  sp_state :: startupState
  sp_observedAt :: timestamp
  sp_jobUid :: "string option"

record runQueue =
  q_state :: queueState
  q_placement :: "runPlacement option"
  q_deferredUntil :: "timestamp option"
  q_claimedAt :: "timestamp option"
  q_startDeadlineAt :: "timestamp option"
  q_startupPlacement :: "startupPlacement option"
  q_firstHeartbeatAt :: "timestamp option"
  q_providerProcessStartedAt :: "timestamp option"
  q_claimedBy :: "string option"
  q_claimedBySubject :: "string option"
  q_tokenHash :: "string option"

datatype interventionKind = WorkApiCancel | WorkApiReply | WorkApiRedispatch

record operationalIntervention =
  oi_kind :: interventionKind
  oi_principal :: string

datatype eventBy =
  ByRequest | ByDispatch | ByReport | ByOperator | ByExpiry | ByExecutor | ByProviderFallback

record runEvent =
  ev_at :: timestamp
  ev_to :: runState
  ev_by :: eventBy
  ev_note :: "string option"
  ev_intervention :: "operationalIntervention option"

subsection \<open>Credential operations, fallback policy, delivery binding, revisions\<close>

datatype credentialMutation =
    LeaseWrite (cm_id: string) (cm_expectedGeneration: string) (cm_repository: string) (cm_expiresAt: timestamp)
  | AuthWrite (cm_id: string) (cm_expectedGeneration: string) (cm_sha256: string)

datatype credentialKind = CredRestore | CredRenew | CredPersist | CredCleanup

record credentialOperation =
  co_id :: string
  co_kind :: credentialKind
  co_claimFingerprint :: string
  co_startedAt :: timestamp
  co_mutationSequence :: nat
  co_recoverAfter :: timestamp
  co_mutation :: "credentialMutation option"

record credentialWriteReceipt =
  cw_operationId :: string
  cw_claimFingerprint :: string
  cw_expectedGeneration :: string
  cw_sha256 :: string

record credentialPendingResult =
  cp_claimFingerprint :: string
  cp_requestedAt :: timestamp
  cp_result :: runResult

datatype fallbackReason = ProviderLimit | ProviderCooldownReason

record fallbackTrigger =
  ft_reason :: fallbackReason
  ft_failureRunId :: string
  ft_limitedPipeline :: string

record providerFallback =
  pf_principal :: string
  pf_sourceRepository :: "string option"
  pf_allowedPipelines :: "string list"
  pf_attemptedPipelines :: "string list"
  pf_originalRunId :: string
  pf_fromRunId :: "string option"
  pf_trigger :: "fallbackTrigger option"

record providerFallbackRequest =
  fr_principal :: string
  fr_allowedPipelines :: "string list"
  fr_sourceRepository :: "string option"

datatype fallbackInput = FallbackRequest providerFallbackRequest | FallbackPolicy providerFallback

datatype deliveryState = DeliveryWaiting | DeliveryComplete

record deliveryBinding =
  dl_runId :: string
  dl_repo :: string
  dl_number :: nat
  dl_baseRef :: string
  dl_head :: string
  dl_state :: deliveryState
  dl_correctionRunId :: "string option"
  dl_observedAt :: timestamp
  dl_mergeCommit :: "string option"

type_synonym workPayload = json
type_synonym sourceClock = "(string \<times> string) list"

record workRevision =
  wr_key :: string
  wr_input :: workPayload
  wr_observedAt :: "sourceClock option"

subsection \<open>Run, task and outbox entry\<close>

record run =
  r_runId :: string
  r_task :: taskId
  r_state :: runState
  r_pipeline :: string
  r_priority :: "queuePriority option"
  r_requestId :: string
  r_requestSource :: requestSource
  r_params :: "params option"
  r_issue :: "trackerIssue option"
  r_sourceRevision :: "workRevision option"
  r_revisionAttempt :: "nat option"
  r_providerFallback :: "providerFallback option"
  r_queue :: "runQueue option"
  r_delivery :: "deliveryBinding option"
  r_triagePublication :: "triagePublication option"
  r_credentialOperation :: "credentialOperation option"
  r_credentialRestoredClaimFingerprint :: "string option"
  r_credentialPendingResult :: "credentialPendingResult option"
  r_credentialWriteReceipt :: "credentialWriteReceipt option"
  r_leaseExpiresAt :: timestamp
  r_result :: "runResult option"
  r_events :: "runEvent list"
  r_createdAt :: timestamp
  r_updatedAt :: timestamp

record task =
  t_task :: taskId
  t_delivery :: "deliveryBinding option"
  t_activeRunId :: "string option"
  t_runCount :: nat
  t_consecutiveLost :: nat
  t_schedulerDisruptions :: "nat option"
  t_work :: workPayload
  t_issue :: "trackerIssue option"
  t_desiredRevision :: "workRevision option"
  t_sourceObservedAt :: "sourceClock option"
  t_providerRouting :: "providerRouting option"
  t_closedAt :: "timestamp option"
  t_updatedAt :: timestamp

datatype outboxKind =
  DispatchRun | ReportOutcome | MonitorDelivery | AdmitHandoffSummary | PublishTriage | PublishIssueStart

datatype outboxState =
    OutPending
  | OutLeased (out_claimId: string) (out_leaseExpiresAt: timestamp)
  | OutDone
  | OutFailed

record outboxEntry =
  o_entryId :: string
  o_kind :: outboxKind
  o_task :: taskId
  o_runId :: string
  o_state :: outboxState
  o_attempts :: nat
  o_firstFailedAt :: "timestamp option"
  o_nextAttemptAt :: "timestamp option"
  o_deliveryFailures :: "nat option"
  o_createdAt :: timestamp
  o_updatedAt :: timestamp

definition deliveryWaiting :: "task \<Rightarrow> bool" where
  "deliveryWaiting t \<longleftrightarrow> map_option dl_state (t_delivery t) = Some DeliveryWaiting"

definition runRequestHistoryKey :: "run \<Rightarrow> string" where
  "runRequestHistoryKey r = requestHistoryKey (r_requestSource r) (r_requestId r)"

subsection \<open>Outbox settlement and wake-up\<close>

datatype settleState = SettlePending | SettleDone | SettleFailed

fun toOutboxState :: "settleState \<Rightarrow> outboxState" where
  "toOutboxState SettlePending = OutPending"
| "toOutboxState SettleDone = OutDone"
| "toOutboxState SettleFailed = OutFailed"

record outboxSettlement =
  os_entryId :: string
  os_claimId :: string
  os_state :: settleState
  os_now :: timestamp
  os_firstFailedAt :: "timestamp option"
  os_nextAttemptAt :: "timestamp option"
  os_deliveryFailures :: "nat option"
  os_recovered :: bool

definition wakeOutboxEntry :: "outboxEntry option \<Rightarrow> timestamp \<Rightarrow> outboxEntry option" where
  "wakeOutboxEntry entry now =
     (case entry of
        None \<Rightarrow> None
      | Some e \<Rightarrow>
          if o_state e \<noteq> OutPending then None
          else (case o_nextAttemptAt e of
                  None \<Rightarrow> None
                | Some at \<Rightarrow>
                    if at \<le> now then None
                    else Some (e\<lparr>o_nextAttemptAt := Some now, o_updatedAt := now\<rparr>)))"

definition settleOutboxEntry :: "outboxEntry option \<Rightarrow> outboxSettlement \<Rightarrow> outboxEntry option" where
  "settleOutboxEntry entry input =
     (case entry of
        None \<Rightarrow> None
      | Some e \<Rightarrow>
          (case o_state e of
             OutLeased claimId _ \<Rightarrow>
               if claimId \<noteq> os_claimId input then None
               else
                 (let rest = (if os_recovered input
                              then e\<lparr>o_firstFailedAt := None, o_deliveryFailures := None\<rparr>
                              else e)
                  in Some (rest\<lparr>
                       o_state := toOutboxState (os_state input),
                       o_updatedAt := os_now input,
                       o_firstFailedAt := orOpt (os_firstFailedAt input) (o_firstFailedAt rest),
                       o_nextAttemptAt := orOpt (os_nextAttemptAt input) (o_nextAttemptAt rest),
                       o_deliveryFailures :=
                         orOpt (os_deliveryFailures input) (o_deliveryFailures rest)\<rparr>))
           | _ \<Rightarrow> None))"

text \<open>The claim order: \<open>a\<close> sorts before \<open>b\<close> when the comparator is negative.\<close>

definition byOutboxClaimFairness :: "outboxEntry \<Rightarrow> outboxEntry \<Rightarrow> int" where
  "byOutboxClaimFairness a b =
     (let d = int (o_attempts a) - int (o_attempts b)
      in if d \<noteq> 0 then d else o_createdAt a - o_createdAt b)"

subsection \<open>Deadlines and claimants\<close>

definition queueStateOf :: "run \<Rightarrow> queueState option" where
  "queueStateOf r = map_option q_state (r_queue r)"

definition runRecoveryDeadline :: "run \<Rightarrow> timestamp option" where
  "runRecoveryDeadline r =
     (if queueStateOf r = Some Queued then None
      else
        (let start = (case r_queue r of
                        Some q \<Rightarrow> if q_state q = Claimed \<and> q_firstHeartbeatAt q = None
                                  then q_startDeadlineAt q else None
                      | None \<Rightarrow> None)
         in case start of
              Some s \<Rightarrow> if s < r_leaseExpiresAt r then Some s else Some (r_leaseExpiresAt r)
            | None \<Rightarrow> Some (r_leaseExpiresAt r)))"

definition startDeadlineElapsed :: "run \<Rightarrow> timestamp \<Rightarrow> bool" where
  "startDeadlineElapsed r now =
     (case r_queue r of
        None \<Rightarrow> False
      | Some q \<Rightarrow> q_state q = Claimed \<and> q_firstHeartbeatAt q = None \<and>
          (case q_startDeadlineAt q of None \<Rightarrow> False | Some d \<Rightarrow> d \<le> now))"

definition recoveryDeadlineElapsed :: "run \<Rightarrow> timestamp \<Rightarrow> bool" where
  "recoveryDeadlineElapsed r now =
     (case runRecoveryDeadline r of None \<Rightarrow> False | Some d \<Rightarrow> d \<le> now)"

definition isClaimant :: "run \<Rightarrow> string \<Rightarrow> bool" where
  "isClaimant r claimFingerprint =
     (case r_queue r of
        None \<Rightarrow> False
      | Some q \<Rightarrow> q_state q = Claimed \<and> q_tokenHash q = Some claimFingerprint)"

definition usesCodexCredentials :: "run \<Rightarrow> bool" where
  "usesCodexCredentials r \<longleftrightarrow>
     r_pipeline r = ''codex'' \<or>
     (r_pipeline r = ''goose'' \<and> paramOf (r_params r) ''providerAuth'' = Some ''codex'')"

definition RECIPE_EXIT_PENDING_CREDENTIAL_CLEANUP :: string where
  "RECIPE_EXIT_PENDING_CREDENTIAL_CLEANUP = ''Worker exited; credential cleanup pending''"

text \<open>\<^verbatim>\<open>executionPhase\<close> of placement.ts, on a run.\<close>

definition executionPhaseOf :: "run \<Rightarrow> timestamp \<Rightarrow> executionPhase option" where
  "executionPhaseOf r now =
     (if r_state r \<noteq> Pending \<and> r_state r \<noteq> Running then None
      else (case r_queue r of
        None \<Rightarrow> Some (if r_state r = Pending then PhaseQueued else PhaseUnavailable)
      | Some q \<Rightarrow>
          if q_providerProcessStartedAt q \<noteq> None then Some PhaseProviderExecution
          else if q_firstHeartbeatAt q \<noteq> None then Some PhaseBootstrapping
          else if q_state q = Queued then Some PhaseQueued
          else (case q_placement q of
                  None \<Rightarrow> Some PhaseClaimed
                | Some p \<Rightarrow>
                    if now < pl_observedAt p \<or> now - pl_observedAt p > PLACEMENT_STALENESS_MS
                    then Some PhaseUnavailable
                    else Some (case pl_phase p of
                                 WaitingForPlacement \<Rightarrow> PhaseWaitingForPlacement
                               | PlacementBootstrapping \<Rightarrow> PhaseBootstrapping
                               | PlacementUnavailable \<Rightarrow> PhaseUnavailable))))"

subsection \<open>Anchor projections\<close>

datatype anchorKind = KindIssue | KindPr

record anchorComment =
  ac_id :: "string option"
  ac_body :: string
  ac_url :: string
  ac_author :: "string option"
  ac_createdAt :: "timestamp option"
  ac_updatedAt :: "timestamp option"

datatype mergeableState =
  MergeClean | MergeDirty | MergeBlocked | MergeUnstable | MergeBehind | MergeDraft | MergeUnknown

datatype reviewRequirement = ReviewRequired | ReviewNotRequired | ReviewUnknown

record checkRun =
  cr_name :: string
  cr_url :: string
  cr_status :: string
  cr_conclusion :: "string option"

record githubAnchorProjection =
  gp_repo :: string
  gp_issue :: nat
  gp_kind :: anchorKind
  gp_state :: openState
  gp_title :: string
  gp_body :: string
  gp_url :: string
  gp_author :: "string option"
  gp_labels :: "string list"
  gp_assigneeLogins :: "string list"
  gp_lastComment :: "anchorComment option"
  gp_parentNumber :: "nat option"
  gp_subIssues :: "(nat \<times> nat) option"
  gp_linkedIssueNumbers :: "nat list option"
  gp_createdAt :: "timestamp option"
  gp_headRefName :: "string option"
  gp_headSha :: "string option"
  gp_headRepository :: "string option"
  gp_draft :: "bool option"
  gp_mergedAt :: "timestamp option option"
  gp_mergeableState :: "mergeableState option"
  gp_autoMergeEnabled :: "bool option"
  gp_reviewRequirement :: "reviewRequirement option"
  gp_requestedReviewerLogins :: "string list option"
  gp_failingChecks :: "(string \<times> string) list option"
  gp_checkRuns :: "checkRun list option"
  gp_ciRunning :: "bool option"
  gp_unresolvedReviewThreadCount :: "nat option"
  gp_unresolvedReviewThreadIds :: "string list option"
  gp_checksTruncated :: "bool option"
  gp_reviewThreadsTruncated :: "bool option"
  gp_sourceUpdatedAt :: timestamp
  gp_observedAt :: timestamp

definition gp_anchor :: "githubAnchorProjection \<Rightarrow> taskId" where
  "gp_anchor p = GithubAnchor (gp_repo p) (gp_issue p)"

definition validLogins :: "string list \<Rightarrow> bool" where
  "validLogins xs \<longleftrightarrow> length xs \<le> 256 \<and> list_all (lengthWithin 1 256) xs"

definition sha1Hex :: "string \<Rightarrow> bool" where
  "sha1Hex s \<longleftrightarrow> length s = 40 \<and> list_all hexChar s"

definition validAnchorComment :: "anchorComment \<Rightarrow> bool" where
  "validAnchorComment c \<longleftrightarrow>
     optHolds (lengthWithin 1 256) (ac_id c) \<and> lengthWithin 0 65536 (ac_body c) \<and>
     lengthWithin 1 2048 (ac_url c) \<and> optHolds (lengthWithin 1 256) (ac_author c)"

definition validGithubAnchorProjection :: "githubAnchorProjection \<Rightarrow> bool" where
  "validGithubAnchorProjection p \<longleftrightarrow>
     validTaskId (gp_anchor p) \<and>
     lengthWithin 1 256 (gp_title p) \<and>
     lengthWithin 0 65536 (gp_body p) \<and>
     lengthWithin 1 2048 (gp_url p) \<and>
     optHolds (lengthWithin 1 256) (gp_author p) \<and>
     validLogins (gp_labels p) \<and>
     validLogins (gp_assigneeLogins p) \<and>
     optHolds validAnchorComment (gp_lastComment p) \<and>
     optHolds (\<lambda>n. 0 < n \<and> n \<le> GITHUB_ISSUE_MAX) (gp_parentNumber p) \<and>
     optHolds (\<lambda>(total, completed). total \<le> MAX_SAFE_INTEGER \<and> completed \<le> MAX_SAFE_INTEGER)
       (gp_subIssues p) \<and>
     optHolds (\<lambda>ns. length ns \<le> 256 \<and> list_all (\<lambda>n. 0 < n \<and> n \<le> GITHUB_ISSUE_MAX) ns)
       (gp_linkedIssueNumbers p) \<and>
     optHolds (lengthWithin 1 1024) (gp_headRefName p) \<and>
     optHolds sha1Hex (gp_headSha p) \<and>
     optHolds (lengthWithin 1 140) (gp_headRepository p) \<and>
     optHolds validLogins (gp_requestedReviewerLogins p) \<and>
     optHolds (\<lambda>cs. length cs \<le> 100 \<and>
       list_all (\<lambda>(name, url). lengthWithin 1 256 name \<and> lengthWithin 1 2048 url) cs)
       (gp_failingChecks p) \<and>
     optHolds (\<lambda>cs. length cs \<le> 100 \<and>
       list_all (\<lambda>c. lengthWithin 1 256 (cr_name c) \<and> lengthWithin 1 2048 (cr_url c) \<and>
                     lengthWithin 1 64 (cr_status c) \<and>
                     optHolds (lengthWithin 0 64) (cr_conclusion c)) cs) (gp_checkRuns p) \<and>
     optHolds (\<lambda>n. n \<le> MAX_SAFE_INTEGER) (gp_unresolvedReviewThreadCount p) \<and>
     optHolds (\<lambda>xs. length xs \<le> 100 \<and> list_all (lengthWithin 1 256) xs)
       (gp_unresolvedReviewThreadIds p)"

subsection \<open>Payload and revision schemas\<close>

definition WORK_PAYLOAD_MAX_BYTES :: nat where
  "WORK_PAYLOAD_MAX_BYTES = 32768"

text \<open>\<^verbatim>\<open>new TextEncoder().encode(s).length\<close>: one octet below 128, two up to 255.\<close>

definition utf8Length :: "string \<Rightarrow> nat" where
  "utf8Length s = sum_list (map (\<lambda>c. if (of_char c :: nat) < 128 then 1 else 2) s)"

text \<open>\<^verbatim>\<open>z.record(z.string().max(64), z.unknown())\<close>\<close>

definition jsonRecord :: "json \<Rightarrow> bool" where
  "jsonRecord j = (case j of JObj kvs \<Rightarrow> list_all (\<lambda>(k, _). length k \<le> 64) kvs | _ \<Rightarrow> False)"

definition validWorkPayload :: "workPayload \<Rightarrow> bool" where
  "validWorkPayload w \<longleftrightarrow> jsonRecord w \<and> utf8Length (jsonText w) \<le> WORK_PAYLOAD_MAX_BYTES"

definition validWorkRevision :: "zodFormats \<Rightarrow> workRevision \<Rightarrow> bool" where
  "validWorkRevision z w \<longleftrightarrow>
     lengthWithin 1 128 (wr_key w) \<and> validWorkPayload (wr_input w) \<and>
     optHolds (list_all (\<lambda>(_, at). zf_datetime z at)) (wr_observedAt w)"

end
