(* ===== verification/Decide.thy ===== *)
theory Decide
  imports Model
begin

text \<open>
  The pure decision layer, \<^verbatim>\<open>libs/orchestrator/src/decide.ts\<close>: one definition per
  function, in the file's order except where a function is used before the place the file
  declares it. A decision function returns an \<open>outcome\<close>: a decision to commit, a refusal
  (with the existing run where the code attaches one), or the exception the code throws. The
  optional list \<^verbatim>\<open>additionalRuns\<close> is a list, empty when the field is absent: every
  reader treats the two alike.
\<close>

subsection \<open>Decisions, refusals\<close>

record decision =
  d_task :: task
  d_run :: "run option"
  d_additionalRuns :: "run list"
  d_outbox :: "outboxEntry list"

datatype reason =
  TaskBusy | DuplicateRequest | UnknownRun | RunAlreadyClaimed | RunNewerThanCutoff | RunNotLive
  | PipelineForbidden | StaleProviderRequest | StaleLease | TaskClosed | MissingWork
  | WorkSpecMismatch | UnknownTask | StaleIssueSource | NotNative | CredentialOperationPending
  | NotClaimant

fun showReason :: "reason \<Rightarrow> string" where
  "showReason TaskBusy = ''task-busy''"
| "showReason DuplicateRequest = ''duplicate-request''"
| "showReason UnknownRun = ''unknown-run''"
| "showReason RunAlreadyClaimed = ''run-already-claimed''"
| "showReason RunNewerThanCutoff = ''run-newer-than-cutoff''"
| "showReason RunNotLive = ''run-not-live''"
| "showReason PipelineForbidden = ''pipeline-forbidden''"
| "showReason StaleProviderRequest = ''stale-provider-request''"
| "showReason StaleLease = ''stale-lease''"
| "showReason TaskClosed = ''task-closed''"
| "showReason MissingWork = ''missing-work''"
| "showReason WorkSpecMismatch = ''work-spec-mismatch''"
| "showReason UnknownTask = ''unknown-task''"
| "showReason StaleIssueSource = ''stale-issue-source''"
| "showReason NotNative = ''not-native''"
| "showReason CredentialOperationPending = ''credential-operation-pending''"
| "showReason NotClaimant = ''not-claimant''"

text \<open>An exception the code raises: the store's lost compare-and-set, or an
  \<^verbatim>\<open>Error\<close> with its message.\<close>

datatype jsError = StoreConflict taskId | JsError string

datatype outcome = Decided decision | Refused reason "run option" | Threw jsError

definition refused :: "reason \<Rightarrow> outcome" where
  "refused why = Refused why None"

definition onlyTask :: "task \<Rightarrow> outcome" where
  "onlyTask t = Decided \<lparr>d_task = t, d_run = None, d_additionalRuns = [], d_outbox = []\<rparr>"

definition taskAndRun :: "task \<Rightarrow> run \<Rightarrow> outcome" where
  "taskAndRun t r = Decided \<lparr>d_task = t, d_run = Some r, d_additionalRuns = [], d_outbox = []\<rparr>"

text \<open>\<^verbatim>\<open>decidedRun\<close> throws on a decision without a run; its continuation is the
  rest of the caller.\<close>

definition decidedRun :: "decision \<Rightarrow> (run \<Rightarrow> outcome) \<Rightarrow> outcome" where
  "decidedRun d k =
     (case d_run d of
        None \<Rightarrow> Threw (JsError ''decision unexpectedly carries no run'')
      | Some r \<Rightarrow> k r)"

lemma decidedRun_Some [simp]: "d_run d = Some r \<Longrightarrow> decidedRun d k = k r"
  by (simp add: decidedRun_def)

subsection \<open>Clocks\<close>

definition RUN_START_TIMEOUT_MS :: int where
  "RUN_START_TIMEOUT_MS = 15 * 60000"

definition runStartDeadlineAt :: "timestamp \<Rightarrow> timestamp" where
  "runStartDeadlineAt now = now + RUN_START_TIMEOUT_MS"

definition RUN_PLACEMENT_WAIT_MAX_MS :: int where
  "RUN_PLACEMENT_WAIT_MAX_MS = 60 * 60000"

definition placementStartDeadlineAt :: "timestamp \<Rightarrow> timestamp option \<Rightarrow> timestamp" where
  "placementStartDeadlineAt now claimedAt =
     (let renewed = runStartDeadlineAt now;
          bound = (case claimedAt of None \<Rightarrow> renewed | Some c \<Rightarrow> c + RUN_PLACEMENT_WAIT_MAX_MS)
      in min renewed bound)"

definition RUN_LEASE_MS :: int where
  "RUN_LEASE_MS = 2 * 60 * 60 * 1000"

definition runLeaseExpiresAt :: "timestamp \<Rightarrow> timestamp" where
  "runLeaseExpiresAt now = now + RUN_LEASE_MS"

record claimInput =
  ci_now :: timestamp
  ci_claimedBy :: string
  ci_claimedBySubject :: string
  ci_tokenHash :: string
  ci_placementAware :: bool

definition claimQueuedRun :: "run \<Rightarrow> claimInput \<Rightarrow> run" where
  "claimQueuedRun r input =
     r\<lparr>r_leaseExpiresAt := runLeaseExpiresAt (ci_now input),
       r_updatedAt := ci_now input,
       r_queue := Some \<lparr>
         q_state = Claimed,
         q_placement = None,
         q_deferredUntil = None,
         q_claimedAt = Some (ci_now input),
         q_startDeadlineAt = Some (runStartDeadlineAt (ci_now input)),
         q_startupPlacement =
           (if ci_placementAware input
            then Some \<lparr>sp_state = StartupWaiting, sp_observedAt = ci_now input, sp_jobUid = None\<rparr>
            else None),
         q_firstHeartbeatAt = None,
         q_providerProcessStartedAt = None,
         q_claimedBy = Some (ci_claimedBy input),
         q_claimedBySubject = Some (ci_claimedBySubject input),
         q_tokenHash = Some (ci_tokenHash input)\<rparr>\<rparr>"

definition MAX_AUTO_RETRIES :: nat where
  "MAX_AUTO_RETRIES = 2"

subsection \<open>Minting a run\<close>

definition newOutboxEntry :: "string \<Rightarrow> outboxKind \<Rightarrow> taskId \<Rightarrow> string \<Rightarrow> timestamp \<Rightarrow> outboxEntry" where
  "newOutboxEntry entryId kind tid runId now =
     \<lparr>o_entryId = entryId, o_kind = kind, o_task = tid, o_runId = runId, o_state = OutPending,
      o_attempts = 0, o_firstFailedAt = None, o_nextAttemptAt = None, o_deliveryFailures = None,
      o_createdAt = now, o_updatedAt = now\<rparr>"

text \<open>The key \<^verbatim>\<open>issue\<close> may be absent (\<open>None\<close>) or present with an undefined value
  (\<open>Some None\<close>); \<^verbatim>\<open>Object.hasOwn\<close> tells them apart.\<close>

record mintInput =
  mi_now :: timestamp
  mi_taskId :: taskId
  mi_task :: task
  mi_issue :: "trackerIssue option option"
  mi_requestId :: string
  mi_requestSource :: "requestSource option"
  mi_pipeline :: string
  mi_priority :: "queuePriority option"
  mi_params :: "params option"
  mi_intervention :: "operationalIntervention option"
  mi_providerFallback :: "fallbackInput option"
  mi_sourceRevision :: "workRevision option"
  mi_revisionAttempt :: "nat option"

fun mintFallback :: "fallbackInput option \<Rightarrow> string \<Rightarrow> string \<Rightarrow> providerFallback option" where
  "mintFallback None pipeline runId = None"
| "mintFallback (Some (FallbackRequest f)) pipeline runId =
     (if fr_allowedPipelines f = [] then None
      else Some \<lparr>pf_principal = fr_principal f, pf_sourceRepository = fr_sourceRepository f,
                 pf_allowedPipelines = fr_allowedPipelines f, pf_attemptedPipelines = [pipeline],
                 pf_originalRunId = runId, pf_fromRunId = None, pf_trigger = None\<rparr>)"
| "mintFallback (Some (FallbackPolicy p)) pipeline runId =
     (if pf_allowedPipelines p = [] then None else Some p)"

definition mintedRun :: "mintInput \<Rightarrow> run" where
  "mintedRun input =
     (let now = mi_now input;
          runId = runIdFor (mi_taskId input) (t_runCount (mi_task input) + 1)
      in \<lparr>r_runId = runId,
          r_task = mi_taskId input,
          r_state = Pending,
          r_pipeline = mi_pipeline input,
          r_priority = Some (orElse (mi_priority input) Normal),
          r_requestId = mi_requestId input,
          r_requestSource = orElse (mi_requestSource input) Caller,
          r_params = mi_params input,
          r_issue = orElse (mi_issue input) (t_issue (mi_task input)),
          r_sourceRevision = mi_sourceRevision input,
          r_revisionAttempt =
            (if mi_sourceRevision input = None then None
             else Some (orElse (mi_revisionAttempt input) 1)),
          r_providerFallback =
            mintFallback (mi_providerFallback input) (mi_pipeline input) runId,
          r_queue = None,
          r_delivery = None,
          r_triagePublication = None,
          r_credentialOperation = None,
          r_credentialRestoredClaimFingerprint = None,
          r_credentialPendingResult = None,
          r_credentialWriteReceipt = None,
          r_leaseExpiresAt = runLeaseExpiresAt now,
          r_result = None,
          r_events = [\<lparr>ev_at = now, ev_to = Pending, ev_by = ByRequest, ev_note = None,
                       ev_intervention = mi_intervention input\<rparr>],
          r_createdAt = now,
          r_updatedAt = now\<rparr>)"

definition mintRun :: "mintInput \<Rightarrow> decision" where
  "mintRun input =
     (let now = mi_now input;
          runCount = t_runCount (mi_task input) + 1;
          r = mintedRun input
      in \<lparr>d_task = (mi_task input)\<lparr>t_activeRunId := Some (r_runId r), t_runCount := runCount,
                                    t_updatedAt := now\<rparr>,
          d_run = Some r,
          d_additionalRuns = [],
          d_outbox = [newOutboxEntry (''dispatch/'' @ r_runId r) DispatchRun (mi_taskId input)
                        (r_runId r) now]\<rparr>)"

subsection \<open>Requesting a run\<close>

record requestRunInput =
  ri_now :: timestamp
  ri_task :: "task option"
  ri_taskId :: taskId
  ri_activeRun :: "run option"
  ri_requestId :: string
  ri_requestSource :: "requestSource option"
  ri_pipeline :: string
  ri_priority :: "queuePriority option"
  ri_params :: "params option"
  ri_intervention :: "operationalIntervention option"
  ri_work :: "workPayload option"
  ri_issue :: "trackerIssue option option"
  ri_providerFallback :: "fallbackInput option"
  ri_sourceRevision :: "workRevision option"
  ri_revisionAttempt :: "nat option"

text \<open>The issue the request carries, if any: \<^verbatim>\<open>input.issue\<close>.\<close>

definition ri_issueValue :: "requestRunInput \<Rightarrow> trackerIssue option" where
  "ri_issueValue input = orElse (ri_issue input) None"

text \<open>A bound delivery that has not merged refuses the request, unless it is an authenticated
  reply or an orchestrator-owned successor of the delivering run.\<close>

definition deliveryBlocks :: "requestRunInput \<Rightarrow> task \<Rightarrow> bool" where
  "deliveryBlocks input t \<longleftrightarrow>
     deliveryWaiting t \<and>
     \<not> (paramOf (ri_params input) ''mode'' = Some ''reply'' \<and>
        paramOf (ri_params input) ''replyPrincipal'' \<noteq> None) \<and>
     \<not> (ri_requestSource input \<noteq> None \<and> ri_requestSource input \<noteq> Some Caller \<and>
        paramOf (ri_params input) ''deliveryPredecessor'' = map_option dl_runId (t_delivery t))"

definition requestIssue :: "requestRunInput \<Rightarrow> trackerIssue option" where
  "requestIssue input =
     (let previousIssue = Option.bind (ri_task input) t_issue
      in case ri_issueValue input of
           None \<Rightarrow> previousIssue
         | Some i \<Rightarrow>
             (case previousIssue of
                None \<Rightarrow> Some i
              | Some p \<Rightarrow> if ti_updatedAt i > ti_updatedAt p then Some i else Some p))"

definition issueIdentityChanged :: "trackerIssue option \<Rightarrow> trackerIssue option \<Rightarrow> bool" where
  "issueIdentityChanged previous next =
     (case previous of
        None \<Rightarrow> False
      | Some p \<Rightarrow>
          (case next of
             None \<Rightarrow> False
           | Some n \<Rightarrow> issueSourceKey (ti_reference p) \<noteq> issueSourceKey (ti_reference n)))"

definition requestBaseTask :: "requestRunInput \<Rightarrow> workPayload \<Rightarrow> task" where
  "requestBaseTask input work =
     \<lparr>t_task = ri_taskId input,
      t_delivery = Option.bind (ri_task input) t_delivery,
      t_activeRunId = None,
      t_runCount = (case ri_task input of None \<Rightarrow> 0 | Some t \<Rightarrow> t_runCount t),
      t_consecutiveLost = (case ri_task input of None \<Rightarrow> 0 | Some t \<Rightarrow> t_consecutiveLost t),
      t_schedulerDisruptions = None,
      t_work = work,
      t_issue = requestIssue input,
      t_desiredRevision = ri_sourceRevision input,
      t_sourceObservedAt = Option.bind (ri_sourceRevision input) wr_observedAt,
      t_providerRouting = Option.bind (ri_task input) t_providerRouting,
      t_closedAt = None,
      t_updatedAt = ri_now input\<rparr>"

definition requestMintInput :: "requestRunInput \<Rightarrow> workPayload \<Rightarrow> mintInput" where
  "requestMintInput input work =
     \<lparr>mi_now = ri_now input,
      mi_taskId = ri_taskId input,
      mi_task = requestBaseTask input work,
      mi_issue = Some (case ri_issue input of Some i \<Rightarrow> i | None \<Rightarrow> requestIssue input),
      mi_requestId = ri_requestId input,
      mi_requestSource = ri_requestSource input,
      mi_pipeline = ri_pipeline input,
      mi_priority = ri_priority input,
      mi_params = ri_params input,
      mi_intervention = ri_intervention input,
      mi_providerFallback = ri_providerFallback input,
      mi_sourceRevision = ri_sourceRevision input,
      mi_revisionAttempt = ri_revisionAttempt input\<rparr>"

definition liveRun :: "run option \<Rightarrow> run option" where
  "liveRun r = (case r of Some a \<Rightarrow> if isLive (r_state a) then Some a else None | None \<Rightarrow> None)"

definition requestRun :: "requestRunInput \<Rightarrow> outcome" where
  "requestRun input =
     (case liveRun (ri_activeRun input) of
        Some a \<Rightarrow>
          if runRequestHistoryKey a
               = requestHistoryKey (orElse (ri_requestSource input) Caller) (ri_requestId input)
          then Refused DuplicateRequest (Some a)
          else Refused TaskBusy (Some a)
      | None \<Rightarrow>
          if Option.bind (ri_task input) t_closedAt \<noteq> None then refused TaskClosed
          else if (case ri_task input of None \<Rightarrow> False | Some t \<Rightarrow> deliveryBlocks input t)
          then refused TaskBusy
          else (case orOpt (map_option t_work (ri_task input)) (ri_work input) of
                  None \<Rightarrow> refused MissingWork
                | Some work \<Rightarrow>
                    if issueIdentityChanged (Option.bind (ri_task input) t_issue) (ri_issueValue input)
                    then Threw (JsError ''Issue source identity cannot change'')
                    else Decided (mintRun (requestMintInput input work))))"

subsection \<open>Settling a run\<close>

definition outcomeEntry :: "run \<Rightarrow> timestamp \<Rightarrow> outboxEntry" where
  "outcomeEntry r now = newOutboxEntry (''outcome/'' @ r_runId r) ReportOutcome (r_task r) (r_runId r) now"

definition isJsSpace :: "char \<Rightarrow> bool" where
  "isJsSpace c \<longleftrightarrow> (of_char c :: nat) \<in> {9, 10, 11, 12, 13, 32, 160}"

definition jsTrim :: "string \<Rightarrow> string" where
  "jsTrim s = rev (dropWhile isJsSpace (rev (dropWhile isJsSpace s)))"

definition resultSummary :: "run \<Rightarrow> string option" where
  "resultSummary r = Option.bind (r_result r) rr_summary"

definition settle :: "task \<Rightarrow> run \<Rightarrow> timestamp \<Rightarrow> decision" where
  "settle releasedTask settledRun now =
     \<lparr>d_task = releasedTask,
      d_run = Some settledRun,
      d_additionalRuns = [],
      d_outbox =
        [outcomeEntry settledRun now] @
        (if r_state settledRun = Finished \<and>
            map_option rr_ok (r_result settledRun) = Some True \<and>
            map_option tr_state (r_triagePublication settledRun) = Some TriagePending
         then [(outcomeEntry settledRun now)\<lparr>o_entryId := ''triage/'' @ r_runId settledRun,
                                              o_kind := PublishTriage\<rparr>]
         else []) @
        (if r_state settledRun = Finished \<and> resultSummary settledRun = Some ''park'' \<and>
            (case Option.bind (r_result settledRun) rr_message of
               None \<Rightarrow> False | Some m \<Rightarrow> jsTrim m \<noteq> [])
         then [(outcomeEntry settledRun now)\<lparr>o_entryId := ''handoff-summary/'' @ r_runId settledRun,
                                              o_kind := AdmitHandoffSummary\<rparr>]
         else [])\<rparr>"

definition releaseLock :: "task \<Rightarrow> string \<Rightarrow> timestamp \<Rightarrow> task" where
  "releaseLock t runId now =
     (if t_activeRunId t = Some runId then t\<lparr>t_activeRunId := None, t_updatedAt := now\<rparr>
      else t\<lparr>t_updatedAt := now\<rparr>)"

definition resetLossBudgets :: "task \<Rightarrow> task" where
  "resetLossBudgets t = t\<lparr>t_consecutiveLost := 0\<rparr>"

definition finalDeliveryOutbox :: "task \<Rightarrow> run \<Rightarrow> deliveryBinding \<Rightarrow> timestamp \<Rightarrow> outboxEntry list" where
  "finalDeliveryOutbox t r delivery now =
     (if \<not> isWorkAnchor (t_task t) \<or> dl_state delivery \<noteq> DeliveryComplete then []
      else [newOutboxEntry (''delivery-outcome/'' @ r_runId r) ReportOutcome (r_task r) (r_runId r) now])"

subsection \<open>Cancellation\<close>

definition plainEvent :: "timestamp \<Rightarrow> runState \<Rightarrow> eventBy \<Rightarrow> string option \<Rightarrow> runEvent" where
  "plainEvent at to by note =
     \<lparr>ev_at = at, ev_to = to, ev_by = by, ev_note = note, ev_intervention = None\<rparr>"

definition canceledRun :: "timestamp \<Rightarrow> run \<Rightarrow> string option \<Rightarrow> operationalIntervention option \<Rightarrow> run" where
  "canceledRun now r note intervention =
     r\<lparr>r_state := Canceled,
       r_events := r_events r @
         [\<lparr>ev_at = now, ev_to = Canceled, ev_by = ByOperator, ev_note = note,
           ev_intervention = intervention\<rparr>],
       r_updatedAt := now\<rparr>"

definition cancelRun ::
  "timestamp \<Rightarrow> task \<Rightarrow> run \<Rightarrow> string option \<Rightarrow> operationalIntervention option \<Rightarrow> string option \<Rightarrow> outcome"
where
  "cancelRun now t r note intervention nativeTask =
     (if \<not> isLive (r_state r) then refused RunNotLive
      else if r_credentialOperation r \<noteq> None then refused CredentialOperationPending
      else
        (let settled = canceledRun now r note intervention;
             released = resetLossBudgets (releaseLock t (r_runId r) now)
         in case nativeTask of
              None \<Rightarrow> Decided (settle released settled now)
            | Some workId \<Rightarrow>
                (case t_task t of
                   GithubAnchor _ _ \<Rightarrow> refused NotNative
                 | WorkAnchor w \<Rightarrow>
                     if w \<noteq> workId \<or> t_activeRunId t \<noteq> Some (r_runId r) then refused TaskBusy
                     else Decided (settle
                       (if deliveryWaiting t then released\<lparr>t_closedAt := Some now\<rparr> else released)
                       settled now))))"

subsection \<open>Source revisions\<close>

text \<open>\<^verbatim>\<open>(record[source] ?? '') < at\<close>, in code-unit order.\<close>

definition observedBefore :: "sourceClock option \<Rightarrow> string \<Rightarrow> string \<Rightarrow> bool" where
  "observedBefore clock source at = strLess (orElse (paramOf clock source) []) at"

definition observedAfter :: "string \<Rightarrow> sourceClock option \<Rightarrow> string \<Rightarrow> bool" where
  "observedAfter at clock source = strLess (orElse (paramOf clock source) []) at"

definition someSourceOlder :: "sourceClock option \<Rightarrow> sourceClock option \<Rightarrow> bool" where
  "someSourceOlder known incoming \<longleftrightarrow>
     list_ex (\<lambda>(source, at). observedBefore incoming source at) (orElse known [])"

definition someSourceNewer :: "sourceClock \<Rightarrow> sourceClock option \<Rightarrow> bool" where
  "someSourceNewer incoming known \<longleftrightarrow>
     list_ex (\<lambda>(source, at). observedAfter at known source) incoming"

text \<open>What the ordering checks of \<^verbatim>\<open>requestRevisionRun\<close> answer before the mutex is
  looked at; \<open>None\<close> when they let the request through.\<close>

definition revisionOrdering :: "task option \<Rightarrow> workRevision \<Rightarrow> outcome option" where
  "revisionOrdering task revn =
     (case task of
        None \<Rightarrow> None
      | Some t \<Rightarrow>
          (case wr_observedAt revn of
             None \<Rightarrow> None
           | Some observed \<Rightarrow>
               if someSourceOlder (t_sourceObservedAt t) (Some observed) then Some (onlyTask t)
               else if map_option (jsonText \<circ> wr_input) (t_desiredRevision t) = Some (jsonText (wr_input revn))
               then if t_sourceObservedAt t = Some observed
                    then Some (refused DuplicateRequest)
                    else Some (onlyTask (t\<lparr>t_sourceObservedAt := Some observed\<rparr>))
               else if t_sourceObservedAt t \<noteq> None \<and>
                       \<not> someSourceNewer observed (t_sourceObservedAt t)
               then Some (onlyTask t)
               else None))"

definition desiredTask :: "timestamp \<Rightarrow> task \<Rightarrow> workRevision \<Rightarrow> task" where
  "desiredTask now t revn =
     t\<lparr>t_desiredRevision := Some revn,
       t_sourceObservedAt := orOpt (wr_observedAt revn) (t_sourceObservedAt t),
       t_updatedAt := now\<rparr>"

text \<open>Cancel the predecessor, admit the successor, and commit both together.\<close>

definition cancelThenRequest :: "outcome \<Rightarrow> requestRunInput \<Rightarrow> outcome" where
  "cancelThenRequest canceled input =
     (case canceled of
        Decided c \<Rightarrow>
          (case requestRun (input\<lparr>ri_task := Some (d_task c), ri_activeRun := None\<rparr>) of
             Decided n \<Rightarrow>
               decidedRun c (\<lambda>cr. Decided (n\<lparr>d_additionalRuns := [cr],
                                              d_outbox := d_outbox c @ d_outbox n\<rparr>))
           | other \<Rightarrow> other)
      | other \<Rightarrow> other)"

definition requestRevisionRun :: "requestRunInput \<Rightarrow> workRevision \<Rightarrow> outcome" where
  "requestRevisionRun input revn =
     (if Option.bind (ri_task input) t_closedAt \<noteq> None then refused TaskClosed
      else (case revisionOrdering (ri_task input) revn of
              Some answer \<Rightarrow> answer
            | None \<Rightarrow>
                (case (ri_task input, liveRun (ri_activeRun input)) of
                   (Some t, Some a) \<Rightarrow>
                     if queueStateOf a = Some Claimed
                     then onlyTask (desiredTask (ri_now input) t revn)
                     else cancelThenRequest
                            (cancelRun (ri_now input) (desiredTask (ri_now input) t revn) a
                               (Some ''Superseded by a newer source revision'') None None)
                            (input\<lparr>ri_sourceRevision := Some revn\<rparr>)
                 | _ \<Rightarrow> requestRun (input\<lparr>ri_sourceRevision := Some revn\<rparr>))))"

definition invalidateSourceRevision :: "timestamp \<Rightarrow> task \<Rightarrow> run \<Rightarrow> sourceClock \<Rightarrow> outcome" where
  "invalidateSourceRevision now t r observedAt =
     (if r_runId r \<noteq> runIdFor (t_task t) (t_runCount t) then refused StaleLease
      else if r_sourceRevision r = None then refused WorkSpecMismatch
      else if someSourceOlder (t_sourceObservedAt t) (Some observedAt) \<or>
              \<not> someSourceNewer observedAt (t_sourceObservedAt t)
      then onlyTask t
      else
        (let invalidated = t\<lparr>t_desiredRevision := None, t_sourceObservedAt := Some observedAt,
                             t_updatedAt := now\<rparr>
         in if isLive (r_state r) \<and> queueStateOf r \<noteq> Some Claimed
            then cancelRun now invalidated r (Some ''Source is no longer eligible'') None None
            else (case r_triagePublication r of
                    Some p \<Rightarrow>
                      if tr_state p = TriagePending
                      then taskAndRun invalidated
                             (r\<lparr>r_triagePublication := Some (p\<lparr>tr_state := TriageSuperseded\<rparr>),
                                r_updatedAt := now\<rparr>)
                      else onlyTask invalidated
                  | None \<Rightarrow> onlyTask invalidated)))"

text \<open>The successor a settled revision run hands over to; \<open>None\<close> when
  \<^verbatim>\<open>advanceSourceRevision\<close> returns its argument.\<close>

definition sourceSuccessorInput :: "decision \<Rightarrow> run \<Rightarrow> timestamp \<Rightarrow> mintInput option" where
  "sourceSuccessorInput d r now =
     (case (r_sourceRevision r, t_desiredRevision (d_task d), t_closedAt (d_task d)) of
        (Some own, Some desired, None) \<Rightarrow>
          (let superseded = (wr_key own \<noteq> wr_key desired);
               retry = (\<not> superseded \<and> r_state r = Finished \<and>
                        map_option rr_ok (r_result r) = Some False \<and>
                        orElse (r_revisionAttempt r) 1 \<le> MAX_AUTO_RETRIES)
           in if \<not> superseded \<and> \<not> retry then None
              else Some \<lparr>mi_now = now,
                         mi_taskId = r_task r,
                         mi_task = resetLossBudgets (d_task d),
                         mi_issue = Some (if superseded then t_issue (d_task d) else r_issue r),
                         mi_requestId = (if superseded then wr_key desired else ''retry:'' @ r_runId r),
                         mi_requestSource = Some (if superseded then Caller else AutoRetry),
                         mi_pipeline = r_pipeline r,
                         mi_priority = r_priority r,
                         mi_params = r_params r,
                         mi_intervention = None,
                         mi_providerFallback = None,
                         mi_sourceRevision = Some desired,
                         mi_revisionAttempt =
                           Some (if superseded then 1 else orElse (r_revisionAttempt r) 1 + 1)\<rparr>)
      | _ \<Rightarrow> None)"

definition withSuccessor :: "decision \<Rightarrow> decision \<Rightarrow> outcome" where
  "withSuccessor d next =
     decidedRun next (\<lambda>nr. Decided (d\<lparr>d_task := d_task next, d_additionalRuns := [nr],
                                        d_outbox := d_outbox d @ d_outbox next\<rparr>))"

definition advanceSourceRevision :: "decision \<Rightarrow> timestamp \<Rightarrow> outcome" where
  "advanceSourceRevision d now =
     decidedRun d (\<lambda>r.
       case sourceSuccessorInput d r now of
         None \<Rightarrow> Decided d
       | Some input \<Rightarrow> withSuccessor d (mintRun input))"

subsection \<open>Dispatch, placement and heartbeat\<close>

definition confirmDispatch :: "timestamp \<Rightarrow> task \<Rightarrow> run \<Rightarrow> outcome" where
  "confirmDispatch now t r =
     (if r_state r = Running then taskAndRun t r
      else if r_state r \<noteq> Pending then refused RunNotLive
      else taskAndRun (t\<lparr>t_updatedAt := now\<rparr>)
             (r\<lparr>r_state := Running,
                r_leaseExpiresAt := runLeaseExpiresAt now,
                r_events := r_events r @ [plainEvent now Running ByDispatch None],
                r_updatedAt := now\<rparr>))"

record exitClaimant =
  ec_subject :: string
  ec_runner :: string
  ec_claimFingerprint :: "string option"

definition claimantOwns :: "run \<Rightarrow> exitClaimant \<Rightarrow> bool" where
  "claimantOwns r c =
     (case (ec_claimFingerprint c, r_queue r) of
        (Some fp, Some q) \<Rightarrow>
          isClaimant r fp \<and> q_claimedBy q = Some (ec_runner c) \<and>
          q_claimedBySubject q = Some (ec_subject c)
      | _ \<Rightarrow> False)"

definition observeStartupPlacement ::
  "timestamp \<Rightarrow> task \<Rightarrow> run \<Rightarrow> exitClaimant \<Rightarrow> string \<Rightarrow> timestamp \<Rightarrow> bool \<Rightarrow> outcome"
where
  "observeStartupPlacement now t r claimant jobUid observedAt placed =
     (case r_queue r of
        None \<Rightarrow> refused NotClaimant
      | Some q \<Rightarrow>
          (case q_startupPlacement q of
             None \<Rightarrow> refused NotClaimant
           | Some sp \<Rightarrow>
               if \<not> claimantOwns r claimant \<or>
                  (sp_jobUid sp \<noteq> None \<and> sp_jobUid sp \<noteq> Some jobUid)
               then refused NotClaimant
               else if \<not> isLive (r_state r) then refused RunNotLive
               else if t_activeRunId t \<noteq> Some (r_runId r) \<or> recoveryDeadlineElapsed r now
               then refused StaleLease
               else if observedAt > now + 5000 \<or> now - observedAt > 60000 \<or>
                       observedAt \<le> sp_observedAt sp
               then refused StaleLease
               else if q_firstHeartbeatAt q \<noteq> None \<or> sp_state sp = StartupPlaced
               then taskAndRun t r
               else taskAndRun t
                      (r\<lparr>r_queue := Some (q\<lparr>
                           q_startupPlacement := Some \<lparr>
                             sp_state = (if placed then StartupPlaced else StartupWaiting),
                             sp_observedAt = observedAt,
                             sp_jobUid = Some jobUid\<rparr>,
                           q_startDeadlineAt := Some
                             (if placed then runStartDeadlineAt now
                              else placementStartDeadlineAt now (q_claimedAt q))\<rparr>),
                         r_leaseExpiresAt := runLeaseExpiresAt now,
                         r_updatedAt := now\<rparr>)))"

definition startsProvider :: "run \<Rightarrow> string option \<Rightarrow> bool \<Rightarrow> bool" where
  "startsProvider r claimFingerprint providerProcessStarted =
     (case r_queue r of
        None \<Rightarrow> False
      | Some q \<Rightarrow> providerProcessStarted \<and> claimFingerprint \<noteq> None \<and>
          q_state q = Claimed \<and> q_providerProcessStartedAt q = None)"

definition renewedQueue :: "timestamp \<Rightarrow> run \<Rightarrow> string option \<Rightarrow> bool \<Rightarrow> runQueue option" where
  "renewedQueue now r claimFingerprint providerProcessStarted =
     (case r_queue r of
        None \<Rightarrow> None
      | Some q \<Rightarrow>
          if q_state q = Claimed
          then Some (q\<lparr>q_firstHeartbeatAt := Some (orElse (q_firstHeartbeatAt q) now),
                       q_providerProcessStartedAt :=
                         (if startsProvider r claimFingerprint providerProcessStarted
                          then Some now else q_providerProcessStartedAt q)\<rparr>)
          else Some q)"

definition renewLease :: "timestamp \<Rightarrow> task \<Rightarrow> run \<Rightarrow> string option \<Rightarrow> bool \<Rightarrow> outcome" where
  "renewLease now t r claimFingerprint providerProcessStarted =
     (if (case claimFingerprint of None \<Rightarrow> False | Some fp \<Rightarrow> \<not> isClaimant r fp)
      then refused NotClaimant
      else if \<not> isLive (r_state r) then refused RunNotLive
      else if t_activeRunId t \<noteq> Some (r_runId r) then refused StaleLease
      else if startDeadlineElapsed r now then refused StaleLease
      else if claimFingerprint \<noteq> None \<and> recoveryDeadlineElapsed r now then refused StaleLease
      else Decided
        \<lparr>d_task = t,
         d_run = Some (r\<lparr>r_queue := renewedQueue now r claimFingerprint providerProcessStarted,
                         r_leaseExpiresAt := runLeaseExpiresAt now,
                         r_updatedAt := now\<rparr>),
         d_additionalRuns = [],
         d_outbox =
           (if startsProvider r claimFingerprint providerProcessStarted \<and>
               (case r_issue r of
                  Some i \<Rightarrow> (case ti_reference i of LinearIssue _ _ \<Rightarrow> True | _ \<Rightarrow> False)
                | None \<Rightarrow> False) \<and>
               r_sourceRevision r = None
            then [newOutboxEntry (''issue-start/'' @ r_runId r) PublishIssueStart (r_task r)
                    (r_runId r) now]
            else [])\<rparr>)"

definition observePlacement :: "timestamp \<Rightarrow> task \<Rightarrow> run \<Rightarrow> exitClaimant \<Rightarrow> runPlacement \<Rightarrow> outcome" where
  "observePlacement now t r claimant placement =
     (case r_queue r of
        None \<Rightarrow> refused NotClaimant
      | Some q \<Rightarrow>
          if \<not> claimantOwns r claimant then refused NotClaimant
          else if \<not> isLive (r_state r) then refused RunNotLive
          else if t_activeRunId t \<noteq> Some (r_runId r) \<or> recoveryDeadlineElapsed r now
          then refused StaleLease
          else if pl_observedAt placement > now \<or> now - pl_observedAt placement > 30000 \<or>
                  (case q_placement q of
                     None \<Rightarrow> False
                   | Some p \<Rightarrow> pl_observedAt placement < pl_observedAt p)
          then refused StaleLease
          else taskAndRun t (r\<lparr>r_queue := Some (q\<lparr>q_placement := Some placement\<rparr>)\<rparr>))"

subsection \<open>Reporting a result\<close>

text \<open>The deferred completion a repeated report must match.\<close>

definition pendingMismatch :: "run \<Rightarrow> runResult \<Rightarrow> bool" where
  "pendingMismatch r result =
     (case r_credentialPendingResult r of
        None \<Rightarrow> False
      | Some p \<Rightarrow>
          Some (cp_claimFingerprint p) \<noteq> Option.bind (r_queue r) q_tokenHash \<or>
          rr_ok (cp_result p) \<noteq> rr_ok result \<or>
          rr_summary (cp_result p) \<noteq> rr_summary result \<or>
          rr_ref (cp_result p) \<noteq> rr_ref result \<or>
          rr_message (cp_result p) \<noteq> rr_message result \<or>
          rr_relatedRefs (cp_result p) \<noteq> rr_relatedRefs result)"

definition revisionMoved :: "task \<Rightarrow> run \<Rightarrow> bool" where
  "revisionMoved t r \<longleftrightarrow>
     map_option wr_key (t_desiredRevision t) \<noteq> map_option wr_key (r_sourceRevision r)"

definition reportedRun :: "timestamp \<Rightarrow> task \<Rightarrow> run \<Rightarrow> runResult \<Rightarrow> run" where
  "reportedRun now t r result =
     r\<lparr>r_credentialPendingResult := None,
       r_state := Finished,
       r_triagePublication :=
         (case r_triagePublication r of
            Some p \<Rightarrow> if revisionMoved t r then Some (p\<lparr>tr_state := TriageSuperseded\<rparr>) else Some p
          | None \<Rightarrow> None),
       r_result := Some
         (if r_sourceRevision r \<noteq> None \<and> revisionMoved t r
          then result\<lparr>rr_summary := Some ''superseded''\<rparr> else result),
       r_events := r_events r @ [plainEvent now Finished ByReport None],
       r_updatedAt := now\<rparr>"

definition deliveryOutbox :: "task \<Rightarrow> run \<Rightarrow> run \<Rightarrow> deliveryBinding \<Rightarrow> timestamp \<Rightarrow> outboxEntry list" where
  "deliveryOutbox settledTask r settled delivery now =
     (if isWorkAnchor (r_task r) \<and> dl_state delivery = DeliveryComplete
      then finalDeliveryOutbox settledTask settled delivery now
      else [(newOutboxEntry (''delivery/'' @ r_runId r) MonitorDelivery (r_task r) (r_runId r) now)
              \<lparr>o_nextAttemptAt := Some (now + 60000)\<rparr>])"

definition reportResult :: "timestamp \<Rightarrow> task \<Rightarrow> run \<Rightarrow> string option \<Rightarrow> runResult \<Rightarrow> outcome" where
  "reportResult now t r claimFingerprint result =
     (if (case claimFingerprint of None \<Rightarrow> False | Some fp \<Rightarrow> \<not> isClaimant r fp)
      then refused NotClaimant
      else if r_state r = Finished then Refused RunNotLive (Some r)
      else if \<not> isLive (r_state r)
      then Refused RunNotLive (if claimFingerprint = None then None else Some r)
      else if t_activeRunId t \<noteq> Some (r_runId r) then refused StaleLease
      else if pendingMismatch r result then refused CredentialOperationPending
      else
        (let admittedAt = (case r_credentialPendingResult r of
                             Some p \<Rightarrow> cp_requestedAt p | None \<Rightarrow> now)
         in if startDeadlineElapsed r admittedAt then refused StaleLease
            else if claimFingerprint \<noteq> None \<and> recoveryDeadlineElapsed r admittedAt
            then refused StaleLease
            else (case r_credentialOperation r of
              Some op \<Rightarrow>
                taskAndRun t
                  (r\<lparr>r_credentialPendingResult :=
                       (case r_credentialPendingResult r of
                          Some p \<Rightarrow> Some p
                        | None \<Rightarrow> Some \<lparr>cp_claimFingerprint = co_claimFingerprint op,
                                        cp_requestedAt = now, cp_result = result\<rparr>),
                     r_updatedAt := now\<rparr>)
            | None \<Rightarrow>
                (let settled = reportedRun now t r result;
                     d = settle (resetLossBudgets (releaseLock t (r_runId r) now)) settled now
                 in case r_delivery r of
                      Some delivery \<Rightarrow>
                        if rr_ok result
                        then Decided (d\<lparr>d_task := (d_task d)\<lparr>t_delivery := Some delivery\<rparr>,
                                        d_outbox := d_outbox d @
                                          deliveryOutbox (d_task d) r settled delivery now\<rparr>)
                        else advanceSourceRevision d now
                    | None \<Rightarrow> advanceSourceRevision d now))))"

subsection \<open>Loss: lease expiry and executor exit\<close>

text \<open>Codex keeps its claim after settlement.\<close>

definition retiresOnExit :: "run \<Rightarrow> bool" where
  "retiresOnExit r \<longleftrightarrow> r_pipeline r \<noteq> ''codex''"

definition lostNote :: "timestamp \<Rightarrow> run \<Rightarrow> eventBy \<Rightarrow> string option" where
  "lostNote now r by =
     (if by = ByExpiry \<and> startDeadlineElapsed r now
      then Some (if map_option sp_state (Option.bind (r_queue r) q_startupPlacement)
                      = Some StartupWaiting
                 then ''placement observation deadline exceeded''
                 else ''first heartbeat deadline exceeded'')
      else None)"

definition lostRun :: "timestamp \<Rightarrow> run \<Rightarrow> eventBy \<Rightarrow> run" where
  "lostRun now r by =
     r\<lparr>r_queue :=
         (if by = ByExecutor \<and> retiresOnExit r \<and> \<not> usesCodexCredentials r
          then map_option (q_state_update (\<lambda>_. Retired)) (r_queue r)
          else r_queue r),
       r_state := Lost,
       r_events := r_events r @ [plainEvent now Lost by (lostNote now r by)],
       r_updatedAt := now\<rparr>"

definition settleLost :: "timestamp \<Rightarrow> task \<Rightarrow> run \<Rightarrow> eventBy \<Rightarrow> decision" where
  "settleLost now t r by =
     settle ((releaseLock t (r_runId r) now)\<lparr>t_consecutiveLost := t_consecutiveLost t + 1\<rparr>)
       (lostRun now r by) now"

definition expireLease :: "timestamp \<Rightarrow> task \<Rightarrow> run \<Rightarrow> outcome" where
  "expireLease now t r =
     (if \<not> isLive (r_state r) then refused RunNotLive
      else if (case runRecoveryDeadline r of None \<Rightarrow> True | Some d \<Rightarrow> d > now)
      then refused StaleLease
      else if t_activeRunId t \<noteq> Some (r_runId r) then refused StaleLease
      else if r_credentialOperation r \<noteq> None then refused CredentialOperationPending
      else Decided (settleLost now t r ByExpiry))"

definition exitOwned :: "run \<Rightarrow> exitClaimant \<Rightarrow> bool" where
  "exitOwned r c =
     (case r_queue r of
        None \<Rightarrow> False
      | Some q \<Rightarrow>
          (q_state q = Claimed \<or> (q_state q = Retired \<and> \<not> isLive (r_state r))) \<and>
          q_claimedBySubject q = Some (ec_subject c) \<and>
          q_claimedBy q = Some (ec_runner c) \<and>
          (ec_claimFingerprint c = None \<or> q_tokenHash q = ec_claimFingerprint c) \<and>
          \<not> (isLive (r_state r) \<and> ec_claimFingerprint c = None))"

definition executorExited :: "timestamp \<Rightarrow> task \<Rightarrow> run \<Rightarrow> exitClaimant \<Rightarrow> outcome" where
  "executorExited now t r claimant =
     (if \<not> exitOwned r claimant then refused NotClaimant
      else if \<not> isLive (r_state r) then refused RunNotLive
      else if t_activeRunId t \<noteq> Some (r_runId r) then refused StaleLease
      else if r_credentialOperation r \<noteq> None then refused CredentialOperationPending
      else Decided (settleLost now t r ByExecutor))"

definition retryInput :: "timestamp \<Rightarrow> task \<Rightarrow> run \<Rightarrow> mintInput" where
  "retryInput now lostTask lost =
     \<lparr>mi_now = now,
      mi_taskId = r_task lost,
      mi_task = lostTask,
      mi_issue = Some (r_issue lost),
      mi_requestId = ''retry:'' @ r_runId lost,
      mi_requestSource = Some AutoRetry,
      mi_pipeline = r_pipeline lost,
      mi_priority = Some (orElse (r_priority lost) Normal),
      mi_params = r_params lost,
      mi_intervention = None,
      mi_providerFallback = map_option FallbackPolicy (r_providerFallback lost),
      mi_sourceRevision = r_sourceRevision lost,
      mi_revisionAttempt =
        (if r_sourceRevision lost = None then None
         else Some (orElse (r_revisionAttempt lost) 1 + 1))\<rparr>"

definition settleLostAndRetry :: "timestamp \<Rightarrow> outcome \<Rightarrow> outcome" where
  "settleLostAndRetry now loss =
     (case loss of
        Decided lost \<Rightarrow>
          decidedRun lost (\<lambda>lr.
            if r_pipeline lr = ''goose'' then Decided lost
            else (case sourceSuccessorInput lost lr now of
              Some input \<Rightarrow> withSuccessor lost (mintRun input)
            | None \<Rightarrow>
                if t_consecutiveLost (d_task lost) > MAX_AUTO_RETRIES then Decided lost
                else if r_sourceRevision lr \<noteq> None \<and>
                        (t_desiredRevision (d_task lost) = None \<or>
                         orElse (r_revisionAttempt lr) 1 > MAX_AUTO_RETRIES)
                then Decided lost
                else (let retry = mintRun (retryInput now (d_task lost) lr)
                      in decidedRun retry (\<lambda>nr.
                           Decided \<lparr>d_task = d_task retry, d_run = Some lr,
                                    d_additionalRuns = [nr],
                                    d_outbox = d_outbox lost @ d_outbox retry\<rparr>))))
      | other \<Rightarrow> other)"

definition retireSettledClaim :: "timestamp \<Rightarrow> task \<Rightarrow> run \<Rightarrow> outcome" where
  "retireSettledClaim now t r =
     (case r_queue r of
        None \<Rightarrow> refused RunNotLive
      | Some q \<Rightarrow>
          if \<not> retiresOnExit r then refused RunNotLive
          else if r_credentialOperation r \<noteq> None
          then if \<not> usesCodexCredentials r then refused RunNotLive
               else
                 (let observed = (r_events r \<noteq> [] \<and>
                        ev_note (last (r_events r)) = Some RECIPE_EXIT_PENDING_CREDENTIAL_CLEANUP \<and>
                        ev_by (last (r_events r)) = ByExecutor)
                  in taskAndRun t
                       (if observed then r
                        else r\<lparr>r_events := r_events r @
                               [plainEvent now (r_state r) ByExecutor
                                  (Some RECIPE_EXIT_PENDING_CREDENTIAL_CLEANUP)]\<rparr>))
          else taskAndRun t (r\<lparr>r_queue := Some (q\<lparr>q_state := Retired\<rparr>)\<rparr>))"

definition executorExitedAndRetry :: "timestamp \<Rightarrow> task \<Rightarrow> run \<Rightarrow> exitClaimant \<Rightarrow> outcome" where
  "executorExitedAndRetry now t r claimant =
     (case executorExited now t r claimant of
        Refused RunNotLive e \<Rightarrow>
          if queueStateOf r = Some Claimed then retireSettledClaim now t r
          else Refused RunNotLive e
      | loss \<Rightarrow> settleLostAndRetry now loss)"

definition expireLeaseAndRetry :: "timestamp \<Rightarrow> task \<Rightarrow> run \<Rightarrow> outcome" where
  "expireLeaseAndRetry now t r = settleLostAndRetry now (expireLease now t r)"

subsection \<open>Native item state\<close>

definition closeTask :: "timestamp \<Rightarrow> task option \<Rightarrow> run option \<Rightarrow> outcome" where
  "closeTask now task activeRun =
     (case task of
        None \<Rightarrow> refused UnknownTask
      | Some t \<Rightarrow>
          if \<not> isWorkAnchor (t_task t) then refused NotNative
          else if t_closedAt t \<noteq> None then refused TaskClosed
          else (case liveRun activeRun of
                  Some a \<Rightarrow> Refused TaskBusy (Some a)
                | None \<Rightarrow> onlyTask (t\<lparr>t_closedAt := Some now, t_updatedAt := now\<rparr>)))"

definition updateTaskWork :: "timestamp \<Rightarrow> task option \<Rightarrow> run option \<Rightarrow> workPayload \<Rightarrow> outcome" where
  "updateTaskWork now task activeRun work =
     (case task of
        None \<Rightarrow> refused UnknownTask
      | Some t \<Rightarrow>
          if \<not> isWorkAnchor (t_task t) then refused NotNative
          else (case liveRun activeRun of
                  Some a \<Rightarrow> Refused TaskBusy (Some a)
                | None \<Rightarrow> onlyTask (t\<lparr>t_work := work, t_updatedAt := now\<rparr>)))"

end
