(* ===== verification/JS_Date.thy ===== *)
theory JS_Date
  imports Prelude
begin

text \<open>
  The part of the ECMAScript \<^verbatim>\<open>Date\<close> object the program uses, on instants in
  milliseconds since the epoch (proleptic Gregorian calendar, UTC): the UTC field accessors and
  \<^verbatim>\<open>Date.UTC\<close>. The accessors invert the calendar: every instant is the one its
  fields name, and a real calendar date determines them.
\<close>

subsection \<open>Days and years\<close>

definition msPerDay :: int where
  "msPerDay = 86400000"

definition Day :: "timestamp \<Rightarrow> int" where
  "Day t = t div msPerDay"

definition TimeWithinDay :: "timestamp \<Rightarrow> int" where
  "TimeWithinDay t = t mod msPerDay"

definition leapYear :: "int \<Rightarrow> bool" where
  "leapYear y \<longleftrightarrow> y mod 4 = 0 \<and> (y mod 100 \<noteq> 0 \<or> y mod 400 = 0)"

definition DayFromYear :: "int \<Rightarrow> int" where
  "DayFromYear y = 365 * (y - 1970) + (y - 1969) div 4 - (y - 1901) div 100 + (y - 1601) div 400"

definition DaysInYear :: "int \<Rightarrow> int" where
  "DaysInYear y = (if leapYear y then 366 else 365)"

lemma div_step:
  fixes x k :: int
  assumes "1 < k"
  shows "(x + 1) div k = x div k + (if (x + 1) mod k = 0 then 1 else 0)"
proof -
  have m: "0 \<le> x mod k" "x mod k < k" using assms by simp_all
  have d: "(x + 1) div k = x div k + (x mod k + 1) div k"
    using assms by (simp add: div_add1_eq [of x 1 k])
  have e: "(x + 1) mod k = (x mod k + 1) mod k" by (simp add: mod_add_left_eq)
  show ?thesis
  proof (cases "x mod k + 1 = k")
    case True
    with d e assms show ?thesis by simp
  next
    case False
    with m have "(x mod k + 1) div k = 0" "(x mod k + 1) mod k = x mod k + 1" by simp_all
    with d e m show ?thesis by simp
  qed
qed

lemma mod_shift: "(y - c * k) mod k = y mod (k :: int)"
  by (metis add.commute diff_add_cancel mod_mult_self1)

lemma DayFromYear_Suc: "DayFromYear (y + 1) = DayFromYear y + DaysInYear y"
proof -
  have 4: "(y + 1 - 1969) div 4 = (y - 1969) div 4 + (if y mod 4 = 0 then 1 else 0)"
    using div_step [of 4 "y - 1969"] mod_shift [of y 492 4] by simp
  have 100: "(y + 1 - 1901) div 100 = (y - 1901) div 100 + (if y mod 100 = 0 then 1 else 0)"
    using div_step [of 100 "y - 1901"] mod_shift [of y 19 100] by simp
  have 400: "(y + 1 - 1601) div 400 = (y - 1601) div 400 + (if y mod 400 = 0 then 1 else 0)"
    using div_step [of 400 "y - 1601"] mod_shift [of y 4 400] by simp
  have imp: "y mod 400 = 0 \<Longrightarrow> y mod 100 = 0" "y mod 100 = 0 \<Longrightarrow> y mod 4 = 0"
    using mod_mod_cancel [of 100 400 y] mod_mod_cancel [of 4 100 y] by simp_all
  have key: "365 * (y + 1 - 1970) + (a + (if A then 1 else 0)) - (b + (if B then 1 else 0))
        + (c + (if C then 1 else 0))
      = 365 * (y - 1970) + a - b + c + (if A \<and> (\<not> B \<or> C) then 366 else 365)"
    if "C \<Longrightarrow> B" and "B \<Longrightarrow> A" for a b c :: int and A B C
    using that by (cases A; cases B; cases C) (simp_all only: simp_thms if_True if_False, simp_all)
  show ?thesis
    unfolding DayFromYear_def DaysInYear_def leapYear_def 4 100 400
    by (rule key) (fact imp)+
qed

lemma DaysInYear_bounds: "365 \<le> DaysInYear y" "DaysInYear y \<le> 366"
  by (simp_all add: DaysInYear_def)

lemma DayFromYear_less: "DayFromYear y < DayFromYear (y + 1)"
  using DaysInYear_bounds(1) [of y] by (simp add: DayFromYear_Suc)

lemma DayFromYear_add: "DayFromYear y + 365 * int n \<le> DayFromYear (y + int n)"
  "DayFromYear (y + int n) \<le> DayFromYear y + 366 * int n"
proof (induction n)
  case (Suc n)
  have "DayFromYear (y + int (Suc n)) = DayFromYear (y + int n) + DaysInYear (y + int n)"
    using DayFromYear_Suc [of "y + int n"] by (simp add: algebra_simps)
  with Suc DaysInYear_bounds [of "y + int n"] show
    "DayFromYear y + 365 * int (Suc n) \<le> DayFromYear (y + int (Suc n))"
    "DayFromYear (y + int (Suc n)) \<le> DayFromYear y + 366 * int (Suc n)" by simp_all
qed simp_all

lemma DayFromYear_mono: "a \<le> b \<Longrightarrow> DayFromYear a \<le> DayFromYear b"
  using DayFromYear_add(1) [of a "nat (b - a)"] by simp

lemma DayFromYear_strict_mono: "a < b \<Longrightarrow> DayFromYear a < DayFromYear b"
  using DayFromYear_mono [of "a + 1" b] DayFromYear_less [of a] by simp

lemma DayFromYear_1970 [simp]: "DayFromYear 1970 = 0"
  by (simp add: DayFromYear_def)

text \<open>The year of a day: the last year that starts on or before it, searched upwards from a
  bound that is at most a few years short.\<close>

function yearFrom :: "int \<Rightarrow> int \<Rightarrow> int" where
  "yearFrom y d = (if DayFromYear (y + 1) \<le> d then yearFrom (y + 1) d else y)"
  by pat_completeness auto
termination
proof (relation "measure (\<lambda>(y, d). nat (d - DayFromYear y))")
  fix y d assume "DayFromYear (y + 1) \<le> d"
  with DayFromYear_less [of y] show "((y + 1, d), (y, d)) \<in> measure (\<lambda>(y, d). nat (d - DayFromYear y))"
    by simp
qed simp

declare yearFrom.simps [simp del]

definition yearOfDay :: "int \<Rightarrow> int" where
  "yearOfDay d = yearFrom (1970 + (if 0 \<le> d then d div 366 else d div 365)) d"

lemma yearFrom_correct:
  "DayFromYear y \<le> d \<Longrightarrow> DayFromYear (yearFrom y d) \<le> d \<and> d < DayFromYear (yearFrom y d + 1)"
proof (induction y d rule: yearFrom.induct)
  case (1 y d)
  then show ?case by (subst (1 2) yearFrom.simps) auto
qed

lemma yearOfDay_correct: "DayFromYear (yearOfDay d) \<le> d \<and> d < DayFromYear (yearOfDay d + 1)"
proof (cases "0 \<le> d")
  case True
  then have "0 \<le> d div 366" by (simp add: pos_imp_zdiv_nonneg_iff)
  then obtain n where n: "d div 366 = int n" by (metis nonneg_int_cases)
  have "DayFromYear (1970 + int n) \<le> 366 * int n"
    using DayFromYear_add(2) [of 1970 n] by simp
  also have "\<dots> \<le> d" using n by (metis mult.commute div_mod_decomp_int True
        add.right_neutral add_left_mono pos_mod_sign zero_less_numeral)
  finally show ?thesis using True n yearFrom_correct by (simp add: yearOfDay_def)
next
  case False
  define k where "k = - (d div 365)"
  have k: "0 \<le> k" using False by (simp add: k_def div_nonneg_neg_le0 neg_imp_zdiv_nonneg_iff
        order_less_imp_le pos_imp_zdiv_neg_iff)
  have "DayFromYear (1970 - k) + 365 * k \<le> 0"
    using DayFromYear_add(1) [of "1970 - k" "nat k"] k by simp
  then have "DayFromYear (1970 + d div 365) \<le> 365 * (d div 365)" by (simp add: k_def)
  also have "\<dots> \<le> d" by (metis div_mult_mod_eq le_add_same_cancel1 mult.commute pos_mod_sign zero_less_numeral)
  finally show ?thesis using False yearFrom_correct by (simp add: yearOfDay_def)
qed

lemma yearOfDay_unique:
  assumes "DayFromYear y \<le> d" and "d < DayFromYear (y + 1)"
  shows "yearOfDay d = y"
proof -
  have "\<not> yearOfDay d < y" "\<not> y < yearOfDay d"
    using assms yearOfDay_correct [of d] DayFromYear_mono [of "yearOfDay d + 1" y]
      DayFromYear_mono [of "y + 1" "yearOfDay d"] by auto
  then show ?thesis by simp
qed


subsection \<open>Months\<close>

definition monthLengths :: "bool \<Rightarrow> int list" where
  "monthLengths leap = [31, if leap then 29 else 28, 31, 30, 31, 30, 31, 31, 30, 31, 30, 31]"

fun splitMonth :: "int list \<Rightarrow> int \<Rightarrow> nat \<times> int" where
  "splitMonth [] d = (0, d)"
| "splitMonth (l # ls) d =
     (if d < l then (0, d) else (let (m, r) = splitMonth ls (d - l) in (Suc m, r)))"

definition DayWithinYear :: "timestamp \<Rightarrow> int" where
  "DayWithinYear t = Day t - DayFromYear (yearOfDay (Day t))"

definition getUTCFullYear :: "timestamp \<Rightarrow> int" where
  "getUTCFullYear t = yearOfDay (Day t)"

definition monthAndDay :: "timestamp \<Rightarrow> nat \<times> int" where
  "monthAndDay t = splitMonth (monthLengths (leapYear (getUTCFullYear t))) (DayWithinYear t)"

definition getUTCMonth :: "timestamp \<Rightarrow> nat" where
  "getUTCMonth t = fst (monthAndDay t)"

definition getUTCDate :: "timestamp \<Rightarrow> int" where
  "getUTCDate t = snd (monthAndDay t) + 1"

definition getUTCHours :: "timestamp \<Rightarrow> int" where
  "getUTCHours t = TimeWithinDay t div 3600000"

definition getUTCMinutes :: "timestamp \<Rightarrow> int" where
  "getUTCMinutes t = TimeWithinDay t div 60000 mod 60"

definition getUTCSeconds :: "timestamp \<Rightarrow> int" where
  "getUTCSeconds t = TimeWithinDay t div 1000 mod 60"

definition getUTCMilliseconds :: "timestamp \<Rightarrow> int" where
  "getUTCMilliseconds t = TimeWithinDay t mod 1000"

definition getUTCDay :: "timestamp \<Rightarrow> int" where
  "getUTCDay t = (Day t + 4) mod 7"

text \<open>\<^verbatim>\<open>MakeDay\<close> on a month in range; a date beyond the month's end runs on into the
  following months, as in ECMAScript.\<close>

definition MakeDay :: "int \<Rightarrow> nat \<Rightarrow> int \<Rightarrow> int" where
  "MakeDay year month date =
     DayFromYear year + sum_list (take month (monthLengths (leapYear year))) + date - 1"

text \<open>\<^verbatim>\<open>Date.UTC\<close> reads a year from 0 to 99 as 1900 to 1999.\<close>

definition DateUTC :: "int \<Rightarrow> nat \<Rightarrow> int \<Rightarrow> int \<Rightarrow> int \<Rightarrow> timestamp" where
  "DateUTC year month date hours minutes =
     MakeDay (if 0 \<le> year \<and> year \<le> 99 then 1900 + year else year) month date * msPerDay
       + hours * 3600000 + minutes * 60000"

lemma splitMonth_correct:
  assumes "list_all (\<lambda>l. 0 < l) ls" and "0 \<le> d" and "d < sum_list ls"
    and "splitMonth ls d = (m, r)"
  shows "m < length ls \<and> 0 \<le> r \<and> r < ls ! m \<and> d = sum_list (take m ls) + r"
  using assms
proof (induction ls arbitrary: d m)
  case (Cons l ls)
  show ?case
  proof (cases "d < l")
    case True
    with Cons.prems show ?thesis by auto
  next
    case False
    with Cons.prems obtain k where "splitMonth ls (d - l) = (k, r)" "m = Suc k"
      by (auto split: prod.splits)
    with Cons.IH [of "d - l" k] Cons.prems False show ?thesis by auto
  qed
qed simp

lemma splitMonth_unique:
  assumes "m < length ls" and "0 \<le> r" and "r < ls ! m" and "list_all (\<lambda>l. 0 < l) ls"
  shows "splitMonth ls (sum_list (take m ls) + r) = (m, r)"
  using assms
proof (induction ls arbitrary: m)
  case (Cons l ls)
  show ?case
  proof (cases m)
    case 0
    with Cons.prems show ?thesis by simp
  next
    case (Suc k)
    have pos: "0 \<le> sum_list (take k ls)"
      using Cons.prems(4) by (auto intro!: sum_list_nonneg simp: list_all_iff dest!: in_set_takeD)
    from Suc Cons have "splitMonth ls (sum_list (take k ls) + r) = (k, r)" by simp
    with Suc pos Cons.prems show ?thesis by (simp add: algebra_simps)
  qed
qed simp

lemma monthLengths_props [simp]:
  "list_all (\<lambda>l. 0 < l) (monthLengths leap)" "length (monthLengths leap) = 12"
  "sum_list (monthLengths leap) = (if leap then 366 else 365)"
  by (simp_all add: monthLengths_def)

lemma DayWithinYear_bounds:
  "0 \<le> DayWithinYear t" "DayWithinYear t < DaysInYear (getUTCFullYear t)"
  using yearOfDay_correct [of "Day t"]
  by (simp_all add: DayWithinYear_def getUTCFullYear_def DayFromYear_Suc)

lemma monthAndDay_correct:
  "getUTCMonth t < 12" "1 \<le> getUTCDate t"
  "getUTCDate t \<le> monthLengths (leapYear (getUTCFullYear t)) ! getUTCMonth t"
  "Day t = MakeDay (getUTCFullYear t) (getUTCMonth t) (getUTCDate t)"
proof -
  let ?ls = "monthLengths (leapYear (getUTCFullYear t))"
  have "splitMonth ?ls (DayWithinYear t) = (getUTCMonth t, getUTCDate t - 1)"
    by (simp add: getUTCMonth_def getUTCDate_def monthAndDay_def)
  from splitMonth_correct [OF _ _ _ this] DayWithinYear_bounds [of t]
  have *: "getUTCMonth t < 12 \<and> 0 \<le> getUTCDate t - 1 \<and> getUTCDate t - 1 < ?ls ! getUTCMonth t \<and>
      DayWithinYear t = sum_list (take (getUTCMonth t) ?ls) + (getUTCDate t - 1)"
    by (simp add: DaysInYear_def)
  then show "getUTCMonth t < 12" "1 \<le> getUTCDate t" "getUTCDate t \<le> ?ls ! getUTCMonth t"
    by simp_all
  from * show "Day t = MakeDay (getUTCFullYear t) (getUTCMonth t) (getUTCDate t)"
    by (simp add: MakeDay_def DayWithinYear_def getUTCFullYear_def)
qed

text \<open>The day number of a real calendar date determines its year, month and date.\<close>

lemma take_monthLengths_bound:
  assumes "m < 12" and "1 \<le> date" and "date \<le> monthLengths leap ! m"
  shows "0 \<le> sum_list (take m (monthLengths leap)) + date - 1"
    "sum_list (take m (monthLengths leap)) + date - 1 < (if leap then 366 else 365)"
proof -
  let ?ls = "monthLengths leap"
  have nn: "\<And>k. 0 \<le> sum_list (take k ?ls)" "\<And>k. 0 \<le> sum_list (drop k ?ls)"
    by (auto intro!: sum_list_nonneg dest!: in_set_takeD in_set_dropD simp: monthLengths_def)
  then show "0 \<le> sum_list (take m ?ls) + date - 1" using assms(2) by (smt (verit))
  have "sum_list ?ls = sum_list (take m ?ls) + ?ls ! m + sum_list (drop (Suc m) ?ls)"
    using assms(1) id_take_nth_drop [of m ?ls]
    by (metis add.assoc monthLengths_props(2) sum_list.Cons sum_list_append)
  with nn(2) [of "Suc m"] assms(3) show
    "sum_list (take m ?ls) + date - 1 < (if leap then 366 else 365)" by simp
qed

lemma fields_of_MakeDay:
  assumes d: "Day t = MakeDay year month date"
    and "month < 12" and "1 \<le> date" and "date \<le> monthLengths (leapYear year) ! month"
  shows "getUTCFullYear t = year" "getUTCMonth t = month" "getUTCDate t = date"
proof -
  let ?ls = "monthLengths (leapYear year)"
  have w: "Day t = DayFromYear year + (sum_list (take month ?ls) + (date - 1))"
    using d by (simp add: MakeDay_def)
  with take_monthLengths_bound [OF assms(2-4)]
  have "DayFromYear year \<le> Day t" "Day t < DayFromYear (year + 1)"
    by (simp_all add: DayFromYear_Suc DaysInYear_def)
  then show y: "getUTCFullYear t = year"
    by (simp add: getUTCFullYear_def yearOfDay_unique)
  have "splitMonth ?ls (sum_list (take month ?ls) + (date - 1)) = (month, date - 1)"
    by (rule splitMonth_unique) (use assms in simp_all)
  with w y show "getUTCMonth t = month" "getUTCDate t = date"
    by (simp_all add: getUTCMonth_def getUTCDate_def monthAndDay_def DayWithinYear_def getUTCFullYear_def)
qed

subsection \<open>Time of day\<close>

lemma time_split:
  "TimeWithinDay t = getUTCHours t * 3600000 + getUTCMinutes t * 60000
     + getUTCSeconds t * 1000 + getUTCMilliseconds t"
proof -
  define x where "x = TimeWithinDay t"
  have "x div 3600000 = x div 60000 div 60" "x div 60000 = x div 1000 div 60"
    by (simp_all add: zdiv_zmult2_eq [symmetric])
  then show ?thesis
    unfolding getUTCHours_def getUTCMinutes_def getUTCSeconds_def getUTCMilliseconds_def x_def [symmetric]
    by presburger
qed

lemma time_bounds:
  "0 \<le> getUTCHours t" "getUTCHours t < 24" "0 \<le> getUTCMinutes t" "getUTCMinutes t < 60"
  "0 \<le> getUTCSeconds t" "getUTCSeconds t < 60"
  "0 \<le> getUTCMilliseconds t" "getUTCMilliseconds t < 1000"
proof -
  have "0 \<le> TimeWithinDay t" "TimeWithinDay t < 86400000"
    by (simp_all add: TimeWithinDay_def msPerDay_def)
  then show "0 \<le> getUTCHours t" "getUTCHours t < 24" "0 \<le> getUTCMinutes t" "getUTCMinutes t < 60"
    "0 \<le> getUTCSeconds t" "getUTCSeconds t < 60"
    "0 \<le> getUTCMilliseconds t" "getUTCMilliseconds t < 1000"
    by (simp_all add: getUTCHours_def getUTCMinutes_def getUTCSeconds_def getUTCMilliseconds_def
        pos_imp_zdiv_nonneg_iff)
qed

lemma instant_split: "t = Day t * msPerDay + TimeWithinDay t"
  by (simp add: Day_def TimeWithinDay_def)

end
