(* ===== verification/Provider_Cooldown.thy ===== *)
theory Provider_Cooldown
  imports Decide JS_Date
begin

text \<open>
  \<^verbatim>\<open>libs/orchestrator/src/provider-cooldown.ts\<close>: a failed run the worker classified
  as a provider limit or capacity stop opens an admission hold for its pipeline, until the reset
  the CLI printed or for a fifteen-minute probe. Stored holds reach the deciders as unknown
  values: \<open>cooldownDoc\<close> has a field only where the value has a well-typed one.
\<close>

definition PROVIDER_LIMIT_PROBE_MS :: int where
  "PROVIDER_LIMIT_PROBE_MS = 15 * 60000"

definition MAX_RESET_MS :: int where
  "MAX_RESET_MS = 7 * 24 * 60 * 60000"

definition MONTHS :: "string list" where
  "MONTHS = [''Jan'', ''Feb'', ''Mar'', ''Apr'', ''May'', ''Jun'', ''Jul'', ''Aug'', ''Sep'', ''Oct'',
             ''Nov'', ''Dec'']"

record providerCooldown =
  cd_pipeline :: string
  cd_runId :: string
  cd_observedAt :: timestamp
  cd_expiresAt :: timestamp

record cooldownDoc =
  cx_pipeline :: "string option"
  cx_runId :: "string option"
  cx_observedAt :: "timestamp option"
  cx_expiresAt :: "timestamp option"

definition cooldownDocOf :: "providerCooldown \<Rightarrow> cooldownDoc" where
  "cooldownDocOf c = \<lparr>cx_pipeline = Some (cd_pipeline c), cx_runId = Some (cd_runId c),
     cx_observedAt = Some (cd_observedAt c), cx_expiresAt = Some (cd_expiresAt c)\<rparr>"

subsection \<open>The reset message\<close>

definition stripPrefix :: "string \<Rightarrow> string \<Rightarrow> string option" where
  "stripPrefix p s = (if take (length p) s = p then Some (drop (length p) s) else None)"

text \<open>\<^verbatim>\<open>\d{1,2}\<close> before a character that is no digit.\<close>

definition digits12 :: "string \<Rightarrow> (nat \<times> string) option" where
  "digits12 s = (let ds = takeWhile isDigit (take 2 s)
                 in if ds = [] then None else Some (readNat ds, drop (length ds) s))"

definition parseMinutes :: "string \<Rightarrow> nat option \<times> string" where
  "parseMinutes s =
     (case s of
        c # a # b # r \<Rightarrow> if c = CHR '':'' \<and> isDigit a \<and> isDigit b then (Some (readNat [a, b]), r)
                         else (None, s)
      | _ \<Rightarrow> (None, s))"

text \<open>Hour, optional minutes and whether it is \<open>pm\<close>, up to the end of the message.\<close>

definition parseResetClock :: "string \<Rightarrow> (nat \<times> nat option \<times> bool) option" where
  "parseResetClock s =
     (case digits12 s of
        None \<Rightarrow> None
      | Some (h, r) \<Rightarrow>
          (let (mi, r') = parseMinutes r
           in if r' = ''am (UTC)'' then Some (h, mi, False)
              else if r' = ''pm (UTC)'' then Some (h, mi, True)
              else None))"

text \<open>The optional \<open>Mon DD, \<close> group: the month's index, the day and what follows.\<close>

definition parseResetDate :: "string \<Rightarrow> (nat \<times> nat \<times> string) option" where
  "parseResetDate s =
     (case find (\<lambda>(i, m). take 3 s = m) (enumerate 0 MONTHS) of
        None \<Rightarrow> None
      | Some (i, m) \<Rightarrow>
          (case stripPrefix '' '' (drop 3 s) of
             None \<Rightarrow> None
           | Some r \<Rightarrow>
               (case digits12 r of
                  None \<Rightarrow> None
                | Some (d, r') \<Rightarrow> map_option (\<lambda>r''. (i, d, r'')) (stripPrefix '', '' r'))))"

type_synonym resetMatch = "(nat \<times> nat) option \<times> nat \<times> nat option \<times> bool"

definition parseReset :: "string \<Rightarrow> resetMatch option" where
  "parseReset s =
     (case stripPrefix ''resets '' s of
        None \<Rightarrow> None
      | Some r \<Rightarrow>
          (case parseResetDate r of
             Some (m, d, r') \<Rightarrow> map_option (Pair (Some (m, d))) (parseResetClock r')
           | None \<Rightarrow> map_option (Pair None) (parseResetClock r)))"

text \<open>\<^verbatim>\<open>RegExp.exec\<close> takes the leftmost match.\<close>

fun firstMatch :: "(string \<Rightarrow> 'a option) \<Rightarrow> string \<Rightarrow> 'a option" where
  "firstMatch f [] = f []"
| "firstMatch f (c # cs) = (case f (c # cs) of Some x \<Rightarrow> Some x | None \<Rightarrow> firstMatch f cs)"

definition claudeReset :: "string \<Rightarrow> timestamp \<Rightarrow> timestamp option" where
  "claudeReset message now =
     (case firstMatch parseReset message of
        None \<Rightarrow> None
      | Some (dated, hour, mins, pm) \<Rightarrow>
          (let minute = orElse mins 0
           in if hour < 1 \<or> hour > 12 \<or> minute > 59 then None
              else
                (let month = (case dated of None \<Rightarrow> getUTCMonth now | Some (m, _) \<Rightarrow> m);
                     day = (case dated of None \<Rightarrow> getUTCDate now | Some (_, d) \<Rightarrow> int d);
                     utcHour = int (hour mod 12) + (if pm then 12 else 0);
                     reset = DateUTC (getUTCFullYear now) month day utcHour (int minute)
                 in if getUTCMonth reset \<noteq> month \<or> getUTCDate reset \<noteq> day then None
                    else
                      (let reset' =
                         (if reset \<le> now
                          then (if dated = None then reset + 24 * 60 * 60000
                                else DateUTC (getUTCFullYear now + 1) month day utcHour (int minute))
                          else reset)
                       in if reset' > now \<and> reset' - now \<le> MAX_RESET_MS then Some reset' else None))))"

definition providerCooldownForRun :: "run \<Rightarrow> providerCooldown option" where
  "providerCooldownForRun r =
     (if r_state r \<noteq> Finished \<or> map_option rr_ok (r_result r) \<noteq> Some False then None
      else
        (let message = (case Option.bind (r_result r) rr_message of None \<Rightarrow> [] | Some m \<Rightarrow> jsTrim m)
         in if resultSummary r \<noteq> Some ''provider-limit'' \<and>
               resultSummary r \<noteq> Some ''provider-capacity''
            then None
            else
              (let now = r_updatedAt r;
                   reset = (if r_pipeline r = ''claude'' \<and>
                               resultSummary r \<noteq> Some ''provider-capacity''
                            then claudeReset message now else None)
               in Some \<lparr>cd_pipeline = r_pipeline r, cd_runId = r_runId r, cd_observedAt = now,
                        cd_expiresAt = orElse reset (now + PROVIDER_LIMIT_PROBE_MS)\<rparr>)))"

definition providerIsCoolingDown :: "cooldownDoc option \<Rightarrow> timestamp \<Rightarrow> bool" where
  "providerIsCoolingDown value now =
     (case Option.bind value cx_expiresAt of None \<Rightarrow> False | Some e \<Rightarrow> e > now)"

lemma claudeReset_bounds: "claudeReset m now = Some t \<Longrightarrow> now < t \<and> t - now \<le> MAX_RESET_MS"
  by (auto simp: claudeReset_def Let_def split: option.splits if_splits prod.splits)

lemma providerCooldownForRun_cases:
  assumes "providerCooldownForRun r = Some c"
  shows "r_state r = Finished" "map_option rr_ok (r_result r) = Some False"
    "cd_pipeline c = r_pipeline r" "cd_runId c = r_runId r" "cd_observedAt c = r_updatedAt r"
    "r_updatedAt r < cd_expiresAt c" "cd_expiresAt c - r_updatedAt r \<le> MAX_RESET_MS"
  using assms claudeReset_bounds
  by (fastforce simp: providerCooldownForRun_def Let_def PROVIDER_LIMIT_PROBE_MS_def MAX_RESET_MS_def
      orElse_def split: if_splits option.splits)+

end
