(* ===== verification/Queue_Admission.thy ===== *)
theory Queue_Admission
  imports Provider_Cooldown
begin

text \<open>
  Admission to the claim queue: \<^verbatim>\<open>queue-admission-status.ts\<close> (eligibility, ceilings and
  the status projection) and the selection functions of \<^verbatim>\<open>store.ts\<close> (least occupied
  provider first, then the durable 4:2:1 class turn, first in first out within a class).

  \<^verbatim>\<open>localeCompare\<close> on two printed instants is the order of the instants; the final
  tie-break on run identifiers between provider heads is never reached, because the heads belong
  to different pipelines and the preceding key already separates those.
\<close>

subsection \<open>Ceilings and eligibility\<close>

definition QUEUE_PIPELINE_MAX_LIVE_CLAIMS :: "string \<Rightarrow> nat option" where
  "QUEUE_PIPELINE_MAX_LIVE_CLAIMS p =
     map_of [(''codex'', 1), (''opencode'', 1), (''inbox-summary'', 3), (''handoff-summary'', 1)] p"

definition QUEUE_ADMISSION_READ_LIMIT :: nat where
  "QUEUE_ADMISSION_READ_LIMIT = 1000"

definition isQueueAdmissionCandidate :: "run \<Rightarrow> timestamp option \<Rightarrow> bool" where
  "isQueueAdmissionCandidate r now \<longleftrightarrow>
     isLive (r_state r) \<and> r_credentialOperation r = None \<and>
     (case r_queue r of
        None \<Rightarrow> False
      | Some q \<Rightarrow> q_state q = Queued \<and>
          (case now of
             None \<Rightarrow> True
           | Some n \<Rightarrow> (case q_deferredUntil q of None \<Rightarrow> True | Some d \<Rightarrow> d \<le> n)))"

definition liveClaim :: "run \<Rightarrow> bool" where
  "liveClaim r \<longleftrightarrow> queueStateOf r = Some Claimed \<and> (r_state r = Pending \<or> r_state r = Running)"

definition liveClaims :: "string \<Rightarrow> run list \<Rightarrow> nat" where
  "liveClaims p runs = length (filter (\<lambda>r. r_pipeline r = p \<and> liveClaim r) runs)"

text \<open>\<^verbatim>\<open>[...new Set(xs)]\<close>: first occurrences, in order.\<close>

definition uniq :: "'a list \<Rightarrow> 'a list" where
  "uniq xs = rev (remdups (rev xs))"

lemma set_uniq [simp]: "set (uniq xs) = set xs"
  by (simp add: uniq_def)

lemma distinct_uniq [simp]: "distinct (uniq xs)"
  by (simp add: uniq_def)

definition belowCeiling :: "string \<Rightarrow> nat \<Rightarrow> bool" where
  "belowCeiling p occupied =
     (case QUEUE_PIPELINE_MAX_LIVE_CLAIMS p of None \<Rightarrow> True | Some c \<Rightarrow> occupied < c)"

definition availableQueuePipelines ::
  "string list \<Rightarrow> (string \<Rightarrow> cooldownDoc option) \<Rightarrow> run list \<Rightarrow> timestamp \<Rightarrow> string list"
where
  "availableQueuePipelines pipelines cooldowns liveRuns now =
     filter (\<lambda>p. \<not> providerIsCoolingDown (cooldowns p) now \<and> belowCeiling p (liveClaims p liveRuns))
       (uniq pipelines)"

subsection \<open>The status projection\<close>

definition parseProviderCooldown :: "cooldownDoc option \<Rightarrow> string \<Rightarrow> string + providerCooldown option" where
  "parseProviderCooldown value pipeline =
     (case value of
        None \<Rightarrow> Inr None
      | Some c \<Rightarrow>
          (case (cx_runId c, cx_observedAt c, cx_expiresAt c) of
             (Some runId, Some observedAt, Some expiresAt) \<Rightarrow>
               if cx_pipeline c \<noteq> Some pipeline \<or> runId = [] then Inl ''Invalid provider cooldown''
               else Inr (Some \<lparr>cd_pipeline = pipeline, cd_runId = runId,
                               cd_observedAt = observedAt, cd_expiresAt = expiresAt\<rparr>)
           | _ \<Rightarrow> Inl ''Invalid provider cooldown''))"

record providerQueueAdmissionStatus =
  qs_pipeline :: string
  qs_queued :: nat
  qs_deferred :: nat
  qs_liveClaims :: nat
  qs_eligible :: nat
  qs_maxLiveClaims :: "nat option"
  qs_cooldown :: "providerCooldown option"

definition providerAdmission ::
  "run list \<Rightarrow> providerCooldown option \<Rightarrow> string \<Rightarrow> timestamp \<Rightarrow> providerQueueAdmissionStatus"
where
  "providerAdmission runs cooldown pipeline now =
     (let live = filter (\<lambda>r. r_pipeline r = pipeline \<and> isLive (r_state r)) runs;
          queued = filter (\<lambda>r. queueStateOf r = Some Queued) live;
          candidates = filter (\<lambda>r. isQueueAdmissionCandidate r (Some now)) queued;
          claims = length (filter (\<lambda>r. queueStateOf r = Some Claimed) live)
      in \<lparr>qs_pipeline = pipeline,
          qs_queued = length queued,
          qs_deferred = length queued - length candidates,
          qs_liveClaims = claims,
          qs_eligible =
            (if providerIsCoolingDown (map_option cooldownDocOf cooldown) now \<or>
                \<not> belowCeiling pipeline claims
             then 0 else length candidates),
          qs_maxLiveClaims = QUEUE_PIPELINE_MAX_LIVE_CLAIMS pipeline,
          qs_cooldown = cooldown\<rparr>)"

record queueAdmissionStatus =
  qa_observedAt :: timestamp
  qa_provenance :: string
  qa_providers :: "providerQueueAdmissionStatus list"

definition projectQueueAdmissionStatus ::
  "run list \<Rightarrow> (string \<times> providerCooldown) list \<Rightarrow> string list \<Rightarrow> timestamp \<Rightarrow> queueAdmissionStatus"
where
  "projectQueueAdmissionStatus runs cooldowns pipelines now =
     \<lparr>qa_observedAt = now,
      qa_provenance = ''orchestrator'',
      qa_providers = map (\<lambda>p. providerAdmission runs (map_of cooldowns p) p now) (uniq pipelines)\<rparr>"

subsection \<open>Class turns\<close>

definition QUEUE_PRIORITY_TURNS :: "queuePriority list" where
  "QUEUE_PRIORITY_TURNS = [Urgent, Urgent, Normal, Urgent, Urgent, Normal, Background]"

definition turnAt :: "nat \<Rightarrow> queuePriority" where
  "turnAt i = QUEUE_PRIORITY_TURNS ! (i mod length QUEUE_PRIORITY_TURNS)"

fun turnAfterFrom :: "nat \<Rightarrow> nat \<Rightarrow> queuePriority \<Rightarrow> nat option" where
  "turnAfterFrom 0 position priority = None"
| "turnAfterFrom (Suc steps) position priority =
     (let index = position mod length QUEUE_PRIORITY_TURNS
      in if QUEUE_PRIORITY_TURNS ! index = priority
         then Some ((index + 1) mod length QUEUE_PRIORITY_TURNS)
         else turnAfterFrom steps (position + 1) priority)"

text \<open>The loop over seven turns; \<open>None\<close> is the \<^verbatim>\<open>Invalid queue priority turn\<close> it
  throws when no turn has the class.\<close>

definition queuePriorityTurnAfter :: "nat \<Rightarrow> queuePriority \<Rightarrow> nat option" where
  "queuePriorityTurnAfter position priority =
     turnAfterFrom (length QUEUE_PRIORITY_TURNS) position priority"

definition priorityOf :: "run \<Rightarrow> queuePriority" where
  "priorityOf r = orElse (r_priority r) Normal"

fun selectFromTurns :: "nat \<Rightarrow> nat \<Rightarrow> run list \<Rightarrow> run option" where
  "selectFromTurns 0 position runs = None"
| "selectFromTurns (Suc steps) position runs =
     (case find (\<lambda>r. priorityOf r = turnAt position) runs of
        Some r \<Rightarrow> Some r
      | None \<Rightarrow> selectFromTurns steps (position + 1) runs)"

definition selectPriorityQueuedRun :: "run list \<Rightarrow> nat \<Rightarrow> run option" where
  "selectPriorityQueuedRun providerRuns position =
     selectFromTurns (length QUEUE_PRIORITY_TURNS) position providerRuns"

subsection \<open>Fair selection\<close>

definition fifoLess :: "run \<Rightarrow> run \<Rightarrow> bool" where
  "fifoLess a b \<longleftrightarrow>
     r_createdAt a < r_createdAt b \<or>
     (r_createdAt a = r_createdAt b \<and> strLess (r_runId a) (r_runId b))"

text \<open>The head of a provider's queue: the loop keeps the oldest run seen so far.\<close>

definition pushHead :: "(string \<times> run) list \<Rightarrow> run \<Rightarrow> (string \<times> run) list" where
  "pushHead heads r =
     (case map_of heads (r_pipeline r) of
        None \<Rightarrow> AList.update (r_pipeline r) r heads
      | Some current \<Rightarrow> if fifoLess r current then AList.update (r_pipeline r) r heads else heads)"

definition queueHeads :: "run list \<Rightarrow> (string \<times> run) list" where
  "queueHeads runs = foldl pushHead [] runs"

fun indexIn :: "'a list \<Rightarrow> 'a \<Rightarrow> nat" where
  "indexIn [] x = 0"
| "indexIn (y # ys) x = (if x = y then 0 else Suc (indexIn ys x))"

definition headLess :: "(string \<Rightarrow> nat) \<Rightarrow> string list \<Rightarrow> run \<Rightarrow> run \<Rightarrow> bool" where
  "headLess occupancy order a b \<longleftrightarrow>
     (let oa = occupancy (r_pipeline a); ob = occupancy (r_pipeline b);
          ia = indexIn order (r_pipeline a); ib = indexIn order (r_pipeline b)
      in oa < ob \<or>
         (oa = ob \<and>
          (r_createdAt a < r_createdAt b \<or>
           (r_createdAt a = r_createdAt b \<and>
            (ia < ib \<or> (ia = ib \<and> strLess (r_runId a) (r_runId b)))))))"

definition selectFairQueuedRun ::
  "run list \<Rightarrow> run list \<Rightarrow> string list \<Rightarrow> timestamp option \<Rightarrow> (string \<times> nat) list \<Rightarrow> run option"
where
  "selectFairQueuedRun queuedRuns liveRuns pipelines now priorityPositions =
     (let granted = uniq pipelines;
          occupancy = (\<lambda>p. liveClaims p liveRuns);
          candidates = filter (\<lambda>r. isQueueAdmissionCandidate r now \<and> r_pipeline r \<in> set granted) queuedRuns;
          heads = map snd (queueHeads candidates);
          open' = filter (\<lambda>h. belowCeiling (r_pipeline h) (occupancy (r_pipeline h))) heads
      in case sortBy (headLess occupancy granted) open' of
           [] \<Rightarrow> None
         | provider # _ \<Rightarrow>
             selectPriorityQueuedRun
               (sortBy fifoLess (filter (\<lambda>r. r_pipeline r = r_pipeline provider) candidates))
               (orElse (map_of priorityPositions (r_pipeline provider)) 0))"

end
