(* ===== verification/Provider_Routing.thy ===== *)
theory Provider_Routing
  imports Decide
begin

text \<open>
  \<^verbatim>\<open>libs/orchestrator/src/provider-routing.ts\<close>: an ordered label request may hand
  a task to another provider. Acceptance cancels a queued predecessor and mints its successor in
  one decision; a rejection is itself committed, as a refused routing record on the task.
\<close>

definition retainsPhysicalClaim :: "run \<Rightarrow> bool" where
  "retainsPhysicalClaim r \<longleftrightarrow>
     queueStateOf r = Some Claimed \<and> (isLive (r_state r) \<or> r_credentialOperation r \<noteq> None)"

record labelRequest =
  lr_requestedAt :: timestamp
  lr_actor :: string
  lr_allowProviderChange :: bool

definition routingRequest ::
  "requestRunInput \<Rightarrow> string \<Rightarrow> labelRequest \<Rightarrow> run option \<Rightarrow> providerRouting"
where
  "routingRequest input effective label latestRun =
     \<lparr>pr_requestId = ri_requestId input,
      pr_requestedAt = lr_requestedAt label,
      pr_actor = lr_actor label,
      pr_requestedPipeline = ri_pipeline input,
      pr_effectivePipeline = effective,
      pr_status = RoutingRefused,
      pr_reason = None,
      pr_fromRunId = map_option r_runId latestRun,
      pr_acceptedGeneration =
        Option.bind (Option.bind (ri_task input) t_providerRouting) pr_acceptedGeneration,
      pr_successorRunId = None\<rparr>"

definition rejectRouting :: "requestRunInput \<Rightarrow> providerRouting \<Rightarrow> string \<Rightarrow> outcome" where
  "rejectRouting input request why =
     (case ri_task input of
        None \<Rightarrow> refused WorkSpecMismatch
      | Some t \<Rightarrow> onlyTask (t\<lparr>t_providerRouting := Some (request\<lparr>pr_reason := Some why\<rparr>),
                              t_updatedAt := ri_now input\<rparr>))"

text \<open>The reason the request is rejected before the mutex is consulted, in the code's order.\<close>

definition routingObjection ::
  "requestRunInput \<Rightarrow> string \<Rightarrow> labelRequest \<Rightarrow> run option \<Rightarrow> run list option \<Rightarrow> string option"
where
  "routingObjection input effective label latestRun retainedClaims =
     (let accepted = Option.bind (Option.bind (ri_task input) t_providerRouting) pr_acceptedGeneration
      in if (case latestRun of
               None \<Rightarrow> False
             | Some l \<Rightarrow> Some (r_runId l) \<noteq> map_option ag_runId accepted \<and>
                         lr_requestedAt label \<le> r_createdAt l)
         then Some ''run-newer-than-label''
         else if ri_task input \<noteq> None \<and> ri_pipeline input \<noteq> effective \<and> \<not> lr_allowProviderChange label
         then Some ''unauthorized-provider-switch''
         else if ri_task input \<noteq> None \<and> latestRun = None
         then Some ''physical-ownership-unavailable''
         else if Option.bind (ri_task input) t_closedAt \<noteq> None then Some ''task-closed''
         else if ri_task input \<noteq> None \<and> retainedClaims = None
         then Some ''physical-ownership-unavailable''
         else if orElse retainedClaims [] \<noteq> []
         then Some (if isLive (case ri_activeRun input of None \<Rightarrow> Finished | Some a \<Rightarrow> r_state a)
                    then ''run-already-claimed'' else ''physical-retirement-required'')
         else if Option.bind (ri_activeRun input) r_credentialOperation \<noteq> None \<or>
                 Option.bind latestRun r_credentialOperation \<noteq> None
         then Some ''credential-operation-pending''
         else None)"

definition acceptRouting :: "decision \<Rightarrow> providerRouting \<Rightarrow> labelRequest \<Rightarrow> outcome" where
  "acceptRouting d request label =
     decidedRun d (\<lambda>s.
       Decided (d\<lparr>d_task := (d_task d)\<lparr>t_providerRouting := Some (request\<lparr>
                    pr_effectivePipeline := r_pipeline s,
                    pr_status := RoutingAccepted,
                    pr_acceptedGeneration := Some \<lparr>ag_runId = r_runId s,
                      ag_requestedAt = lr_requestedAt label, ag_pipeline = r_pipeline s\<rparr>\<rparr>)\<rparr>\<rparr>))"

text \<open>The handover of a queued predecessor; the label handoff publishes no cancellation
  outcome, so only the successor's effects are kept.\<close>

definition labelHandoff :: "requestRunInput \<Rightarrow> task \<Rightarrow> run \<Rightarrow> outcome" where
  "labelHandoff input t activeRun =
     (case cancelRun (ri_now input) t activeRun
             (Some (''Authorized label provider handoff to '' @ ri_pipeline input)) None None of
        Decided c \<Rightarrow>
          (case requestRun (input\<lparr>ri_task := Some (d_task c), ri_activeRun := None\<rparr>) of
             Decided n \<Rightarrow> decidedRun c (\<lambda>cr. Decided (n\<lparr>d_additionalRuns := [cr]\<rparr>))
           | other \<Rightarrow> other)
      | other \<Rightarrow> other)"

definition settleRouting ::
  "requestRunInput \<Rightarrow> providerRouting \<Rightarrow> labelRequest \<Rightarrow> outcome \<Rightarrow> outcome"
where
  "settleRouting input request label out =
     (case out of
        Decided d \<Rightarrow> acceptRouting d request label
      | Refused why _ \<Rightarrow> rejectRouting input request (showReason why)
      | Threw e \<Rightarrow> Threw e)"

definition decideLabelProviderRequest ::
  "requestRunInput \<Rightarrow> string \<Rightarrow> labelRequest \<Rightarrow> run option \<Rightarrow> run list option \<Rightarrow> outcome"
where
  "decideLabelProviderRequest input admittedPipeline label latestRun retainedClaims =
     (if isWorkAnchor (ri_taskId input) then refused NotNative
      else
        (let previous = Option.bind (ri_task input) t_providerRouting;
             request = routingRequest input admittedPipeline label latestRun;
             requestInput = input\<lparr>ri_priority :=
               orOpt (Option.bind (ri_activeRun input) r_priority)
                 (orOpt (Option.bind latestRun r_priority) (ri_priority input))\<rparr>
         in if \<not> validProviderRouting request then Threw (JsError ''ZodError'')
            else if map_option pr_requestId previous = Some (ri_requestId input)
            then (case ri_task input of
                    Some t \<Rightarrow> onlyTask t | None \<Rightarrow> refused WorkSpecMismatch)
            else if (case previous of
                       None \<Rightarrow> False | Some p \<Rightarrow> lr_requestedAt label \<le> pr_requestedAt p)
            then Refused StaleProviderRequest latestRun
            else (case routingObjection input admittedPipeline label latestRun retainedClaims of
              Some why \<Rightarrow> rejectRouting input request why
            | None \<Rightarrow>
                (case (ri_task input, liveRun (ri_activeRun input)) of
                   (Some t, Some a) \<Rightarrow>
                     if ri_pipeline input \<noteq> admittedPipeline
                     then if queueStateOf a \<noteq> Some Queued
                          then rejectRouting input request ''task-busy''
                          else settleRouting input request label (labelHandoff requestInput t a)
                     else settleRouting input request label (requestRun requestInput)
                 | _ \<Rightarrow> settleRouting input request label (requestRun requestInput)))))"

end
