(* ===== verification/Memory_Store.thy ===== *)
theory Memory_Store
  imports Queue_Admission Provider_Routing
begin

text \<open>
  \<^verbatim>\<open>libs/orchestrator/src/memory-store.ts\<close>, the reference implementation of the
  durability boundary \<^verbatim>\<open>OrchestratorStore\<close>: a record of insertion-ordered maps,
  one definition per method. A method that writes returns the new store beside its answer; a
  method that throws returns the store as the exception leaves it. Decision callbacks are
  arguments. \<^verbatim>\<open>structuredClone\<close> is the identity on values.

  Three things come from outside and are parameters: the collation
  \<^verbatim>\<open>localeCompare\<close> of identifiers, the claim identifiers
  \<^verbatim>\<open>crypto.randomUUID\<close> hands out (one per entry of a batch) and the string formats of the
  validation library. The keys built with \<^verbatim>\<open>JSON.stringify\<close> of a pair of strings are
  the pairs themselves.
\<close>

subsection \<open>State\<close>

record versionedTask =
  vt_task :: task
  vt_revision :: nat

record requestBinding =
  rb_bindingKey :: string
  rb_canonicalRequestId :: string

record storedBinding =
  sb_canonicalRequestId :: string
  sb_firstSourceRequestId :: string

record anchorProjectionEntry =
  ap_projection :: "githubAnchorProjection option"
  ap_refreshGeneration :: nat

record memStore =
  ms_trackerIssues :: "(string \<times> trackerIssueProjection) list"
  ms_tasks :: "(string \<times> versionedTask) list"
  ms_providerCooldowns :: "(string \<times> providerCooldown) list"
  ms_priorityPositions :: "(string \<times> nat) list"
  ms_runs :: "(string \<times> run) list"
  ms_sourceWorkIds :: "(string \<times> string) list"
  ms_sourceRevisions :: "(string \<times> workRevision) list"
  ms_requestRuns :: "((string \<times> string) \<times> string) list"
  ms_requestBindings :: "((string \<times> string) \<times> storedBinding) list"
  ms_outbox :: "(string \<times> outboxEntry) list"
  ms_githubAnchorProjections :: "(string \<times> anchorProjectionEntry) list"

definition emptyStore :: memStore where
  "emptyStore =
     \<lparr>ms_trackerIssues = [], ms_tasks = [], ms_providerCooldowns = [], ms_priorityPositions = [],
      ms_runs = [], ms_sourceWorkIds = [], ms_sourceRevisions = [], ms_requestRuns = [],
      ms_requestBindings = [], ms_outbox = [], ms_githubAnchorProjections = []\<rparr>"

text \<open>\<^verbatim>\<open>[...map.values()]\<close>\<close>

definition allRuns :: "memStore \<Rightarrow> run list" where
  "allRuns s = map snd (ms_runs s)"

definition readTask :: "memStore \<Rightarrow> taskId \<Rightarrow> versionedTask option" where
  "readTask s tid = map_of (ms_tasks s) (taskKey tid)"

definition readRun :: "memStore \<Rightarrow> string \<Rightarrow> run option" where
  "readRun s runId = map_of (ms_runs s) runId"

definition activeRunIn :: "memStore \<Rightarrow> versionedTask option \<Rightarrow> run option" where
  "activeRunIn s vt =
     (case Option.bind vt (t_activeRunId \<circ> vt_task) of None \<Rightarrow> None | Some a \<Rightarrow> map_of (ms_runs s) a)"

definition readActiveRun :: "memStore \<Rightarrow> taskId \<Rightarrow> run option" where
  "readActiveRun s tid = activeRunIn s (readTask s tid)"

definition listRuns :: "memStore \<Rightarrow> taskId \<Rightarrow> run list" where
  "listRuns s tid = filter (\<lambda>r. taskKey (r_task r) = taskKey tid) (allRuns s)"

subsection \<open>Tracker issues and source identities\<close>

definition readTrackerIssue :: "memStore \<Rightarrow> issueReference \<Rightarrow> trackerIssueProjection option" where
  "readTrackerIssue s ref = map_of (ms_trackerIssues s) (issueSourceKey ref)"

definition writeTrackerIssue ::
  "zodFormats \<Rightarrow> memStore \<Rightarrow> trackerIssueProjection \<Rightarrow> jsError + memStore"
where
  "writeTrackerIssue z s projection =
     (if \<not> validTrackerIssueProjection z projection then Inl (JsError ''ZodError'')
      else
          (let key = issueSourceKey (ti_reference (tp_issue projection))
           in if (case map_of (ms_trackerIssues s) key of
                    None \<Rightarrow> True
                  | Some previous \<Rightarrow>
                      ti_updatedAt (tp_issue projection) > ti_updatedAt (tp_issue previous))
              then Inr (s\<lparr>ms_trackerIssues := AList.update key projection (ms_trackerIssues s)\<rparr>)
              else Inr s))"

text \<open>\<^verbatim>\<open>encodeURIComponent\<close> on code units below 256: unreserved characters stay, every
  other one is its UTF-8 octets, percent-encoded.\<close>

definition uriUnreserved :: "char \<Rightarrow> bool" where
  "uriUnreserved c \<longleftrightarrow> isLower c \<or> isUpper c \<or> isDigit c \<or> c \<in> set ''-_.!~*()'' \<or> (of_char c :: nat) = 39"

definition upperHex :: "nat \<Rightarrow> char" where
  "upperHex d = (if d < 10 then char_of (48 + d) else char_of (55 + d))"

definition percentOctet :: "nat \<Rightarrow> string" where
  "percentOctet n = [CHR ''%'', upperHex (n div 16), upperHex (n mod 16)]"

definition encodeURIChar :: "char \<Rightarrow> string" where
  "encodeURIChar c =
     (let n = (of_char c :: nat)
      in if uriUnreserved c then [c]
         else if n < 128 then percentOctet n
         else percentOctet (192 + n div 64) @ percentOctet (128 + n mod 64))"

definition encodeURIComponent :: "string \<Rightarrow> string" where
  "encodeURIComponent s = concat (map encodeURIChar s)"

definition issueKeyLess :: "string \<Rightarrow> string \<Rightarrow> bool" where
  "issueKeyLess a b = strLess (encodeURIComponent a) (encodeURIComponent b)"

definition listTrackerIssues ::
  "memStore \<Rightarrow> nat \<Rightarrow> string option \<Rightarrow> trackerIssueProjection list \<times> string option"
where
  "listTrackerIssues s limit cursor =
     (let entries = filter (\<lambda>(k, _). case cursor of None \<Rightarrow> True | Some c \<Rightarrow> issueKeyLess c k)
                      (sortBy (\<lambda>(a, _) (b, _). issueKeyLess a b) (ms_trackerIssues s));
          page = take limit entries
      in (map snd page,
          if length entries > length page
          then (if page = [] then None else Some (fst (last page))) else None))"

definition readSourceWorkId :: "memStore \<Rightarrow> string \<Rightarrow> string option" where
  "readSourceWorkId s sourceKey = map_of (ms_sourceWorkIds s) sourceKey"

definition resolveSourceWorkId :: "memStore \<Rightarrow> string \<Rightarrow> string \<Rightarrow> memStore \<times> string" where
  "resolveSourceWorkId s sourceKey candidateWorkId =
     (let wid = orElse (map_of (ms_sourceWorkIds s) sourceKey) candidateWorkId
      in (s\<lparr>ms_sourceWorkIds := AList.update sourceKey wid (ms_sourceWorkIds s)\<rparr>, wid))"

subsection \<open>Applying a decision\<close>

definition requestKeyOf :: "run \<Rightarrow> string \<times> string" where
  "requestKeyOf r = (taskKey (r_task r), requestHistoryKey (r_requestSource r) (r_requestId r))"

definition writeRun :: "memStore \<Rightarrow> run \<Rightarrow> memStore" where
  "writeRun s r = s\<lparr>ms_runs := AList.update (r_runId r) r (ms_runs s),
                    ms_requestRuns := AList.update (requestKeyOf r) (r_runId r) (ms_requestRuns s)\<rparr>"

definition writeCooldown :: "memStore \<Rightarrow> run \<Rightarrow> memStore" where
  "writeCooldown s r =
     (case providerCooldownForRun r of
        None \<Rightarrow> s
      | Some c \<Rightarrow> s\<lparr>ms_providerCooldowns := AList.update (cd_pipeline c) c (ms_providerCooldowns s)\<rparr>)"

definition writeEntry :: "memStore \<Rightarrow> outboxEntry \<Rightarrow> memStore" where
  "writeEntry s e = s\<lparr>ms_outbox := AList.update (o_entryId e) e (ms_outbox s)\<rparr>"

text \<open>The runs a decision writes, in the order the store writes them.\<close>

definition writtenRuns :: "decision \<Rightarrow> run list" where
  "writtenRuns d = (case d_run d of None \<Rightarrow> [] | Some r \<Rightarrow> [r]) @ d_additionalRuns d"

definition applyDecision :: "memStore \<Rightarrow> decision \<Rightarrow> nat option \<Rightarrow> jsError + memStore" where
  "applyDecision s d expectedRevision =
     (let key = taskKey (t_task (d_task d))
      in if map_option vt_revision (map_of (ms_tasks s) key) \<noteq> expectedRevision
         then Inl (StoreConflict (t_task (d_task d)))
         else
           (let s1 = s\<lparr>ms_tasks := AList.update key
                         \<lparr>vt_task = d_task d, vt_revision = orElse expectedRevision 0 + 1\<rparr>
                         (ms_tasks s)\<rparr>;
                s2 = foldl writeRun s1 (writtenRuns d);
                s3 = foldl writeCooldown s2 (writtenRuns d)
            in Inr (foldl writeEntry s3 (d_outbox d))))"

text \<open>Committing the outcome of a decision callback against the snapshot it saw.\<close>

definition commitOutcome :: "memStore \<Rightarrow> outcome \<Rightarrow> nat option \<Rightarrow> memStore \<times> outcome" where
  "commitOutcome s out expectedRevision =
     (case out of
        Decided d \<Rightarrow>
          (case applyDecision s d expectedRevision of
             Inl e \<Rightarrow> (s, Threw e)
           | Inr s' \<Rightarrow> (s', Decided d))
      | other \<Rightarrow> (s, other))"

subsection \<open>The request transaction\<close>

definition bindingKeyOf :: "taskId \<Rightarrow> string \<Rightarrow> string \<times> string" where
  "bindingKeyOf tid key = (taskKey tid, key)"

definition resolveRequestBinding ::
  "string \<Rightarrow> requestBinding option \<Rightarrow> storedBinding option \<Rightarrow> jsError + string \<times> storedBinding option"
where
  "resolveRequestBinding requestId binding current =
     (case binding of
        None \<Rightarrow> Inr (requestId, None)
      | Some b \<Rightarrow>
          (case current of
             None \<Rightarrow> Inr (rb_canonicalRequestId b,
                          Some \<lparr>sb_canonicalRequestId = rb_canonicalRequestId b,
                                sb_firstSourceRequestId = requestId\<rparr>)
           | Some c \<Rightarrow>
               if sb_canonicalRequestId c \<noteq> rb_canonicalRequestId b
               then Inl (JsError ''request binding canonical identity mismatch'')
               else Inr (if sb_firstSourceRequestId c = requestId
                         then rb_canonicalRequestId b else requestId,
                         None)))"

definition PROVIDER_ROUTING_CLAIM_READ_LIMIT :: nat where
  "PROVIDER_ROUTING_CLAIM_READ_LIMIT = 1000"

record requestTransactionState =
  rs_latestRun :: "run option"
  rs_retainedClaims :: "run list option"
  rs_task :: "versionedTask option"
  rs_activeRun :: "run option"
  rs_requestId :: string
  rs_previousRun :: "run option"
  rs_previousSourceRevision :: "workRevision option"

record requestTransaction =
  rx_taskId :: taskId
  rx_requestId :: string
  rx_requestSource :: requestSource
  rx_requestBinding :: "requestBinding option"
  rx_readProviderRouting :: bool
  rx_sourceRevision :: "workRevision option"

definition retainedClaimsOf :: "memStore \<Rightarrow> taskId \<Rightarrow> run list option" where
  "retainedClaimsOf s tid =
     (let claimed = filter (\<lambda>r. taskKey (r_task r) = taskKey tid \<and> queueStateOf r = Some Claimed)
                      (allRuns s)
      in if length claimed \<le> PROVIDER_ROUTING_CLAIM_READ_LIMIT
         then Some (filter retainsPhysicalClaim claimed) else None)"

definition revisionKeyOf :: "taskId \<Rightarrow> workRevision \<Rightarrow> string" where
  "revisionKeyOf tid revn = taskKey tid @ '':'' @ wr_key revn"

definition requestSnapshot :: "memStore \<Rightarrow> requestTransaction \<Rightarrow> string \<Rightarrow> requestTransactionState" where
  "requestSnapshot s input requestId =
     (let vt = readTask s (rx_taskId input)
      in \<lparr>rs_latestRun =
            (case vt of
               Some v \<Rightarrow> if rx_readProviderRouting input
                         then readRun s (runIdFor (rx_taskId input) (t_runCount (vt_task v))) else None
             | None \<Rightarrow> None),
          rs_retainedClaims =
            (if rx_readProviderRouting input \<and> vt \<noteq> None
             then retainedClaimsOf s (rx_taskId input) else None),
          rs_task = vt,
          rs_activeRun = activeRunIn s vt,
          rs_requestId = requestId,
          rs_previousRun =
            Option.bind
              (map_of (ms_requestRuns s)
                 (taskKey (rx_taskId input), requestHistoryKey (rx_requestSource input) requestId))
              (readRun s),
          rs_previousSourceRevision =
            Option.bind (rx_sourceRevision input)
              (\<lambda>revn. map_of (ms_sourceRevisions s) (revisionKeyOf (rx_taskId input) revn))\<rparr>)"

definition recordBinding :: "memStore \<Rightarrow> requestTransaction \<Rightarrow> storedBinding option \<Rightarrow> memStore" where
  "recordBinding s input nextBinding =
     (case (nextBinding, rx_requestBinding input) of
        (Some nb, Some b) \<Rightarrow>
          s\<lparr>ms_requestBindings :=
              AList.update (bindingKeyOf (rx_taskId input) (rb_bindingKey b)) nb (ms_requestBindings s)\<rparr>
      | _ \<Rightarrow> s)"

definition recordRevision ::
  "memStore \<Rightarrow> requestTransaction \<Rightarrow> workRevision option \<Rightarrow> decision \<Rightarrow> memStore"
where
  "recordRevision s input previous d =
     (case rx_sourceRevision input of
        None \<Rightarrow> s
      | Some revn \<Rightarrow>
          if previous = None \<and> map_option wr_key (t_desiredRevision (d_task d)) = Some (wr_key revn)
          then s\<lparr>ms_sourceRevisions :=
                   AList.update (revisionKeyOf (rx_taskId input) revn) revn (ms_sourceRevisions s)\<rparr>
          else s)"

definition transactRequest ::
  "memStore \<Rightarrow> requestTransaction \<Rightarrow> (requestTransactionState \<Rightarrow> outcome) \<Rightarrow> memStore \<times> outcome"
where
  "transactRequest s input decide =
     (case resolveRequestBinding (rx_requestId input) (rx_requestBinding input)
             (Option.bind (rx_requestBinding input)
                (\<lambda>b. map_of (ms_requestBindings s)
                       (bindingKeyOf (rx_taskId input) (rb_bindingKey b)))) of
        Inl e \<Rightarrow> (s, Threw e)
      | Inr (requestId, nextBinding) \<Rightarrow>
          (let snap = requestSnapshot s input requestId
           in case decide snap of
                Threw e \<Rightarrow> (s, Threw e)
              | out \<Rightarrow>
                  (case commitOutcome (recordBinding s input nextBinding) out
                          (map_option vt_revision (rs_task snap)) of
                     (s', Decided d) \<Rightarrow>
                       (recordRevision s' input (rs_previousSourceRevision snap) d, Decided d)
                   | other \<Rightarrow> other)))"

subsection \<open>The run transaction\<close>

record queueEligibility =
  qe_cooldowns :: "(string \<times> providerCooldown option) list"
  qe_liveRuns :: "run list"

record runTransactionState =
  rt_task :: "versionedTask option"
  rt_run :: "run option"
  rt_queueEligibility :: "queueEligibility option"

definition readProviderCooldowns :: "memStore \<Rightarrow> string list \<Rightarrow> (string \<times> providerCooldown option) list" where
  "readProviderCooldowns s pipelines = map (\<lambda>p. (p, map_of (ms_providerCooldowns s) p)) pipelines"

definition queueEligibilityOf :: "memStore \<Rightarrow> string list \<Rightarrow> queueEligibility" where
  "queueEligibilityOf s pipelines =
     \<lparr>qe_cooldowns = readProviderCooldowns s pipelines,
      qe_liveRuns = filter (\<lambda>r. r_pipeline r \<in> set pipelines) (allRuns s)\<rparr>"

definition runSnapshot ::
  "memStore \<Rightarrow> string \<Rightarrow> string list option \<Rightarrow> (versionedTask option \<Rightarrow> run option \<Rightarrow> bool) option \<Rightarrow>
   runTransactionState"
where
  "runSnapshot s runId pipelines shouldRead =
     (let r = readRun s runId;
          vt = Option.bind r (\<lambda>r. readTask s (r_task r))
      in \<lparr>rt_task = vt,
          rt_run = r,
          rt_queueEligibility =
            (case pipelines of
               None \<Rightarrow> None
             | Some ps \<Rightarrow>
                 if map_option (\<lambda>f. f vt r) shouldRead = Some False then None
                 else Some (queueEligibilityOf s ps))\<rparr>)"

definition transactRun ::
  "memStore \<Rightarrow> string \<Rightarrow> string list option \<Rightarrow> (versionedTask option \<Rightarrow> run option \<Rightarrow> bool) option \<Rightarrow>
   (runTransactionState \<Rightarrow> outcome) \<Rightarrow> memStore \<times> outcome"
where
  "transactRun s runId pipelines shouldRead decide =
     (let snap = runSnapshot s runId pipelines shouldRead
      in commitOutcome s (decide snap) (map_option vt_revision (rt_task snap)))"

subsection \<open>Anchor projections\<close>

definition beginGithubAnchorProjectionRefresh :: "memStore \<Rightarrow> taskId \<Rightarrow> memStore \<times> nat" where
  "beginGithubAnchorProjectionRefresh s anchor =
     (let key = taskKey anchor;
          current = map_of (ms_githubAnchorProjections s) key;
          generation = (case current of None \<Rightarrow> 0 | Some c \<Rightarrow> ap_refreshGeneration c) + 1
      in (s\<lparr>ms_githubAnchorProjections := AList.update key
              \<lparr>ap_projection = Option.bind current ap_projection,
               ap_refreshGeneration = generation\<rparr> (ms_githubAnchorProjections s)\<rparr>,
          generation))"

definition applyGithubAnchorProjectionRefresh ::
  "memStore \<Rightarrow> taskId \<Rightarrow> nat \<Rightarrow> githubAnchorProjection option \<Rightarrow> memStore \<times> (jsError + bool)"
where
  "applyGithubAnchorProjectionRefresh s anchor generation projection =
     (let key = taskKey anchor
      in if map_option ap_refreshGeneration (map_of (ms_githubAnchorProjections s) key) \<noteq> Some generation
         then (s, Inr False)
         else (case projection of
           None \<Rightarrow>
             (s\<lparr>ms_githubAnchorProjections := AList.update key
                  \<lparr>ap_projection = None, ap_refreshGeneration = generation\<rparr>
                  (ms_githubAnchorProjections s)\<rparr>, Inr True)
         | Some p \<Rightarrow>
             if taskKey (gp_anchor p) \<noteq> key
             then (s, Inl (JsError ''GitHub anchor refresh projection does not match its fence''))
             else if \<not> validGithubAnchorProjection p then (s, Inl (JsError ''ZodError''))
             else
               (s\<lparr>ms_githubAnchorProjections := AList.update key
                    \<lparr>ap_projection = Some p, ap_refreshGeneration = generation\<rparr>
                    (ms_githubAnchorProjections s)\<rparr>, Inr True)))"

definition readGithubAnchorProjection :: "memStore \<Rightarrow> taskId \<Rightarrow> githubAnchorProjection option" where
  "readGithubAnchorProjection s anchor =
     Option.bind (map_of (ms_githubAnchorProjections s) (taskKey anchor)) ap_projection"

type_synonym collation = "string \<Rightarrow> string \<Rightarrow> int"

text \<open>Newest source update first, then descending task key.\<close>

definition anchorBefore :: "collation \<Rightarrow> (timestamp \<times> string) \<Rightarrow> (timestamp \<times> string) \<Rightarrow> bool" where
  "anchorBefore localeCompare a b \<longleftrightarrow>
     fst b < fst a \<or> (fst a = fst b \<and> localeCompare (snd b) (snd a) < 0)"

definition anchorPosition :: "githubAnchorProjection \<Rightarrow> timestamp \<times> string" where
  "anchorPosition p = (gp_sourceUpdatedAt p, taskKey (gp_anchor p))"

definition sortedOpenGithubAnchorProjections :: "collation \<Rightarrow> memStore \<Rightarrow> githubAnchorProjection list" where
  "sortedOpenGithubAnchorProjections localeCompare s =
     sortBy (\<lambda>a b. anchorBefore localeCompare (anchorPosition a) (anchorPosition b))
       (filter (\<lambda>p. gp_state p = IssueOpen)
          (concat (map (\<lambda>(_, e). case ap_projection e of None \<Rightarrow> [] | Some p \<Rightarrow> [p])
             (ms_githubAnchorProjections s))))"

definition listOpenGithubAnchorProjections :: "collation \<Rightarrow> memStore \<Rightarrow> nat \<Rightarrow> githubAnchorProjection list" where
  "listOpenGithubAnchorProjections localeCompare s limit =
     take limit (sortedOpenGithubAnchorProjections localeCompare s)"

fun findIndex :: "('a \<Rightarrow> bool) \<Rightarrow> 'a list \<Rightarrow> nat option" where
  "findIndex P [] = None"
| "findIndex P (x # xs) = (if P x then Some 0 else map_option Suc (findIndex P xs))"

definition listOpenGithubAnchorProjectionPage ::
  "collation \<Rightarrow> memStore \<Rightarrow> nat \<Rightarrow> (timestamp \<times> taskId) option \<Rightarrow>
   githubAnchorProjection list \<times> (timestamp \<times> taskId) option"
where
  "listOpenGithubAnchorProjectionPage localeCompare s limit cursor =
     (let all = sortedOpenGithubAnchorProjections localeCompare s;
          start = (case cursor of
                     None \<Rightarrow> 0
                   | Some (at, anchor) \<Rightarrow>
                       orElse (findIndex (\<lambda>p. at > gp_sourceUpdatedAt p \<or>
                                  (at = gp_sourceUpdatedAt p \<and>
                                   localeCompare (taskKey anchor) (taskKey (gp_anchor p)) > 0)) all)
                         (length all));
          projections = take limit (drop start all)
      in (projections,
          if projections \<noteq> [] \<and> start + limit < length all
          then Some (gp_sourceUpdatedAt (last projections), gp_anchor (last projections))
          else None))"

subsection \<open>Outbox\<close>

definition leaseExpired :: "timestamp \<Rightarrow> outboxEntry \<Rightarrow> bool" where
  "leaseExpired now e = (case o_state e of OutLeased _ exp \<Rightarrow> exp \<le> now | _ \<Rightarrow> False)"

definition outboxDue :: "timestamp \<Rightarrow> string list \<Rightarrow> outboxEntry \<Rightarrow> bool" where
  "outboxDue now excluded e \<longleftrightarrow>
     o_state e = OutPending \<and> o_entryId e \<notin> set excluded \<and>
     (case o_nextAttemptAt e of None \<Rightarrow> True | Some at \<Rightarrow> at \<le> now)"

definition claimFairer :: "outboxEntry \<Rightarrow> outboxEntry \<Rightarrow> bool" where
  "claimFairer a b \<longleftrightarrow> byOutboxClaimFairness a b < 0"

definition outboxEligible :: "memStore \<Rightarrow> timestamp \<Rightarrow> string list \<Rightarrow> outboxEntry list" where
  "outboxEligible s now excluded =
     (let entries = map snd (ms_outbox s)
      in filter (leaseExpired now) entries @ sortBy claimFairer (filter (outboxDue now excluded) entries))"

definition leaseEntry :: "timestamp \<Rightarrow> timestamp \<Rightarrow> string \<Rightarrow> outboxEntry \<Rightarrow> outboxEntry" where
  "leaseEntry now leaseExpiresAt claimId e =
     e\<lparr>o_state := OutLeased claimId leaseExpiresAt, o_attempts := o_attempts e + 1, o_updatedAt := now\<rparr>"

definition claimPendingOutbox ::
  "(nat \<Rightarrow> string) \<Rightarrow> memStore \<Rightarrow> nat \<Rightarrow> timestamp \<Rightarrow> timestamp \<Rightarrow> string list \<Rightarrow>
   memStore \<times> outboxEntry list"
where
  "claimPendingOutbox randomUUID s limit now leaseExpiresAt excluded =
     (let claimed = map (\<lambda>(i, e). leaseEntry now leaseExpiresAt (randomUUID i) e)
                      (enumerate 0 (take limit (outboxEligible s now excluded)))
      in (foldl writeEntry s claimed, claimed))"

definition settleOutbox :: "memStore \<Rightarrow> outboxSettlement \<Rightarrow> memStore \<times> bool" where
  "settleOutbox s input =
     (case settleOutboxEntry (map_of (ms_outbox s) (os_entryId input)) input of
        None \<Rightarrow> (s, False)
      | Some settled \<Rightarrow>
          (s\<lparr>ms_outbox := AList.update (os_entryId input) settled (ms_outbox s)\<rparr>, True))"

definition wakeOutbox :: "memStore \<Rightarrow> string \<Rightarrow> timestamp \<Rightarrow> memStore \<times> bool" where
  "wakeOutbox s entryId now =
     (case wakeOutboxEntry (map_of (ms_outbox s) entryId) now of
        None \<Rightarrow> (s, False)
      | Some woken \<Rightarrow> (s\<lparr>ms_outbox := AList.update entryId woken (ms_outbox s)\<rparr>, True))"

subsection \<open>Feeds\<close>

definition readWaitingDeliveryTasks :: "memStore \<Rightarrow> string \<Rightarrow> nat \<Rightarrow> versionedTask list" where
  "readWaitingDeliveryTasks s repo number =
     filter (\<lambda>v. case t_delivery (vt_task v) of
                   None \<Rightarrow> False
                 | Some d \<Rightarrow> dl_state d = DeliveryWaiting \<and> dl_repo d = repo \<and> dl_number d = number)
       (map snd (ms_tasks s))"

definition nativeWorkId :: "versionedTask \<Rightarrow> string option" where
  "nativeWorkId v = (case t_task (vt_task v) of WorkAnchor w \<Rightarrow> Some w | GithubAnchor _ _ \<Rightarrow> None)"

definition listNativeTasks ::
  "collation \<Rightarrow> memStore \<Rightarrow> nat option \<Rightarrow> string option \<Rightarrow> versionedTask list"
where
  "listNativeTasks localeCompare s limit before =
     take (orElse limit 200)
       (map snd
         (sortBy (\<lambda>(a, _) (b, _). localeCompare b a < 0)
           (filter (\<lambda>(w, _). case before of None \<Rightarrow> True | Some b \<Rightarrow> strLess w b)
             (concat (map (\<lambda>(_, v). case nativeWorkId v of None \<Rightarrow> [] | Some w \<Rightarrow> [(w, v)])
               (ms_tasks s))))))"

text \<open>Newest update first, then descending task key, as in the projection feed.\<close>

definition taskPosition :: "string \<times> versionedTask \<Rightarrow> timestamp \<times> string" where
  "taskPosition e = (t_updatedAt (vt_task (snd e)), fst e)"

definition listTasks ::
  "collation \<Rightarrow> memStore \<Rightarrow> nat option \<Rightarrow> (timestamp \<times> string) option \<Rightarrow> versionedTask list"
where
  "listTasks localeCompare s limit before =
     map snd
       (take (orElse limit 200)
         (filter (\<lambda>e. case before of None \<Rightarrow> True
                       | Some c \<Rightarrow> anchorBefore localeCompare c (taskPosition e))
           (sortBy (\<lambda>a b. anchorBefore localeCompare (taskPosition a) (taskPosition b)) (ms_tasks s))))"

definition listLiveRuns :: "memStore \<Rightarrow> run list" where
  "listLiveRuns s = filter (\<lambda>r. isLive (r_state r)) (allRuns s)"

definition listExpiredRuns :: "memStore \<Rightarrow> timestamp \<Rightarrow> run list" where
  "listExpiredRuns s now =
     filter (\<lambda>r. case runRecoveryDeadline r of None \<Rightarrow> False | Some d \<Rightarrow> d \<le> now) (listLiveRuns s)"

definition listRecentRuns :: "collation \<Rightarrow> memStore \<Rightarrow> nat \<Rightarrow> run list" where
  "listRecentRuns localeCompare s limit =
     take limit (sortBy (\<lambda>a b. anchorBefore localeCompare (r_updatedAt a, r_runId a) (r_updatedAt b, r_runId b))
       (allRuns s))"

definition readQueueAdmissionStatus ::
  "memStore \<Rightarrow> string list \<Rightarrow> timestamp \<Rightarrow> jsError + queueAdmissionStatus"
where
  "readQueueAdmissionStatus s pipelines now =
     (let runs = listLiveRuns s
      in if list_ex (\<lambda>st. length (filter (\<lambda>r. r_state r = st) runs) > QUEUE_ADMISSION_READ_LIMIT)
              [Pending, Running]
         then Inl (JsError ''Queue admission snapshot exceeds read bound'')
         else Inr (projectQueueAdmissionStatus runs (ms_providerCooldowns s) pipelines now))"

definition listCredentialOperations :: "collation \<Rightarrow> memStore \<Rightarrow> timestamp \<Rightarrow> nat \<Rightarrow> run list" where
  "listCredentialOperations localeCompare s now limit =
     map fst
       (take limit
         (sortBy (\<lambda>(a, ta) (b, tb). ta < tb \<or> (ta = tb \<and> localeCompare (r_runId a) (r_runId b) < 0))
           (concat (map (\<lambda>r. case r_credentialOperation r of
                               None \<Rightarrow> []
                             | Some op \<Rightarrow> if co_recoverAfter op \<le> now then [(r, co_recoverAfter op)] else [])
             (allRuns s)))))"

definition listQueuedRuns :: "memStore \<Rightarrow> nat option \<Rightarrow> run list" where
  "listQueuedRuns s limit =
     (let queued = sortBy (\<lambda>a b. r_createdAt a < r_createdAt b)
            (filter (\<lambda>r. queueStateOf r = Some Queued \<and> isLive (r_state r)) (allRuns s))
      in case limit of None \<Rightarrow> queued | Some n \<Rightarrow> take n queued)"

subsection \<open>The queue\<close>

definition putRun :: "memStore \<Rightarrow> run \<Rightarrow> memStore" where
  "putRun s r = s\<lparr>ms_runs := AList.update (r_runId r) r (ms_runs s)\<rparr>"

definition queuedQueue :: "timestamp option \<Rightarrow> runQueue" where
  "queuedQueue deferredUntil =
     \<lparr>q_state = Queued, q_placement = None, q_deferredUntil = deferredUntil, q_claimedAt = None,
      q_startDeadlineAt = None, q_startupPlacement = None, q_firstHeartbeatAt = None,
      q_providerProcessStartedAt = None, q_claimedBy = None, q_claimedBySubject = None,
      q_tokenHash = None\<rparr>"

definition enqueueRun :: "memStore \<Rightarrow> string \<Rightarrow> timestamp \<Rightarrow> memStore" where
  "enqueueRun s runId now =
     (case map_of (ms_runs s) runId of
        None \<Rightarrow> s
      | Some r \<Rightarrow>
          if r_queue r \<noteq> None then s
          else s\<lparr>ms_runs := AList.update runId
                   (r\<lparr>r_queue := Some (queuedQueue None), r_updatedAt := now\<rparr>) (ms_runs s)\<rparr>)"

text \<open>\<^verbatim>\<open>MemoryStore.claimQueuedRun\<close>: the transaction around the pure transition of the
  same name. The cursor advance cannot fail, every class having a turn; the branch is the
  exception the loop would raise.\<close>

definition storeClaimQueuedRun ::
  "memStore \<Rightarrow> string list \<Rightarrow> claimInput \<Rightarrow> memStore \<times> (jsError + run option)"
where
  "storeClaimQueuedRun s pipelines input =
     (let runs = allRuns s;
          eligible = filter (\<lambda>p. \<not> providerIsCoolingDown
                               (map_option cooldownDocOf (map_of (ms_providerCooldowns s) p))
                               (ci_now input)) pipelines
      in case selectFairQueuedRun runs runs eligible (Some (ci_now input)) (ms_priorityPositions s) of
           None \<Rightarrow> (s, Inr None)
         | Some candidate \<Rightarrow>
             (let claimed = claimQueuedRun candidate input;
                  s' = s\<lparr>ms_runs := AList.update (r_runId candidate) claimed (ms_runs s)\<rparr>
              in case queuePriorityTurnAfter
                        (orElse (map_of (ms_priorityPositions s) (r_pipeline candidate)) 0)
                        (priorityOf candidate) of
                   None \<Rightarrow> (s', Inl (JsError ''Invalid queue priority turn''))
                 | Some position \<Rightarrow>
                     (s'\<lparr>ms_priorityPositions :=
                           AList.update (r_pipeline candidate) position (ms_priorityPositions s)\<rparr>,
                      Inr (Some claimed))))"

definition releaseQueuedRunClaim ::
  "memStore \<Rightarrow> string \<Rightarrow> string \<Rightarrow> string \<Rightarrow> timestamp \<Rightarrow> timestamp option \<Rightarrow> memStore \<times> bool"
where
  "releaseQueuedRunClaim s runId claimedBy tokenHash now deferredUntil =
     (case map_of (ms_runs s) runId of
        None \<Rightarrow> (s, False)
      | Some r \<Rightarrow>
          if \<not> isLive (r_state r) \<or> r_credentialOperation r \<noteq> None \<or> \<not> isClaimant r tokenHash \<or>
             Option.bind (r_queue r) q_claimedBy \<noteq> Some claimedBy
          then (s, False)
          else (putRun s (r\<lparr>r_queue := Some (queuedQueue deferredUntil), r_updatedAt := now\<rparr>), True))"

end
