(* ===== verification/Provider_Fallback.thy ===== *)
theory Provider_Fallback
  imports Provider_Cooldown
begin

text \<open>
  \<^verbatim>\<open>libs/orchestrator/src/provider-fallback.ts\<close>: a run stopped by a provider limit
  hands its work to the next pipeline its policy allows, its principal may still use and no
  earlier attempt has tried; a queued run whose provider is held by another task's failure is
  rerouted the same way.
\<close>

definition selectFallbackPipeline :: "run \<Rightarrow> string list \<Rightarrow> string list \<Rightarrow> string option" where
  "selectFallbackPipeline r authorizedPipelines availablePipelines =
     (case r_providerFallback r of
        None \<Rightarrow> None
      | Some policy \<Rightarrow>
          find (\<lambda>p. p \<noteq> r_pipeline r \<and> p \<notin> set (pf_attemptedPipelines policy) \<and>
                    p \<in> set authorizedPipelines \<and> p \<in> set availablePipelines)
            (pf_allowedPipelines policy))"

definition freshParams :: "params option \<Rightarrow> params option" where
  "freshParams ps =
     map_option (filter (\<lambda>(k, v). k \<noteq> ''resumeSessionId'' \<and> k \<noteq> ''resumeTranscriptGcsUri'')) ps"

definition fallbackPolicyAfter ::
  "providerFallback \<Rightarrow> run \<Rightarrow> string \<Rightarrow> fallbackReason \<Rightarrow> string \<Rightarrow> providerFallback"
where
  "fallbackPolicyAfter policy previous pipeline why failureRunId =
     policy\<lparr>pf_attemptedPipelines := pf_attemptedPipelines policy @ [pipeline],
            pf_fromRunId := Some (r_runId previous),
            pf_trigger := Some \<lparr>ft_reason = why, ft_failureRunId = failureRunId,
                                ft_limitedPipeline = r_pipeline previous\<rparr>\<rparr>"

definition fallbackRequest ::
  "timestamp \<Rightarrow> task \<Rightarrow> run \<Rightarrow> providerFallback \<Rightarrow> string \<Rightarrow> fallbackReason \<Rightarrow> string \<Rightarrow> requestRunInput"
where
  "fallbackRequest now settledTask previous policy pipeline why failureRunId =
     \<lparr>ri_now = now,
      ri_task = Some settledTask,
      ri_taskId = r_task previous,
      ri_activeRun = None,
      ri_requestId = ''fallback:'' @ r_runId previous,
      ri_requestSource = Some ProviderFallbackRequested,
      ri_pipeline = pipeline,
      ri_priority = Some (orElse (r_priority previous) Normal),
      ri_params = freshParams (r_params previous),
      ri_intervention = None,
      ri_work = None,
      ri_issue = Some (r_issue previous),
      ri_providerFallback =
        Some (FallbackPolicy (fallbackPolicyAfter policy previous pipeline why failureRunId)),
      ri_sourceRevision = None,
      ri_revisionAttempt = None\<rparr>"

definition successor ::
  "timestamp \<Rightarrow> decision \<Rightarrow> string \<Rightarrow> fallbackReason \<Rightarrow> string \<Rightarrow> outcome"
where
  "successor now settled pipeline why failureRunId =
     decidedRun settled (\<lambda>previous.
       case r_providerFallback previous of
         None \<Rightarrow> refused WorkSpecMismatch
       | Some policy \<Rightarrow>
           (case requestRun
                   (fallbackRequest now (d_task settled) previous policy pipeline why failureRunId) of
              Decided next \<Rightarrow>
                decidedRun next (\<lambda>nr.
                  Decided \<lparr>d_task = d_task next, d_run = Some previous, d_additionalRuns = [nr],
                           d_outbox = d_outbox settled @ d_outbox next\<rparr>)
            | other \<Rightarrow> other))"

definition settleProviderFallback ::
  "timestamp \<Rightarrow> decision \<Rightarrow> string list \<Rightarrow> string list \<Rightarrow> outcome"
where
  "settleProviderFallback now settled authorizedPipelines availablePipelines =
     decidedRun settled (\<lambda>previous.
       case providerCooldownForRun previous of
         None \<Rightarrow> Decided settled
       | Some _ \<Rightarrow>
           (case orOpt (selectFallbackPipeline previous authorizedPipelines availablePipelines)
                       (selectFallbackPipeline previous authorizedPipelines authorizedPipelines) of
              None \<Rightarrow> Decided settled
            | Some pipeline \<Rightarrow>
                successor now settled pipeline ProviderLimit (r_runId previous)))"

definition reportResultWithFallback ::
  "timestamp \<Rightarrow> task \<Rightarrow> run \<Rightarrow> runResult \<Rightarrow> string option \<Rightarrow> string list \<Rightarrow> string list \<Rightarrow> outcome"
where
  "reportResultWithFallback now t r result claimFingerprint authorizedPipelines availablePipelines =
     (case reportResult now t r claimFingerprint result of
        Decided settled \<Rightarrow>
          settleProviderFallback now settled authorizedPipelines availablePipelines
      | other \<Rightarrow> other)"

definition reroutedRun :: "timestamp \<Rightarrow> run \<Rightarrow> string \<Rightarrow> string \<Rightarrow> run" where
  "reroutedRun now r failureRunId pipeline =
     r\<lparr>r_state := Canceled,
       r_updatedAt := now,
       r_events := r_events r @
         [plainEvent now Canceled ByProviderFallback
            (Some (''Provider cooldown from '' @ failureRunId @ ''; fresh fallback to '' @ pipeline))]\<rparr>"

text \<open>The hold that justifies a reroute: active, naming its source run and this pipeline.\<close>

definition rerouteCause :: "cooldownDoc option \<Rightarrow> run \<Rightarrow> timestamp \<Rightarrow> string option" where
  "rerouteCause cooldown r now =
     (case cooldown of
        None \<Rightarrow> None
      | Some c \<Rightarrow>
          if \<not> providerIsCoolingDown (Some c) now then None
          else (case cx_runId c of
                  None \<Rightarrow> None
                | Some f \<Rightarrow>
                    if f = [] \<or> length f > RUN_ID_MAX_LENGTH \<or> cx_pipeline c \<noteq> Some (r_pipeline r)
                    then None else Some f))"

definition rerouteQueuedRun ::
  "timestamp \<Rightarrow> task \<Rightarrow> run \<Rightarrow> cooldownDoc option \<Rightarrow> string list \<Rightarrow> string list \<Rightarrow> outcome"
where
  "rerouteQueuedRun now t r cooldown authorizedPipelines availablePipelines =
     (if t_activeRunId t \<noteq> Some (r_runId r) then refused StaleLease
      else if queueStateOf r = Some Claimed then refused RunAlreadyClaimed
      else if queueStateOf r \<noteq> Some Queued \<or> (r_state r \<noteq> Pending \<and> r_state r \<noteq> Running) \<or>
              (case Option.bind (r_queue r) q_deferredUntil of None \<Rightarrow> False | Some d \<Rightarrow> d > now)
      then refused RunNotLive
      else (case rerouteCause cooldown r now of
        None \<Rightarrow> refused StaleLease
      | Some failureRunId \<Rightarrow>
          (case selectFallbackPipeline r authorizedPipelines availablePipelines of
             None \<Rightarrow> refused WorkSpecMismatch
           | Some pipeline \<Rightarrow>
               successor now
                 \<lparr>d_task = t\<lparr>t_activeRunId := None, t_updatedAt := now\<rparr>,
                  d_run = Some (reroutedRun now r failureRunId pipeline),
                  d_additionalRuns = [],
                  d_outbox = []\<rparr>
                 pipeline ProviderCooldownReason failureRunId)))"

end
