(* ===== verification/Credential.thy ===== *)
theory Credential
  imports Decide
begin

text \<open>
  \<^verbatim>\<open>libs/orchestrator/src/credential-operation.ts\<close>: the recoverable external
  compare-and-set on the shared Codex credential. A run reserves one operation at a time;
  each external write is prepared under the next sequence number before it is attempted, and an
  operation finishes only with no write outstanding and, for cleanup or a deferred completion,
  with proof that the lease was retired at exactly that sequence.
\<close>

definition CREDENTIAL_RECOVERY_DELAY_MS :: int where
  "CREDENTIAL_RECOVERY_DELAY_MS = 5 * 60000"

definition credentialRecoverAfter :: "timestamp \<Rightarrow> timestamp" where
  "credentialRecoverAfter now = now + CREDENTIAL_RECOVERY_DELAY_MS"

definition reserveCredentialOperation ::
  "timestamp \<Rightarrow> task \<Rightarrow> run \<Rightarrow> string \<Rightarrow> string \<Rightarrow> credentialKind \<Rightarrow> outcome"
where
  "reserveCredentialOperation now t r claimFingerprint opId kind =
     (if \<not> usesCodexCredentials r \<or> \<not> isClaimant r claimFingerprint then refused NotClaimant
      else if r_credentialOperation r \<noteq> None then refused CredentialOperationPending
      else if kind \<noteq> CredCleanup \<and> \<not> isLive (r_state r) then refused RunNotLive
      else if kind \<noteq> CredCleanup \<and>
              (t_activeRunId t \<noteq> Some (r_runId r) \<or> recoveryDeadlineElapsed r now)
      then refused StaleLease
      else taskAndRun t
             (r\<lparr>r_credentialOperation := Some
                  \<lparr>co_id = opId, co_kind = kind, co_claimFingerprint = claimFingerprint,
                   co_startedAt = now, co_mutationSequence = 0,
                   co_recoverAfter = credentialRecoverAfter now, co_mutation = None\<rparr>,
                r_updatedAt := now\<rparr>))"

datatype credentialChange =
    Prepare credentialMutation
  | Acknowledge string "credentialWriteReceipt option"
  | RetryRecovery
  | Finish "bool option" "nat option"

definition mutationIdOf :: "credentialMutation \<Rightarrow> string" where
  "mutationIdOf m = cm_id m"

text \<open>Why a change is refused once its operation and claimant are established.\<close>

fun credentialObjection :: "run \<Rightarrow> credentialOperation \<Rightarrow> credentialChange \<Rightarrow> reason option" where
  "credentialObjection r op (Prepare m) =
     (if mutationIdOf m \<noteq> co_id op @ '':'' @ showNat (co_mutationSequence op + 1) \<or>
         co_mutationSequence op \<ge> 100
      then Some NotClaimant
      else if co_mutation op \<noteq> None then Some CredentialOperationPending else None)"
| "credentialObjection r op (Acknowledge mutationId _) =
     (if map_option mutationIdOf (co_mutation op) \<noteq> Some mutationId then Some NotClaimant else None)"
| "credentialObjection r op RetryRecovery = None"
| "credentialObjection r op (Finish _ leaseRetiredAtSequence) =
     (if co_mutation op \<noteq> None then Some CredentialOperationPending
      else if (co_kind op = CredCleanup \<or> r_credentialPendingResult r \<noteq> None) \<and>
              leaseRetiredAtSequence \<noteq> Some (co_mutationSequence op)
      then Some CredentialOperationPending else None)"

text \<open>An executor loss is already physical-exit evidence: finishing a recipe's cleanup retires
  its claim.\<close>

definition retiresOnCleanup :: "run \<Rightarrow> credentialOperation \<Rightarrow> bool" where
  "retiresOnCleanup r op \<longleftrightarrow>
     co_kind op = CredCleanup \<and> r_pipeline r = ''goose'' \<and> \<not> isLive (r_state r) \<and>
     r_events r \<noteq> [] \<and> ev_by (last (r_events r)) = ByExecutor \<and>
     (r_state r = Lost \<or>
      ev_note (last (r_events r)) = Some RECIPE_EXIT_PENDING_CREDENTIAL_CLEANUP) \<and>
     queueStateOf r = Some Claimed"

fun credentialApplied ::
  "timestamp \<Rightarrow> run \<Rightarrow> credentialOperation \<Rightarrow> string \<Rightarrow> credentialChange \<Rightarrow> run"
where
  "credentialApplied now r op claimFingerprint (Prepare m) =
     r\<lparr>r_credentialOperation := Some (op\<lparr>co_mutation := Some m,
                                        co_mutationSequence := co_mutationSequence op + 1\<rparr>)\<rparr>"
| "credentialApplied now r op claimFingerprint (Acknowledge _ receipt) =
     r\<lparr>r_credentialOperation := Some (op\<lparr>co_mutation := None\<rparr>),
       r_credentialWriteReceipt := orOpt receipt (r_credentialWriteReceipt r)\<rparr>"
| "credentialApplied now r op claimFingerprint RetryRecovery =
     r\<lparr>r_credentialOperation := Some (op\<lparr>co_recoverAfter := credentialRecoverAfter now\<rparr>)\<rparr>"
| "credentialApplied now r op claimFingerprint (Finish restored _) =
     r\<lparr>r_credentialOperation := None,
       r_queue := (if retiresOnCleanup r op
                   then map_option (q_state_update (\<lambda>_. Retired)) (r_queue r) else r_queue r),
       r_credentialRestoredClaimFingerprint :=
         (if restored = Some True then Some claimFingerprint
          else r_credentialRestoredClaimFingerprint r)\<rparr>"

definition changeCredentialOperation ::
  "timestamp \<Rightarrow> task \<Rightarrow> run \<Rightarrow> string \<Rightarrow> string \<Rightarrow> credentialChange \<Rightarrow> outcome"
where
  "changeCredentialOperation now t r opId claimFingerprint change =
     (case r_credentialOperation r of
        None \<Rightarrow> refused NotClaimant
      | Some op \<Rightarrow>
          if co_id op \<noteq> opId \<or> co_claimFingerprint op \<noteq> claimFingerprint \<or>
             \<not> isClaimant r claimFingerprint
          then refused NotClaimant
          else (case credentialObjection r op change of
            Some why \<Rightarrow> refused why
          | None \<Rightarrow>
              (let next = credentialApplied now r op claimFingerprint change
               in case (change, r_credentialPendingResult next) of
                    (Finish _ _, Some p) \<Rightarrow>
                      reportResult now t next (Some (cp_claimFingerprint p)) (cp_result p)
                  | _ \<Rightarrow> taskAndRun t (next\<lparr>r_updatedAt := now\<rparr>))))"

end
