(* ===== verification/Delivery.thy ===== *)
theory Delivery
  imports Decide
begin

text \<open>
  \<^verbatim>\<open>libs/orchestrator/src/delivery.ts\<close>: the delivery binding of a finished run, moved
  by exact observations of its pull request. A correction mints one authorized successor and keeps
  the binding.
\<close>

datatype deliveryObservation =
    ObsWaiting (ob_head: string)
  | ObsMerged (ob_head: string) (ob_mergeCommit: string)
  | ObsWithdrawn (ob_head: string)
  | ObsRevision (ob_head: string) (ob_newHead: string)
  | ObsCorrection (ob_head: string) (ob_reason: string)

definition putParam :: "string \<Rightarrow> string \<Rightarrow> params \<Rightarrow> params" where
  "putParam k v ps = AList.update k v ps"

definition correctionContext :: "deliveryBinding \<Rightarrow> string \<Rightarrow> string" where
  "correctionContext binding why =
     take 16384 (''Correct delivery https://github.com/'' @ dl_repo binding @ ''/pull/'' @
       showNat (dl_number binding) @ '' at '' @ dl_head binding @ ''. '' @ why)"

definition correctionRequest :: "timestamp \<Rightarrow> task \<Rightarrow> run \<Rightarrow> deliveryBinding \<Rightarrow> string \<Rightarrow> requestRunInput" where
  "correctionRequest now t r binding why =
     \<lparr>ri_now = now,
      ri_task = Some (t\<lparr>t_delivery := None\<rparr>),
      ri_taskId = t_task t,
      ri_activeRun = None,
      ri_requestId = ''delivery:'' @ r_runId r,
      ri_requestSource = Some DeliveryCorrection,
      ri_pipeline = r_pipeline r,
      ri_priority = r_priority r,
      ri_params = Some (putParam ''deliveryPredecessor'' (r_runId r)
                    (putParam ''context'' (correctionContext binding why)
                      (putParam ''mode'' ''implement'' (orElse (r_params r) [])))),
      ri_intervention = None,
      ri_work = None,
      ri_issue = None,
      ri_providerFallback = map_option FallbackPolicy (r_providerFallback r),
      ri_sourceRevision = None,
      ri_revisionAttempt = None\<rparr>"

definition deliveryStale :: "task \<Rightarrow> run \<Rightarrow> deliveryBinding \<Rightarrow> deliveryObservation \<Rightarrow> bool" where
  "deliveryStale t r binding observation \<longleftrightarrow>
     dl_runId binding \<noteq> r_runId r \<or>
     map_option dl_head (r_delivery r) \<noteq> Some (dl_head binding) \<or>
     dl_head binding \<noteq> ob_head observation \<or>
     t_activeRunId t \<noteq> None \<or>
     r_state r \<noteq> Finished \<or>
     map_option rr_ok (r_result r) \<noteq> Some True"

definition rebind :: "timestamp \<Rightarrow> task \<Rightarrow> run \<Rightarrow> deliveryBinding option \<Rightarrow> outboxEntry list \<Rightarrow> outcome" where
  "rebind now t r delivery entries =
     Decided \<lparr>d_task = t\<lparr>t_delivery := delivery, t_updatedAt := now\<rparr>,
              d_run = Some (r\<lparr>r_delivery := delivery, r_updatedAt := now\<rparr>),
              d_additionalRuns = [],
              d_outbox = entries\<rparr>"

definition advanceDelivery ::
  "timestamp \<Rightarrow> task \<Rightarrow> run \<Rightarrow> deliveryObservation \<Rightarrow> bool \<Rightarrow> outcome"
where
  "advanceDelivery now t r observation correctionAuthorized =
     (if t_closedAt t \<noteq> None then refused TaskClosed
      else (case t_delivery t of
        None \<Rightarrow> refused StaleLease
      | Some binding \<Rightarrow>
          if deliveryStale t r binding observation then refused StaleLease
          else if dl_state binding \<noteq> DeliveryWaiting then taskAndRun t r
          else (case observation of
            ObsWaiting _ \<Rightarrow> taskAndRun t r
          | ObsRevision _ newHead \<Rightarrow>
              rebind now t r (Some (binding\<lparr>dl_head := newHead, dl_observedAt := now\<rparr>)) []
          | ObsMerged _ mergeCommit \<Rightarrow>
              (let delivery = binding\<lparr>dl_state := DeliveryComplete,
                                      dl_mergeCommit := Some mergeCommit, dl_observedAt := now\<rparr>
               in rebind now t r (Some delivery) (finalDeliveryOutbox t r delivery now))
          | ObsWithdrawn _ \<Rightarrow> rebind now t r None []
          | ObsCorrection _ why \<Rightarrow>
              if \<not> correctionAuthorized then refused NotClaimant
              else if dl_correctionRunId binding \<noteq> None then refused RunNotLive
              else (case requestRun (correctionRequest now t r binding why) of
                Decided s \<Rightarrow>
                  decidedRun s (\<lambda>correction.
                    Decided (s\<lparr>d_task := (d_task s)\<lparr>t_delivery :=
                                 Some (binding\<lparr>dl_correctionRunId := Some (r_runId correction)\<rparr>)\<rparr>,
                               d_run := Some r,
                               d_additionalRuns := [correction]\<rparr>))
              | other \<Rightarrow> other))))"

end
