(* ===== verification/Orchestrator.thy ===== *)
theory Orchestrator
  imports Memory_Store Provider_Fallback Credential Delivery
begin

text \<open>
  \<^verbatim>\<open>libs/orchestrator/src/orchestrator.ts\<close>: the class where the clock, the store and
  the pure decisions meet, over the reference store. One definition per method; a method returns
  the store it leaves and its outcome.

  The clock is passed as the readings a method takes. The two compare-and-set methods
  (\<^verbatim>\<open>#once\<close>, \<^verbatim>\<open>transact\<close>) suspend between their reads and their
  write, so they take the interference of other clients as an argument: \<open>env i\<close> is what is
  committed while the \<open>i\<close>th \<^verbatim>\<open>await\<close> is suspended. The store's own
  transactions run without suspension, as in the reference store.
\<close>

subsection \<open>Requesting\<close>

record fallbackAuthority =
  fa_pipelines :: "string list"
  fa_allowedPipelines :: "task \<Rightarrow> run \<Rightarrow> string list"

record requestInput =
  rq_taskId :: taskId
  rq_requestId :: string
  rq_requestSource :: "requestSource option"
  rq_pipeline :: string
  rq_priority :: "queuePriority option"
  rq_params :: "params option"
  rq_intervention :: "operationalIntervention option"
  rq_work :: "workPayload option"
  rq_issue :: "trackerIssue option"
  rq_sourceRevision :: "workRevision option"
  rq_providerFallback :: "providerFallbackRequest option"
  rq_providerFallbackForPipeline :: "(string \<Rightarrow> providerFallbackRequest option) option"
  rq_requestBinding :: "requestBinding option"
  rq_replaceQueuedRunId :: "string option"
  rq_labelProviderRequest :: "labelRequest option"
  rq_pipelineForStoredTask :: "(task \<Rightarrow> string) option"
  rq_useEffectivePipeline :: bool
  rq_expectedEffectivePipeline :: "string option"
  rq_isPipelineAuthorized :: "(string \<Rightarrow> bool) option"
  rq_isStoredWorkCompatible :: "(workPayload \<Rightarrow> task \<Rightarrow> bool) option"

definition storedPipeline :: "requestInput \<Rightarrow> task option \<Rightarrow> string" where
  "storedPipeline input t =
     (case (t, rq_pipelineForStoredTask input) of
        (Some tk, Some f) \<Rightarrow> f tk
      | _ \<Rightarrow> rq_pipeline input)"

definition admittedPipeline :: "requestInput \<Rightarrow> task option \<Rightarrow> string" where
  "admittedPipeline input t =
     orElse (map_option ag_pipeline (Option.bind (Option.bind t t_providerRouting) pr_acceptedGeneration))
       (storedPipeline input t)"

definition requestedPipeline :: "requestInput \<Rightarrow> task option \<Rightarrow> string" where
  "requestedPipeline input t =
     (if rq_useEffectivePipeline input then admittedPipeline input t else rq_pipeline input)"

text \<open>The refusals that precede the mutex, in the code's order: work compatibility, an already
  admitted revision, pipeline expectation and grant, and the durable request history.\<close>

definition requestPrecheck :: "requestInput \<Rightarrow> requestTransactionState \<Rightarrow> outcome option" where
  "requestPrecheck input st =
     (let t = map_option vt_task (rs_task st);
          pipeline = requestedPipeline input t
      in if (case (t, rq_isStoredWorkCompatible input) of
               (Some tk, Some f) \<Rightarrow> \<not> f (t_work tk) tk
             | _ \<Rightarrow> False)
         then Some (refused WorkSpecMismatch)
         else if rs_previousSourceRevision st \<noteq> None
         then if rs_previousSourceRevision st \<noteq> rq_sourceRevision input
              then Some (refused WorkSpecMismatch)
              else Some (Refused DuplicateRequest (rs_previousRun st))
         else if rq_expectedEffectivePipeline input \<noteq> None \<and>
                 rq_expectedEffectivePipeline input \<noteq> Some pipeline
         then Some (refused WorkSpecMismatch)
         else if (case rq_isPipelineAuthorized input of
                    None \<Rightarrow> False
                  | Some f \<Rightarrow> \<not> f (orElse (map_option r_pipeline (rs_previousRun st)) pipeline))
         then Some (refused PipelineForbidden)
         else if rs_previousRun st \<noteq> None
         then Some (Refused DuplicateRequest (rs_previousRun st))
         else None)"

definition requestArgs :: "timestamp \<Rightarrow> requestInput \<Rightarrow> requestTransactionState \<Rightarrow> requestRunInput" where
  "requestArgs now input st =
     (let t = map_option vt_task (rs_task st);
          pipeline = requestedPipeline input t
      in \<lparr>ri_now = now,
          ri_task = t,
          ri_taskId = rq_taskId input,
          ri_activeRun = rs_activeRun st,
          ri_requestId = rs_requestId st,
          ri_requestSource = Some (orElse (rq_requestSource input) Caller),
          ri_pipeline = pipeline,
          ri_priority =
            orOpt (rq_priority input)
              (if rq_replaceQueuedRunId input \<noteq> None \<and> rq_replaceQueuedRunId input \<noteq> Some []
               then Option.bind (rs_activeRun st) r_priority else None),
          ri_params = rq_params input,
          ri_intervention = rq_intervention input,
          ri_work = rq_work input,
          ri_issue = map_option Some (rq_issue input),
          ri_providerFallback =
            map_option FallbackRequest
              (case rq_providerFallbackForPipeline input of
                 None \<Rightarrow> rq_providerFallback input
               | Some f \<Rightarrow> f pipeline),
          ri_sourceRevision = None,
          ri_revisionAttempt = None\<rparr>)"

text \<open>Replacing one exact unclaimed attempt by another provider's.\<close>

definition replaceQueued :: "requestInput \<Rightarrow> requestRunInput \<Rightarrow> string \<Rightarrow> outcome" where
  "replaceQueued input args runId =
     (case (ri_task args, ri_activeRun args) of
        (Some t, Some a) \<Rightarrow>
          if r_runId a \<noteq> runId then refused StaleLease
          else if queueStateOf a = Some Claimed then refused RunAlreadyClaimed
          else if queueStateOf a \<noteq> Some Queued \<or> r_pipeline a = rq_pipeline input
          then refused TaskBusy
          else cancelThenRequest
                 (cancelRun (ri_now args) t a
                    (Some (''queued provider switch to '' @ rq_pipeline input)) None None)
                 args
      | _ \<Rightarrow> refused StaleLease)"

definition decideRequest :: "timestamp \<Rightarrow> requestInput \<Rightarrow> requestTransactionState \<Rightarrow> outcome" where
  "decideRequest now input st =
     (case requestPrecheck input st of
        Some answer \<Rightarrow> answer
      | None \<Rightarrow>
          (let args = requestArgs now input st
           in case rq_labelProviderRequest input of
                Some label \<Rightarrow>
                  decideLabelProviderRequest args (admittedPipeline input (ri_task args)) label
                    (rs_latestRun st) (rs_retainedClaims st)
              | None \<Rightarrow>
                  (case rq_replaceQueuedRunId input of
                     Some runId \<Rightarrow> replaceQueued input args runId
                   | None \<Rightarrow>
                       (case rq_sourceRevision input of
                          None \<Rightarrow> requestRun args
                        | Some revn \<Rightarrow> requestRevisionRun args revn))))"

definition requestTx :: "requestInput \<Rightarrow> requestTransaction" where
  "requestTx input =
     \<lparr>rx_taskId = rq_taskId input,
      rx_requestId = rq_requestId input,
      rx_requestSource = orElse (rq_requestSource input) Caller,
      rx_requestBinding = rq_requestBinding input,
      rx_readProviderRouting = (rq_labelProviderRequest input \<noteq> None \<or> rq_useEffectivePipeline input),
      rx_sourceRevision = rq_sourceRevision input\<rparr>"

definition request :: "zodFormats \<Rightarrow> timestamp \<Rightarrow> memStore \<Rightarrow> requestInput \<Rightarrow> memStore \<times> outcome" where
  "request z now s input =
     (if \<not> optHolds (validTrackerIssue z) (rq_issue input) then (s, Threw (JsError ''ZodError''))
      else if \<not> optHolds (validWorkRevision z) (rq_sourceRevision input)
      then (s, Threw (JsError ''ZodError''))
      else if \<not> optHolds (\<lambda>revn. wr_key revn = rq_requestId input) (rq_sourceRevision input)
      then (s, Threw (JsError ''revision/request mismatch''))
      else transactRequest s (requestTx input) (decideRequest now input))"

subsection \<open>Transactions on a run\<close>

text \<open>An accepted terminal transition of a claimed Codex run keeps its cleanup authority: the
  reservation rides on the same decision.\<close>

definition needsCleanup :: "run \<Rightarrow> run option \<Rightarrow> bool" where
  "needsCleanup r next =
     (case next of
        None \<Rightarrow> False
      | Some n \<Rightarrow>
          isLive (r_state r) \<and> \<not> isLive (r_state n) \<and> usesCodexCredentials r \<and>
          queueStateOf r = Some Claimed \<and> Option.bind (r_queue r) q_tokenHash \<noteq> None \<and>
          r_credentialOperation n = None)"

definition withCleanup :: "string \<Rightarrow> run \<Rightarrow> outcome \<Rightarrow> outcome" where
  "withCleanup credentialCleanupId r out =
     (case out of
        Decided d \<Rightarrow>
          (case (d_run d, Option.bind (r_queue r) q_tokenHash) of
             (Some n, Some fp) \<Rightarrow>
               if needsCleanup r (d_run d)
               then (case reserveCredentialOperation (r_updatedAt n) (d_task d) n fp
                            credentialCleanupId CredCleanup of
                       Decided c \<Rightarrow> Decided (d\<lparr>d_run := d_run c\<rparr>)
                     | other \<Rightarrow> other)
               else Decided d
           | _ \<Rightarrow> Decided d)
      | other \<Rightarrow> other)"

definition onRun ::
  "string \<Rightarrow> (task \<Rightarrow> run \<Rightarrow> queueEligibility option \<Rightarrow> outcome) \<Rightarrow> runTransactionState \<Rightarrow> outcome"
where
  "onRun credentialCleanupId decide st =
     (case (rt_task st, rt_run st) of
        (Some vt, Some r) \<Rightarrow>
          withCleanup credentialCleanupId r (decide (vt_task vt) r (rt_queueEligibility st))
      | _ \<Rightarrow> refused UnknownRun)"

text \<open>\<^verbatim>\<open>transactOnRun\<close> without queue eligibility, the case of every method but
  \<^verbatim>\<open>report\<close>.\<close>

definition transactOnRun ::
  "string \<Rightarrow> memStore \<Rightarrow> string \<Rightarrow> (task \<Rightarrow> run \<Rightarrow> outcome) \<Rightarrow> memStore \<times> outcome"
where
  "transactOnRun cleanupId s runId decide =
     transactRun s runId None None (onRun cleanupId (\<lambda>t r _. decide t r))"

definition orchConfirmDispatch :: "string \<Rightarrow> timestamp \<Rightarrow> memStore \<Rightarrow> string \<Rightarrow> memStore \<times> outcome" where
  "orchConfirmDispatch uuid now s runId = transactOnRun uuid s runId (confirmDispatch now)"

definition orchObserveStartupPlacement ::
  "string \<Rightarrow> timestamp \<Rightarrow> memStore \<Rightarrow> string \<Rightarrow> exitClaimant \<Rightarrow> string \<Rightarrow> timestamp \<Rightarrow> bool \<Rightarrow>
   memStore \<times> outcome"
where
  "orchObserveStartupPlacement uuid now s runId claimant jobUid observedAt placed =
     transactOnRun uuid s runId (\<lambda>t r. observeStartupPlacement now t r claimant jobUid observedAt placed)"

definition renew ::
  "string \<Rightarrow> timestamp \<Rightarrow> memStore \<Rightarrow> string \<Rightarrow> string option \<Rightarrow> bool \<Rightarrow> memStore \<times> outcome"
where
  "renew uuid now s runId claimFingerprint providerProcessStarted =
     transactOnRun uuid s runId (\<lambda>t r. renewLease now t r claimFingerprint providerProcessStarted)"

definition orchObservePlacement ::
  "string \<Rightarrow> timestamp \<Rightarrow> memStore \<Rightarrow> string \<Rightarrow> exitClaimant \<Rightarrow> runPlacement \<Rightarrow> memStore \<times> outcome"
where
  "orchObservePlacement uuid now s runId claimant placement =
     transactOnRun uuid s runId (\<lambda>t r. observePlacement now t r claimant placement)"

definition observeDelivery ::
  "string \<Rightarrow> timestamp \<Rightarrow> memStore \<Rightarrow> string \<Rightarrow> deliveryObservation \<Rightarrow> (task \<Rightarrow> run \<Rightarrow> bool) \<Rightarrow>
   memStore \<times> outcome"
where
  "observeDelivery uuid now s runId observation authorize =
     transactOnRun uuid s runId (\<lambda>t r. advanceDelivery now t r observation (authorize t r))"

subsection \<open>Reporting\<close>

text \<open>The cooldowns of an eligibility snapshot, as the admission functions read them.\<close>

definition snapshotCooldown :: "queueEligibility \<Rightarrow> string \<Rightarrow> cooldownDoc option" where
  "snapshotCooldown q p = map_option cooldownDocOf (orElse (map_of (qe_cooldowns q) p) None)"

definition snapshotAvailable ::
  "queueEligibility option \<Rightarrow> string list \<Rightarrow> timestamp \<Rightarrow> string list"
where
  "snapshotAvailable q pipelines now =
     (case q of
        None \<Rightarrow> []
      | Some e \<Rightarrow> availableQueuePipelines pipelines (snapshotCooldown e) (qe_liveRuns e) now)"

definition reportReadsEligibility ::
  "fallbackAuthority \<Rightarrow> timestamp \<Rightarrow> runResult \<Rightarrow> versionedTask option \<Rightarrow> run option \<Rightarrow> bool"
where
  "reportReadsEligibility authority readNow result vt r =
     (case (vt, r) of
        (Some v, Some rn) \<Rightarrow>
          t_activeRunId (vt_task v) = Some (r_runId rn) \<and>
          (r_state rn = Pending \<or> r_state rn = Running) \<and>
          r_providerFallback rn \<noteq> None \<and>
          providerCooldownForRun
            (rn\<lparr>r_state := Finished, r_result := Some result, r_updatedAt := readNow\<rparr>) \<noteq> None \<and>
          selectFallbackPipeline rn (fa_allowedPipelines authority (vt_task v) rn)
            (fa_pipelines authority) \<noteq> None
      | _ \<Rightarrow> False)"

text \<open>The run a successful report settles: the validated handoff and the triage receipt are
  attached first.\<close>

definition reportTarget :: "run \<Rightarrow> runResult \<Rightarrow> deliveryBinding option \<Rightarrow> bool \<Rightarrow> run" where
  "reportTarget r result delivery publishTriage =
     r\<lparr>r_delivery := orOpt delivery (r_delivery r),
       r_triagePublication :=
         (if publishTriage \<and> rr_ok result
          then Some \<lparr>tr_state = TriagePending, tr_commentBody = None, tr_commentId = None,
                     tr_sourceComment = None, tr_addedLabels = None, tr_dispatchRequested = None,
                     tr_dispatchObserved = None, tr_error = None\<rparr>
          else r_triagePublication r)\<rparr>"

definition decideReport ::
  "timestamp \<Rightarrow> runResult \<Rightarrow> string option \<Rightarrow> deliveryBinding option \<Rightarrow> bool \<Rightarrow> task \<Rightarrow> run \<Rightarrow> outcome"
where
  "decideReport now result claimFingerprint delivery publishTriage t r =
     (if (case delivery of
            None \<Rightarrow> False
          | Some dl \<Rightarrow> dl_runId dl \<noteq> r_runId r \<or> \<not> rr_ok result \<or>
              (case r_delivery r of None \<Rightarrow> False | Some own \<Rightarrow> dl_head own \<noteq> dl_head dl))
      then refused StaleLease
      else reportResult now t (reportTarget r result delivery publishTriage) claimFingerprint result)"

definition decideFailureReport ::
  "fallbackAuthority \<Rightarrow> timestamp \<Rightarrow> runResult \<Rightarrow> string option \<Rightarrow> task \<Rightarrow> run \<Rightarrow>
   queueEligibility option \<Rightarrow> outcome"
where
  "decideFailureReport authority now result claimFingerprint t r eligibility =
     reportResultWithFallback now t r result claimFingerprint (fa_allowedPipelines authority t r)
       (snapshotAvailable eligibility (fa_pipelines authority) now)"

definition report ::
  "fallbackAuthority option \<Rightarrow> timestamp \<Rightarrow> timestamp \<Rightarrow> memStore \<Rightarrow> string \<Rightarrow> runResult \<Rightarrow>
   string option \<Rightarrow> string \<Rightarrow> deliveryBinding option \<Rightarrow> bool \<Rightarrow> memStore \<times> outcome"
where
  "report authority readNow now s runId result claimFingerprint cleanupId delivery publishTriage =
     (case authority of
        Some a \<Rightarrow>
          if \<not> rr_ok result
          then transactRun s runId (Some (fa_pipelines a))
                 (Some (reportReadsEligibility a readNow result))
                 (onRun cleanupId (decideFailureReport a now result claimFingerprint))
          else transactOnRun cleanupId s runId
                 (decideReport now result claimFingerprint delivery publishTriage)
      | None \<Rightarrow>
          transactOnRun cleanupId s runId
            (decideReport now result claimFingerprint delivery publishTriage))"

definition finishReadsEligibility ::
  "fallbackAuthority \<Rightarrow> timestamp \<Rightarrow> versionedTask option \<Rightarrow> run option \<Rightarrow> bool"
where
  "finishReadsEligibility authority readNow vt r =
     (case (vt, r) of
        (Some v, Some rn) \<Rightarrow>
          t_activeRunId (vt_task v) = Some (r_runId rn) \<and>
          (case r_credentialPendingResult rn of
             None \<Rightarrow> False
           | Some p \<Rightarrow>
               providerCooldownForRun (rn\<lparr>r_state := Finished, r_result := Some (cp_result p),
                                          r_updatedAt := readNow\<rparr>) \<noteq> None) \<and>
          selectFallbackPipeline rn (fa_allowedPipelines authority (vt_task v) rn)
            (fa_pipelines authority) \<noteq> None
      | _ \<Rightarrow> False)"

definition decideFinish ::
  "fallbackAuthority option \<Rightarrow> timestamp \<Rightarrow> string \<Rightarrow> string \<Rightarrow> bool option \<Rightarrow> nat option \<Rightarrow>
   task \<Rightarrow> run \<Rightarrow> queueEligibility option \<Rightarrow> outcome"
where
  "decideFinish authority now operationId claimFingerprint restored retiredAt t r eligibility =
     (case changeCredentialOperation now t r operationId claimFingerprint (Finish restored retiredAt) of
        Decided settled \<Rightarrow>
          (case authority of
             None \<Rightarrow> Decided settled
           | Some a \<Rightarrow>
               if r_credentialPendingResult r = None then Decided settled
               else settleProviderFallback now settled (fa_allowedPipelines a t r)
                      (snapshotAvailable eligibility (fa_pipelines a) now))
      | other \<Rightarrow> other)"

definition finishCredentialOperation ::
  "fallbackAuthority option \<Rightarrow> timestamp \<Rightarrow> timestamp \<Rightarrow> memStore \<Rightarrow> string \<Rightarrow> string \<Rightarrow> string \<Rightarrow>
   bool option \<Rightarrow> nat option \<Rightarrow> memStore \<times> outcome"
where
  "finishCredentialOperation authority readNow now s runId operationId claimFingerprint restored retiredAt =
     transactRun s runId (map_option fa_pipelines authority)
       (map_option (\<lambda>a. finishReadsEligibility a readNow) authority)
       (\<lambda>st. case (rt_task st, rt_run st) of
          (Some vt, Some r) \<Rightarrow>
            decideFinish authority now operationId claimFingerprint restored retiredAt (vt_task vt) r
              (rt_queueEligibility st)
        | _ \<Rightarrow> refused UnknownRun)"

subsection \<open>Rerouting queued runs\<close>

definition decideReroute ::
  "fallbackAuthority \<Rightarrow> string list option \<Rightarrow> timestamp \<Rightarrow> runTransactionState \<Rightarrow> outcome"
where
  "decideReroute authority executorPipelines now st =
     (case (rt_task st, rt_run st, rt_queueEligibility st) of
        (Some vt, Some r, Some q) \<Rightarrow>
          rerouteQueuedRun now (vt_task vt) r (snapshotCooldown q (r_pipeline r))
            (filter (\<lambda>p. p \<in> set (orElse executorPipelines (fa_pipelines authority)))
               (fa_allowedPipelines authority (vt_task vt) r))
            (availableQueuePipelines (fa_pipelines authority) (snapshotCooldown q) (qe_liveRuns q) now)
      | _ \<Rightarrow> refused UnknownRun)"

definition rerouteOne ::
  "fallbackAuthority \<Rightarrow> string list option \<Rightarrow> timestamp \<Rightarrow> memStore \<Rightarrow> string \<Rightarrow> memStore \<times> outcome"
where
  "rerouteOne authority executorPipelines now s runId =
     transactRun s runId (Some (fa_pipelines authority)) None
       (decideReroute authority executorPipelines now)"

text \<open>The loop over a batch; \<open>clock i\<close> is the reading before the \<open>i\<close>th transaction. An
  exception ends it.\<close>

fun rerouteBatch ::
  "fallbackAuthority \<Rightarrow> string list option \<Rightarrow> (nat \<Rightarrow> timestamp) \<Rightarrow> nat \<Rightarrow> memStore \<Rightarrow> run list \<Rightarrow>
   memStore \<times> (jsError + (string \<times> string) list)"
where
  "rerouteBatch authority executorPipelines clock i s [] = (s, Inr [])"
| "rerouteBatch authority executorPipelines clock i s (c # cs) =
     (case rerouteOne authority executorPipelines (clock i) s (r_runId c) of
        (s', Threw e) \<Rightarrow> (s', Inl e)
      | (s', Refused _ _) \<Rightarrow> rerouteBatch authority executorPipelines clock (Suc i) s' cs
      | (s', Decided d) \<Rightarrow>
          (case rerouteBatch authority executorPipelines clock (Suc i) s' cs of
             (s'', Inl e) \<Rightarrow> (s'', Inl e)
           | (s'', Inr moved) \<Rightarrow>
               (s'', Inr ((case d_additionalRuns d of [] \<Rightarrow> [] | n # _ \<Rightarrow> [(r_runId c, r_runId n)]) @ moved))))"

definition rerouteCandidates :: "fallbackAuthority \<Rightarrow> memStore \<Rightarrow> timestamp \<Rightarrow> run list" where
  "rerouteCandidates authority s now =
     (let cooldowns = readProviderCooldowns s (fa_pipelines authority)
      in filter (\<lambda>r. r_providerFallback r \<noteq> None \<and>
            providerIsCoolingDown
              (map_option cooldownDocOf (orElse (map_of cooldowns (r_pipeline r)) None)) now \<and>
            (case Option.bind (r_queue r) q_deferredUntil of None \<Rightarrow> True | Some d \<Rightarrow> d \<le> now))
          (listQueuedRuns s None))"

text \<open>The batch starts at the rotating cursor and wraps around.\<close>

definition rotateFrom :: "nat \<Rightarrow> nat \<Rightarrow> 'a list \<Rightarrow> 'a list" where
  "rotateFrom start n xs = map (\<lambda>i. xs ! ((start + i) mod length xs)) [0..<min n (length xs)]"

definition rerouteQueued ::
  "fallbackAuthority option \<Rightarrow> timestamp \<Rightarrow> (nat \<Rightarrow> timestamp) \<Rightarrow> memStore \<Rightarrow> int option \<Rightarrow>
   string list option \<Rightarrow> int \<Rightarrow> memStore \<times> int option \<times> (jsError + (string \<times> string) list)"
where
  "rerouteQueued authority selectionTime clock s rerouteOffset executorPipelines limit =
     (case authority of
        None \<Rightarrow> (s, rerouteOffset, Inr [])
      | Some a \<Rightarrow>
          if limit \<le> 0 \<or> limit > int MAX_SAFE_INTEGER then (s, rerouteOffset, Inr [])
          else
            (let batchLimit = min limit 30;
                 candidates = rerouteCandidates a s selectionTime
             in if candidates = [] then (s, rerouteOffset, Inr [])
                else
                  (let offset = orElse rerouteOffset (selectionTime div 60000 * batchLimit);
                       start = offset mod int (length candidates);
                       batch = rotateFrom (nat start) (nat batchLimit) candidates;
                       (s', result) = rerouteBatch a executorPipelines clock 0 s batch
                   in (s', Some (start + int (length batch)), result))))"

subsection \<open>Cancelling, closing, refreshing\<close>

definition orchCancel ::
  "string \<Rightarrow> timestamp \<Rightarrow> memStore \<Rightarrow> string \<Rightarrow> string option \<Rightarrow> string option \<Rightarrow>
   operationalIntervention option \<Rightarrow> memStore \<times> outcome"
where
  "orchCancel uuid now s runId note nativeTask intervention =
     transactOnRun uuid s runId (\<lambda>t r. cancelRun now t r note intervention nativeTask)"

definition decideCancelUnclaimed ::
  "timestamp \<Rightarrow> timestamp \<Rightarrow> string option \<Rightarrow> trackerIssue option \<Rightarrow> task \<Rightarrow> run \<Rightarrow> outcome"
where
  "decideCancelUnclaimed now notAfter note issue t r =
     (if (case issue of
            None \<Rightarrow> False
          | Some i \<Rightarrow>
              (case t_issue t of
                 None \<Rightarrow> True
               | Some own \<Rightarrow> ti_state own \<noteq> IssueClosed \<or> ti_updatedAt own \<noteq> ti_updatedAt i \<or>
                   issueSourceKey (ti_reference own) \<noteq> issueSourceKey (ti_reference i)))
      then refused StaleIssueSource
      else if queueStateOf r = Some Claimed then refused RunAlreadyClaimed
      else if r_createdAt r > notAfter then refused RunNewerThanCutoff
      else cancelRun now t r note None None)"

definition cancelUnclaimedBefore ::
  "timestamp \<Rightarrow> memStore \<Rightarrow> string \<Rightarrow> timestamp \<Rightarrow> string option \<Rightarrow> trackerIssue option \<Rightarrow> memStore \<times> outcome"
where
  "cancelUnclaimedBefore now s runId notAfter note issue =
     transactRun s runId None None
       (\<lambda>st. case (rt_task st, rt_run st) of
          (Some vt, Some r) \<Rightarrow> decideCancelUnclaimed now notAfter note issue (vt_task vt) r
        | _ \<Rightarrow> refused UnknownRun)"

definition invalidateSource ::
  "string \<Rightarrow> timestamp \<Rightarrow> memStore \<Rightarrow> string \<Rightarrow> sourceClock \<Rightarrow> memStore \<times> outcome"
where
  "invalidateSource uuid now s runId observedAt =
     transactOnRun uuid s runId (\<lambda>t r. invalidateSourceRevision now t r observedAt)"

text \<open>\<^verbatim>\<open>#once\<close>: read the task, read its active run, decide, apply.\<close>

definition once ::
  "(nat \<Rightarrow> memStore \<Rightarrow> memStore) \<Rightarrow> memStore \<Rightarrow> taskId \<Rightarrow>
   (versionedTask option \<Rightarrow> run option \<Rightarrow> outcome) \<Rightarrow> memStore \<times> outcome"
where
  "once env s tid decide =
     (let vt = readTask s tid;
          s1 = env 0 s;
          activeRun = readActiveRun s1 tid;
          s2 = env 1 s1
      in commitOutcome s2 (decide vt activeRun) (map_option vt_revision vt))"

text \<open>\<^verbatim>\<open>transact\<close>: one more attempt after a lost compare-and-set.\<close>

definition transact ::
  "(nat \<Rightarrow> memStore \<Rightarrow> memStore) \<Rightarrow> memStore \<Rightarrow> taskId \<Rightarrow>
   (versionedTask option \<Rightarrow> run option \<Rightarrow> outcome) \<Rightarrow> memStore \<times> outcome"
where
  "transact env s tid decide =
     (case once env s tid decide of
        (s', Threw (StoreConflict _)) \<Rightarrow> once (\<lambda>i. env (i + 3)) (env 2 s') tid decide
      | other \<Rightarrow> other)"

definition close ::
  "(nat \<Rightarrow> memStore \<Rightarrow> memStore) \<Rightarrow> timestamp \<Rightarrow> memStore \<Rightarrow> taskId \<Rightarrow> memStore \<times> outcome"
where
  "close env now s tid =
     transact env s tid (\<lambda>vt activeRun. closeTask now (map_option vt_task vt) activeRun)"

definition updateWork ::
  "(nat \<Rightarrow> memStore \<Rightarrow> memStore) \<Rightarrow> timestamp \<Rightarrow> memStore \<Rightarrow> taskId \<Rightarrow> workPayload \<Rightarrow> memStore \<times> outcome"
where
  "updateWork env now s tid work =
     transact env s tid (\<lambda>vt activeRun. updateTaskWork now (map_option vt_task vt) activeRun work)"

definition decideRefreshIssue :: "timestamp \<Rightarrow> trackerIssue \<Rightarrow> versionedTask option \<Rightarrow> outcome" where
  "decideRefreshIssue now issue current =
     (case current of
        None \<Rightarrow> refused UnknownTask
      | Some vt \<Rightarrow>
          (case t_issue (vt_task vt) of
             None \<Rightarrow> onlyTask ((vt_task vt)\<lparr>t_issue := Some issue, t_updatedAt := now\<rparr>)
           | Some previous \<Rightarrow>
               if issueSourceKey (ti_reference previous) \<noteq> issueSourceKey (ti_reference issue)
               then Threw (JsError ''Issue source identity cannot change'')
               else if ti_updatedAt previous \<ge> ti_updatedAt issue then onlyTask (vt_task vt)
               else onlyTask ((vt_task vt)\<lparr>t_issue := Some issue, t_updatedAt := now\<rparr>)))"

definition refreshIssue ::
  "zodFormats \<Rightarrow> (nat \<Rightarrow> memStore \<Rightarrow> memStore) \<Rightarrow> timestamp \<Rightarrow> memStore \<Rightarrow> taskId \<Rightarrow> trackerIssue \<Rightarrow>
   memStore \<times> outcome"
where
  "refreshIssue z env now s tid issue =
     (if \<not> validTrackerIssue z issue then (s, Threw (JsError ''ZodError''))
      else transact env s tid (\<lambda>vt _. decideRefreshIssue now issue vt))"

subsection \<open>Loss\<close>

definition orchExecutorExited ::
  "string \<Rightarrow> timestamp \<Rightarrow> memStore \<Rightarrow> string \<Rightarrow> exitClaimant \<Rightarrow> memStore \<times> outcome"
where
  "orchExecutorExited uuid now s runId claimant =
     transactOnRun uuid s runId (\<lambda>t r. executorExitedAndRetry now t r claimant)"

record sweepResult =
  sw_lost :: "run list"
  sw_retried :: "(string \<times> string) list"

definition sweepOne :: "string \<Rightarrow> timestamp \<Rightarrow> memStore \<Rightarrow> string \<Rightarrow> memStore \<times> outcome" where
  "sweepOne uuid now s runId = transactOnRun uuid s runId (expireLeaseAndRetry now)"

fun sweepRuns ::
  "(nat \<Rightarrow> string) \<Rightarrow> (nat \<Rightarrow> timestamp) \<Rightarrow> nat \<Rightarrow> memStore \<Rightarrow> run list \<Rightarrow> memStore \<times> (jsError + sweepResult)"
where
  "sweepRuns uuid clock i s [] = (s, Inr \<lparr>sw_lost = [], sw_retried = []\<rparr>)"
| "sweepRuns uuid clock i s (c # cs) =
     (case sweepOne (uuid i) (clock i) s (r_runId c) of
        (s', Threw e) \<Rightarrow> (s', Inl e)
      | (s', Refused _ _) \<Rightarrow> sweepRuns uuid clock (Suc i) s' cs
      | (s', Decided d) \<Rightarrow>
          (case d_run d of
             None \<Rightarrow> (s', Inl (JsError ''decision unexpectedly carries no run''))
           | Some settled \<Rightarrow>
               (case sweepRuns uuid clock (Suc i) s' cs of
                  (s'', Inl e) \<Rightarrow> (s'', Inl e)
                | (s'', Inr rest) \<Rightarrow>
                    (s'', Inr \<lparr>sw_lost = settled # sw_lost rest,
                               sw_retried =
                                 (case d_additionalRuns d of
                                    [] \<Rightarrow> [] | n # _ \<Rightarrow> [(r_runId settled, r_runId n)]) @
                                 sw_retried rest\<rparr>))))"

definition sweepExpired ::
  "(nat \<Rightarrow> string) \<Rightarrow> timestamp \<Rightarrow> (nat \<Rightarrow> timestamp) \<Rightarrow> memStore \<Rightarrow> memStore \<times> (jsError + sweepResult)"
where
  "sweepExpired uuid now clock s = sweepRuns uuid clock 0 s (listExpiredRuns s now)"

end
