(* ===== verification/Console_Transactions.thy ===== *)
theory Console_Transactions
  imports Orchestrator
begin

text \<open>
  The run transactions the console issues on the store directly: the Codex credential broker
  (\<^verbatim>\<open>apps/console/src/lib/codex-credential-operations.ts\<close>: reserving an
  operation and changing it) and the triage receipt
  (\<^verbatim>\<open>apps/console/src/lib/fleet-triage-work.ts\<close>). The broker's HTTP error
  mapping and its writes to the credential store are outside the model.
\<close>

definition onTaskAndRun :: "(task \<Rightarrow> run \<Rightarrow> outcome) \<Rightarrow> runTransactionState \<Rightarrow> outcome" where
  "onTaskAndRun decide st =
     (case (rt_task st, rt_run st) of
        (Some vt, Some r) \<Rightarrow> decide (vt_task vt) r
      | _ \<Rightarrow> refused UnknownRun)"

definition beginCredential ::
  "timestamp \<Rightarrow> memStore \<Rightarrow> string \<Rightarrow> string \<Rightarrow> string \<Rightarrow> credentialKind \<Rightarrow> memStore \<times> outcome"
where
  "beginCredential now s runId claimFingerprint opId kind =
     transactRun s runId None None
       (onTaskAndRun (\<lambda>t r. reserveCredentialOperation now t r claimFingerprint opId kind))"

definition changeCredential ::
  "timestamp \<Rightarrow> memStore \<Rightarrow> string \<Rightarrow> string \<Rightarrow> string \<Rightarrow> credentialChange \<Rightarrow> memStore \<times> outcome"
where
  "changeCredential now s runId opId claimFingerprint change =
     transactRun s runId None None
       (onTaskAndRun (\<lambda>t r. changeCredentialOperation now t r opId claimFingerprint change))"

text \<open>\<^verbatim>\<open>Partial<TriagePublication>\<close>: each field present or not.\<close>

record triagePatch =
  tq_state :: "triageState option"
  tq_commentBody :: "string option"
  tq_commentId :: "commentId option"
  tq_sourceComment :: "sourceComment option"
  tq_addedLabels :: "string list option"
  tq_dispatchRequested :: "timestamp option"
  tq_dispatchObserved :: "bool option"
  tq_error :: "string option"

definition patchTriage :: "triagePublication \<Rightarrow> triagePatch \<Rightarrow> triagePublication" where
  "patchTriage p q =
     \<lparr>tr_state = orElse (tq_state q) (tr_state p),
      tr_commentBody = orOpt (tq_commentBody q) (tr_commentBody p),
      tr_commentId = orOpt (tq_commentId q) (tr_commentId p),
      tr_sourceComment = orOpt (tq_sourceComment q) (tr_sourceComment p),
      tr_addedLabels = orOpt (tq_addedLabels q) (tr_addedLabels p),
      tr_dispatchRequested = orOpt (tq_dispatchRequested q) (tr_dispatchRequested p),
      tr_dispatchObserved = orOpt (tq_dispatchObserved q) (tr_dispatchObserved p),
      tr_error = orOpt (tq_error q) (tr_error p)\<rparr>"

definition decideTriagePublication :: "timestamp \<Rightarrow> triagePatch \<Rightarrow> task \<Rightarrow> run \<Rightarrow> outcome" where
  "decideTriagePublication now patch t r =
     (case r_triagePublication r of
        None \<Rightarrow> refused UnknownRun
      | Some p \<Rightarrow>
          if tr_state p \<noteq> TriagePending then taskAndRun t r
          else taskAndRun t
                 (r\<lparr>r_triagePublication := Some
                      (if revisionMoved t r then (patchTriage p patch)\<lparr>tr_state := TriageSuperseded\<rparr>
                       else patchTriage p patch),
                    r_updatedAt := now\<rparr>))"

definition recordTriagePublication ::
  "timestamp \<Rightarrow> memStore \<Rightarrow> string \<Rightarrow> triagePatch \<Rightarrow> memStore \<times> outcome"
where
  "recordTriagePublication now s runId patch =
     transactRun s runId None None (onTaskAndRun (decideTriagePublication now patch))"

end
