(* ===== verification/Decision_Safety.thy ===== *)
theory Decision_Safety
  imports Console_Transactions
begin

text \<open>
  The contract every decision of the orchestrator keeps, whatever its branch: it writes runs of
  its own task only, each either an evolution of a run it read or a fresh generation, the lock
  names a written run exactly when that run is live, the lock moves only together with the
  runs it leaves and enters, and what a minted or settled run owes the outside is in the decision's
  outbox, under the entry that names the run. Every decision function is shown to keep it; the store theory turns it
  into the mutual-exclusion invariant.
\<close>

subsection \<open>Evolution of a run\<close>

definition sameIdentity :: "run \<Rightarrow> run \<Rightarrow> bool" where
  "sameIdentity r r' \<longleftrightarrow>
     r_runId r' = r_runId r \<and> r_task r' = r_task r \<and> r_pipeline r' = r_pipeline r \<and>
     r_priority r' = r_priority r \<and> r_requestId r' = r_requestId r \<and>
     r_requestSource r' = r_requestSource r \<and> r_params r' = r_params r \<and> r_issue r' = r_issue r \<and>
     r_sourceRevision r' = r_sourceRevision r \<and> r_revisionAttempt r' = r_revisionAttempt r \<and>
     r_providerFallback r' = r_providerFallback r \<and> r_createdAt r' = r_createdAt r"

definition eventsExtend :: "run \<Rightarrow> run \<Rightarrow> bool" where
  "eventsExtend r r' \<longleftrightarrow> take (length (r_events r)) (r_events r') = r_events r"

definition run_evolves :: "run \<Rightarrow> run \<Rightarrow> bool" where
  "run_evolves r r' \<longleftrightarrow>
     sameIdentity r r' \<and> eventsExtend r r' \<and>
     (\<not> isLive (r_state r) \<longrightarrow> r_state r' = r_state r \<and> r_result r' = r_result r) \<and>
     (r_state r' = Pending \<longrightarrow> r_state r = Pending)"

lemma isLive_simps [simp]:
  "isLive Pending" "isLive Running" "\<not> isLive Finished" "\<not> isLive Canceled" "\<not> isLive Lost"
  by (simp_all add: isLive_def)

lemma isLive_cases: "isLive s \<longleftrightarrow> s = Pending \<or> s = Running"
  by (cases s) auto

lemma run_evolves_refl [simp]: "run_evolves r r"
  by (simp add: run_evolves_def sameIdentity_def eventsExtend_def)

lemma eventsExtend_trans:
  assumes "eventsExtend a b" and "eventsExtend b c"
  shows "eventsExtend a c"
proof -
  let ?n = "length (r_events a)"
  from assms(1) have "?n \<le> length (r_events b)"
    unfolding eventsExtend_def by (metis length_take min.cobounded2 min.commute)
  then have "take ?n (r_events b) = take ?n (take (length (r_events b)) (r_events c))"
    using assms(2) by (simp add: eventsExtend_def)
  also have "\<dots> = take ?n (r_events c)" using \<open>?n \<le> _\<close> by (simp add: min_def)
  finally show ?thesis using assms(1) by (simp add: eventsExtend_def)
qed

lemma sameIdentity_trans: "sameIdentity a b \<Longrightarrow> sameIdentity b c \<Longrightarrow> sameIdentity a c"
  by (simp add: sameIdentity_def)

lemma run_evolvesD:
  assumes "run_evolves r r'"
  shows "sameIdentity r r'" "eventsExtend r r'"
    "\<not> isLive (r_state r) \<Longrightarrow> r_state r' = r_state r" "\<not> isLive (r_state r) \<Longrightarrow> r_result r' = r_result r"
    "r_state r' = Pending \<Longrightarrow> r_state r = Pending"
  using assms unfolding run_evolves_def by blast+

lemma run_evolves_trans:
  assumes ab: "run_evolves a b" and bc: "run_evolves b c"
  shows "run_evolves a c"
  unfolding run_evolves_def
proof (intro conjI impI)
  show "sameIdentity a c" using sameIdentity_trans run_evolvesD(1) ab bc by blast
  show "eventsExtend a c" using eventsExtend_trans run_evolvesD(2) ab bc by blast
  show "r_state c = r_state a" "r_result c = r_result a" if dead: "\<not> isLive (r_state a)"
  proof -
    have b: "r_state b = r_state a" "r_result b = r_result a"
      using run_evolvesD(3,4) [OF ab dead] by blast+
    with dead have "\<not> isLive (r_state b)" by simp
    from run_evolvesD(3,4) [OF bc this] b show "r_state c = r_state a" "r_result c = r_result a" by simp_all
  qed
  show "r_state a = Pending" if "r_state c = Pending"
    using run_evolvesD(5) [OF bc that] by (rule run_evolvesD(5) [OF ab])
qed

lemma run_evolves_same:
  "run_evolves r r' \<Longrightarrow> r_runId r' = r_runId r"
  "run_evolves r r' \<Longrightarrow> r_task r' = r_task r"
  by (simp_all add: run_evolves_def sameIdentity_def)

subsection \<open>The contract\<close>

definition numbered :: "taskId \<Rightarrow> nat \<Rightarrow> string \<Rightarrow> bool" where
  "numbered tid n runId \<longleftrightarrow> runId \<in> set (map (runIdFor tid) [1..<Suc n])"

definition freshNumber :: "taskId \<Rightarrow> nat \<Rightarrow> nat \<Rightarrow> string \<Rightarrow> bool" where
  "freshNumber tid n m runId \<longleftrightarrow> runId \<in> set (map (runIdFor tid) [Suc n..<Suc m])"

text \<open>A run read together with its task: the lock names it exactly while it is live.\<close>

definition paired :: "task \<Rightarrow> run \<Rightarrow> bool" where
  "paired t r \<longleftrightarrow>
     r_task r = t_task t \<and> numbered (t_task t) (t_runCount t) (r_runId r) \<and>
     (isLive (r_state r) \<longleftrightarrow> t_activeRunId t = Some (r_runId r))"

definition writtenIds :: "decision \<Rightarrow> string list" where
  "writtenIds d = map r_runId (writtenRuns d)"

definition writeOk :: "taskId \<Rightarrow> nat \<Rightarrow> run list \<Rightarrow> task \<Rightarrow> run \<Rightarrow> bool" where
  "writeOk tid n K t w \<longleftrightarrow>
     r_task w = tid \<and> (isLive (r_state w) \<longleftrightarrow> t_activeRunId t = Some (r_runId w)) \<and>
     (list_ex (\<lambda>r. run_evolves r w) K \<or> freshNumber tid n (t_runCount t) (r_runId w))"

definition lockMoves :: "string option \<Rightarrow> decision \<Rightarrow> bool" where
  "lockMoves act d \<longleftrightarrow>
     t_activeRunId (d_task d) = act \<or>
     (optHolds (\<lambda>a. a \<in> set (writtenIds d)) act \<and>
      optHolds (\<lambda>a. a \<in> set (writtenIds d)) (t_activeRunId (d_task d)))"

text \<open>The outbox entries a decision leaves: a run it creates is announced for dispatch, and a run
  it settles has its outcome to report, unless it is cancelled to hand its task over to a successor
  the same decision mints. An entry's identifier tells its kind and its run.\<close>

definition dispatchEntryId :: "string \<Rightarrow> string" where
  "dispatchEntryId runId = ''dispatch/'' @ runId"

definition outcomeEntryId :: "string \<Rightarrow> string" where
  "outcomeEntryId runId = ''outcome/'' @ runId"

definition named :: "outboxEntry \<Rightarrow> bool" where
  "named e \<longleftrightarrow>
     (take 9 (o_entryId e) = ''dispatch/'' \<longrightarrow> o_kind e = DispatchRun \<and> o_entryId e = dispatchEntryId (o_runId e)) \<and>
     (take 8 (o_entryId e) = ''outcome/'' \<longrightarrow> o_kind e = ReportOutcome \<and> o_entryId e = outcomeEntryId (o_runId e))"

lemma named_cong:
  "o_entryId e' = o_entryId e \<Longrightarrow> o_kind e' = o_kind e \<Longrightarrow> o_runId e' = o_runId e \<Longrightarrow> named e' = named e"
  by (simp add: named_def)

definition hasEntry :: "decision \<Rightarrow> string \<Rightarrow> bool" where
  "hasEntry d entryId \<longleftrightarrow> entryId \<in> set (map o_entryId (d_outbox d))"

definition concluded :: "decision \<Rightarrow> run \<Rightarrow> run \<Rightarrow> bool" where
  "concluded d r w \<longleftrightarrow>
     isLive (r_state w) \<or> r_state r = r_state w \<or> hasEntry d (outcomeEntryId (r_runId w)) \<or>
     (r_state w = Canceled \<and> t_activeRunId (d_task d) \<noteq> None)"

definition published :: "run list \<Rightarrow> decision \<Rightarrow> run \<Rightarrow> bool" where
  "published K d w \<longleftrightarrow>
     (isLive (r_state w) \<and> hasEntry d (dispatchEntryId (r_runId w))) \<or>
     list_ex (\<lambda>r. run_evolves r w \<and> concluded d r w) K"

definition safe :: "taskId \<Rightarrow> nat \<Rightarrow> string option \<Rightarrow> run list \<Rightarrow> decision \<Rightarrow> bool" where
  "safe tid n act K d \<longleftrightarrow>
     t_task (d_task d) = tid \<and> n \<le> t_runCount (d_task d) \<and> distinct (writtenIds d) \<and>
     list_all (writeOk tid n K (d_task d)) (writtenRuns d) \<and> lockMoves act d \<and>
     list_all (published K d) (writtenRuns d) \<and> list_all named (d_outbox d)"

definition safeFor :: "task \<Rightarrow> run \<Rightarrow> decision \<Rightarrow> bool" where
  "safeFor t r d \<longleftrightarrow> safe (t_task t) (t_runCount t) (t_activeRunId t) [r] d"

text \<open>Run identifiers determine the anchor and the generation.\<close>

lemma runIdFor_number_inject [simp]: "runIdFor tid m = runIdFor tid n \<longleftrightarrow> m = n"
  by (simp add: runIdFor_def)

lemma numbered_fresh_disjoint: "numbered tid n i \<Longrightarrow> freshNumber tid n m i \<Longrightarrow> False"
  by (auto simp: numbered_def freshNumber_def)

lemma numbered_mono: "numbered tid n i \<Longrightarrow> n \<le> m \<Longrightarrow> numbered tid m i"
  by (auto simp: numbered_def)

lemma fresh_numbered: "freshNumber tid n m i \<Longrightarrow> numbered tid m i"
  by (auto simp: numbered_def freshNumber_def)

lemma numbered_ne_next: "numbered tid n i \<Longrightarrow> n < m \<Longrightarrow> i \<noteq> runIdFor tid m"
  by (auto simp: numbered_def)

lemma freshNumber_next: "n \<le> m \<Longrightarrow> freshNumber tid n (Suc m) (runIdFor tid (Suc m))"
  by (auto simp: freshNumber_def)

lemma writtenRuns_simps [simp]:
  "writtenRuns \<lparr>d_task = t, d_run = None, d_additionalRuns = rs, d_outbox = ob\<rparr> = rs"
  "writtenRuns \<lparr>d_task = t, d_run = Some r, d_additionalRuns = rs, d_outbox = ob\<rparr> = r # rs"
  by (simp_all add: writtenRuns_def)

lemmas safe_unfold = safe_def writtenIds_def writeOk_def lockMoves_def

definition refines :: "run list \<Rightarrow> run list \<Rightarrow> bool" where
  "refines K K' \<longleftrightarrow> (\<forall>k \<in> set K. \<exists>k' \<in> set K'. run_evolves k' k \<and> r_state k' = r_state k)"

lemma refines_ex:
  assumes "refines K K'" and "list_ex (\<lambda>r. run_evolves r w \<and> P (r_state r)) K"
  shows "list_ex (\<lambda>r. run_evolves r w \<and> P (r_state r)) K'"
proof -
  from assms(2) obtain k where k: "k \<in> set K" "run_evolves k w" "P (r_state k)" by (auto simp: list_ex_iff)
  with assms(1) obtain k' where "k' \<in> set K'" "run_evolves k' k" "r_state k' = r_state k"
    by (auto simp: refines_def)
  with k run_evolves_trans [of k' k w] have "run_evolves k' w \<and> P (r_state k')" by simp
  with \<open>k' \<in> set K'\<close> show ?thesis unfolding list_ex_iff by blast
qed

lemma safe_weaken:
  assumes s: "safe tid n act K d" and r: "refines K K'"
  shows "safe tid n act K' d"
proof -
  have "writeOk tid n K' (d_task d) w" if "writeOk tid n K (d_task d) w" for w
    using that refines_ex [OF r, of w "\<lambda>_. True"] by (auto simp: writeOk_def)
  moreover have "published K' d w" if "published K d w" for w
    using that refines_ex [OF r, of w "\<lambda>st. isLive (r_state w) \<or> st = r_state w \<or>
      hasEntry d (outcomeEntryId (r_runId w)) \<or> (r_state w = Canceled \<and> t_activeRunId (d_task d) \<noteq> None)"] by (auto simp: published_def concluded_def)
  ultimately show ?thesis using s by (auto simp: safe_def list_all_iff)
qed

subsection \<open>Building blocks\<close>

lemma onlyTask_safe:
  "onlyTask t' = Decided d \<Longrightarrow> t_task t' = tid \<Longrightarrow> n \<le> t_runCount t' \<Longrightarrow> t_activeRunId t' = act \<Longrightarrow>
   safe tid n act K d"
  by (auto simp: onlyTask_def safe_unfold)

text \<open>A settlement: a live run is written terminal and the lock is released.\<close>

lemma settled_safe:
  assumes "paired t r" and "isLive (r_state r)" and "run_evolves r r'" and "\<not> isLive (r_state r')"
    and "t_task (d_task d) = t_task t" "t_runCount (d_task d) = t_runCount t"
    and "t_activeRunId (d_task d) = None" and "writtenRuns d = [r']" and "concluded d r r'"
    and "list_all named (d_outbox d)"
  shows "safeFor t r d"
  using assms run_evolves_same [OF assms(3)]
  by (auto simp: safeFor_def safe_unfold paired_def published_def)

text \<open>A successor minted over settled runs: the lock passes to the fresh generation.\<close>

lemma mint_over_safe:
  assumes ws: "list_all (\<lambda>w. r_task w = tid \<and> \<not> isLive (r_state w) \<and>
                   numbered tid n (r_runId w) \<and> list_ex (\<lambda>r. run_evolves r w \<and> concluded d r w) K) ws"
    and dist: "distinct (map r_runId ws)"
    and act: "optHolds (\<lambda>a. a \<in> set (map r_runId ws)) act"
    and m: "r_task m = tid" "isLive (r_state m)" "r_runId m = runIdFor tid (Suc k)" "n \<le> k"
    and d: "t_task (d_task d) = tid" "t_runCount (d_task d) = Suc k"
           "t_activeRunId (d_task d) = Some (r_runId m)"
    and w: "writtenRuns d = m # ws \<or> writtenRuns d = ws @ [m]"
    and o: "hasEntry d (dispatchEntryId (r_runId m))" "list_all named (d_outbox d)"
  shows "safe tid n act K d"
proof -
  have new: "r_runId w \<noteq> r_runId m" if "w \<in> set ws" for w
    using ws m that numbered_ne_next by (fastforce simp: list_all_iff)
  have sets: "set (writtenRuns d) = insert m (set ws)" using w by auto
  have "r_runId m \<notin> set (map r_runId ws)" using new by (metis imageE list.set_map)
  then have "distinct (writtenIds d)" using w dist by (auto simp: writtenIds_def)
  moreover have "writeOk tid n K (d_task d) x" if "x \<in> set (writtenRuns d)" for x
  proof (cases "x = m")
    case True
    with m d freshNumber_next [of n k tid] show ?thesis by (simp add: writeOk_def)
  next
    case False
    with that sets have "x \<in> set ws" by simp
    with ws d new [of x] show ?thesis by (auto simp: writeOk_def list_all_iff list_ex_iff)
  qed
  moreover have "lockMoves act d" using act d sets
    by (cases act) (auto simp: lockMoves_def writtenIds_def)
  moreover have "published K d x" if "x \<in> set (writtenRuns d)" for x
    using that sets ws m o by (auto simp: published_def list_all_iff)
  ultimately show ?thesis using d m o(2) by (simp add: safe_def list_all_iff)
qed

subsection \<open>Minting and requesting\<close>

lemma mintRun_fields [simp]:
  "d_run (mintRun m) = Some (mintedRun m)"
  "d_additionalRuns (mintRun m) = []"
  "t_activeRunId (d_task (mintRun m)) = Some (r_runId (mintedRun m))"
  "t_runCount (d_task (mintRun m)) = Suc (t_runCount (mi_task m))"
  "t_task (d_task (mintRun m)) = t_task (mi_task m)"
  "writtenRuns (mintRun m) = [mintedRun m]"
  "o_entryId ` set (d_outbox (mintRun m)) = {dispatchEntryId (r_runId (mintedRun m))}"
  "list_all named (d_outbox (mintRun m))"
  by (simp_all add: mintRun_def Let_def newOutboxEntry_def dispatchEntryId_def named_def)

lemma mintedRun_fields [simp]:
  "r_runId (mintedRun m) = runIdFor (mi_taskId m) (Suc (t_runCount (mi_task m)))"
  "r_task (mintedRun m) = mi_taskId m"
  "r_state (mintedRun m) = Pending"
  "r_requestId (mintedRun m) = mi_requestId m"
  "r_requestSource (mintedRun m) = orElse (mi_requestSource m) Caller"
  "r_pipeline (mintedRun m) = mi_pipeline m"
  by (simp_all add: mintedRun_def Let_def)

lemma requestRun_Decided:
  assumes "requestRun input = Decided d"
  obtains work where "d = mintRun (requestMintInput input work)" and "liveRun (ri_activeRun input) = None"
  using assms
  by (auto simp: requestRun_def refused_def split: option.splits if_splits)

lemma requestMintInput_fields [simp]:
  "mi_taskId (requestMintInput input work) = ri_taskId input"
  "t_task (mi_task (requestMintInput input work)) = ri_taskId input"
  "t_runCount (mi_task (requestMintInput input work)) =
     (case ri_task input of None \<Rightarrow> 0 | Some t \<Rightarrow> t_runCount t)"
  "mi_requestId (requestMintInput input work) = ri_requestId input"
  "mi_requestSource (requestMintInput input work) = ri_requestSource input"
  "mi_pipeline (requestMintInput input work) = ri_pipeline input"
  by (simp_all add: requestMintInput_def requestBaseTask_def)

text \<open>What a request reads: the task and, while the lock is held, the run it names.\<close>

definition pairedRequest :: "requestRunInput \<Rightarrow> bool" where
  "pairedRequest input \<longleftrightarrow>
     (case ri_task input of
        None \<Rightarrow> ri_activeRun input = None
      | Some t \<Rightarrow> t_task t = ri_taskId input \<and>
          (case ri_activeRun input of
             None \<Rightarrow> t_activeRunId t = None
           | Some a \<Rightarrow> paired t a \<and> isLive (r_state a)))"

definition safeRequest :: "requestRunInput \<Rightarrow> decision \<Rightarrow> bool" where
  "safeRequest input d \<longleftrightarrow>
     safe (ri_taskId input)
       (case ri_task input of None \<Rightarrow> 0 | Some t \<Rightarrow> t_runCount t)
       (Option.bind (ri_task input) t_activeRunId)
       (case ri_activeRun input of None \<Rightarrow> [] | Some a \<Rightarrow> [a]) d"

lemma requestRun_safe:
  assumes "pairedRequest input" and "requestRun input = Decided d"
  shows "safeRequest input d"
proof -
  from assms(2) obtain work where d: "d = mintRun (requestMintInput input work)"
    and idle: "liveRun (ri_activeRun input) = None" by (rule requestRun_Decided)
  from assms(1) idle have "Option.bind (ri_task input) t_activeRunId = None"
    by (auto simp: pairedRequest_def liveRun_def split: option.splits if_splits)
  then show ?thesis unfolding safeRequest_def d
    by (intro mint_over_safe [where ws = "[]" and m = "mintedRun (requestMintInput input work)"])
      (auto simp: hasEntry_def split: option.splits)
qed

subsection \<open>Cancellation, revisions and label routing\<close>

lemma releaseLock_fields [simp]:
  "t_task (releaseLock t i now) = t_task t" "t_runCount (releaseLock t i now) = t_runCount t"
  "t_activeRunId (releaseLock t i now) = (if t_activeRunId t = Some i then None else t_activeRunId t)"
  "t_task (resetLossBudgets t) = t_task t" "t_runCount (resetLossBudgets t) = t_runCount t"
  "t_activeRunId (resetLossBudgets t) = t_activeRunId t"
  by (simp_all add: releaseLock_def resetLossBudgets_def)

lemma settle_fields [simp]:
  "d_task (settle t r now) = t" "d_run (settle t r now) = Some r"
  "d_additionalRuns (settle t r now) = []" "writtenRuns (settle t r now) = [r]"
  by (simp_all add: settle_def)

lemma settle_outcome [simp]: "outcomeEntryId (r_runId r) \<in> o_entryId ` set (d_outbox (settle t r now))"
  by (simp add: settle_def outcomeEntry_def newOutboxEntry_def outcomeEntryId_def)

lemma settle_named [simp]: "list_all named (d_outbox (settle t r now))"
  by (simp add: settle_def outcomeEntry_def newOutboxEntry_def named_def outcomeEntryId_def)

text \<open>A decision that settles exactly the run it was given.\<close>

definition settles :: "task \<Rightarrow> run \<Rightarrow> decision \<Rightarrow> bool" where
  "settles t r d \<longleftrightarrow>
     t_task (d_task d) = t_task t \<and> t_runCount (d_task d) = t_runCount t \<and>
     t_activeRunId (d_task d) = None \<and> d_additionalRuns d = [] \<and> list_all named (d_outbox d) \<and>
     (case d_run d of None \<Rightarrow> False | Some w \<Rightarrow> run_evolves r w \<and> \<not> isLive (r_state w) \<and> concluded d r w)"

lemma settles_safe: "paired t r \<Longrightarrow> isLive (r_state r) \<Longrightarrow> settles t r d \<Longrightarrow> safeFor t r d"
  by (rule settled_safe [where r' = "the (d_run d)"])
    (auto simp: settles_def writtenRuns_def split: option.splits)

lemma canceledRun_evolves:
  "isLive (r_state r) \<Longrightarrow> run_evolves r (canceledRun now r note i)"
  by (simp add: run_evolves_def sameIdentity_def eventsExtend_def canceledRun_def)

lemma canceledRun_state [simp]: "r_state (canceledRun now r note i) = Canceled"
  by (simp add: canceledRun_def)

lemma cancelRun_settles:
  assumes "cancelRun now t r note i native = Decided d" and "paired t r"
  shows "settles t r d" and "isLive (r_state r)"
  using assms canceledRun_evolves
  by (auto simp: cancelRun_def refused_def Let_def settles_def paired_def concluded_def hasEntry_def
      split: if_splits option.splits taskId.splits)

lemma cancelRun_state:
  "cancelRun now t r note i native = Decided d \<Longrightarrow> d_run d = Some w \<Longrightarrow> r_state w = Canceled"
  by (auto simp: cancelRun_def refused_def Let_def split: if_splits option.splits taskId.splits)

lemma cancelRun_safe:
  "paired t r \<Longrightarrow> cancelRun now t r note i native = Decided d \<Longrightarrow> safeFor t r d"
  using cancelRun_settles settles_safe by blast

text \<open>A settlement followed by a mint over its task, committed together.\<close>

lemma settle_mint_safe:
  assumes p: "paired t r" and live: "isLive (r_state r)"
    and w: "run_evolves r w" "\<not> isLive (r_state w)"
    and m: "mi_taskId m = t_task t" "t_runCount t \<le> t_runCount (mi_task m)"
    and d: "t_task (d_task d) = t_task t" "t_runCount (d_task d) = Suc (t_runCount (mi_task m))"
      "t_activeRunId (d_task d) = Some (r_runId (mintedRun m))"
    and wr: "writtenRuns d = [mintedRun m, w] \<or> writtenRuns d = [w, mintedRun m]"
    and o: "concluded d r w" "hasEntry d (dispatchEntryId (r_runId (mintedRun m)))" "list_all named (d_outbox d)"
  shows "safeFor t r d"
  unfolding safeFor_def
proof (rule mint_over_safe [where ws = "[w]" and m = "mintedRun m"])
  show "list_all (\<lambda>w. r_task w = t_task t \<and> \<not> isLive (r_state w) \<and>
          numbered (t_task t) (t_runCount t) (r_runId w) \<and>
          list_ex (\<lambda>r. run_evolves r w \<and> concluded d r w) [r]) [w]"
    using p w o run_evolves_same [OF w(1)] by (simp add: paired_def)
  show "optHolds (\<lambda>a. a \<in> set (map r_runId [w])) (t_activeRunId t)"
    using p live run_evolves_same [OF w(1)] by (simp add: paired_def)
qed (use m d wr o in auto)

lemma cancelThenRequest_safe:
  assumes p: "paired t r" and c: "cancelRun now t r note i native = canceled"
    and d: "cancelThenRequest canceled input = Decided d" and tid: "ri_taskId input = t_task t"
  shows "safeFor t r d"
proof -
  from d obtain c where c': "canceled = Decided c"
    by (auto simp: cancelThenRequest_def split: outcome.splits)
  with c have cd: "cancelRun now t r note i native = Decided c" by simp
  note st = cancelRun_settles [OF cd p]
  then obtain w where w: "d_run c = Some w" "run_evolves r w" "\<not> isLive (r_state w)"
    by (auto simp: settles_def split: option.splits)
  from cd w(1) have can: "r_state w = Canceled" by (rule cancelRun_state)
  let ?input = "input\<lparr>ri_task := Some (d_task c), ri_activeRun := None\<rparr>"
  from d c' w obtain n where n: "requestRun ?input = Decided n"
    and dn: "d = n\<lparr>d_additionalRuns := [w], d_outbox := d_outbox c @ d_outbox n\<rparr>"
    by (auto simp: cancelThenRequest_def decidedRun_def split: outcome.splits)
  from n obtain work where nm: "n = mintRun (requestMintInput ?input work)" by (rule requestRun_Decided)
  show ?thesis
    by (rule settle_mint_safe [OF p st(2) w(2,3), where m = "requestMintInput ?input work"])
      (use st(1) tid can in \<open>auto simp: dn nm settles_def writtenRuns_def concluded_def hasEntry_def image_Un\<close>)
qed

end
