(* ===== verification/Decision_Contract.thy ===== *)
theory Decision_Contract
  imports Decision_Safety
begin

text \<open>
  Every decision function keeps the contract of \<open>Decision_Safety\<close>. The functions that decide on
  one run share the interface \<open>run_decider\<close>, which is interpreted on each of them.
\<close>

lemmas evolve_defs = run_evolves_def sameIdentity_def eventsExtend_def

locale run_decider =
  fixes decide :: "task \<Rightarrow> run \<Rightarrow> outcome"
  assumes decide_safe: "paired t r \<Longrightarrow> decide t r = Decided d \<Longrightarrow> safeFor t r d"

subsection \<open>Heartbeats and observations\<close>

text \<open>A decision that leaves the lock alone and updates at most the run it was given, without
  changing whether it is live.\<close>

definition keepsLock :: "task \<Rightarrow> run \<Rightarrow> decision \<Rightarrow> bool" where
  "keepsLock t r d \<longleftrightarrow>
     t_task (d_task d) = t_task t \<and> t_runCount (d_task d) = t_runCount t \<and>
     t_activeRunId (d_task d) = t_activeRunId t \<and> d_additionalRuns d = [] \<and> list_all named (d_outbox d) \<and>
     (case d_run d of None \<Rightarrow> True
      | Some w \<Rightarrow> run_evolves r w \<and> (isLive (r_state w) \<longleftrightarrow> isLive (r_state r)))"

lemma keepsLock_concluded:
  assumes "run_evolves r w" and "isLive (r_state w) \<longleftrightarrow> isLive (r_state r)"
  shows "concluded d r w"
  using assms run_evolvesD(3) [OF assms(1)] by (cases "isLive (r_state r)") (auto simp: concluded_def isLive_cases)

lemma keepsLock_safe: "paired t r \<Longrightarrow> keepsLock t r d \<Longrightarrow> safeFor t r d"
  by (auto simp: keepsLock_def safeFor_def safe_unfold paired_def writtenRuns_def run_evolves_same
      published_def keepsLock_concluded split: option.splits)

lemma refused_not_Decided [simp]: "refused why \<noteq> Decided d" "Decided d \<noteq> refused why"
  by (simp_all add: refused_def)

lemma run_evolves_updates:
  "run_evolves r (r\<lparr>r_queue := q\<rparr>)"
  "run_evolves r (r\<lparr>r_queue := q, r_updatedAt := u\<rparr>)"
  "run_evolves r (r\<lparr>r_queue := q, r_leaseExpiresAt := l, r_updatedAt := u\<rparr>)"
  "run_evolves r (r\<lparr>r_events := r_events r @ es\<rparr>)"
  "run_evolves r (r\<lparr>r_credentialOperation := c, r_updatedAt := u\<rparr>)"
  "run_evolves r (r\<lparr>r_credentialPendingResult := cp, r_updatedAt := u\<rparr>)"
  "run_evolves r (r\<lparr>r_triagePublication := tp, r_updatedAt := u\<rparr>)"
  "run_evolves r (r\<lparr>r_delivery := dl, r_updatedAt := u\<rparr>)"
  "run_evolves r (r\<lparr>r_delivery := dl, r_triagePublication := tp\<rparr>)"
  by (simp_all add: evolve_defs)

lemma delivery_named [simp]:
  "list_all named (finalDeliveryOutbox t r dl now)" "list_all named (deliveryOutbox t r settled dl now)"
  by (simp_all add: finalDeliveryOutbox_def deliveryOutbox_def newOutboxEntry_def named_def)

lemmas keep_simps = keepsLock_def onlyTask_def taskAndRun_def run_evolves_updates

lemma confirmDispatch_keeps: "confirmDispatch now t r = Decided d \<Longrightarrow> keepsLock t r d"
  by (auto simp: confirmDispatch_def keepsLock_def taskAndRun_def evolve_defs split: if_splits)

interpretation confirm: run_decider "confirmDispatch now" for now
  by unfold_locales (rule keepsLock_safe [OF _ confirmDispatch_keeps])

lemma observeStartupPlacement_keeps:
  "observeStartupPlacement now t r c j obs placed = Decided d \<Longrightarrow> keepsLock t r d"
  by (auto simp: observeStartupPlacement_def keep_simps
      split: if_splits option.splits)

interpretation startup: run_decider "\<lambda>t r. observeStartupPlacement now t r c j obs placed" for now c j obs placed
  by unfold_locales (rule keepsLock_safe [OF _ observeStartupPlacement_keeps])

lemma renewLease_keeps: "renewLease now t r fp started = Decided d \<Longrightarrow> keepsLock t r d"
  by (auto simp: renewLease_def keep_simps newOutboxEntry_def named_def split: if_splits option.splits)

interpretation heartbeat: run_decider "\<lambda>t r. renewLease now t r fp started" for now fp started
  by unfold_locales (rule keepsLock_safe [OF _ renewLease_keeps])

lemma observePlacement_keeps: "observePlacement now t r c p = Decided d \<Longrightarrow> keepsLock t r d"
  by (auto simp: observePlacement_def keep_simps
      split: if_splits option.splits)

interpretation placement: run_decider "\<lambda>t r. observePlacement now t r c p" for now c p
  by unfold_locales (rule keepsLock_safe [OF _ observePlacement_keeps])

interpretation cancellation: run_decider "\<lambda>t r. cancelRun now t r remark i native" for now remark i native
  by unfold_locales (rule cancelRun_safe)

lemma decideCancelUnclaimed_safe:
  "paired t r \<Longrightarrow> decideCancelUnclaimed now notAfter note issue t r = Decided d \<Longrightarrow> safeFor t r d"
  by (auto simp: decideCancelUnclaimed_def intro: cancelRun_safe split: if_splits)

interpretation unclaimed: run_decider "decideCancelUnclaimed now notAfter remark issue" for now notAfter remark issue
  by unfold_locales (rule decideCancelUnclaimed_safe)

lemma paired_cong:
  "paired t r \<Longrightarrow> t_task t' = t_task t \<Longrightarrow> t_runCount t' = t_runCount t \<Longrightarrow>
   t_activeRunId t' = t_activeRunId t \<Longrightarrow> paired t' r"
  by (simp add: paired_def)

lemma safeFor_cong:
  "t_task t' = t_task t \<Longrightarrow> t_runCount t' = t_runCount t \<Longrightarrow> t_activeRunId t' = t_activeRunId t \<Longrightarrow>
   safeFor t' r d = safeFor t r d"
  by (simp add: safeFor_def)

lemma invalidateSourceRevision_safe:
  assumes "paired t r" and "invalidateSourceRevision now t r obs = Decided d"
  shows "safeFor t r d"
proof -
  let ?t' = "t\<lparr>t_desiredRevision := None, t_sourceObservedAt := Some obs, t_updatedAt := now\<rparr>"
  have "keepsLock t r d \<or>
      cancelRun now ?t' r (Some ''Source is no longer eligible'') None None = Decided d"
    using assms(2)
    by (auto simp: invalidateSourceRevision_def Let_def keep_simps split: if_splits option.splits)
  then show ?thesis
    using keepsLock_safe [OF assms(1)] cancelRun_safe [OF paired_cong [OF assms(1), of ?t']]
      safeFor_cong [of ?t' t r d] by auto
qed

interpretation invalidation: run_decider "\<lambda>t r. invalidateSourceRevision now t r obs" for now obs
  by unfold_locales (rule invalidateSourceRevision_safe)

subsection \<open>Reports\<close>

text \<open>A settlement of the given run, possibly with a successor that takes the lock; a report
  either keeps the lock (its completion is deferred) or settles.\<close>

definition settlesWithSuccessor :: "task \<Rightarrow> run \<Rightarrow> decision \<Rightarrow> bool" where
  "settlesWithSuccessor t r d \<longleftrightarrow>
     (\<exists>w m. d_run d = Some w \<and> run_evolves r w \<and> \<not> isLive (r_state w) \<and>
        d_additionalRuns d = [mintedRun m] \<and> mi_taskId m = t_task t \<and>
        t_runCount t \<le> t_runCount (mi_task m) \<and>
        t_task (d_task d) = t_task t \<and> t_runCount (d_task d) = Suc (t_runCount (mi_task m)) \<and>
        t_activeRunId (d_task d) = Some (r_runId (mintedRun m)) \<and>
        concluded d r w \<and> hasEntry d (dispatchEntryId (r_runId (mintedRun m))) \<and> list_all named (d_outbox d))"

lemma settlesWithSuccessor_safe:
  assumes "paired t r" "isLive (r_state r)" "settlesWithSuccessor t r d"
  shows "safeFor t r d"
proof -
  from assms(3) obtain w m where
    "d_run d = Some w" "run_evolves r w" "\<not> isLive (r_state w)" "d_additionalRuns d = [mintedRun m]"
    "mi_taskId m = t_task t" "t_runCount t \<le> t_runCount (mi_task m)"
    "t_task (d_task d) = t_task t" "t_runCount (d_task d) = Suc (t_runCount (mi_task m))"
    "t_activeRunId (d_task d) = Some (r_runId (mintedRun m))"
    "concluded d r w" "hasEntry d (dispatchEntryId (r_runId (mintedRun m)))" "list_all named (d_outbox d)"
    by (auto simp: settlesWithSuccessor_def)
  then show ?thesis
    by (intro settle_mint_safe [OF assms(1,2), where w = w and m = m]) (auto simp: writtenRuns_def)
qed

text \<open>\<open>settlesRun\<close>: with or without a successor.\<close>

definition settlesRun :: "task \<Rightarrow> run \<Rightarrow> decision \<Rightarrow> bool" where
  "settlesRun t r d \<longleftrightarrow> settles t r d \<or> settlesWithSuccessor t r d"

lemma settlesRun_safe: "paired t r \<Longrightarrow> isLive (r_state r) \<Longrightarrow> settlesRun t r d \<Longrightarrow> safeFor t r d"
  using settles_safe settlesWithSuccessor_safe by (auto simp: settlesRun_def)

lemma sourceSuccessorInput_fields:
  assumes "sourceSuccessorInput d r now = Some m"
  shows "mi_taskId m = r_task r" "t_task (mi_task m) = t_task (d_task d)"
    "t_runCount (mi_task m) = t_runCount (d_task d)"
  using assms by (auto simp: sourceSuccessorInput_def Let_def split: option.splits if_splits)

lemma withSuccessor_settles:
  assumes "settles t r d" and "r_task r = t_task t" and "withSuccessor d (mintRun m) = Decided d'"
    and "mi_taskId m = t_task t" "t_task (mi_task m) = t_task t" "t_runCount (mi_task m) = t_runCount t"
  shows "settlesWithSuccessor t r d'"
  using assms unfolding settlesWithSuccessor_def
  by (intro exI [where x = "the (d_run d)"] exI [where x = m])
    (auto simp: withSuccessor_def settles_def concluded_def hasEntry_def image_Un split: option.splits)

lemma advanceSourceRevision_settles:
  assumes "settles t r d" and "r_task r = t_task t" and "advanceSourceRevision d now = Decided d'"
  shows "settlesRun t r d'"
proof -
  from assms(1) obtain w where w: "d_run d = Some w" "r_task w = t_task t"
    using assms(2) run_evolves_same(2) by (auto simp: settles_def split: option.splits)
  show ?thesis
  proof (cases "sourceSuccessorInput d w now")
    case None
    with assms w show ?thesis by (simp add: advanceSourceRevision_def settlesRun_def)
  next
    case (Some m)
    with assms w sourceSuccessorInput_fields [OF Some] have "settlesWithSuccessor t r d'"
      by (intro withSuccessor_settles [OF assms(1,2), where m = m])
        (auto simp: advanceSourceRevision_def settles_def)
    then show ?thesis by (simp add: settlesRun_def)
  qed
qed

lemma reportedRun_evolves: "isLive (r_state r) \<Longrightarrow> run_evolves r (reportedRun now t r result)"
  by (simp add: evolve_defs reportedRun_def)

lemma reportedRun_state [simp]: "r_state (reportedRun now t r result) = Finished"
  by (simp add: reportedRun_def)

lemma report_settles:
  assumes "paired t r" "isLive (r_state r)" "t_activeRunId t = Some (r_runId r)"
  shows "settles t r (settle (resetLossBudgets (releaseLock t (r_runId r) now)) (reportedRun now t r result) now)"
  using assms reportedRun_evolves by (simp add: settles_def concluded_def hasEntry_def image_Un)

lemma settles_task_outbox:
  "settles t r d \<Longrightarrow> list_all named ob \<Longrightarrow>
   settles t r (d\<lparr>d_task := (d_task d)\<lparr>t_delivery := dl\<rparr>, d_outbox := d_outbox d @ ob\<rparr>)"
  by (auto simp: settles_def concluded_def hasEntry_def image_Un split: option.splits)

lemma reportResult_cases:
  assumes "paired t r" and "reportResult now t r fp result = Decided d"
  shows "isLive (r_state r)" and "keepsLock t r d \<or> settlesRun t r d"
proof -
  from assms(2) show live: "isLive (r_state r)" by (auto simp: reportResult_def split: if_splits)
  from assms(2) have act: "t_activeRunId t = Some (r_runId r)"
    by (auto simp: reportResult_def split: if_splits)
  let ?d = "settle (resetLossBudgets (releaseLock t (r_runId r) now)) (reportedRun now t r result) now"
  note st = report_settles [OF assms(1) live act, of now result]
  from assms(1) have tid: "r_task r = t_task t" by (simp add: paired_def)
  consider (deferred) cp where "taskAndRun t (r\<lparr>r_credentialPendingResult := cp, r_updatedAt := now\<rparr>) = Decided d"
    | (deliver) dl ob where "d = ?d\<lparr>d_task := (d_task ?d)\<lparr>t_delivery := dl\<rparr>, d_outbox := d_outbox ?d @ ob\<rparr>"
        "list_all named ob"
    | (advance) "advanceSourceRevision ?d now = Decided d"
    using assms(2) by (auto simp: reportResult_def Let_def split: if_splits option.splits)
  then show "keepsLock t r d \<or> settlesRun t r d"
  proof cases
    case deferred
    then show ?thesis by (auto simp: keep_simps)
  next
    case deliver
    with settles_task_outbox [OF st] show ?thesis by (simp add: settlesRun_def)
  next
    case advance
    with advanceSourceRevision_settles [OF st tid] show ?thesis by simp
  qed
qed

lemma reportResult_safe:
  "paired t r \<Longrightarrow> reportResult now t r fp result = Decided d \<Longrightarrow> safeFor t r d"
  using reportResult_cases keepsLock_safe settlesRun_safe by blast

interpretation reporting: run_decider "\<lambda>t r. reportResult now t r fp result" for now fp result
  by unfold_locales (rule reportResult_safe)

subsection \<open>Loss and retry\<close>

lemma lostRun_evolves: "isLive (r_state r) \<Longrightarrow> run_evolves r (lostRun now r by')"
  by (simp add: evolve_defs lostRun_def)

lemma lostRun_state [simp]: "r_state (lostRun now r by') = Lost"
  by (simp add: lostRun_def)

lemma settleLost_settles:
  "isLive (r_state r) \<Longrightarrow> t_activeRunId t = Some (r_runId r) \<Longrightarrow> settles t r (settleLost now t r by')"
  by (simp add: settleLost_def settles_def lostRun_evolves concluded_def hasEntry_def image_Un)

lemma retryInput_fields [simp]:
  "mi_taskId (retryInput now t r) = r_task r" "mi_task (retryInput now t r) = t"
  "mi_requestId (retryInput now t r) = ''retry:'' @ r_runId r"
  "mi_requestSource (retryInput now t r) = Some AutoRetry"
  "mi_pipeline (retryInput now t r) = r_pipeline r"
  by (simp_all add: retryInput_def)

lemma settleLostAndRetry_settles:
  assumes st: "settles t r lost" and tid: "r_task r = t_task t"
    and d: "settleLostAndRetry now (Decided lost) = Decided d"
  shows "settlesRun t r d"
proof -
  from st obtain w where w: "d_run lost = Some w" "run_evolves r w" "\<not> isLive (r_state w)" "concluded lost r w"
    by (auto simp: settles_def split: option.splits)
  from w tid have wt: "r_task w = t_task t" using run_evolves_same(2) by simp
  from st have lt: "t_task (d_task lost) = t_task t" "t_runCount (d_task lost) = t_runCount t"
    "list_all named (d_outbox lost)" by (simp_all add: settles_def)
  let ?retry = "mintRun (retryInput now (d_task lost) w)"
  consider (lost) "d = lost"
    | (advance) m where "sourceSuccessorInput lost w now = Some m" "withSuccessor lost (mintRun m) = Decided d"
    | (retry) "d = \<lparr>d_task = d_task ?retry, d_run = Some w,
                 d_additionalRuns = [mintedRun (retryInput now (d_task lost) w)],
                 d_outbox = d_outbox lost @ d_outbox ?retry\<rparr>"
    using d w by (auto simp: settleLostAndRetry_def Let_def split: if_splits option.splits)
  then show ?thesis
  proof cases
    case lost
    with st show ?thesis by (simp add: settlesRun_def)
  next
    case advance
    with sourceSuccessorInput_fields [OF advance(1)] withSuccessor_settles [OF st tid advance(2)] wt lt
    show ?thesis by (simp add: settlesRun_def)
  next
    case retry
    with w wt lt have "settlesWithSuccessor t r d" unfolding settlesWithSuccessor_def
      by (intro exI [where x = w] exI [where x = "retryInput now (d_task lost) w"])
        (auto simp: concluded_def hasEntry_def image_Un)
    then show ?thesis by (simp add: settlesRun_def)
  qed
qed

lemma settleLostAndRetry_loss:
  assumes "settleLostAndRetry now loss = Decided d"
  obtains lost where "loss = Decided lost"
  using assms by (cases loss) (auto simp: settleLostAndRetry_def)

lemma expireLease_settles:
  assumes "expireLease now t r = Decided d"
  shows "settles t r d" and "isLive (r_state r)"
  using assms by (auto simp: expireLease_def settleLost_settles split: if_splits option.splits)

lemma expireLeaseAndRetry_settles:
  assumes "paired t r" and "expireLeaseAndRetry now t r = Decided d"
  shows "settlesRun t r d" and "isLive (r_state r)"
proof -
  from assms(2) obtain lost where l: "expireLease now t r = Decided lost"
    unfolding expireLeaseAndRetry_def by (rule settleLostAndRetry_loss)
  from assms l show "settlesRun t r d"
    by (intro settleLostAndRetry_settles [OF expireLease_settles(1) [OF l]])
      (auto simp: expireLeaseAndRetry_def paired_def)
  from l show "isLive (r_state r)" by (rule expireLease_settles)
qed

interpretation expiry: run_decider "expireLeaseAndRetry now" for now
  by unfold_locales (blast intro: settlesRun_safe expireLeaseAndRetry_settles)

lemma executorExited_settles:
  assumes "executorExited now t r c = Decided d"
  shows "settles t r d" and "isLive (r_state r)"
  using assms by (auto simp: executorExited_def settleLost_settles split: if_splits)

lemma retireSettledClaim_keeps: "retireSettledClaim now t r = Decided d \<Longrightarrow> keepsLock t r d"
  by (auto simp: retireSettledClaim_def Let_def keep_simps evolve_defs split: option.splits if_splits)

lemma executorExitedAndRetry_cases:
  assumes "executorExitedAndRetry now t r c = Decided d"
  shows "retireSettledClaim now t r = Decided d \<or>
    (\<exists>lost. executorExited now t r c = Decided lost \<and> settleLostAndRetry now (Decided lost) = Decided d)"
  using assms
  by (auto simp: executorExitedAndRetry_def settleLostAndRetry_def
      split: outcome.splits reason.splits if_splits)

lemma executorExitedAndRetry_safe:
  assumes "paired t r" and "executorExitedAndRetry now t r c = Decided d"
  shows "safeFor t r d"
  using executorExitedAndRetry_cases [OF assms(2)]
proof
  assume "retireSettledClaim now t r = Decided d"
  then show ?thesis using keepsLock_safe [OF assms(1)] retireSettledClaim_keeps by blast
next
  assume "\<exists>lost. executorExited now t r c = Decided lost \<and> settleLostAndRetry now (Decided lost) = Decided d"
  then obtain lost where l: "executorExited now t r c = Decided lost"
    and d: "settleLostAndRetry now (Decided lost) = Decided d" by blast
  note ex = executorExited_settles [OF l]
  have "settlesRun t r d"
    using settleLostAndRetry_settles [OF ex(1) _ d] assms(1) by (simp add: paired_def)
  then show ?thesis by (rule settlesRun_safe [OF assms(1) ex(2)])
qed

interpretation exit: run_decider "\<lambda>t r. executorExitedAndRetry now t r c" for now c
  by unfold_locales (rule executorExitedAndRetry_safe)

subsection \<open>Delivery and credential operations\<close>

lemma rebind_keeps: "rebind now t r dl ob = Decided d \<Longrightarrow> list_all named ob \<Longrightarrow> keepsLock t r d"
  by (auto simp: rebind_def keep_simps)

lemma correctionRequest_fields [simp]:
  "ri_taskId (correctionRequest now t r b why) = t_task t"
  "ri_task (correctionRequest now t r b why) = Some (t\<lparr>t_delivery := None\<rparr>)"
  by (simp_all add: correctionRequest_def)

lemma correction_safe:
  assumes p: "paired t r" and idle: "t_activeRunId t = None"
    and s: "requestRun (correctionRequest now t r b why) = Decided s"
    and d: "d = s\<lparr>d_task := (d_task s)\<lparr>t_delivery := dl\<rparr>, d_run := Some r, d_additionalRuns := [m]\<rparr>"
    and m: "d_run s = Some m"
  shows "safeFor t r d"
proof -
  from s obtain work where sm: "s = mintRun (requestMintInput (correctionRequest now t r b why) work)"
    by (rule requestRun_Decided)
  with m have m': "m = mintedRun (requestMintInput (correctionRequest now t r b why) work)" by simp
  show ?thesis unfolding safeFor_def
    by (rule mint_over_safe [where ws = "[r]" and m = m])
      (use p idle in \<open>auto simp: d sm m' paired_def writtenRuns_def concluded_def hasEntry_def image_Un\<close>)
qed

lemma advanceDelivery_safe:
  assumes p: "paired t r" and dd: "advanceDelivery now t r ob auth = Decided d"
  shows "safeFor t r d"
proof -
  from dd obtain binding where b: "t_delivery t = Some binding" and fresh: "\<not> deliveryStale t r binding ob"
    by (auto simp: advanceDelivery_def split: if_splits option.splits)
  from fresh have idle: "t_activeRunId t = None" by (simp add: deliveryStale_def)
  have "keepsLock t r d \<or>
     (\<exists>why s dl m. requestRun (correctionRequest now t r binding why) = Decided s \<and>
        d = s\<lparr>d_task := (d_task s)\<lparr>t_delivery := dl\<rparr>, d_run := Some r, d_additionalRuns := [m]\<rparr> \<and>
        d_run s = Some m)"
  proof (cases ob)
    case (ObsCorrection head why)
    with dd b fresh show ?thesis
      by (cases "requestRun (correctionRequest now t r binding why)")
        (auto simp: advanceDelivery_def decidedRun_def keep_simps split: if_splits option.splits)
  qed (use dd b fresh in \<open>auto simp: advanceDelivery_def Let_def keep_simps rebind_def split: if_splits\<close>)
  then show ?thesis using keepsLock_safe [OF p] correction_safe [OF p idle] by blast
qed

interpretation delivery: run_decider "\<lambda>t r. advanceDelivery now t r ob (auth t r)" for now ob auth
  by unfold_locales (rule advanceDelivery_safe)

lemma reserveCredentialOperation_keeps:
  "reserveCredentialOperation now t r fp i k = Decided d \<Longrightarrow> keepsLock t r d"
  by (auto simp: reserveCredentialOperation_def keep_simps split: if_splits)

interpretation reserving: run_decider "\<lambda>t r. reserveCredentialOperation now t r fp i k" for now fp i k
  by unfold_locales (rule keepsLock_safe [OF _ reserveCredentialOperation_keeps])

lemma credentialApplied_evolves [simp]:
  "run_evolves r (credentialApplied now r op fp change)"
  "r_state (credentialApplied now r op fp change) = r_state r"
  by (cases change; simp add: evolve_defs)+

lemma paired_evolves:
  "paired t r \<Longrightarrow> run_evolves r r' \<Longrightarrow> r_state r' = r_state r \<Longrightarrow> paired t r'"
  using run_evolves_same by (auto simp: paired_def)

lemma safeFor_evolves:
  "run_evolves r r' \<Longrightarrow> r_state r' = r_state r \<Longrightarrow> safeFor t r' d \<Longrightarrow> safeFor t r d"
  unfolding safeFor_def by (erule safe_weaken) (simp add: refines_def)

lemma concluded_state: "r_state r' = r_state r \<Longrightarrow> concluded d r' w = concluded d r w"
  by (simp add: concluded_def)

lemma settlesRun_evolves:
  assumes "run_evolves r r'" and "r_state r' = r_state r" and "settlesRun t r' d"
  shows "settlesRun t r d"
proof -
  have "run_evolves r w \<and> concluded d r w" if "run_evolves r' w" "concluded d r' w" for w
    using that run_evolves_trans [OF assms(1)] concluded_state [OF assms(2)] by simp
  with assms(3) show ?thesis unfolding settlesRun_def settles_def settlesWithSuccessor_def
    by (elim disjE; force split: option.splits)
qed

lemma keepsLock_evolves:
  "run_evolves r r' \<Longrightarrow> r_state r' = r_state r \<Longrightarrow> keepsLock t r' d \<Longrightarrow> keepsLock t r d"
  unfolding keepsLock_def by (auto split: option.splits intro: run_evolves_trans)

lemma finish_or_write:
  "(case (change, pending) of (Finish _ _, Some p) \<Rightarrow> f p | _ \<Rightarrow> g) = x \<Longrightarrow> g = x \<or> (\<exists>p. f p = x)"
  by (cases change; cases pending; auto)

lemma changeCredentialOperation_cases:
  assumes "paired t r" and "changeCredentialOperation now t r i fp change = Decided d"
  shows "keepsLock t r d \<or> (isLive (r_state r) \<and> settlesRun t r d)"
proof -
  from assms(2) obtain op where op: "r_credentialOperation r = Some op"
    by (auto simp: changeCredentialOperation_def split: option.splits)
  let ?next = "credentialApplied now r op fp change"
  have ev: "run_evolves r (?next\<lparr>r_updatedAt := now\<rparr>)"
    by (rule run_evolves_trans [OF credentialApplied_evolves(1) [of r now op fp change]])
      (simp add: evolve_defs)
  have "d = \<lparr>d_task = t, d_run = Some (?next\<lparr>r_updatedAt := now\<rparr>),
              d_additionalRuns = [], d_outbox = []\<rparr> \<or>
      (\<exists>p :: credentialPendingResult. reportResult now t ?next (Some (cp_claimFingerprint p)) (cp_result p) = Decided d)"
  proof -
    from assms(2) op have "(case (change, r_credentialPendingResult ?next) of
        (Finish _ _, Some p) \<Rightarrow> reportResult now t ?next (Some (cp_claimFingerprint p)) (cp_result p)
      | _ \<Rightarrow> taskAndRun t (?next\<lparr>r_updatedAt := now\<rparr>)) = Decided d"
      by (cases "credentialObjection r op change")
        (simp_all add: changeCredentialOperation_def Let_def del: credentialApplied.simps split: if_splits)
    from finish_or_write [OF this] show ?thesis by (auto simp: taskAndRun_def)
  qed
  then consider (change) "d = \<lparr>d_task = t, d_run = Some (?next\<lparr>r_updatedAt := now\<rparr>),
                          d_additionalRuns = [], d_outbox = []\<rparr>"
    | (report) p :: credentialPendingResult where "reportResult now t ?next (Some (cp_claimFingerprint p)) (cp_result p) = Decided d"
    by blast
  then show ?thesis
  proof cases
    case change
    with ev show ?thesis by (simp add: keepsLock_def)
  next
    case report
    with reportResult_cases [OF paired_evolves [OF assms(1)] report]
    show ?thesis using settlesRun_evolves keepsLock_evolves credentialApplied_evolves by metis
  qed
qed

lemma changeCredentialOperation_safe:
  "paired t r \<Longrightarrow> changeCredentialOperation now t r i fp change = Decided d \<Longrightarrow> safeFor t r d"
  using changeCredentialOperation_cases keepsLock_safe settlesRun_safe by blast

interpretation credential: run_decider "\<lambda>t r. changeCredentialOperation now t r i fp change" for now i fp change
  by unfold_locales (rule changeCredentialOperation_safe)

lemma decideTriagePublication_keeps: "decideTriagePublication now patch t r = Decided d \<Longrightarrow> keepsLock t r d"
  by (auto simp: decideTriagePublication_def keep_simps split: option.splits if_splits)

interpretation triage: run_decider "decideTriagePublication now patch" for now patch
  by unfold_locales (rule keepsLock_safe [OF _ decideTriagePublication_keeps])

subsection \<open>Provider fallback\<close>

lemma fallbackRequest_fields [simp]:
  "ri_taskId (fallbackRequest now t r policy p why f) = r_task r"
  "ri_task (fallbackRequest now t r policy p why f) = Some t"
  by (simp_all add: fallbackRequest_def)

lemma successor_settles:
  assumes d: "successor now settled p why f = Decided d"
    and w: "d_run settled = Some w" "run_evolves r w" "\<not> isLive (r_state w)" "concluded settled r w \<or> r_state w = Canceled"
    and ob: "list_all named (d_outbox settled)" and tid: "r_task r = t_task t"
    and count: "t_runCount t \<le> t_runCount (d_task settled)"
  shows "settlesWithSuccessor t r d"
proof -
  from w tid have wt: "r_task w = t_task t" using run_evolves_same(2) by simp
  from d w obtain policy next' m where
    n: "requestRun (fallbackRequest now (d_task settled) w policy p why f) = Decided next'"
    and m: "d_run next' = Some m"
    and dn: "d = \<lparr>d_task = d_task next', d_run = Some w, d_additionalRuns = [m],
                  d_outbox = d_outbox settled @ d_outbox next'\<rparr>"
    by (auto simp: successor_def decidedRun_def split: option.splits outcome.splits)
  from n obtain work where
    nm: "next' = mintRun (requestMintInput (fallbackRequest now (d_task settled) w policy p why f) work)"
    by (rule requestRun_Decided)
  with m have m': "m = mintedRun (requestMintInput (fallbackRequest now (d_task settled) w policy p why f) work)"
    by simp
  show ?thesis unfolding settlesWithSuccessor_def
    by (intro exI [where x = w] exI [where x = "requestMintInput (fallbackRequest now (d_task settled) w policy p why f) work"])
      (use w wt count ob in \<open>auto simp: dn nm m' concluded_def hasEntry_def image_Un\<close>)
qed

lemma settlesRun_run:
  assumes "settlesRun t r d"
  obtains w where "d_run d = Some w" "run_evolves r w" "\<not> isLive (r_state w)" "concluded d r w"
    "t_runCount t \<le> t_runCount (d_task d)" "list_all named (d_outbox d)"
  using assms by (auto simp: settlesRun_def settles_def settlesWithSuccessor_def split: option.splits)

lemma settleProviderFallback_settles:
  assumes live: "isLive (r_state r)" and tid: "r_task r = t_task t"
    and st: "keepsLock t r settled \<or> settlesRun t r settled"
    and d: "settleProviderFallback now settled auth avail = Decided d"
  shows "keepsLock t r d \<or> settlesRun t r d"
proof (cases "d = settled")
  case True
  with st show ?thesis by simp
next
  case False
  with d obtain w p where w: "d_run settled = Some w" "providerCooldownForRun w \<noteq> None"
    and s: "successor now settled p ProviderLimit (r_runId w) = Decided d"
    by (auto simp: settleProviderFallback_def decidedRun_def split: option.splits)
  from w(2) have "r_state w = Finished" using providerCooldownForRun_cases(1) by blast
  with st w(1) live have "settlesRun t r settled" by (auto simp: keepsLock_def)
  then obtain w' where w': "d_run settled = Some w'" "run_evolves r w'" "\<not> isLive (r_state w')"
    "concluded settled r w'" "t_runCount t \<le> t_runCount (d_task settled)" "list_all named (d_outbox settled)" by (rule settlesRun_run)
  then have "settlesWithSuccessor t r d" using successor_settles [OF s] tid by blast
  then show ?thesis by (simp add: settlesRun_def)
qed

lemma reportResultWithFallback_cases:
  assumes "paired t r" and "reportResultWithFallback now t r result fp auth avail = Decided d"
  shows "isLive (r_state r)" and "keepsLock t r d \<or> settlesRun t r d"
proof -
  from assms(2) obtain settled where s: "reportResult now t r fp result = Decided settled"
    and d: "settleProviderFallback now settled auth avail = Decided d"
    by (auto simp: reportResultWithFallback_def split: outcome.splits)
  note c = reportResult_cases [OF assms(1) s]
  from c(1) show "isLive (r_state r)" .
  from settleProviderFallback_settles [OF c(1) _ c(2) d] assms(1)
  show "keepsLock t r d \<or> settlesRun t r d" by (simp add: paired_def)
qed

interpretation failure: run_decider "\<lambda>t r. decideFailureReport a now result fp t r q" for a now result fp q
  by unfold_locales
    (auto simp: decideFailureReport_def dest: reportResultWithFallback_cases intro: keepsLock_safe settlesRun_safe)

lemma reportTarget_evolves [simp]:
  "run_evolves r (reportTarget r result dl pub)" "r_state (reportTarget r result dl pub) = r_state r"
  by (simp_all add: reportTarget_def run_evolves_updates)

lemma decideReport_safe:
  assumes "paired t r" and "decideReport now result fp dl pub t r = Decided d"
  shows "safeFor t r d"
proof -
  from assms(2) have "reportResult now t (reportTarget r result dl pub) fp result = Decided d"
    by (simp add: decideReport_def split: if_splits)
  from reportResult_safe [OF paired_evolves [OF assms(1) reportTarget_evolves] this] show ?thesis
    by (rule safeFor_evolves [OF reportTarget_evolves])
qed

interpretation success: run_decider "decideReport now result fp dl pub" for now result fp dl pub
  by unfold_locales (rule decideReport_safe)

lemma reportResult_live: "reportResult now t r fp result = Decided d \<Longrightarrow> isLive (r_state r)"
  by (auto simp: reportResult_def split: if_splits)

text \<open>A deferred completion can only be settled while its run is live.\<close>

lemma finish_pending_live:
  assumes "changeCredentialOperation now t r i fp (Finish restored at) = Decided d"
    and "r_credentialPendingResult r \<noteq> None"
  shows "isLive (r_state r)"
  using assms
  by (auto simp: changeCredentialOperation_def Let_def simp del: credentialObjection.simps
      dest!: reportResult_live split: option.splits if_splits)

lemma decideFinish_safe:
  assumes p: "paired t r" and d: "decideFinish a now i fp restored at t r q = Decided d"
  shows "safeFor t r d"
proof -
  from d obtain settled where s: "changeCredentialOperation now t r i fp (Finish restored at) = Decided settled"
    by (auto simp: decideFinish_def split: outcome.splits)
  from p have tid: "r_task r = t_task t" by (simp add: paired_def)
  from changeCredentialOperation_cases [OF p s]
  have st: "keepsLock t r settled \<or> settlesRun t r settled" by blast
  show ?thesis
  proof (cases "d = settled")
    case True
    with s show ?thesis using changeCredentialOperation_safe [OF p] by blast
  next
    case False
    with d s obtain auth avail where e: "settleProviderFallback now settled auth avail = Decided d"
      and "r_credentialPendingResult r \<noteq> None"
      by (auto simp: decideFinish_def split: option.splits if_splits)
    with finish_pending_live [OF s] have live: "isLive (r_state r)" by blast
    from settleProviderFallback_settles [OF live tid st e] show ?thesis
      using keepsLock_safe [OF p] settlesRun_safe [OF p live] by blast
  qed
qed

interpretation finishing: run_decider "\<lambda>t r. decideFinish a now i fp restored at t r q" for a now i fp restored at q
  by unfold_locales (rule decideFinish_safe)

lemma reroutedRun_evolves: "isLive (r_state r) \<Longrightarrow> run_evolves r (reroutedRun now r f p)"
  by (simp add: evolve_defs reroutedRun_def)

lemma rerouteQueuedRun_settles:
  assumes "r_task r = t_task t" and "rerouteQueuedRun now t r cd auth avail = Decided d"
  shows "settlesWithSuccessor t r d" and "isLive (r_state r)"
proof -
  from assms(2) show live: "isLive (r_state r)"
    by (auto simp: rerouteQueuedRun_def isLive_cases split: if_splits)
  from assms(2) obtain f p where
    s: "successor now \<lparr>d_task = t\<lparr>t_activeRunId := None, t_updatedAt := now\<rparr>,
          d_run = Some (reroutedRun now r f p), d_additionalRuns = [], d_outbox = []\<rparr>
          p ProviderCooldownReason f = Decided d"
    by (auto simp: rerouteQueuedRun_def split: if_splits option.splits)
  show "settlesWithSuccessor t r d"
    by (rule successor_settles [OF s _ reroutedRun_evolves [OF live] _ _ _ assms(1)])
      (simp_all add: reroutedRun_def)
qed

lemma rerouteQueuedRun_safe:
  "paired t r \<Longrightarrow> rerouteQueuedRun now t r cd auth avail = Decided d \<Longrightarrow> safeFor t r d"
  using rerouteQueuedRun_settles settlesWithSuccessor_safe by (auto simp: paired_def)

interpretation rerouting: run_decider "\<lambda>t r. rerouteQueuedRun now t r (cd r) (auth t r) avail" for now cd auth avail
  by unfold_locales (rule rerouteQueuedRun_safe)

subsection \<open>Requests\<close>

lemma safeRequest_task:
  assumes "ri_task input = Some t" and "t_task t = ri_taskId input"
  shows "safeRequest input d \<longleftrightarrow>
    safe (t_task t) (t_runCount t) (t_activeRunId t)
      (case ri_activeRun input of None \<Rightarrow> [] | Some a \<Rightarrow> [a]) d"
  using assms by (simp add: safeRequest_def)

lemma onlyTask_safeRequest:
  assumes "pairedRequest input" and "ri_task input = Some t" and "onlyTask t' = Decided d"
    and "t_task t' = t_task t" "t_runCount t' = t_runCount t" "t_activeRunId t' = t_activeRunId t"
  shows "safeRequest input d"
  using assms by (auto simp: safeRequest_def pairedRequest_def intro: onlyTask_safe)

lemma safeFor_request:
  "pairedRequest input \<Longrightarrow> ri_task input = Some t \<Longrightarrow> ri_activeRun input = Some a \<Longrightarrow>
   safeFor t a d \<Longrightarrow> safeRequest input d"
  by (simp add: safeRequest_def safeFor_def pairedRequest_def)

lemma revisionOrdering_Some:
  assumes "revisionOrdering task revn = Some (Decided d)"
  obtains t t' where "task = Some t" "onlyTask t' = Decided d" "t_task t' = t_task t"
    "t_runCount t' = t_runCount t" "t_activeRunId t' = t_activeRunId t"
proof -
  from assms obtain t where t: "task = Some t"
    by (auto simp: revisionOrdering_def split: option.splits)
  with assms have "\<exists>t'. onlyTask t' = Decided d \<and> t_task t' = t_task t \<and>
      t_runCount t' = t_runCount t \<and> t_activeRunId t' = t_activeRunId t"
    by (auto simp: revisionOrdering_def split: option.splits if_splits)
  with t that show thesis by blast
qed

lemma desiredTask_fields [simp]:
  "t_task (desiredTask now t revn) = t_task t" "t_runCount (desiredTask now t revn) = t_runCount t"
  "t_activeRunId (desiredTask now t revn) = t_activeRunId t"
  by (simp_all add: desiredTask_def)

lemma safeRequest_sourceRevision [simp]:
  "safeRequest (input\<lparr>ri_sourceRevision := x\<rparr>) d = safeRequest input d"
  "pairedRequest (input\<lparr>ri_sourceRevision := x\<rparr>) = pairedRequest input"
  "safeRequest (input\<lparr>ri_priority := y\<rparr>) d = safeRequest input d"
  "pairedRequest (input\<lparr>ri_priority := y\<rparr>) = pairedRequest input"
  by (simp_all add: safeRequest_def pairedRequest_def split: option.split)

lemma pairedRequest_active:
  "pairedRequest input \<Longrightarrow> ri_task input = Some t \<Longrightarrow> ri_activeRun input = Some a \<Longrightarrow>
   paired t a \<and> ri_taskId input = t_task t"
  by (simp add: pairedRequest_def)

lemma requestRevisionRun_safe:
  assumes p: "pairedRequest input" and d: "requestRevisionRun input revn = Decided d"
  shows "safeRequest input d"
proof -
  let ?input = "input\<lparr>ri_sourceRevision := Some revn\<rparr>"
  consider (ordering) "revisionOrdering (ri_task input) revn = Some (Decided d)"
    | (request) "requestRun ?input = Decided d"
    | (desired) t where "ri_task input = Some t" "onlyTask (desiredTask (ri_now input) t revn) = Decided d"
    | (supersede) t a where "ri_task input = Some t" "ri_activeRun input = Some a"
        "cancelThenRequest (cancelRun (ri_now input) (desiredTask (ri_now input) t revn) a
           (Some ''Superseded by a newer source revision'') None None) ?input = Decided d"
    using d unfolding requestRevisionRun_def liveRun_def
    by (auto split: option.splits if_splits)
  then show ?thesis
  proof cases
    case ordering
    then obtain t t' where "ri_task input = Some t" "onlyTask t' = Decided d" "t_task t' = t_task t"
      "t_runCount t' = t_runCount t" "t_activeRunId t' = t_activeRunId t" by (rule revisionOrdering_Some)
    then show ?thesis by (rule onlyTask_safeRequest [OF p])
  next
    case request
    then show ?thesis using requestRun_safe [of ?input] p by simp
  next
    case desired
    then show ?thesis using onlyTask_safeRequest [OF p] by simp
  next
    case supersede
    let ?t' = "desiredTask (ri_now input) t revn"
    note pa = pairedRequest_active [OF p supersede(1,2)]
    have "safeFor ?t' a d"
      by (rule cancelThenRequest_safe [OF paired_cong [OF conjunct1 [OF pa]] refl supersede(3)])
        (simp_all add: pa)
    then have "safeFor t a d" using safeFor_cong [of ?t' t] by simp
    then show ?thesis by (rule safeFor_request [OF p supersede(1,2)])
  qed
qed

lemma safe_cong:
  "writtenRuns d' = writtenRuns d \<Longrightarrow> t_task (d_task d') = t_task (d_task d) \<Longrightarrow>
   t_runCount (d_task d') = t_runCount (d_task d) \<Longrightarrow>
   t_activeRunId (d_task d') = t_activeRunId (d_task d) \<Longrightarrow>
   list_all (published K d') (writtenRuns d) \<Longrightarrow> list_all named (d_outbox d') \<Longrightarrow> safe tid n act K d \<Longrightarrow> safe tid n act K d'"
  by (simp add: safe_def writtenIds_def writeOk_def lockMoves_def list_all_iff)

lemma labelHandoff_safe:
  assumes p: "paired t a" and d: "labelHandoff input t a = Decided d" and tid: "ri_taskId input = t_task t"
  shows "safeFor t a d"
proof -
  let ?c = "cancelRun (ri_now input) t a
      (Some (''Authorized label provider handoff to '' @ ri_pipeline input)) None None"
  from d obtain c n w where c: "?c = Decided c" and w: "d_run c = Some w"
    and n: "requestRun (input\<lparr>ri_task := Some (d_task c), ri_activeRun := None\<rparr>) = Decided n"
    and dn: "d = n\<lparr>d_additionalRuns := [w]\<rparr>"
    by (auto simp: labelHandoff_def decidedRun_def split: outcome.splits option.splits)
  let ?d' = "n\<lparr>d_additionalRuns := [w], d_outbox := d_outbox c @ d_outbox n\<rparr>"
  from c w n have d': "cancelThenRequest ?c input = Decided ?d'" by (simp add: cancelThenRequest_def)
  have same: "writtenRuns d = writtenRuns ?d'" "d_task d = d_task ?d'" by (simp_all add: dn writtenRuns_def)
  from n obtain work where nm: "n = mintRun (requestMintInput (input\<lparr>ri_task := Some (d_task c), ri_activeRun := None\<rparr>) work)"
    by (rule requestRun_Decided)
  note st = cancelRun_settles(1) [OF c p]
  have pub: "list_all (published [a] d) (writtenRuns ?d')"
    using st w cancelRun_state [OF c w]
    by (auto simp: dn nm writtenRuns_def published_def hasEntry_def concluded_def settles_def)
  have "safeFor t a ?d'" by (rule cancelThenRequest_safe [OF p refl d' tid])
  then show ?thesis unfolding safeFor_def
    by (rule safe_cong [rotated -1]) (simp_all add: same pub, simp add: dn nm)
qed

lemma acceptRouting_safe:
  assumes "acceptRouting d req label = Decided d'" and "safeRequest input d"
  shows "safeRequest input d'"
proof -
  from assms(1) have same: "writtenRuns d' = writtenRuns d" "d_outbox d' = d_outbox d"
    "t_task (d_task d') = t_task (d_task d)" "t_runCount (d_task d') = t_runCount (d_task d)"
    "t_activeRunId (d_task d') = t_activeRunId (d_task d)"
    by (auto simp: acceptRouting_def decidedRun_def writtenRuns_def split: option.splits)
  from same(2,5) have "published K d' = published K d" for K
    by (simp add: published_def [abs_def] concluded_def hasEntry_def)
  with assms(2) same show ?thesis unfolding safeRequest_def
    by (intro safe_cong [OF same(1,3,4,5) _ _ assms(2) [unfolded safeRequest_def]]) (simp_all add: safe_def same(2))
qed

lemma rejectRouting_safe:
  "pairedRequest input \<Longrightarrow> rejectRouting input req why = Decided d \<Longrightarrow> safeRequest input d"
  by (auto simp: rejectRouting_def split: option.splits intro: onlyTask_safeRequest)

lemma settleRouting_safe:
  assumes p: "pairedRequest input" and d: "settleRouting input req label out = Decided d"
    and out: "\<And>d'. out = Decided d' \<Longrightarrow> safeRequest input d'"
  shows "safeRequest input d"
  using d out acceptRouting_safe rejectRouting_safe [OF p]
  by (cases out) (auto simp: settleRouting_def)

lemma decideLabelProviderRequest_cases:
  assumes "decideLabelProviderRequest input admitted label latest retained = Decided d"
  shows "(\<exists>t. ri_task input = Some t \<and> onlyTask t = Decided d) \<or>
    (\<exists>req why. rejectRouting input req why = Decided d) \<or>
    (\<exists>req prio. settleRouting input req label (requestRun (input\<lparr>ri_priority := prio\<rparr>)) = Decided d) \<or>
    (\<exists>req prio t a. ri_task input = Some t \<and> ri_activeRun input = Some a \<and>
       settleRouting input req label (labelHandoff (input\<lparr>ri_priority := prio\<rparr>) t a) = Decided d)"
proof -
  let ?req = "routingRequest input admitted label latest"
  let ?prio = "orOpt (Option.bind (ri_activeRun input) r_priority)
                 (orOpt (Option.bind latest r_priority) (ri_priority input))"
  let ?input = "input\<lparr>ri_priority := ?prio\<rparr>"
  have "(\<exists>t. ri_task input = Some t \<and> onlyTask t = Decided d) \<or>
    (\<exists>why. rejectRouting input ?req why = Decided d) \<or>
    settleRouting input ?req label (requestRun ?input) = Decided d \<or>
    (\<exists>t a. ri_task input = Some t \<and> ri_activeRun input = Some a \<and>
       settleRouting input ?req label (labelHandoff ?input t a) = Decided d)"
    using assms unfolding decideLabelProviderRequest_def Let_def liveRun_def
    by (auto split: if_splits option.splits)
  then show ?thesis by blast
qed

lemma decideLabelProviderRequest_safe:
  assumes p: "pairedRequest input"
    and d: "decideLabelProviderRequest input admitted label latest retained = Decided d"
  shows "safeRequest input d"
  using decideLabelProviderRequest_cases [OF d]
proof (elim disjE exE conjE)
  fix t assume "ri_task input = Some t" "onlyTask t = Decided d"
  then show ?thesis using onlyTask_safeRequest [OF p] by blast
next
  fix req why assume "rejectRouting input req why = Decided d"
  then show ?thesis by (rule rejectRouting_safe [OF p])
next
  fix req prio
  assume s: "settleRouting input req label (requestRun (input\<lparr>ri_priority := prio\<rparr>)) = Decided d"
  show ?thesis
    using requestRun_safe [of "input\<lparr>ri_priority := prio\<rparr>"] p by (intro settleRouting_safe [OF p s]) simp
next
  fix req prio t a
  assume ta: "ri_task input = Some t" "ri_activeRun input = Some a"
    and s: "settleRouting input req label (labelHandoff (input\<lparr>ri_priority := prio\<rparr>) t a) = Decided d"
  note pa = pairedRequest_active [OF p ta]
  show ?thesis
  proof (rule settleRouting_safe [OF p s])
    fix d' assume "labelHandoff (input\<lparr>ri_priority := prio\<rparr>) t a = Decided d'"
    then have "safeFor t a d'" by (rule labelHandoff_safe [OF conjunct1 [OF pa]]) (simp add: pa)
    then show "safeRequest input d'" by (rule safeFor_request [OF p ta])
  qed
qed

lemma replaceQueued_safe:
  assumes p: "pairedRequest args" and d: "replaceQueued input args runId = Decided d"
  shows "safeRequest args d"
proof -
  let ?n = "Some (''queued provider switch to '' @ rq_pipeline input)"
  from d obtain t a where ta: "ri_task args = Some t" "ri_activeRun args = Some a"
    and c: "cancelThenRequest (cancelRun (ri_now args) t a ?n None None) args = Decided d"
    by (auto simp: replaceQueued_def split: option.splits if_splits)
  note pa = pairedRequest_active [OF p ta]
  have "safeFor t a d" by (rule cancelThenRequest_safe [OF conjunct1 [OF pa] refl c]) (simp add: pa)
  then show ?thesis by (rule safeFor_request [OF p ta])
qed

text \<open>The whole request callback, over the snapshot the transaction hands it.\<close>

lemma requestPrecheck_refuses: "requestPrecheck input st = Some answer \<Longrightarrow> answer \<noteq> Decided d"
  by (auto simp: requestPrecheck_def Let_def split: if_splits)

lemma decideRequest_safe:
  assumes "pairedRequest (requestArgs now input st)" and "decideRequest now input st = Decided d"
  shows "safeRequest (requestArgs now input st) d"
  using assms requestPrecheck_refuses requestRun_safe requestRevisionRun_safe replaceQueued_safe
    decideLabelProviderRequest_safe
  unfolding decideRequest_def Let_def by (auto split: option.splits)

subsection \<open>The cleanup reservation\<close>

lemma safeFor_replace_run:
  assumes s: "safeFor t r d" and n: "d_run d = Some n" and e: "run_evolves n n'" "r_state n' = r_state n"
  shows "safeFor t r (d\<lparr>d_run := Some n'\<rparr>)"
proof -
  note same = run_evolves_same [OF e(1)]
  have ids: "writtenIds (d\<lparr>d_run := Some n'\<rparr>) = writtenIds d"
    using n same by (simp add: writtenIds_def writtenRuns_def)
  have pub: "published K (d\<lparr>d_run := Some n'\<rparr>) = published K d" for K
    by (simp add: published_def [abs_def] concluded_def hasEntry_def)
  have "published [r] d n" using s n by (simp add: safeFor_def safe_def writtenRuns_def)
  then have "published [r] d n'"
    using same e run_evolves_trans by (auto simp: published_def concluded_def)
  moreover
  have "writeOk (t_task t) (t_runCount t) [r] (d_task d) n"
    using s n by (simp add: safeFor_def safe_def writtenRuns_def)
  then have "writeOk (t_task t) (t_runCount t) [r] (d_task d) n'"
    using same e run_evolves_trans by (auto simp: writeOk_def)
  ultimately show ?thesis using s n ids pub
    by (simp add: safeFor_def safe_def writtenRuns_def lockMoves_def)
qed

lemma withCleanup_safe:
  assumes "safeFor t r d0" and "withCleanup i r (Decided d0) = Decided d"
  shows "safeFor t r d"
proof (cases "d = d0")
  case True
  with assms show ?thesis by simp
next
  case False
  with assms(2) obtain n fp c where n: "d_run d0 = Some n"
    and c: "reserveCredentialOperation (r_updatedAt n) (d_task d0) n fp i CredCleanup = Decided c"
    and d: "d = d0\<lparr>d_run := d_run c\<rparr>"
    by (auto simp: withCleanup_def split: option.splits if_splits outcome.splits)
  from c obtain n' where n': "d_run c = Some n'" "run_evolves n n'" "r_state n' = r_state n"
    by (auto simp: reserveCredentialOperation_def taskAndRun_def evolve_defs split: if_splits)
  from safeFor_replace_run [OF assms(1) n n'(2,3)] show ?thesis by (simp add: d n'(1))
qed

lemma withCleanup_Decided:
  assumes "withCleanup i r out = Decided d"
  obtains d0 where "out = Decided d0"
  using assms by (cases out) (auto simp: withCleanup_def)

context run_decider begin

lemma cleanup_safe:
  assumes "paired t r" and "withCleanup i r (decide t r) = Decided d"
  shows "safeFor t r d"
proof -
  from assms(2) obtain d0 where d0: "decide t r = Decided d0" by (rule withCleanup_Decided)
  with assms decide_safe withCleanup_safe show ?thesis by metis
qed

end

end
