(* ===== verification/Outbox_Protocol.thy ===== *)
theory Outbox_Protocol
  imports Memory_Store
begin

text \<open>
  The transactional outbox of the reference store: entries are leased to one drain at a time,
  settled only under the claim that leased them, and handed out fairly. The store keeps each entry
  under its own identifier (\<open>entriesKeyed\<close>), which every operation preserves.
\<close>

definition entriesKeyed :: "(string \<times> outboxEntry) list \<Rightarrow> bool" where
  "entriesKeyed m \<longleftrightarrow> keysDistinct m \<and> list_all (\<lambda>(k, e). o_entryId e = k) m"

lemma entriesKeyedD:
  assumes "entriesKeyed m"
  shows "keysDistinct m" and "map_of m k = Some e \<Longrightarrow> o_entryId e = k"
    and "e \<in> set (map snd m) \<longleftrightarrow> map_of m (o_entryId e) = Some e"
proof -
  show d: "keysDistinct m" using assms by (simp add: entriesKeyed_def)
  show k: "map_of m k = Some e \<Longrightarrow> o_entryId e = k" for k e
    using assms by (auto simp: entriesKeyed_def list_all_iff dest: map_of_SomeD)
  show "e \<in> set (map snd m) \<longleftrightarrow> map_of m (o_entryId e) = Some e"
    using js.items_get [OF d, of e] k by metis
qed

lemma keyed_update:
  "list_all (\<lambda>(k, e). f e = k) m \<Longrightarrow> f e = k \<Longrightarrow> list_all (\<lambda>(k, e). f e = k) (AList.update k e m)"
  by (induction m) auto

lemma entriesKeyed_Nil [simp]: "entriesKeyed []"
  by (simp add: entriesKeyed_def)

lemma entriesKeyed_update: "entriesKeyed m \<Longrightarrow> o_entryId e = k \<Longrightarrow> entriesKeyed (AList.update k e m)"
  by (simp add: entriesKeyed_def js.invar_put keyed_update)

lemma entriesKeyed_writes: "entriesKeyed (ms_outbox s) \<Longrightarrow> entriesKeyed (ms_outbox (foldl writeEntry s es))"
  by (induction es arbitrary: s) (simp_all add: writeEntry_def entriesKeyed_update)

lemma settleOutboxEntry_id:
  "settleOutboxEntry x input = Some e' \<Longrightarrow>
     \<exists>e. x = Some e \<and> o_entryId e' = o_entryId e \<and> o_kind e' = o_kind e \<and> o_runId e' = o_runId e"
  by (auto simp: settleOutboxEntry_def Let_def split: option.splits outboxState.splits if_splits)

lemma wakeOutboxEntry_id:
  "wakeOutboxEntry x now = Some e' \<Longrightarrow>
     \<exists>e. x = Some e \<and> o_entryId e' = o_entryId e \<and> o_kind e' = o_kind e \<and> o_runId e' = o_runId e"
  by (auto simp: wakeOutboxEntry_def split: option.splits if_splits)

lemma writeEntries_get:
  "distinct (map o_entryId es) \<Longrightarrow>
   map_of (ms_outbox (foldl writeEntry s es)) k =
     (case find (\<lambda>e. o_entryId e = k) es of Some e \<Rightarrow> Some e | None \<Rightarrow> map_of (ms_outbox s) k)"
proof (induction es arbitrary: s)
  case (Cons e es)
  have "find (\<lambda>x. o_entryId x = o_entryId e) es = None"
    using Cons.prems unfolding find_None_iff by (metis distinct.simps(2) imageI list.set_map list.simps(9))
  with Cons show ?case by (auto simp: writeEntry_def js.get_put split: option.splits)
qed simp

lemma find_distinct:
  "distinct (map f es) \<Longrightarrow> e \<in> set es \<Longrightarrow> find (\<lambda>x. f x = f e) es = Some e"
proof (induction es)
  case (Cons x es)
  then show ?case by (cases "e = x") (auto simp: image_iff)
qed simp

subsection \<open>What a claim selects\<close>

interpretation claim_order: strict_weak_order claimFairer
  by unfold_locales
    (auto simp: claimFairer_def byOutboxClaimFairness_def Let_def split: if_splits)

lemma leaseExpired_pending: "leaseExpired now e \<Longrightarrow> \<not> outboxDue now excluded e"
  by (auto simp: leaseExpired_def outboxDue_def split: outboxState.splits)

lemma outboxEligible_set:
  "set (outboxEligible s now excluded) =
     {e \<in> set (map snd (ms_outbox s)). leaseExpired now e \<or> outboxDue now excluded e}"
  by (auto simp: outboxEligible_def Let_def)

lemma outboxEligible_distinct:
  assumes "entriesKeyed (ms_outbox s)"
  shows "distinct (map o_entryId (outboxEligible s now excluded))"
proof -
  let ?es = "map snd (ms_outbox s)"
  have keys: "map o_entryId ?es = map fst (ms_outbox s)"
    using assms by (auto simp: entriesKeyed_def list_all_iff)
  have d: "distinct (map o_entryId ?es)"
    using assms unfolding keys by (simp add: entriesKeyed_def keysDistinct_def)
  from iffD1 [OF distinct_map this] have inj: "inj_on o_entryId (set ?es)" and "distinct ?es" by blast+
  then have "distinct (outboxEligible s now excluded)"
    using leaseExpired_pending by (auto simp: outboxEligible_def Let_def)
  moreover have "set (outboxEligible s now excluded) \<subseteq> set ?es" by (auto simp: outboxEligible_set)
  ultimately show ?thesis using inj by (simp add: distinct_map inj_on_subset)
qed

definition outboxSelected :: "memStore \<Rightarrow> nat \<Rightarrow> timestamp \<Rightarrow> string list \<Rightarrow> outboxEntry list" where
  "outboxSelected s limit now excluded = take limit (outboxEligible s now excluded)"

lemma leaseEntry_id [simp]: "o_entryId (leaseEntry now exp c e) = o_entryId e"
  by (simp add: leaseEntry_def)

lemma claimed_ids:
  "map o_entryId (map (\<lambda>(i, e). leaseEntry now exp (uuid i) e) (enumerate n es)) = map o_entryId es"
  by (induction es arbitrary: n) auto

lemma selected_distinct: "entriesKeyed (ms_outbox s) \<Longrightarrow> distinct (map o_entryId (outboxSelected s limit now excluded))"
  using outboxEligible_distinct by (simp add: outboxSelected_def take_map [symmetric])

lemma claim_unfold:
  "claimPendingOutbox uuid s limit now exp excluded =
     (let claimed = map (\<lambda>(i, e). leaseEntry now exp (uuid i) e) (enumerate 0 (outboxSelected s limit now excluded))
      in (foldl writeEntry s claimed, claimed))"
  by (simp add: claimPendingOutbox_def outboxSelected_def)

lemma claim_get:
  assumes "entriesKeyed (ms_outbox s)" and "claimPendingOutbox uuid s limit now exp excluded = (s', claimed)"
  shows "map_of (ms_outbox s') k =
    (case find (\<lambda>e. o_entryId e = k) claimed of Some e \<Rightarrow> Some e | None \<Rightarrow> map_of (ms_outbox s) k)"
    and "map o_entryId claimed = map o_entryId (outboxSelected s limit now excluded)"
proof -
  from assms(2) have s': "s' = foldl writeEntry s claimed"
    and c: "claimed = map (\<lambda>(i, e). leaseEntry now exp (uuid i) e) (enumerate 0 (outboxSelected s limit now excluded))"
    by (auto simp: claim_unfold Let_def)
  show ids: "map o_entryId claimed = map o_entryId (outboxSelected s limit now excluded)"
    unfolding c by (rule claimed_ids)
  have "distinct (map o_entryId claimed)" unfolding ids using selected_distinct [OF assms(1)] .
  then show "map_of (ms_outbox s') k =
      (case find (\<lambda>e. o_entryId e = k) claimed of Some e \<Rightarrow> Some e | None \<Rightarrow> map_of (ms_outbox s) k)"
    unfolding s' by (rule writeEntries_get)
qed

lemma selected_entry:
  assumes "entriesKeyed (ms_outbox s)" and "k \<in> set (map o_entryId (outboxSelected s limit now excluded))"
  obtains e where "map_of (ms_outbox s) k = Some e" "leaseExpired now e \<or> outboxDue now excluded e"
    "e \<in> set (outboxSelected s limit now excluded)"
proof -
  from assms(2) obtain e where e: "e \<in> set (outboxSelected s limit now excluded)" "o_entryId e = k" by auto
  then have "e \<in> set (outboxEligible s now excluded)"
    by (auto simp: outboxSelected_def dest: in_set_takeD)
  with e that show thesis using entriesKeyedD(3) [OF assms(1), of e] by (auto simp: outboxEligible_set)
qed

end
