(* ===== verification/Lock_Invariant.thy ===== *)
theory Lock_Invariant
  imports Decision_Contract Outbox_Protocol
begin

text \<open>
  The store's invariant and its preservation. A consistent store files every task under its key and
  every run under its identifier, numbers a task's runs from one to its run count, and keeps the lock:
  a task names exactly its live run. Between two stores of one execution, tasks only gain
  revisions and generations and runs only evolve. Every operation of the store and of the
  orchestrator keeps both; the interface \<open>store_op\<close> says so once and is interpreted on each.
\<close>

subsection \<open>Keys\<close>

lemma find_SomeD: "find P xs = Some x \<Longrightarrow> x \<in> set xs \<and> P x"
  by (induction xs) (auto split: if_splits)

lemma repoNamePattern_chars:
  assumes "repoNamePattern s" and "c \<in> set s"
  shows "repoChar c \<or> c = CHR ''/''"
proof -
  let ?P = "\<lambda>c. c \<noteq> CHR ''/''"
  from assms(1) have owner: "list_all repoChar (takeWhile ?P s)"
    and rest: "dropWhile ?P s \<noteq> []" "list_all repoChar (tl (dropWhile ?P s))"
    by (simp_all add: repoNamePattern_def Let_def)
  from rest(1) obtain x xs where d: "dropWhile ?P s = x # xs" by (cases "dropWhile ?P s") auto
  then have "x = CHR ''/''" using hd_dropWhile [OF rest(1)] by simp
  moreover have "c \<in> set (takeWhile ?P s) \<or> c \<in> set (dropWhile ?P s)"
    using assms(2) takeWhile_dropWhile_id [of ?P s] by (metis UnE set_append)
  ultimately show ?thesis using owner rest(2) d by (auto simp: list_all_iff)
qed

lemma repoNamePattern_no_colon: "repoNamePattern s \<Longrightarrow> CHR '':'' \<notin> set s"
  using repoNamePattern_chars [of s "CHR '':''"]
  by (auto simp: repoChar_def isLower_def isUpper_def isDigit_def)

lemma github_work_key_distinct:
  "repoNamePattern repo \<Longrightarrow> repo @ ''#'' @ showNat n \<noteq> ''work:'' @ w"
proof
  assume r: "repoNamePattern repo" and "repo @ ''#'' @ showNat n = ''work:'' @ w"
  then have "CHR '':'' \<in> set (repo @ ''#'' @ showNat n)" by simp
  with repoNamePattern_no_colon [OF r] showNat_neq [of "CHR '':''" n] show False by auto
qed

lemma taskKey_inj:
  assumes "validTaskId a" and "validTaskId b" and "taskKey a = taskKey b"
  shows "a = b"
proof (cases a; cases b)
  fix r n r' n' assume "a = GithubAnchor r n" "b = GithubAnchor r' n'"
  with assms(3) digits_suffix_inject [of r "CHR ''#''" "showNat n" r' "showNat n'"] showNat_neq
  show ?thesis by simp
next
  fix r n w assume "a = GithubAnchor r n" "b = WorkAnchor w"
  with assms github_work_key_distinct [of r n w] show ?thesis by simp
next
  fix w r n assume "a = WorkAnchor w" "b = GithubAnchor r n"
  with assms github_work_key_distinct [of r n w] show ?thesis by simp
qed (use assms in simp)

lemma runIdFor_inj:
  assumes "validTaskId a" and "validTaskId b" and "runIdFor a m = runIdFor b n"
  shows "a = b \<and> m = n"
proof -
  have "taskKey a @ ''/'' @ CHR ''r'' # showNat m = taskKey b @ ''/'' @ CHR ''r'' # showNat n"
    using assms(3) by (simp add: runIdFor_def)
  then have "(taskKey a @ ''/'') @ CHR ''r'' # showNat m = (taskKey b @ ''/'') @ CHR ''r'' # showNat n"
    by simp
  from digits_suffix_inject [OF this] showNat_neq have "taskKey a = taskKey b \<and> m = n" by simp
  with taskKey_inj [OF assms(1,2)] show ?thesis by simp
qed

subsection \<open>The invariant\<close>

definition taskOk :: "memStore \<Rightarrow> string \<Rightarrow> versionedTask \<Rightarrow> bool" where
  "taskOk s k v \<longleftrightarrow>
     validTaskId (t_task (vt_task v)) \<and> k = taskKey (t_task (vt_task v)) \<and>
     (case t_activeRunId (vt_task v) of
        None \<Rightarrow> True
      | Some a \<Rightarrow> optHolds (\<lambda>r. r_task r = t_task (vt_task v)) (readRun s a) \<and> readRun s a \<noteq> None)"

definition runOk :: "memStore \<Rightarrow> string \<Rightarrow> run \<Rightarrow> bool" where
  "runOk s i r \<longleftrightarrow>
     r_runId r = i \<and>
     (case readTask s (r_task r) of None \<Rightarrow> False | Some v \<Rightarrow> paired (vt_task v) r)"

definition indexOk :: "memStore \<Rightarrow> string \<times> string \<Rightarrow> string \<Rightarrow> bool" where
  "indexOk s k i \<longleftrightarrow> (case readRun s i of None \<Rightarrow> False | Some r \<Rightarrow> requestKeyOf r = k)"

text \<open>Nothing is lost between the run and its effects: every run was announced for dispatch, and
  a settled run has its outcome entry, unless it was cancelled to hand its task over to a later run.\<close>

definition laterRun :: "run \<Rightarrow> run \<Rightarrow> bool" where
  "laterRun r q \<longleftrightarrow>
     r_task q = r_task r \<and>
     (\<exists>m n. r_runId r = runIdFor (r_task r) m \<and> r_runId q = runIdFor (r_task r) n \<and> m < n)"

definition superseded :: "memStore \<Rightarrow> run \<Rightarrow> bool" where
  "superseded s r \<longleftrightarrow> (\<exists>j q. map_of (ms_runs s) j = Some q \<and> laterRun r q)"

definition publishedOk :: "memStore \<Rightarrow> string \<Rightarrow> run \<Rightarrow> bool" where
  "publishedOk s i r \<longleftrightarrow>
     map_of (ms_outbox s) (dispatchEntryId i) \<noteq> None \<and>
     (isLive (r_state r) \<or> map_of (ms_outbox s) (outcomeEntryId i) \<noteq> None \<or>
      (r_state r = Canceled \<and> superseded s r))"

definition storeInv :: "memStore \<Rightarrow> bool" where
  "storeInv s \<longleftrightarrow>
     (\<forall>k v. map_of (ms_tasks s) k = Some v \<longrightarrow> taskOk s k v) \<and>
     (\<forall>i r. map_of (ms_runs s) i = Some r \<longrightarrow> runOk s i r) \<and>
     (\<forall>k i. map_of (ms_requestRuns s) k = Some i \<longrightarrow> indexOk s k i) \<and>
     (\<forall>i r. map_of (ms_runs s) i = Some r \<longrightarrow> map_of (ms_requestRuns s) (requestKeyOf r) \<noteq> None) \<and>
     keysDistinct (ms_runs s) \<and> entriesKeyed (ms_outbox s) \<and>
     (\<forall>i r. map_of (ms_runs s) i = Some r \<longrightarrow> publishedOk s i r) \<and>
     (\<forall>k e. map_of (ms_outbox s) k = Some e \<longrightarrow> named e)"

definition taskEvolves :: "versionedTask \<Rightarrow> versionedTask \<Rightarrow> bool" where
  "taskEvolves v v' \<longleftrightarrow>
     t_task (vt_task v') = t_task (vt_task v) \<and> t_runCount (vt_task v) \<le> t_runCount (vt_task v') \<and>
     (v' = v \<or> vt_revision v < vt_revision v')"

definition evolves :: "memStore \<Rightarrow> memStore \<Rightarrow> bool" where
  "evolves s s' \<longleftrightarrow>
     (\<forall>k v. map_of (ms_tasks s) k = Some v \<longrightarrow>
        (\<exists>v'. map_of (ms_tasks s') k = Some v' \<and> taskEvolves v v')) \<and>
     (\<forall>i r. map_of (ms_runs s) i = Some r \<longrightarrow>
        (\<exists>r'. map_of (ms_runs s') i = Some r' \<and> run_evolves r r')) \<and>
     (\<forall>k. map_of (ms_requestRuns s) k \<noteq> None \<longrightarrow> map_of (ms_requestRuns s') k \<noteq> None) \<and>
     (\<forall>k. map_of (ms_outbox s) k \<noteq> None \<longrightarrow> map_of (ms_outbox s') k \<noteq> None)"

definition keeps :: "memStore \<Rightarrow> memStore \<Rightarrow> bool" where
  "keeps s s' \<longleftrightarrow> storeInv s' \<and> evolves s s'"

lemma evolves_refl [simp]: "evolves s s"
  by (simp add: evolves_def taskEvolves_def)

lemma taskEvolves_trans: "taskEvolves a b \<Longrightarrow> taskEvolves b c \<Longrightarrow> taskEvolves a c"
  by (auto simp: taskEvolves_def)

lemma evolves_trans: "evolves a b \<Longrightarrow> evolves b c \<Longrightarrow> evolves a c"
  unfolding evolves_def by (meson taskEvolves_trans run_evolves_trans)

lemma keeps_refl [simp]: "keeps s s \<longleftrightarrow> storeInv s"
  by (simp add: keeps_def)

lemma keeps_trans: "keeps a b \<Longrightarrow> keeps b c \<Longrightarrow> keeps a c"
  unfolding keeps_def using evolves_trans by blast

lemma storeInv_empty: "storeInv emptyStore"
  by (simp add: storeInv_def emptyStore_def)

lemma storeInvD:
  assumes "storeInv s"
  shows "map_of (ms_tasks s) k = Some v \<Longrightarrow> taskOk s k v"
    and "map_of (ms_runs s) i = Some r \<Longrightarrow> runOk s i r"
    and "map_of (ms_requestRuns s) q = Some i \<Longrightarrow> indexOk s q i"
    and "map_of (ms_runs s) i = Some r \<Longrightarrow> map_of (ms_requestRuns s) (requestKeyOf r) \<noteq> None"
    and "keysDistinct (ms_runs s)" and "entriesKeyed (ms_outbox s)"
    and "map_of (ms_runs s) i = Some r \<Longrightarrow> publishedOk s i r"
    and "map_of (ms_outbox s) k = Some e \<Longrightarrow> named e"
  using assms unfolding storeInv_def by blast+

lemma storeInvI:
  assumes "\<And>k v. map_of (ms_tasks s) k = Some v \<Longrightarrow> taskOk s k v"
    and "\<And>i r. map_of (ms_runs s) i = Some r \<Longrightarrow> runOk s i r"
    and "\<And>q i. map_of (ms_requestRuns s) q = Some i \<Longrightarrow> indexOk s q i"
    and "\<And>i r. map_of (ms_runs s) i = Some r \<Longrightarrow> map_of (ms_requestRuns s) (requestKeyOf r) \<noteq> None"
    and "keysDistinct (ms_runs s)" and "entriesKeyed (ms_outbox s)"
    and "\<And>i r. map_of (ms_runs s) i = Some r \<Longrightarrow> publishedOk s i r"
    and "\<And>k e. map_of (ms_outbox s) k = Some e \<Longrightarrow> named e"
  shows "storeInv s"
  using assms unfolding storeInv_def by blast

lemma storeInv_run:
  assumes "storeInv s" and "readRun s i = Some r"
  obtains v where "r_runId r = i" "readTask s (r_task r) = Some v" "paired (vt_task v) r"
    "validTaskId (r_task r)"
proof -
  from assms have "runOk s i r" by (simp add: storeInvD readRun_def)
  then obtain v where v: "r_runId r = i" "readTask s (r_task r) = Some v" "paired (vt_task v) r"
    by (auto simp: runOk_def split: option.splits)
  with assms(1) have "taskOk s (taskKey (r_task r)) v" by (simp add: storeInvD readTask_def)
  with v that show thesis by (simp add: taskOk_def paired_def)
qed

lemma storeInv_task:
  assumes "storeInv s" and "readTask s tid = Some v" and "validTaskId tid"
  shows "t_task (vt_task v) = tid"
  using assms taskKey_inj by (metis readTask_def storeInvD(1) taskOk_def)

subsection \<open>Stores that differ only elsewhere\<close>

text \<open>The invariant reads tasks, runs, the request index and the outbox keys.\<close>

definition outboxGrows :: "memStore \<Rightarrow> memStore \<Rightarrow> bool" where
  "outboxGrows s s' \<longleftrightarrow> entriesKeyed (ms_outbox s') \<and>
     (\<forall>k e. map_of (ms_outbox s') k = Some e \<longrightarrow> named e) \<and>
     (\<forall>k. map_of (ms_outbox s) k \<noteq> None \<longrightarrow> map_of (ms_outbox s') k \<noteq> None)"

lemma laterRun_evolves:
  "laterRun r q \<Longrightarrow> run_evolves r r' \<Longrightarrow> run_evolves q q' \<Longrightarrow> laterRun r' q'"
  by (simp add: laterRun_def run_evolves_def sameIdentity_def)

lemma superseded_survives:
  assumes "superseded s r" and "run_evolves r r'"
    and "\<And>j q. map_of (ms_runs s) j = Some q \<Longrightarrow> \<exists>q'. map_of (ms_runs s') j = Some q' \<and> run_evolves q q'"
  shows "superseded s' r'"
  using assms laterRun_evolves unfolding superseded_def by meson

lemma publishedOk_survives:
  assumes p: "publishedOk s i r" and ev: "run_evolves r r'" "r_state r' = r_state r"
    and runs: "\<And>j q. map_of (ms_runs s) j = Some q \<Longrightarrow> \<exists>q'. map_of (ms_runs s') j = Some q' \<and> run_evolves q q'"
    and grows: "\<And>k. map_of (ms_outbox s) k \<noteq> None \<Longrightarrow> map_of (ms_outbox s') k \<noteq> None"
  shows "publishedOk s' i r'"
  using p grows superseded_survives [OF _ ev(1) runs] unfolding publishedOk_def ev(2) by blast

lemma keeps_cong:
  assumes inv: "storeInv s" and same: "ms_tasks s' = ms_tasks s" "ms_runs s' = ms_runs s"
    "ms_requestRuns s' = ms_requestRuns s" and ob: "outboxGrows s s'"
  shows "keeps s s'"
proof -
  have "storeInv s'"
  proof (rule storeInvI)
    fix k v assume "map_of (ms_tasks s') k = Some v"
    with storeInvD(1) [OF inv, of k v] same show "taskOk s' k v"
      by (simp add: taskOk_def readRun_def cong: option.case_cong)
  next
    fix i r assume "map_of (ms_runs s') i = Some r"
    with storeInvD(2) [OF inv, of i r] same show "runOk s' i r" by (simp add: runOk_def readTask_def)
  next
    fix q i assume "map_of (ms_requestRuns s') q = Some i"
    with storeInvD(3) [OF inv, of q i] same show "indexOk s' q i" by (simp add: indexOk_def readRun_def)
  next
    fix i r assume "map_of (ms_runs s') i = Some r"
    with storeInvD(4) [OF inv, of i r] same show "map_of (ms_requestRuns s') (requestKeyOf r) \<noteq> None" by simp
  next
    fix i r assume "map_of (ms_runs s') i = Some r"
    then have "publishedOk s i r" using storeInvD(7) [OF inv, of i r] same by simp
    then show "publishedOk s' i r"
      by (rule publishedOk_survives) (use same ob in \<open>auto simp: outboxGrows_def\<close>)
  qed (use storeInvD(5) [OF inv] ob same in \<open>simp_all add: outboxGrows_def\<close>)
  moreover have "evolves s s'"
    using same ob by (simp add: evolves_def taskEvolves_def outboxGrows_def)
  ultimately show ?thesis by (simp add: keeps_def)
qed

lemma outboxGrows_same: "storeInv s \<Longrightarrow> ms_outbox s' = ms_outbox s \<Longrightarrow> outboxGrows s s'"
  by (simp add: outboxGrows_def storeInvD)

lemma outboxGrows_update:
  "storeInv s \<Longrightarrow> ms_outbox s' = AList.update k e (ms_outbox s) \<Longrightarrow> o_entryId e = k \<and> named e \<Longrightarrow> outboxGrows s s'"
  by (simp add: outboxGrows_def storeInvD entriesKeyed_update js.get_put)

text \<open>An update of one run that changes neither its identity nor its state.\<close>

lemma runOk_same:
  assumes "runOk s i r" and "run_evolves r r'" and "r_state r' = r_state r" and "ms_tasks s' = ms_tasks s"
  shows "runOk s' i r'"
  using assms run_evolves_same [OF assms(2)]
  by (auto simp: runOk_def readTask_def paired_def split: option.splits)

lemma requestKeyOf_evolves: "run_evolves r r' \<Longrightarrow> requestKeyOf r' = requestKeyOf r"
  by (simp add: run_evolves_def sameIdentity_def requestKeyOf_def)

lemma update_run_keeps:
  assumes inv: "storeInv s" and r: "map_of (ms_runs s) i = Some r"
    and ev: "run_evolves r r'" "r_state r' = r_state r"
    and s': "ms_runs s' = AList.update i r' (ms_runs s)" "ms_tasks s' = ms_tasks s"
      "ms_requestRuns s' = ms_requestRuns s" "ms_outbox s' = ms_outbox s"
  shows "keeps s s'"
proof -
  have get: "map_of (ms_runs s') j = (if j = i then Some r' else map_of (ms_runs s) j)" for j
    by (simp add: s' js.get_put)
  note same = run_evolves_same [OF ev(1)]
  have tasks: "taskOk s' k v" if "map_of (ms_tasks s') k = Some v" for k v
  proof -
    from that inv s' have "taskOk s k v" by (simp add: storeInvD)
    with get r same show ?thesis by (auto simp: taskOk_def readRun_def split: option.splits)
  qed
  have runs: "runOk s' j x" if "map_of (ms_runs s') j = Some x" for j x
  proof (cases "j = i")
    case True
    with that get have "x = r'" by simp
    moreover from inv r have "runOk s i r" by (rule storeInvD)
    ultimately show ?thesis using runOk_same [OF _ ev s'(2)] True by blast
  next
    case False
    with that get inv have "runOk s j x" by (simp add: storeInvD)
    then show ?thesis using runOk_same [OF _ run_evolves_refl refl s'(2)] by blast
  qed
  have idx: "indexOk s' k j" if "map_of (ms_requestRuns s') k = Some j" for k j
  proof -
    from that inv s' have "indexOk s k j" by (simp add: storeInvD)
    with get r requestKeyOf_evolves [OF ev(1)] show ?thesis
      by (auto simp: indexOk_def readRun_def split: option.splits if_splits)
  qed
  have cover: "map_of (ms_requestRuns s') (requestKeyOf x) \<noteq> None"
    if "map_of (ms_runs s') j = Some x" for j x
    using that get storeInvD(4) [OF inv] r requestKeyOf_evolves [OF ev(1)] s'
    by (cases "j = i") (metis option.inject)+
  have pub: "publishedOk s' j x" if "map_of (ms_runs s') j = Some x" for j x
  proof -
    have runs: "\<exists>q'. map_of (ms_runs s') k = Some q' \<and> run_evolves q q'" if "map_of (ms_runs s) k = Some q" for k q
      using that get [of k] r ev(1) by (cases "k = i") auto
    show ?thesis
    proof (cases "j = i")
      case True
      with that get have "x = r'" by simp
      with publishedOk_survives [OF storeInvD(7) [OF inv r] ev runs] True s'(4) show ?thesis by simp
    next
      case False
      with that get have "map_of (ms_runs s) j = Some x" by simp
      from publishedOk_survives [OF storeInvD(7) [OF inv this] run_evolves_refl refl runs] s'(4) show ?thesis by simp
    qed
  qed
  have "storeInv s'" using tasks runs idx cover pub storeInvD(5,6,8) [OF inv]
    by (intro storeInvI) (simp_all add: s' js.invar_put)
  moreover have "evolves s s'" using get r ev by (auto simp: evolves_def s' taskEvolves_def)
  ultimately show ?thesis by (simp add: keeps_def)
qed

subsection \<open>Applying a safe decision\<close>

lemma writeRuns_frame [simp]:
  "ms_tasks (foldl writeRun s ws) = ms_tasks s" "ms_outbox (foldl writeRun s ws) = ms_outbox s"
  by (induction ws arbitrary: s) (simp_all add: writeRun_def)

lemma writeCooldown_frame [simp]:
  "ms_tasks (writeCooldown s r) = ms_tasks s" "ms_runs (writeCooldown s r) = ms_runs s"
  "ms_requestRuns (writeCooldown s r) = ms_requestRuns s" "ms_outbox (writeCooldown s r) = ms_outbox s"
  by (simp_all add: writeCooldown_def split: option.split)

lemma writeCooldowns_frame [simp]:
  "ms_tasks (foldl writeCooldown s ws) = ms_tasks s" "ms_runs (foldl writeCooldown s ws) = ms_runs s"
  "ms_requestRuns (foldl writeCooldown s ws) = ms_requestRuns s"
  "ms_outbox (foldl writeCooldown s ws) = ms_outbox s"
  by (induction ws arbitrary: s) simp_all

lemma writeEntries_frame [simp]:
  "ms_tasks (foldl writeEntry s es) = ms_tasks s" "ms_runs (foldl writeEntry s es) = ms_runs s"
  "ms_requestRuns (foldl writeEntry s es) = ms_requestRuns s"
  by (induction es arbitrary: s) (simp_all add: writeEntry_def)

lemma writeEntries_outbox:
  "map_of (ms_outbox (foldl writeEntry s es)) k \<noteq> None \<longleftrightarrow>
     map_of (ms_outbox s) k \<noteq> None \<or> k \<in> set (map o_entryId es)"
  by (induction es arbitrary: s) (auto simp: writeEntry_def js.get_put)

lemma writeEntries_named:
  assumes "\<And>k e. map_of (ms_outbox s) k = Some e \<Longrightarrow> named e" and "list_all named es"
    and "map_of (ms_outbox (foldl writeEntry s es)) k = Some e"
  shows "named e"
  using assms
proof (induction es arbitrary: s)
  case (Cons x es)
  have "named y" if "map_of (ms_outbox (writeEntry s x)) j = Some y" for j y
    using that Cons.prems(1,2) by (auto simp: writeEntry_def js.get_put split: if_splits)
  then show ?case using Cons.IH [of "writeEntry s x"] Cons.prems(2,3) by simp
qed simp

lemma writeEntries_grows:
  assumes inv: "storeInv s" and es: "list_all named es"
  shows "outboxGrows s (foldl writeEntry s es)"
proof -
  have "named e" if "map_of (ms_outbox (foldl writeEntry s es)) k = Some e" for k e
    by (rule writeEntries_named [OF _ es that]) (rule storeInvD(8) [OF inv])
  then show ?thesis unfolding outboxGrows_def
    using writeEntries_outbox [of s es] entriesKeyed_writes [OF storeInvD(6) [OF inv]] by blast
qed

lemma writeRuns_distinct: "keysDistinct (ms_runs s) \<Longrightarrow> keysDistinct (ms_runs (foldl writeRun s ws))"
  by (induction ws arbitrary: s) (simp_all add: writeRun_def js.invar_put)

lemma writeRuns_get:
  "distinct (map r_runId ws) \<Longrightarrow>
   map_of (ms_runs (foldl writeRun s ws)) i =
     (case find (\<lambda>w. r_runId w = i) ws of Some w \<Rightarrow> Some w | None \<Rightarrow> map_of (ms_runs s) i)"
proof (induction ws arbitrary: s)
  case (Cons w ws)
  have "find (\<lambda>x. r_runId x = r_runId w) ws = None"
    using Cons.prems unfolding find_None_iff by (metis distinct.simps(2) imageI list.set_map list.simps(9))
  with Cons show ?case by (auto simp: writeRun_def js.get_put split: option.splits)
qed simp

lemma writeRuns_index:
  "map_of (ms_requestRuns (foldl writeRun s ws)) k =
     (case find (\<lambda>w. requestKeyOf w = k) (rev ws) of
        Some w \<Rightarrow> Some (r_runId w) | None \<Rightarrow> map_of (ms_requestRuns s) k)"
proof (induction ws rule: rev_induct)
  case (snoc w ws)
  then show ?case by (simp add: writeRun_def js.get_put)
qed simp

text \<open>What a decision was made against: the task's entry, or a task that does not exist yet, and
  runs of that task as they are stored.\<close>

definition snapshotOf :: "memStore \<Rightarrow> taskId \<Rightarrow> nat \<Rightarrow> string option \<Rightarrow> run list \<Rightarrow> bool" where
  "snapshotOf s tid n act K \<longleftrightarrow>
     validTaskId tid \<and>
     (case readTask s tid of
        None \<Rightarrow> n = 0 \<and> act = None
      | Some v \<Rightarrow> t_runCount (vt_task v) = n \<and> t_activeRunId (vt_task v) = act) \<and>
     list_all (\<lambda>r. readRun s (r_runId r) = Some r \<and> r_task r = tid) K"

definition applied ::
  "memStore \<Rightarrow> memStore \<Rightarrow> taskId \<Rightarrow> nat \<Rightarrow> string option \<Rightarrow> run list \<Rightarrow> decision \<Rightarrow> nat option \<Rightarrow> bool"
where
  "applied s s' tid n act K d revn \<longleftrightarrow>
     storeInv s \<and> snapshotOf s tid n act K \<and> safe tid n act K d \<and> applyDecision s d revn = Inr s'"

lemma applied_inv: "applied s s' tid n act K d revn \<Longrightarrow> storeInv s"
  and applied_snap: "applied s s' tid n act K d revn \<Longrightarrow> snapshotOf s tid n act K"
  and applied_safe: "applied s s' tid n act K d revn \<Longrightarrow> safe tid n act K d"
  and applied_apply_ok: "applied s s' tid n act K d revn \<Longrightarrow> applyDecision s d revn = Inr s'"
  by (simp_all add: applied_def)

lemma applied_tid:
  assumes A: "applied s s' tid n act K d revn"
  shows "t_task (d_task d) = tid" "validTaskId tid" "n \<le> t_runCount (d_task d)"
  using applied_safe [OF A] applied_snap [OF A] by (simp_all add: safe_def snapshotOf_def)

lemma applied_written_distinct:
  assumes A: "applied s s' tid n act K d revn"
  shows "distinct (map r_runId (writtenRuns d))"
  using applied_safe [OF A] by (simp add: safe_def writtenIds_def)

lemma applied_revision:
  assumes A: "applied s s' tid n act K d revn"
  shows "map_option vt_revision (readTask s tid) = revn"
  using applied_apply_ok [OF A] applied_tid [OF A] by (auto simp: applyDecision_def readTask_def Let_def split: if_splits)

lemma applied_tasks:
  assumes A: "applied s s' tid n act K d revn"
  shows "map_of (ms_tasks s') k =
    (if k = taskKey tid then Some \<lparr>vt_task = d_task d, vt_revision = orElse revn 0 + 1\<rparr>
     else map_of (ms_tasks s) k)"
  using applied_apply_ok [OF A] applied_tid [OF A] by (auto simp: applyDecision_def Let_def js.get_put split: if_splits)

lemma applied_runs:
  assumes A: "applied s s' tid n act K d revn"
  shows "map_of (ms_runs s') i =
    (case find (\<lambda>w. r_runId w = i) (writtenRuns d) of Some w \<Rightarrow> Some w | None \<Rightarrow> map_of (ms_runs s) i)"
  using applied_apply_ok [OF A] writeRuns_get [OF applied_written_distinct [OF A]]
  by (auto simp: applyDecision_def Let_def split: if_splits option.split)

lemma applied_index:
  assumes A: "applied s s' tid n act K d revn"
  shows "map_of (ms_requestRuns s') k =
    (case find (\<lambda>w. requestKeyOf w = k) (rev (writtenRuns d)) of
       Some w \<Rightarrow> Some (r_runId w) | None \<Rightarrow> map_of (ms_requestRuns s) k)"
  using applied_apply_ok [OF A] by (auto simp: applyDecision_def Let_def writeRuns_index split: if_splits option.split)

lemma applied_distincts:
  assumes A: "applied s s' tid n act K d revn"
  shows "keysDistinct (ms_runs s')" "entriesKeyed (ms_outbox s')"
  using applied_apply_ok [OF A] storeInvD(5,6) [OF applied_inv [OF A]]
  by (auto simp: applyDecision_def Let_def intro!: writeRuns_distinct entriesKeyed_writes
      split: if_splits)

lemma applied_written_get:
  assumes A: "applied s s' tid n act K d revn"
  shows "w \<in> set (writtenRuns d) \<Longrightarrow> map_of (ms_runs s') (r_runId w) = Some w"
proof -
  assume w: "w \<in> set (writtenRuns d)"
  then obtain x where x: "find (\<lambda>x. r_runId x = r_runId w) (writtenRuns d) = Some x"
    by (metis (mono_tags, lifting) find_None_iff option.exhaust)
  then have "x \<in> set (writtenRuns d)" "r_runId x = r_runId w" by (auto dest: find_SomeD)
  with w applied_written_distinct [OF A] have "x = w" by (auto simp: distinct_map dest: inj_onD)
  with x applied_runs [OF A] show ?thesis by simp
qed

lemma applied_runs_cases:
  assumes A: "applied s s' tid n act K d revn"
    and "map_of (ms_runs s') i = Some r"
  obtains (written) "r \<in> set (writtenRuns d)" "r_runId r = i"
    | (kept) "map_of (ms_runs s) i = Some r" "i \<notin> set (writtenIds d)"
proof (cases "find (\<lambda>w. r_runId w = i) (writtenRuns d)")
  case None
  with assms applied_runs [OF A] kept show thesis by (force simp: find_None_iff writtenIds_def)
next
  case (Some w)
  with assms applied_runs [OF A] have "r = w" by simp
  with Some written show thesis using find_SomeD by fast
qed

lemma applied_written_ok:
  assumes A: "applied s s' tid n act K d revn"
  shows "w \<in> set (writtenRuns d) \<Longrightarrow> writeOk tid n K (d_task d) w"
  using applied_safe [OF A] by (simp add: safe_def list_all_iff)

lemma applied_known:
  assumes A: "applied s s' tid n act K d revn"
  shows "r \<in> set K \<Longrightarrow> readRun s (r_runId r) = Some r \<and> r_task r = tid"
  using applied_snap [OF A] by (simp add: snapshotOf_def list_all_iff)

text \<open>The stored runs of this task are numbered within the old count.\<close>

lemma applied_stored_of_task:
  assumes A: "applied s s' tid n act K d revn"
    and "readRun s i = Some r" and "r_task r = tid"
  shows "r_runId r = i" "numbered tid n i" "isLive (r_state r) \<longleftrightarrow> act = Some i"
proof -
  from applied_inv [OF A] assms(2) obtain v where v: "r_runId r = i" "readTask s (r_task r) = Some v" "paired (vt_task v) r"
    by (rule storeInv_run)
  with applied_snap [OF A] assms(3) have "t_runCount (vt_task v) = n" "t_activeRunId (vt_task v) = act"
    by (auto simp: snapshotOf_def)
  with v assms(3) show "r_runId r = i" "numbered tid n i" "isLive (r_state r) \<longleftrightarrow> act = Some i"
    by (auto simp: paired_def)
qed

lemma applied_fresh_absent:
  assumes A: "applied s s' tid n act K d revn"
    and "freshNumber tid n m i"
  shows "map_of (ms_runs s) i = None"
proof (rule ccontr)
  assume "map_of (ms_runs s) i \<noteq> None"
  then obtain r where r: "readRun s i = Some r" by (auto simp: readRun_def)
  from applied_inv [OF A] r obtain v where v: "r_runId r = i" "readTask s (r_task r) = Some v" "paired (vt_task v) r"
    "validTaskId (r_task r)" by (rule storeInv_run)
  then obtain k where "i = runIdFor (r_task r) k" by (auto simp: paired_def numbered_def)
  moreover from assms obtain k' where "i = runIdFor tid k'" by (auto simp: freshNumber_def)
  ultimately have "r_task r = tid" using runIdFor_inj [OF v(4) applied_tid(2) [OF A]] by metis
  with applied_stored_of_task [OF A r] assms show False using numbered_fresh_disjoint by blast
qed

lemma applied_written_evolves:
  assumes A: "applied s s' tid n act K d revn"
    and "w \<in> set (writtenRuns d)" and "map_of (ms_runs s) (r_runId w) = Some r"
  shows "run_evolves r w"
proof -
  from applied_written_ok [OF A assms(2)] applied_fresh_absent [OF A] assms(3)
  obtain k where k: "k \<in> set K" "run_evolves k w" by (auto simp: writeOk_def list_ex_iff)
  with applied_known [OF A k(1)] run_evolves_same(1) [OF k(2)] assms(3) show ?thesis by (simp add: readRun_def)
qed

lemma applied_written_numbered:
  assumes A: "applied s s' tid n act K d revn"
    and "w \<in> set (writtenRuns d)"
  shows "numbered tid (t_runCount (d_task d)) (r_runId w)"
proof -
  from applied_written_ok [OF assms] consider k where "k \<in> set K" "run_evolves k w"
    | "freshNumber tid n (t_runCount (d_task d)) (r_runId w)" by (auto simp: writeOk_def list_ex_iff)
  then show ?thesis
  proof cases
    case 1
    with applied_known [OF A 1(1)] applied_stored_of_task [OF A] run_evolves_same(1) have "numbered tid n (r_runId w)" by metis
    then show ?thesis using numbered_mono applied_tid(3) [OF A] by blast
  qed (rule fresh_numbered)
qed

lemma applied_new_task_ok:
  assumes A: "applied s s' tid n act K d revn"
  shows "taskOk s' (taskKey tid) \<lparr>vt_task = d_task d, vt_revision = x\<rparr>"
proof (cases "t_activeRunId (d_task d)")
  case None
  then show ?thesis by (simp add: taskOk_def applied_tid [OF A])
next
  case (Some a)
  have "\<exists>r. readRun s' a = Some r \<and> r_task r = tid"
  proof (cases "a \<in> set (writtenIds d)")
    case True
    then obtain w where "w \<in> set (writtenRuns d)" "r_runId w = a" by (auto simp: writtenIds_def)
    with applied_written_get [OF A] applied_written_ok [OF A] show ?thesis by (auto simp: readRun_def writeOk_def)
  next
    case False
    with Some applied_safe [OF A] have act: "act = Some a" by (auto simp: safe_def lockMoves_def)
    with applied_snap [OF A] obtain v where v: "readTask s tid = Some v" "t_activeRunId (vt_task v) = Some a"
      by (auto simp: snapshotOf_def split: option.splits)
    from storeInvD(1) [OF applied_inv [OF A], of "taskKey tid" v] v(1) have "taskOk s (taskKey tid) v"
      by (simp add: readTask_def)
    with v storeInv_task [OF applied_inv [OF A] v(1) applied_tid(2) [OF A]] obtain r where r: "readRun s a = Some r" "r_task r = tid"
      by (auto simp: taskOk_def split: option.splits)
    from False have "find (\<lambda>w. r_runId w = a) (writtenRuns d) = None"
      by (auto simp: find_None_iff writtenIds_def)
    with r applied_runs [OF A] show ?thesis by (simp add: readRun_def)
  qed
  with Some applied_tid [OF A] show ?thesis by (auto simp: taskOk_def)
qed

lemma applied_kept_run_survives:
  assumes A: "applied s s' tid n act K d revn"
    and "map_of (ms_runs s) i = Some r"
  obtains r' where "map_of (ms_runs s') i = Some r'" "run_evolves r r'"
proof (cases "find (\<lambda>w. r_runId w = i) (writtenRuns d)")
  case None
  with assms applied_runs [OF A] that show thesis by simp
next
  case (Some w)
  then have "w \<in> set (writtenRuns d)" "r_runId w = i" by (auto dest: find_SomeD)
  with applied_written_evolves [OF A] assms that Some applied_runs [OF A] show thesis by auto
qed

lemma applied_tasks_ok:
  assumes A: "applied s s' tid n act K d revn"
    and "map_of (ms_tasks s') k = Some v"
  shows "taskOk s' k v"
proof (cases "k = taskKey tid")
  case True
  with assms applied_tasks [OF A] have "v = \<lparr>vt_task = d_task d, vt_revision = orElse revn 0 + 1\<rparr>" by simp
  with True applied_new_task_ok [OF A] show ?thesis by simp
next
  case False
  with assms applied_tasks [OF A] applied_inv [OF A] have ok: "taskOk s k v" by (simp add: storeInvD)
  show ?thesis
  proof (cases "t_activeRunId (vt_task v)")
    case (Some a)
    with ok obtain r where r: "map_of (ms_runs s) a = Some r" "r_task r = t_task (vt_task v)"
      by (auto simp: taskOk_def readRun_def split: option.splits)
    obtain r' where "map_of (ms_runs s') a = Some r'" "run_evolves r r'"
      by (rule applied_kept_run_survives [OF A r(1)])
    with r ok Some show ?thesis using run_evolves_same(2) by (auto simp: taskOk_def readRun_def)
  qed (use ok in \<open>simp add: taskOk_def\<close>)
qed

lemma applied_runs_ok:
  assumes A: "applied s s' tid n act K d revn"
    and r: "map_of (ms_runs s') i = Some r"
  shows "runOk s' i r"
  using A r
proof (cases rule: applied_runs_cases)
  case written
  with applied_written_ok [OF A written(1)] applied_written_numbered [OF A written(1)] applied_tid [OF A] applied_tasks [OF A] show ?thesis
    by (simp add: runOk_def readTask_def writeOk_def paired_def)
next
  case kept
  show ?thesis
  proof (cases "r_task r = tid")
    case True
    with kept applied_stored_of_task [OF A, of i r] have st: "r_runId r = i" "numbered tid n i"
      "isLive (r_state r) \<longleftrightarrow> act = Some i" by (simp_all add: readRun_def)
    have "act = Some i \<longleftrightarrow> t_activeRunId (d_task d) = Some i"
      using applied_safe [OF A] kept(2) by (auto simp: safe_def lockMoves_def)
    with st True applied_tid [OF A] numbered_mono applied_tasks [OF A] show ?thesis
      by (auto simp: runOk_def readTask_def paired_def)
  next
    case False
    from kept storeInv_run [OF applied_inv [OF A], of i r] obtain v where v: "r_runId r = i"
      "readTask s (r_task r) = Some v" "paired (vt_task v) r" "validTaskId (r_task r)"
      by (auto simp: readRun_def)
    with False taskKey_inj [OF v(4) applied_tid(2) [OF A]] applied_tasks [OF A] show ?thesis
      by (auto simp: runOk_def readTask_def)
  qed
qed

lemma applied_index_ok:
  assumes A: "applied s s' tid n act K d revn"
    and "map_of (ms_requestRuns s') k = Some i"
  shows "indexOk s' k i"
proof (cases "find (\<lambda>w. requestKeyOf w = k) (rev (writtenRuns d))")
  case None
  with assms applied_index [OF A] applied_inv [OF A] have "indexOk s k i" by (simp add: storeInvD)
  then obtain r where r: "map_of (ms_runs s) i = Some r" "requestKeyOf r = k"
    by (auto simp: indexOk_def readRun_def split: option.splits)
  obtain r' where "map_of (ms_runs s') i = Some r'" "run_evolves r r'"
    by (rule applied_kept_run_survives [OF A r(1)])
  with r requestKeyOf_evolves show ?thesis by (simp add: indexOk_def readRun_def)
next
  case (Some w)
  then have "w \<in> set (writtenRuns d)" "requestKeyOf w = k" by (auto dest: find_SomeD)
  with Some assms applied_index [OF A] applied_written_get [OF A] show ?thesis by (auto simp: indexOk_def readRun_def)
qed

lemma applied_index_grows:
  assumes A: "applied s s' tid n act K d revn"
  shows "map_of (ms_requestRuns s) k \<noteq> None \<Longrightarrow> map_of (ms_requestRuns s') k \<noteq> None"
  by (simp add: applied_index [OF A] split: option.split)

lemma applied_index_covers:
  assumes A: "applied s s' tid n act K d revn"
    and "map_of (ms_runs s') i = Some r"
  shows "map_of (ms_requestRuns s') (requestKeyOf r) \<noteq> None"
  using A assms(2)
proof (cases rule: applied_runs_cases)
  case written
  then have "find (\<lambda>w. requestKeyOf w = requestKeyOf r) (rev (writtenRuns d)) \<noteq> None"
    by (auto simp: find_None_iff)
  with applied_index [OF A] show ?thesis by auto
next
  case kept
  from storeInvD(4) [OF applied_inv [OF A] kept(1)] show ?thesis by (rule applied_index_grows [OF A])
qed

lemma applied_task_evolves:
  assumes A: "applied s s' tid n act K d revn"
    and "map_of (ms_tasks s) k = Some v"
  shows "\<exists>v'. map_of (ms_tasks s') k = Some v' \<and> taskEvolves v v'"
proof (cases "k = taskKey tid")
  case True
  with assms have r: "readTask s tid = Some v" by (simp add: readTask_def)
  with applied_snap [OF A] have "t_runCount (vt_task v) = n" by (simp add: snapshotOf_def)
  with True applied_tasks [OF A] r applied_revision [OF A] applied_tid [OF A] storeInv_task [OF applied_inv [OF A] r applied_tid(2) [OF A]] show ?thesis
    by (auto simp: taskEvolves_def)
next
  case False
  with applied_tasks [OF A] assms show ?thesis by (simp add: taskEvolves_def)
qed

lemma applied_outbox:
  assumes A: "applied s s' tid n act K d revn"
  shows "map_of (ms_outbox s') k \<noteq> None \<longleftrightarrow> map_of (ms_outbox s) k \<noteq> None \<or> hasEntry d k"
proof -
  from applied_apply_ok [OF A] obtain s3 where "s' = foldl writeEntry s3 (d_outbox d)" "ms_outbox s3 = ms_outbox s"
    by (auto simp: applyDecision_def Let_def split: if_splits)
  then show ?thesis using writeEntries_outbox [of s3 "d_outbox d" k] by (simp only: hasEntry_def)
qed

lemma applied_named:
  assumes A: "applied s s' tid n act K d revn" and e: "map_of (ms_outbox s') k = Some e"
  shows "named e"
proof -
  from applied_apply_ok [OF A] obtain s3 where s3: "s' = foldl writeEntry s3 (d_outbox d)" "ms_outbox s3 = ms_outbox s"
    by (auto simp: applyDecision_def Let_def split: if_splits)
  have "list_all named (d_outbox d)" using applied_safe [OF A] by (simp add: safe_def)
  with e s3 show ?thesis using writeEntries_named [of s3 "d_outbox d"] storeInvD(8) [OF applied_inv [OF A]] by simp
qed

text \<open>A run cancelled without an outcome has left its task to a fresh run.\<close>

lemma applied_handover:
  assumes A: "applied s s' tid n act K d revn" and w: "w \<in> set (writtenRuns d)" "\<not> isLive (r_state w)"
    and k: "k \<in> set K" "run_evolves k w" "r_state k \<noteq> r_state w" and act: "t_activeRunId (d_task d) \<noteq> None"
  shows "superseded s' w"
proof -
  note kn = applied_known [OF A k(1)]
  note ks = applied_stored_of_task [OF A conjunct1 [OF kn] conjunct2 [OF kn]]
  have "isLive (r_state k)" using run_evolvesD(3) [OF k(2)] k(3) by metis
  then have held: "act = Some (r_runId k)" using ks(3) by simp
  obtain a where a: "t_activeRunId (d_task d) = Some a" using act by blast
  have id: "r_runId w = r_runId k" "r_task w = tid" using run_evolves_same [OF k(2)] kn by auto
  have "a \<noteq> r_runId w" using applied_written_ok [OF A w(1)] w(2) a by (auto simp: writeOk_def)
  then have "a \<in> set (writtenIds d)"
    using applied_safe [OF A] held a id(1) by (auto simp: safe_def lockMoves_def)
  then obtain q where q: "q \<in> set (writtenRuns d)" "r_runId q = a" by (auto simp: writtenIds_def)
  note qok = applied_written_ok [OF A q(1)]
  have live: "isLive (r_state q)" using qok a q(2) by (simp add: writeOk_def)
  have "\<not> run_evolves k' q" if "k' \<in> set K" for k'
  proof
    assume e: "run_evolves k' q"
    note k'n = applied_known [OF A that]
    have "isLive (r_state k')" using run_evolvesD(3) [OF e] live by metis
    then have "act = Some (r_runId k')" using applied_stored_of_task(3) [OF A conjunct1 [OF k'n] conjunct2 [OF k'n]] by simp
    with held q(2) run_evolves_same(1) [OF e] id(1) \<open>a \<noteq> r_runId w\<close> show False by simp
  qed
  with qok have "r_task q = tid" "freshNumber tid n (t_runCount (d_task d)) (r_runId q)"
    by (auto simp: writeOk_def list_ex_iff)
  then have "laterRun w q" using ks(2) id
    by (fastforce simp: laterRun_def numbered_def freshNumber_def)
  moreover have "map_of (ms_runs s') (r_runId q) = Some q" by (rule applied_written_get [OF A q(1)])
  ultimately show ?thesis unfolding superseded_def by blast
qed

lemma applied_published:
  assumes A: "applied s s' tid n act K d revn"
    and r: "map_of (ms_runs s') i = Some r"
  shows "publishedOk s' i r"
  using A r
proof (cases rule: applied_runs_cases)
  case kept
  have "\<exists>q'. map_of (ms_runs s') j = Some q' \<and> run_evolves q q'" if "map_of (ms_runs s) j = Some q" for j q
    using applied_kept_run_survives [OF A that] by blast
  then show ?thesis
    using publishedOk_survives [OF storeInvD(7) [OF applied_inv [OF A] kept(1)] run_evolves_refl refl] applied_outbox [OF A]
    by blast
next
  case written
  from applied_safe [OF A] written(1) have pub: "published K d r" by (simp add: safe_def list_all_iff)
  show ?thesis
  proof (cases "isLive (r_state r) \<and> hasEntry d (dispatchEntryId (r_runId r))")
    case True
    with written applied_outbox [OF A] show ?thesis by (auto simp: publishedOk_def isLive_cases)
  next
    case False
    with pub obtain k where k: "k \<in> set K" "run_evolves k r" "concluded d k r"
      by (auto simp: published_def list_ex_iff)
    with applied_known [OF A k(1)] run_evolves_same(1) [OF k(2)] written(2)
    have "map_of (ms_runs s) i = Some k" by (simp add: readRun_def)
    note old = storeInvD(7) [OF applied_inv [OF A] this]
    have dispatched: "map_of (ms_outbox s') (dispatchEntryId i) \<noteq> None"
      using old applied_outbox [OF A] unfolding publishedOk_def by blast
    show ?thesis
    proof (cases "r_state k = r_state r")
      case True
      have "\<exists>q'. map_of (ms_runs s') j = Some q' \<and> run_evolves q q'" if "map_of (ms_runs s) j = Some q" for j q
        using applied_kept_run_survives [OF A that] by blast
      then show ?thesis using publishedOk_survives [OF old k(2) True [symmetric]] applied_outbox [OF A] by blast
    next
      case False
      then show ?thesis
        using k(3) dispatched applied_outbox [OF A] written applied_handover [OF A written(1) _ k(1,2)]
        unfolding publishedOk_def concluded_def by blast
    qed
  qed
qed

theorem applied_apply_keeps:
  assumes A: "applied s s' tid n act K d revn"
  shows "keeps s s'"
proof -
  have "storeInv s'"
    using applied_tasks_ok [OF A] applied_runs_ok [OF A] applied_index_ok [OF A]
      applied_index_covers [OF A] applied_distincts [OF A] applied_published [OF A] applied_named [OF A]
    by (rule storeInvI)
  moreover have "evolves s s'"
    unfolding evolves_def
  proof (intro conjI allI impI)
    fix k v assume "map_of (ms_tasks s) k = Some v"
    then show "\<exists>v'. map_of (ms_tasks s') k = Some v' \<and> taskEvolves v v'" by (rule applied_task_evolves [OF A])
  next
    fix i r assume "map_of (ms_runs s) i = Some r"
    then obtain r' where "map_of (ms_runs s') i = Some r'" "run_evolves r r'"
      by (rule applied_kept_run_survives [OF A])
    then show "\<exists>r'. map_of (ms_runs s') i = Some r' \<and> run_evolves r r'" by blast
  next
    fix k assume "map_of (ms_requestRuns s) k \<noteq> None"
    then show "map_of (ms_requestRuns s') k \<noteq> None" by (rule applied_index_grows [OF A])
  next
    fix k assume "map_of (ms_outbox s) k \<noteq> None"
    then show "map_of (ms_outbox s') k \<noteq> None" using applied_outbox [OF A] by blast
  qed
  ultimately show ?thesis by (simp add: keeps_def)
qed

end
