(* ===== verification/Store_Operations.thy ===== *)
theory Store_Operations
  imports Lock_Invariant
begin

text \<open>
  Every operation of the store and of the orchestrator keeps the invariant and the evolution of
  \<open>Lock_Invariant\<close>: the interface \<open>store_op\<close>, interpreted on each operation. The transactions
  reach it through the decision interfaces: \<open>run_decider\<close> for decisions on one run,
  \<open>task_decider\<close> for the compare-and-set decisions that write the task alone.
\<close>

locale store_op =
  fixes operation :: "memStore \<Rightarrow> memStore"
  assumes op_keeps: "storeInv s \<Longrightarrow> keeps s (operation s)"
begin

lemma op_inv: "storeInv s \<Longrightarrow> storeInv (operation s)"
  using op_keeps by (simp add: keeps_def)

lemma op_run_evolves:
  "storeInv s \<Longrightarrow> readRun s i = Some r \<Longrightarrow> \<exists>r'. readRun (operation s) i = Some r' \<and> run_evolves r r'"
  using op_keeps by (auto simp: keeps_def evolves_def readRun_def)

end

subsection \<open>The run transaction\<close>

lemma commitOutcome_keeps:
  assumes "storeInv s" and "snapshotOf s tid n act K"
    and "\<And>d. out = Decided d \<Longrightarrow> safe tid n act K d"
  shows "keeps s (fst (commitOutcome s out revn))"
proof (cases out)
  case (Decided d)
  show ?thesis
  proof (cases "applyDecision s d revn")
    case (Inr s')
    with assms Decided have "applied s s' tid n act K d revn" by (simp add: applied_def)
    from applied_apply_keeps [OF this] Decided Inr show ?thesis by (simp add: commitOutcome_def)
  qed (use assms Decided in \<open>simp add: commitOutcome_def\<close>)
qed (use assms in \<open>simp_all add: commitOutcome_def\<close>)

lemma snapshotOf_run:
  assumes "storeInv s" and "readRun s i = Some r" and "readTask s (r_task r) = Some v"
  shows "snapshotOf s (t_task (vt_task v)) (t_runCount (vt_task v)) (t_activeRunId (vt_task v)) [r]"
proof -
  from assms(1,2) obtain v' where v': "r_runId r = i" "readTask s (r_task r) = Some v'"
    "paired (vt_task v') r" "validTaskId (r_task r)" by (rule storeInv_run)
  with assms show ?thesis by (simp add: snapshotOf_def paired_def)
qed

lemma transactRun_keeps:
  assumes inv: "storeInv s"
    and some: "\<And>v r d. readRun s runId = Some r \<Longrightarrow> readTask s (r_task r) = Some v \<Longrightarrow> paired (vt_task v) r \<Longrightarrow>
      decide (runSnapshot s runId ps sr) = Decided d \<Longrightarrow> safeFor (vt_task v) r d"
    and none: "\<And>d. readRun s runId = None \<Longrightarrow> decide (runSnapshot s runId ps sr) \<noteq> Decided d"
  shows "keeps s (fst (transactRun s runId ps sr decide))"
proof (cases "readRun s runId")
  case None
  from none [OF None] have "fst (transactRun s runId ps sr decide) = s"
    by (auto simp: transactRun_def commitOutcome_def Let_def split: outcome.split)
  with inv show ?thesis by simp
next
  case (Some r)
  from inv Some obtain v where v: "r_runId r = runId" "readTask s (r_task r) = Some v"
    "paired (vt_task v) r" "validTaskId (r_task r)" by (rule storeInv_run)
  show ?thesis unfolding transactRun_def Let_def
    by (rule commitOutcome_keeps [OF inv snapshotOf_run [OF inv Some v(2)]])
      (use some [OF Some v(2,3)] in \<open>simp add: safeFor_def\<close>)
qed

lemma runSnapshot_simps [simp]:
  "rt_run (runSnapshot s i ps sr) = readRun s i"
  "rt_task (runSnapshot s i ps sr) = Option.bind (readRun s i) (\<lambda>r. readTask s (r_task r))"
  by (simp_all add: runSnapshot_def Let_def)

lemma onRun_keeps:
  assumes inv: "storeInv s"
    and dec: "\<And>t r d q. paired t r \<Longrightarrow> decide t r q = Decided d \<Longrightarrow> safeFor t r d"
  shows "keeps s (fst (transactRun s runId ps sr (onRun cid decide)))"
proof (rule transactRun_keeps [OF inv])
  fix v r d
  assume r: "readRun s runId = Some r" "readTask s (r_task r) = Some v" and p: "paired (vt_task v) r"
    and "onRun cid decide (runSnapshot s runId ps sr) = Decided d"
  then obtain q where w: "withCleanup cid r (decide (vt_task v) r q) = Decided d"
    by (auto simp: onRun_def)
  then obtain d0 where "decide (vt_task v) r q = Decided d0" by (rule withCleanup_Decided)
  with w dec [OF p] withCleanup_safe show "safeFor (vt_task v) r d" by metis
qed (simp add: onRun_def)

text \<open>Every decision on one run is an operation of the store once it runs in
  \<^verbatim>\<open>transactOnRun\<close>.\<close>

sublocale run_decider \<subseteq> txn: store_op "\<lambda>s. fst (transactOnRun cid s runId decide)" for cid runId
  by unfold_locales (auto simp: transactOnRun_def intro!: onRun_keeps decide_safe)

interpretation finishOp: store_op "\<lambda>s. fst (finishCredentialOperation a readNow now s runId i fp restored at)"
  for a readNow now runId i fp restored at
  by unfold_locales
    (auto simp: finishCredentialOperation_def intro!: transactRun_keeps finishing.decide_safe)

context run_decider begin

lemma plain_keeps: "storeInv s \<Longrightarrow> keeps s (fst (transactRun s runId ps sr (onTaskAndRun decide)))"
  by (rule transactRun_keeps) (auto simp: onTaskAndRun_def intro!: decide_safe)

end

interpretation beginOp: store_op "\<lambda>s. fst (beginCredential now s runId fp i k)" for now runId fp i k
  by unfold_locales (simp add: beginCredential_def reserving.plain_keeps)

interpretation changeOp: store_op "\<lambda>s. fst (changeCredential now s runId i fp change)" for now runId i fp change
  by unfold_locales (simp add: changeCredential_def credential.plain_keeps)

interpretation triageOp: store_op "\<lambda>s. fst (recordTriagePublication now s runId patch)" for now runId patch
  by unfold_locales (simp add: recordTriagePublication_def triage.plain_keeps)

interpretation cancelUnclaimedOp: store_op "\<lambda>s. fst (cancelUnclaimedBefore now s runId notAfter remark issue)"
  for now runId notAfter remark issue
  by unfold_locales
    (auto simp: cancelUnclaimedBefore_def intro!: transactRun_keeps unclaimed.decide_safe)

lemma decideReroute_safe:
  assumes "paired (vt_task v) r" and "rt_task st = Some v" "rt_run st = Some r"
    and "decideReroute a ep now st = Decided d"
  shows "safeFor (vt_task v) r d"
  using assms rerouteQueuedRun_safe [OF assms(1)]
  by (auto simp: decideReroute_def split: option.splits)

lemma rerouteOne_keeps: "storeInv s \<Longrightarrow> keeps s (fst (rerouteOne a ep now s runId))"
  unfolding rerouteOne_def
proof (rule transactRun_keeps)
  fix v r d
  assume "readRun s runId = Some r" "readTask s (r_task r) = Some v" "paired (vt_task v) r"
    and d: "decideReroute a ep now (runSnapshot s runId (Some (fa_pipelines a)) None) = Decided d"
  then show "safeFor (vt_task v) r d" by (intro decideReroute_safe [OF _ _ _ d]) simp_all
qed (simp_all add: decideReroute_def)

interpretation rerouteOp: store_op "\<lambda>s. fst (rerouteOne a ep now s runId)" for a ep now runId
  by unfold_locales (rule rerouteOne_keeps)

lemma report_keeps:
  assumes "storeInv s"
  shows "keeps s (fst (report a readNow now s runId result fp cid dl pub))"
proof (cases "a \<noteq> None \<and> \<not> rr_ok result")
  case True
  then obtain auth where "a = Some auth" "\<not> rr_ok result" by auto
  with assms onRun_keeps [OF assms failure.decide_safe] show ?thesis by (simp add: report_def)
next
  case False
  then have "report a readNow now s runId result fp cid dl pub =
      transactOnRun cid s runId (decideReport now result fp dl pub)"
    by (auto simp: report_def split: option.split)
  with success.txn.op_keeps [OF assms] show ?thesis by simp
qed

interpretation reportOp: store_op "\<lambda>s. fst (report a readNow now s runId result fp cid dl pub)"
  for a readNow now runId result fp cid dl pub
  by unfold_locales (rule report_keeps)

subsection \<open>The request transaction\<close>

lemma activeRun_paired:
  assumes inv: "storeInv s" and v: "readTask s tid = Some v" and tid: "validTaskId tid"
  shows "case activeRunIn s (Some v) of
      None \<Rightarrow> t_activeRunId (vt_task v) = None
    | Some a \<Rightarrow> paired (vt_task v) a \<and> isLive (r_state a) \<and> readRun s (r_runId a) = Some a"
proof (cases "t_activeRunId (vt_task v)")
  case (Some i)
  from storeInvD(1) [OF inv] v have "taskOk s (taskKey tid) v" by (simp add: readTask_def)
  with Some obtain r where r: "readRun s i = Some r" "r_task r = t_task (vt_task v)"
    by (auto simp: taskOk_def split: option.splits)
  from inv r(1) obtain v' where v': "r_runId r = i" "readTask s (r_task r) = Some v'"
    "paired (vt_task v') r" "validTaskId (r_task r)" by (rule storeInv_run)
  from storeInv_task [OF inv v tid] r v v' have "v' = v" by simp
  with v' r Some show ?thesis by (simp add: activeRunIn_def readRun_def paired_def)
qed (simp add: activeRunIn_def)

lemma requestSnapshot_simps [simp]:
  "rs_task (requestSnapshot s input i) = readTask s (rx_taskId input)"
  "rs_activeRun (requestSnapshot s input i) = activeRunIn s (readTask s (rx_taskId input))"
  by (simp_all add: requestSnapshot_def Let_def)

lemma requestArgs_simps [simp]:
  "ri_task (requestArgs now input st) = map_option vt_task (rs_task st)"
  "ri_taskId (requestArgs now input st) = rq_taskId input"
  "ri_activeRun (requestArgs now input st) = rs_activeRun st"
  by (simp_all add: requestArgs_def Let_def)

lemma requestTx_simps [simp]: "rx_taskId (requestTx input) = rq_taskId input"
  by (simp add: requestTx_def)

lemma request_paired:
  assumes inv: "storeInv s" and tid: "validTaskId (rq_taskId input)"
  shows "pairedRequest (requestArgs now input (requestSnapshot s (requestTx input) i))"
proof (cases "readTask s (rq_taskId input)")
  case None
  then show ?thesis by (simp add: pairedRequest_def activeRunIn_def)
next
  case (Some v)
  with activeRun_paired [OF inv Some tid] storeInv_task [OF inv Some tid] show ?thesis
    by (auto simp: pairedRequest_def split: option.splits)
qed

lemma request_snapshotOf:
  fixes now i
  assumes inv: "storeInv s" and tid: "validTaskId (rq_taskId input)"
  defines "args \<equiv> requestArgs now input (requestSnapshot s (requestTx input) i)"
  shows "snapshotOf s (ri_taskId args) (case ri_task args of None \<Rightarrow> 0 | Some t \<Rightarrow> t_runCount t)
    (Option.bind (ri_task args) t_activeRunId) (case ri_activeRun args of None \<Rightarrow> [] | Some a \<Rightarrow> [a])"
proof (cases "readTask s (rq_taskId input)")
  case None
  with tid show ?thesis by (simp add: snapshotOf_def args_def activeRunIn_def)
next
  case (Some v)
  with activeRun_paired [OF inv Some tid] storeInv_task [OF inv Some tid] tid show ?thesis
    by (auto simp: snapshotOf_def args_def paired_def split: option.splits)
qed

lemma recordBinding_frame [simp]:
  "ms_tasks (recordBinding s input nb) = ms_tasks s" "ms_runs (recordBinding s input nb) = ms_runs s"
  "ms_requestRuns (recordBinding s input nb) = ms_requestRuns s"
  "ms_outbox (recordBinding s input nb) = ms_outbox s"
  by (simp_all add: recordBinding_def split: option.split)

lemma recordRevision_frame [simp]:
  "ms_tasks (recordRevision s input p d) = ms_tasks s" "ms_runs (recordRevision s input p d) = ms_runs s"
  "ms_requestRuns (recordRevision s input p d) = ms_requestRuns s"
  "ms_outbox (recordRevision s input p d) = ms_outbox s"
  by (simp_all add: recordRevision_def split: option.split)

lemma snapshotOf_cong:
  "ms_tasks s' = ms_tasks s \<Longrightarrow> ms_runs s' = ms_runs s \<Longrightarrow> snapshotOf s' tid n act K = snapshotOf s tid n act K"
  by (simp add: snapshotOf_def readTask_def readRun_def)

lemma transactRequest_keeps:
  assumes inv: "storeInv s" and tid: "validTaskId (rq_taskId input)"
  shows "keeps s (fst (transactRequest s (requestTx input) (decideRequest now input)))"
proof -
  let ?tx = "requestTx input"
  let ?binding = "resolveRequestBinding (rx_requestId ?tx) (rx_requestBinding ?tx)
      (Option.bind (rx_requestBinding ?tx)
        (\<lambda>b. map_of (ms_requestBindings s) (bindingKeyOf (rx_taskId ?tx) (rb_bindingKey b))))"
  show ?thesis
  proof (cases ?binding)
    case (Inl e)
    with inv show ?thesis by (simp add: transactRequest_def)
  next
    case (Inr b)
    obtain i nb where b: "b = (i, nb)" by (cases b)
    let ?st = "requestSnapshot s ?tx i"
    let ?out = "decideRequest now input ?st"
    let ?s1 = "recordBinding s ?tx nb"
    let ?args = "requestArgs now input ?st"
    have s1: "keeps s ?s1" "storeInv ?s1"
      using keeps_cong [OF inv, of ?s1] outboxGrows_same [OF inv, of ?s1] by (simp_all add: keeps_def)
    have commit: "keeps ?s1 (fst (commitOutcome ?s1 ?out (map_option vt_revision (rs_task ?st))))"
    proof (rule commitOutcome_keeps [OF s1(2)])
      show "snapshotOf ?s1 (ri_taskId ?args) (case ri_task ?args of None \<Rightarrow> 0 | Some t \<Rightarrow> t_runCount t)
          (Option.bind (ri_task ?args) t_activeRunId) (case ri_activeRun ?args of None \<Rightarrow> [] | Some a \<Rightarrow> [a])"
        using request_snapshotOf [OF inv tid, of now i] snapshotOf_cong [of ?s1 s] by simp
    next
      fix d assume "?out = Decided d"
      from decideRequest_safe [OF request_paired [OF inv tid] this]
      show "safe (ri_taskId ?args) (case ri_task ?args of None \<Rightarrow> 0 | Some t \<Rightarrow> t_runCount t)
          (Option.bind (ri_task ?args) t_activeRunId) (case ri_activeRun ?args of None \<Rightarrow> [] | Some a \<Rightarrow> [a]) d"
        by (simp add: safeRequest_def)
    qed
    let ?c = "commitOutcome ?s1 ?out (map_option vt_revision (rs_task ?st))"
    have cases: "fst (transactRequest s ?tx (decideRequest now input)) = s \<or>
        fst (transactRequest s ?tx (decideRequest now input)) = fst ?c \<or>
        (\<exists>p d. fst (transactRequest s ?tx (decideRequest now input)) = recordRevision (fst ?c) ?tx p d)"
    proof (cases ?c)
      case (Pair s' o')
      show ?thesis
        using Inr b Pair by (cases ?out; cases o') (auto simp: transactRequest_def Let_def)
    qed
    have c: "keeps s (fst ?c)" using keeps_trans [OF s1(1) commit] .
    have rev: "keeps (fst ?c) (recordRevision (fst ?c) ?tx p d)" for p d
      using commit keeps_cong [of "fst ?c" "recordRevision (fst ?c) ?tx p d"]
        outboxGrows_same [of "fst ?c" "recordRevision (fst ?c) ?tx p d"] by (simp add: keeps_def)
    from cases show ?thesis
    proof (elim disjE exE)
      fix p d
      assume "fst (transactRequest s ?tx (decideRequest now input)) = recordRevision (fst ?c) ?tx p d"
      then show ?thesis using keeps_trans [OF c rev] by simp
    qed (use inv c in simp_all)
  qed
qed

lemma request_keeps:
  "storeInv s \<Longrightarrow> validTaskId (rq_taskId input) \<Longrightarrow> keeps s (fst (request z now s input))"
  by (simp add: request_def transactRequest_keeps)

subsection \<open>Compare and set\<close>

locale task_decider =
  fixes decide :: "versionedTask option \<Rightarrow> run option \<Rightarrow> outcome"
  assumes decide_task: "decide vt a = Decided d \<Longrightarrow> \<exists>v. vt = Some v \<and> writtenRuns d = [] \<and> d_outbox d = [] \<and>
      t_task (d_task d) = t_task (vt_task v) \<and> t_runCount (d_task d) = t_runCount (vt_task v) \<and>
      t_activeRunId (d_task d) = t_activeRunId (vt_task v)"
begin

text \<open>Whatever is committed while the transaction is suspended, a compare-and-set that succeeds
  wrote over the very task it read.\<close>

lemma once_keeps:
  assumes inv: "storeInv s" and env: "\<And>x j. storeInv x \<Longrightarrow> keeps x (env j x)" and tid: "validTaskId tid"
  shows "keeps s (fst (once env s tid decide))"
proof -
  let ?s2 = "env 1 (env 0 s)"
  have k: "keeps s ?s2" using env inv keeps_trans keeps_def by blast
  then have inv2: "storeInv ?s2" by (simp add: keeps_def)
  let ?vt = "readTask s tid"
  let ?out = "decide ?vt (readActiveRun (env 0 s) tid)"
  have "keeps ?s2 (fst (commitOutcome ?s2 ?out (map_option vt_revision ?vt)))"
  proof (cases "\<exists>d s'. ?out = Decided d \<and> applyDecision ?s2 d (map_option vt_revision ?vt) = Inr s'")
    case False
    with inv2 show ?thesis by (auto simp: commitOutcome_def split: outcome.split sum.split)
  next
    case True
    then obtain d s' where d: "?out = Decided d" and s': "applyDecision ?s2 d (map_option vt_revision ?vt) = Inr s'"
      by blast
    from decide_task [OF d] obtain v where v: "?vt = Some v" "writtenRuns d = []" "d_outbox d = []"
      "t_task (d_task d) = t_task (vt_task v)" "t_runCount (d_task d) = t_runCount (vt_task v)"
      "t_activeRunId (d_task d) = t_activeRunId (vt_task v)" by blast
    have td: "t_task (vt_task v) = tid" by (rule storeInv_task [OF inv v(1) tid])
    from s' v(4) td v(1) have "map_option vt_revision (readTask ?s2 tid) = Some (vt_revision v)"
      by (auto simp: applyDecision_def readTask_def Let_def split: if_splits)
    moreover from k v(1) obtain v' where "readTask ?s2 tid = Some v'" "taskEvolves v v'"
      unfolding keeps_def evolves_def readTask_def by blast
    ultimately have "readTask ?s2 tid = Some v" by (auto simp: taskEvolves_def)
    then have snap: "snapshotOf ?s2 tid (t_runCount (vt_task v)) (t_activeRunId (vt_task v)) []"
      using tid by (simp add: snapshotOf_def)
    show ?thesis
      by (rule commitOutcome_keeps [OF inv2 snap]) (use d v td in \<open>auto simp: safe_unfold\<close>)
  qed
  with k show ?thesis using keeps_trans by (simp add: once_def Let_def)
qed

lemma transact_keeps:
  assumes inv: "storeInv s" and env: "\<And>x j. storeInv x \<Longrightarrow> keeps x (env j x)" and tid: "validTaskId tid"
  shows "keeps s (fst (transact env s tid decide))"
proof (cases "once env s tid decide")
  case (Pair s' out)
  have "keeps s (fst (once env s tid decide))" by (rule once_keeps [OF inv env tid])
  with Pair have k: "keeps s s'" by simp
  then have k2: "keeps s (env 2 s')" using env keeps_trans keeps_def by blast
  then have "keeps (env 2 s') (fst (once (\<lambda>i. env (i + 3)) (env 2 s') tid decide))"
    by (intro once_keeps tid env) (simp add: keeps_def)
  with k2 have "keeps s (fst (once (\<lambda>i. env (i + 3)) (env 2 s') tid decide))" using keeps_trans by blast
  with k Pair show ?thesis by (auto simp: transact_def split: outcome.splits jsError.splits)
qed

end

interpretation closing: task_decider "\<lambda>vt a. closeTask now (map_option vt_task vt) a" for now
  by unfold_locales (auto simp: closeTask_def onlyTask_def split: option.splits if_splits)

interpretation working: task_decider "\<lambda>vt a. updateTaskWork now (map_option vt_task vt) a work" for now work
  by unfold_locales (auto simp: updateTaskWork_def onlyTask_def split: option.splits if_splits)

interpretation refreshing: task_decider "\<lambda>vt a. decideRefreshIssue now issue vt" for now issue
  by unfold_locales (auto simp: decideRefreshIssue_def onlyTask_def split: option.splits if_splits)

subsection \<open>The queue, the outbox and the other feeds\<close>

lemma enqueueRun_keeps: "storeInv s \<Longrightarrow> keeps s (enqueueRun s runId now)"
  unfolding enqueueRun_def
  by (auto intro!: update_run_keeps [OF _ _ run_evolves_updates(2)] split: option.split)

interpretation enqueueOp: store_op "\<lambda>s. enqueueRun s runId now" for runId now
  by unfold_locales (rule enqueueRun_keeps)

lemma releaseQueuedRunClaim_keeps:
  assumes "storeInv s"
  shows "keeps s (fst (releaseQueuedRunClaim s runId by' token now until))"
proof (cases "map_of (ms_runs s) runId")
  case (Some r)
  with storeInvD(2) [OF assms Some] have "r_runId r = runId" by (simp add: runOk_def)
  with Some assms show ?thesis
    by (auto simp: releaseQueuedRunClaim_def putRun_def intro!: update_run_keeps [OF _ _ run_evolves_updates(2)])
qed (use assms in \<open>simp add: releaseQueuedRunClaim_def\<close>)

interpretation releaseOp: store_op "\<lambda>s. fst (releaseQueuedRunClaim s runId who token now until)"
  for runId who token now until
  by unfold_locales (rule releaseQueuedRunClaim_keeps)

lemma find_turn_in: "selectFromTurns k pos runs = Some r \<Longrightarrow> r \<in> set runs"
  by (induction k arbitrary: pos) (auto split: option.splits dest: find_SomeD)

lemma selectFairQueuedRun_in:
  assumes "selectFairQueuedRun queued live pipelines now positions = Some r"
  shows "r \<in> set queued" "isQueueAdmissionCandidate r now" "r_pipeline r \<in> set pipelines"
  using assms find_turn_in
  by (force simp: selectFairQueuedRun_def selectPriorityQueuedRun_def Let_def split: list.splits)+

lemma claimQueuedRun_evolves [simp]:
  "run_evolves r (claimQueuedRun r input)" "r_state (claimQueuedRun r input) = r_state r"
  by (simp_all add: claimQueuedRun_def evolve_defs)

lemma stored_run: "storeInv s \<Longrightarrow> r \<in> set (allRuns s) \<Longrightarrow> map_of (ms_runs s) (r_runId r) = Some r"
proof -
  assume inv: "storeInv s" and "r \<in> set (allRuns s)"
  then obtain i where i: "map_of (ms_runs s) i = Some r"
    using storeInvD(5) [OF inv] by (auto simp: allRuns_def js.items_get [simplified])
  with storeInvD(2) [OF inv i] show ?thesis by (simp add: runOk_def)
qed

lemma storeClaimQueuedRun_keeps:
  assumes inv: "storeInv s"
  shows "keeps s (fst (storeClaimQueuedRun s pipelines input))"
proof -
  let ?eligible = "filter (\<lambda>p. \<not> providerIsCoolingDown
      (map_option cooldownDocOf (map_of (ms_providerCooldowns s) p)) (ci_now input)) pipelines"
  show ?thesis
  proof (cases "selectFairQueuedRun (allRuns s) (allRuns s) ?eligible (Some (ci_now input)) (ms_priorityPositions s)")
    case None
    with inv show ?thesis by (simp add: storeClaimQueuedRun_def Let_def)
  next
    case (Some r)
    have st: "map_of (ms_runs s) (r_runId r) = Some r"
      by (rule stored_run [OF inv selectFairQueuedRun_in(1) [OF Some]])
    show ?thesis
      by (rule update_run_keeps [OF inv st claimQueuedRun_evolves [of r input]])
        (simp_all add: storeClaimQueuedRun_def Let_def Some split: option.split)
  qed
qed

interpretation claimOp: store_op "\<lambda>s. fst (storeClaimQueuedRun s pipelines input)" for pipelines input
  by unfold_locales (rule storeClaimQueuedRun_keeps)

lemma leased_named:
  assumes "storeInv s"
  shows "list_all named (map (\<lambda>(i, e). leaseEntry now until (uuid i) e) (enumerate 0 (take limit (outboxEligible s now excluded))))"
proof -
  have "named e" if "e \<in> set (outboxEligible s now excluded)" for e
    using that storeInvD(8) [OF assms] entriesKeyedD(3) [OF storeInvD(6) [OF assms]] outboxEligible_set by blast
  then have "named e" if "(i, e) \<in> set (enumerate 0 (take limit (outboxEligible s now excluded)))" for i e
    using that in_set_takeD by (fastforce dest: in_set_enumerate_eq [THEN iffD1])
  then show ?thesis by (auto simp: list_all_iff leaseEntry_def named_def)
qed

interpretation outboxClaimOp: store_op "\<lambda>s. fst (claimPendingOutbox uuid s limit now until excluded)"
  for uuid limit now until excluded
  by unfold_locales
    (auto simp: claimPendingOutbox_def Let_def intro!: keeps_cong writeEntries_grows leased_named)

lemma settled_keyed:
  "storeInv s \<Longrightarrow> settleOutboxEntry (map_of (ms_outbox s) k) input = Some e \<Longrightarrow> o_entryId e = k \<and> named e"
  "storeInv s \<Longrightarrow> wakeOutboxEntry (map_of (ms_outbox s) k) now = Some e \<Longrightarrow> o_entryId e = k \<and> named e"
  using settleOutboxEntry_id wakeOutboxEntry_id entriesKeyedD(2) [OF storeInvD(6)] storeInvD(8) named_cong by metis+

interpretation settleOp: store_op "\<lambda>s. fst (settleOutbox s input)" for input
  by unfold_locales
    (auto simp: settleOutbox_def intro!: keeps_cong outboxGrows_update
      settled_keyed(1) split: option.split)

interpretation wakeOp: store_op "\<lambda>s. fst (wakeOutbox s entryId now)" for entryId now
  by unfold_locales
    (auto simp: wakeOutbox_def intro!: keeps_cong outboxGrows_update
      settled_keyed(2) split: option.split)

interpretation sourceOp: store_op "\<lambda>s. fst (resolveSourceWorkId s key candidate)" for key candidate
  by unfold_locales (auto simp: resolveSourceWorkId_def Let_def intro!: keeps_cong outboxGrows_same)

interpretation refreshOp: store_op "\<lambda>s. fst (beginGithubAnchorProjectionRefresh s anchor)" for anchor
  by unfold_locales
    (auto simp: beginGithubAnchorProjectionRefresh_def Let_def intro!: keeps_cong outboxGrows_same)

interpretation projectionOp: store_op
  "\<lambda>s. fst (applyGithubAnchorProjectionRefresh s anchor generation projection)"
  for anchor generation projection
  by unfold_locales
    (auto simp: applyGithubAnchorProjectionRefresh_def Let_def intro!: keeps_cong outboxGrows_same
      split: option.split)

interpretation trackerOp: store_op
  "\<lambda>s. case writeTrackerIssue z s projection of Inl _ \<Rightarrow> s | Inr s' \<Rightarrow> s'" for z projection
  by unfold_locales
    (auto simp: writeTrackerIssue_def Let_def intro!: keeps_cong outboxGrows_same split: sum.split if_splits option.splits)

end
