(* ===== verification/Execution.thy ===== *)
theory Execution
  imports Store_Operations
begin

text \<open>
  Executions of the whole control plane: any sequence of store and orchestrator operations, from
  the empty store, with the compare-and-set methods interleaved with anything else. The
  properties of every reachable state and of every pair of states along an execution: mutual
  exclusion, the lock, the immutability of history, numbering of runs and request idempotency.
\<close>

subsection \<open>Commands\<close>

datatype command =
    Request zodFormats timestamp requestInput
  | ConfirmDispatch string timestamp string
  | ObserveStartup string timestamp string exitClaimant string timestamp bool
  | Renew string timestamp string "string option" bool
  | ObservePlacement string timestamp string exitClaimant runPlacement
  | ObserveDelivery string timestamp string deliveryObservation "task \<Rightarrow> run \<Rightarrow> bool"
  | Report "fallbackAuthority option" timestamp timestamp string runResult "string option" string
      "deliveryBinding option" bool
  | FinishCredential "fallbackAuthority option" timestamp timestamp string string string
      "bool option" "nat option"
  | BeginCredential timestamp string string string credentialKind
  | ChangeCredential timestamp string string string credentialChange
  | RecordTriage timestamp string triagePatch
  | Reroute fallbackAuthority "string list option" timestamp string
  | Cancel string timestamp string "string option" "string option" "operationalIntervention option"
  | CancelUnclaimed timestamp string timestamp "string option" "trackerIssue option"
  | InvalidateSource string timestamp string sourceClock
  | ExecutorExited string timestamp string exitClaimant
  | SweepOne string timestamp string
  | Enqueue string timestamp
  | ClaimQueued "string list" claimInput
  | ReleaseClaim string string string timestamp "timestamp option"
  | ClaimOutbox "nat \<Rightarrow> string" nat timestamp timestamp "string list"
  | SettleOutbox outboxSettlement
  | WakeOutbox string timestamp
  | WriteTrackerIssue zodFormats trackerIssueProjection
  | ResolveSourceWorkId string string
  | BeginProjection taskId
  | ApplyProjection taskId nat "githubAnchorProjection option"

fun exec :: "command \<Rightarrow> memStore \<Rightarrow> memStore" where
  "exec (Request z now input) s = fst (request z now s input)"
| "exec (ConfirmDispatch uuid now runId) s = fst (orchConfirmDispatch uuid now s runId)"
| "exec (ObserveStartup uuid now runId c j obs placed) s =
     fst (orchObserveStartupPlacement uuid now s runId c j obs placed)"
| "exec (Renew uuid now runId fp started) s = fst (renew uuid now s runId fp started)"
| "exec (ObservePlacement uuid now runId c p) s = fst (orchObservePlacement uuid now s runId c p)"
| "exec (ObserveDelivery uuid now runId ob auth) s = fst (observeDelivery uuid now s runId ob auth)"
| "exec (Report a readNow now runId result fp cid dl pub) s =
     fst (report a readNow now s runId result fp cid dl pub)"
| "exec (FinishCredential a readNow now runId i fp restored at) s =
     fst (finishCredentialOperation a readNow now s runId i fp restored at)"
| "exec (BeginCredential now runId fp i k) s = fst (beginCredential now s runId fp i k)"
| "exec (ChangeCredential now runId i fp change) s = fst (changeCredential now s runId i fp change)"
| "exec (RecordTriage now runId patch) s = fst (recordTriagePublication now s runId patch)"
| "exec (Reroute a ep now runId) s = fst (rerouteOne a ep now s runId)"
| "exec (Cancel uuid now runId remark native i) s = fst (orchCancel uuid now s runId remark native i)"
| "exec (CancelUnclaimed now runId notAfter remark issue) s =
     fst (cancelUnclaimedBefore now s runId notAfter remark issue)"
| "exec (InvalidateSource uuid now runId obs) s = fst (invalidateSource uuid now s runId obs)"
| "exec (ExecutorExited uuid now runId c) s = fst (orchExecutorExited uuid now s runId c)"
| "exec (SweepOne uuid now runId) s = fst (sweepOne uuid now s runId)"
| "exec (Enqueue runId now) s = enqueueRun s runId now"
| "exec (ClaimQueued pipelines input) s = fst (storeClaimQueuedRun s pipelines input)"
| "exec (ReleaseClaim runId who token now until) s = fst (releaseQueuedRunClaim s runId who token now until)"
| "exec (ClaimOutbox uuid limit now until excluded) s = fst (claimPendingOutbox uuid s limit now until excluded)"
| "exec (SettleOutbox input) s = fst (settleOutbox s input)"
| "exec (WakeOutbox entryId now) s = fst (wakeOutbox s entryId now)"
| "exec (WriteTrackerIssue z p) s = (case writeTrackerIssue z s p of Inl _ \<Rightarrow> s | Inr s' \<Rightarrow> s')"
| "exec (ResolveSourceWorkId key candidate) s = fst (resolveSourceWorkId s key candidate)"
| "exec (BeginProjection anchor) s = fst (beginGithubAnchorProjectionRefresh s anchor)"
| "exec (ApplyProjection anchor generation p) s =
     fst (applyGithubAnchorProjectionRefresh s anchor generation p)"

text \<open>Requests reach the orchestrator with an anchor the schema accepts.\<close>

fun admissible :: "command \<Rightarrow> bool" where
  "admissible (Request z now input) = validTaskId (rq_taskId input)"
| "admissible _ = True"

lemma exec_keeps: "storeInv s \<Longrightarrow> admissible c \<Longrightarrow> keeps s (exec c s)"
  by (cases c)
    (simp_all add: request_keeps orchConfirmDispatch_def confirm.txn.op_keeps
      orchObserveStartupPlacement_def startup.txn.op_keeps renew_def heartbeat.txn.op_keeps
      orchObservePlacement_def placement.txn.op_keeps observeDelivery_def delivery.txn.op_keeps
      report_keeps finishOp.op_keeps beginOp.op_keeps changeOp.op_keeps triageOp.op_keeps
      rerouteOp.op_keeps orchCancel_def cancellation.txn.op_keeps cancelUnclaimedOp.op_keeps
      invalidateSource_def invalidation.txn.op_keeps orchExecutorExited_def exit.txn.op_keeps
      sweepOne_def expiry.txn.op_keeps enqueueOp.op_keeps claimOp.op_keeps releaseOp.op_keeps
      outboxClaimOp.op_keeps settleOp.op_keeps wakeOp.op_keeps trackerOp.op_keeps sourceOp.op_keeps
      refreshOp.op_keeps projectionOp.op_keeps)

subsection \<open>Executions\<close>

inductive steps :: "memStore \<Rightarrow> memStore \<Rightarrow> bool" where
  steps_refl: "steps s s"
| steps_exec: "steps s s1 \<Longrightarrow> admissible c \<Longrightarrow> steps s (exec c s1)"
| steps_close: "steps s s1 \<Longrightarrow> (\<And>x j. steps x (env j x)) \<Longrightarrow> validTaskId tid \<Longrightarrow>
    steps s (fst (close env now s1 tid))"
| steps_updateWork: "steps s s1 \<Longrightarrow> (\<And>x j. steps x (env j x)) \<Longrightarrow> validTaskId tid \<Longrightarrow>
    steps s (fst (updateWork env now s1 tid work))"
| steps_refreshIssue: "steps s s1 \<Longrightarrow> (\<And>x j. steps x (env j x)) \<Longrightarrow> validTaskId tid \<Longrightarrow>
    steps s (fst (refreshIssue z env now s1 tid issue))"

lemma steps_keeps: "steps s s' \<Longrightarrow> storeInv s \<Longrightarrow> keeps s s'"
proof (induction rule: steps.induct)
  case (steps_exec s s1 c)
  then show ?case using exec_keeps keeps_trans by (meson keeps_def)
next
  case (steps_close s s1 env tid now)
  then have "keeps s1 (fst (close env now s1 tid))"
    unfolding close_def by (intro closing.transact_keeps) (auto simp: keeps_def)
  with steps_close keeps_trans show ?case by blast
next
  case (steps_updateWork s s1 env tid now work)
  then have "keeps s1 (fst (updateWork env now s1 tid work))"
    unfolding updateWork_def by (intro working.transact_keeps) (auto simp: keeps_def)
  with steps_updateWork keeps_trans show ?case by blast
next
  case (steps_refreshIssue s s1 env tid z now issue)
  then have inv: "storeInv s1" by (simp add: keeps_def)
  then have "keeps s1 (fst (transact env s1 tid (\<lambda>vt _. decideRefreshIssue now issue vt)))"
    using steps_refreshIssue by (intro refreshing.transact_keeps) auto
  with inv have "keeps s1 (fst (refreshIssue z env now s1 tid issue))" by (simp add: refreshIssue_def)
  with steps_refreshIssue keeps_trans show ?case by blast
qed simp

lemma steps_trans: "steps b c \<Longrightarrow> steps a b \<Longrightarrow> steps a c"
  by (induction rule: steps.induct) (auto intro: steps.intros)

definition reachable :: "memStore \<Rightarrow> bool" where
  "reachable s \<longleftrightarrow> steps emptyStore s"

lemma reachable_inv: "reachable s \<Longrightarrow> storeInv s"
  using steps_keeps storeInv_empty by (auto simp: reachable_def keeps_def)

lemma reachable_steps: "reachable s \<Longrightarrow> steps s s' \<Longrightarrow> reachable s'"
  unfolding reachable_def using steps_trans by blast

lemma reachable_keeps: "reachable s \<Longrightarrow> steps s s' \<Longrightarrow> keeps s s'"
  using reachable_inv steps_keeps by blast

lemma reachable_run_paired:
  assumes "reachable s" and "r \<in> set (allRuns s)"
  obtains v where "readRun s (r_runId r) = Some r" "readTask s (r_task r) = Some v"
    "paired (vt_task v) r" "validTaskId (r_task r)"
proof -
  have inv: "storeInv s" using assms(1) by (rule reachable_inv)
  have "readRun s (r_runId r) = Some r" using stored_run [OF inv assms(2)] by (simp add: readRun_def)
  then show thesis using storeInv_run [OF inv] that by metis
qed

lemma paired_live: "paired t r \<Longrightarrow> isLive (r_state r) \<Longrightarrow> t_activeRunId t = Some (r_runId r)"
  by (simp add: paired_def)

lemma readRun_in_allRuns: "readRun s i = Some r \<Longrightarrow> r \<in> set (allRuns s)"
  unfolding readRun_def allRuns_def by (force dest: map_of_SomeD)

end
