(* ===== verification/Scenario.thy ===== *)
theory Scenario
  imports Execution
begin

text \<open>
  A concrete execution the witnesses of the whole-system properties evaluate: a native work item is
  requested, dispatched, queued, claimed and heard from, reports a failure, is requested again
  and that run is cancelled.
\<close>

definition execAll :: "command list \<Rightarrow> memStore \<Rightarrow> memStore" where
  "execAll cs s = foldl (\<lambda>x c. exec c x) s cs"

lemma execAll_steps: "list_all admissible cs \<Longrightarrow> steps s (execAll cs s)"
  unfolding execAll_def
proof (induction cs rule: rev_induct)
  case (snoc c cs)
  then show ?case by (simp add: steps_exec)
qed (simp add: steps_refl)

lemma execAll_append: "execAll (a @ b) s = execAll b (execAll a s)"
  by (simp add: execAll_def)

definition allFormats :: zodFormats where
  "allFormats = \<lparr>zf_url = (\<lambda>_. True), zf_uuid = (\<lambda>_. True), zf_datetime = (\<lambda>_. True)\<rparr>"

definition demoTask :: taskId where
  "demoTask = WorkAnchor ''01HZXW8K3M5N7P9Q2R4S6T8V0A''"

definition demoRequest :: "string \<Rightarrow> string \<Rightarrow> requestInput" where
  "demoRequest requestId pipeline =
     \<lparr>rq_taskId = demoTask, rq_requestId = requestId, rq_requestSource = None,
      rq_pipeline = pipeline, rq_priority = None, rq_params = None, rq_intervention = None,
      rq_work = Some (JObj []), rq_issue = None, rq_sourceRevision = None, rq_providerFallback = None,
      rq_providerFallbackForPipeline = None, rq_requestBinding = None,
      rq_replaceQueuedRunId = None, rq_labelProviderRequest = None,
      rq_pipelineForStoredTask = None, rq_useEffectivePipeline = False,
      rq_expectedEffectivePipeline = None, rq_isPipelineAuthorized = None,
      rq_isStoredWorkCompatible = None\<rparr>"

definition demoRunId :: "nat \<Rightarrow> string" where
  "demoRunId n = runIdFor demoTask n"

definition demoClaim :: claimInput where
  "demoClaim = \<lparr>ci_now = 4000, ci_claimedBy = ''runner'', ci_claimedBySubject = ''subject'',
                ci_tokenHash = ''hash'', ci_placementAware = False\<rparr>"

definition demoResult :: runResult where
  "demoResult = \<lparr>rr_ok = False, rr_summary = Some ''error'', rr_ref = None, rr_relatedRefs = None,
                 rr_message = None, rr_humanNeededActions = None\<rparr>"

definition demoStart :: "command list" where
  "demoStart =
     [Request allFormats 1000 (demoRequest ''a'' ''claude''),
      ConfirmDispatch ''u1'' 2000 (demoRunId 1),
      Enqueue (demoRunId 1) 3000,
      ClaimQueued [''claude''] demoClaim,
      Renew ''u2'' 5000 (demoRunId 1) (Some ''hash'') True]"

definition demoEnd :: "command list" where
  "demoEnd =
     [Report None 6000 6000 (demoRunId 1) demoResult (Some ''hash'') ''u3'' None False,
      Request allFormats 7000 (demoRequest ''b'' ''claude'')]"

definition demoRunning :: memStore where
  "demoRunning = execAll demoStart emptyStore"

definition demoSecond :: memStore where
  "demoSecond = execAll demoEnd demoRunning"

definition demoStored :: "memStore \<Rightarrow> nat \<Rightarrow> run" where
  "demoStored s n = (case readRun s (demoRunId n) of Some r \<Rightarrow> r | None \<Rightarrow> hd (allRuns s))"

lemma demo_admissible: "list_all admissible demoStart" "list_all admissible demoEnd"
  by code_simp+

lemma demoRunning_reachable: "reachable demoRunning"
  using execAll_steps [OF demo_admissible(1)] by (simp add: reachable_def demoRunning_def)

lemma demo_steps: "steps demoRunning demoSecond"
  using execAll_steps [OF demo_admissible(2)] by (simp add: demoSecond_def)

lemma demoSecond_reachable: "reachable demoSecond"
  by (rule reachable_steps [OF demoRunning_reachable demo_steps])

lemma demo_states:
  "map (\<lambda>r. (r_runId r, r_state r)) (allRuns demoRunning) = [(demoRunId 1, Running)]"
  "map (\<lambda>r. (r_runId r, r_state r)) (allRuns demoSecond) = [(demoRunId 1, Finished), (demoRunId 2, Pending)]"
  by code_simp+

lemma demo_reads:
  "readRun demoRunning (demoRunId 1) = Some (demoStored demoRunning 1)"
  "readRun demoSecond (demoRunId 1) = Some (demoStored demoSecond 1)"
  "readRun demoSecond (demoRunId 2) = Some (demoStored demoSecond 2)"
  by (simp_all add: demoStored_def) (code_simp)+

subsection \<open>Further scenarios\<close>

text \<open>A Codex run that is claimed, reserves a credential operation and reports while it is
  outstanding; and an item that is closed once its second run is cancelled.\<close>

definition demoCodex :: memStore where
  "demoCodex = execAll
     [Request allFormats 1000 (demoRequest ''a'' ''codex''),
      ConfirmDispatch ''u1'' 2000 (demoRunId 1),
      Enqueue (demoRunId 1) 3000,
      ClaimQueued [''codex''] demoClaim,
      BeginCredential 5000 (demoRunId 1) ''hash'' ''op'' CredPersist,
      Report None 6000 6000 (demoRunId 1) demoResult (Some ''hash'') ''u3'' None False] emptyStore"

definition demoFinish :: command where
  "demoFinish = FinishCredential None 7000 7000 (demoRunId 1) ''op'' ''hash'' None (Some 0)"

definition demoIdle :: memStore where
  "demoIdle = exec (Cancel ''u4'' 8000 (demoRunId 2) None None None) demoSecond"

definition demoClosed :: memStore where
  "demoClosed = fst (close (\<lambda>_ x. x) 9000 demoIdle demoTask)"

lemma demoCodex_reachable: "reachable demoCodex"
  unfolding demoCodex_def reachable_def by (rule execAll_steps) code_simp

lemma demoClosed_reachable: "reachable demoClosed"
proof -
  have "steps demoSecond demoIdle" unfolding demoIdle_def
    by (rule steps_exec [OF steps_refl]) simp
  then have "steps demoSecond demoClosed" unfolding demoClosed_def
    by (rule steps_close) (rule steps_refl, code_simp)
  then show ?thesis by (rule reachable_steps [OF demoSecond_reachable])
qed

lemma demoIdle_reachable: "reachable demoIdle"
  unfolding demoIdle_def by (rule reachable_steps [OF demoSecond_reachable steps_exec [OF steps_refl]]) simp

end
