(* ===== verification/Outbox_Guarantees.thy ===== *)
theory Outbox_Guarantees
  imports Scenario
begin

text \<open>
  What the outbox of a reachable store guarantees the drains that share it: one holder per lease,
  settlement under the holder's claim only, no starvation, and that repeated claims reach every
  entry that is due.
\<close>

lemma reachable_entriesKeyed: "reachable s \<Longrightarrow> entriesKeyed (ms_outbox s)"
  by (rule storeInvD(6) [OF reachable_inv])

lemma leased_not_selected:
  assumes "entriesKeyed (ms_outbox s)" and "map_of (ms_outbox s) k = Some e"
    and "o_state e = OutLeased c until" and "now < until"
  shows "k \<notin> set (map o_entryId (outboxSelected s limit now excluded))"
proof
  assume "k \<in> set (map o_entryId (outboxSelected s limit now excluded))"
  from selected_entry [OF assms(1) this] assms(2-4) show False
    by (auto simp: leaseExpired_def outboxDue_def)
qed

lemma not_claimed_same:
  assumes "entriesKeyed (ms_outbox s)" and "claimPendingOutbox uuid s limit now exp excluded = (s', claimed)"
    and "k \<notin> set (map o_entryId claimed)"
  shows "map_of (ms_outbox s') k = map_of (ms_outbox s) k"
proof -
  from assms(3) have "find (\<lambda>e. o_entryId e = k) claimed = None" by (auto simp: find_None_iff)
  with claim_get(1) [OF assms(1,2), of k] show ?thesis by simp
qed

lemma claimed_nth:
  assumes "entriesKeyed (ms_outbox s)" and "claimPendingOutbox uuid s limit now exp excluded = (s', claimed)"
    and "i < length claimed"
  shows "length claimed = length (outboxSelected s limit now excluded)"
    and "claimed ! i = leaseEntry now exp (uuid i) (outboxSelected s limit now excluded ! i)"
    and "map_of (ms_outbox s') (o_entryId (claimed ! i)) = Some (claimed ! i)"
proof -
  from assms(2) have c: "claimed = map (\<lambda>(i, e). leaseEntry now exp (uuid i) e)
      (enumerate 0 (outboxSelected s limit now excluded))" by (simp add: claim_unfold Let_def)
  then show "length claimed = length (outboxSelected s limit now excluded)" by simp
  with c assms(3) show "claimed ! i = leaseEntry now exp (uuid i) (outboxSelected s limit now excluded ! i)"
    by (simp add: nth_enumerate_eq)
  have d: "distinct (map o_entryId claimed)"
    unfolding claim_get(2) [OF assms(1,2)] by (rule selected_distinct [OF assms(1)])
  from assms(3) have "find (\<lambda>x. o_entryId x = o_entryId (claimed ! i)) claimed = Some (claimed ! i)"
    by (intro find_distinct [OF d]) simp
  with claim_get(1) [OF assms(1,2), of "o_entryId (claimed ! i)"]
  show "map_of (ms_outbox s') (o_entryId (claimed ! i)) = Some (claimed ! i)" by simp
qed

subsection \<open>Leases\<close>

text \<open>The drain of the scenario: one entry is leased until instant 9000.\<close>

definition demoLeased :: memStore where
  "demoLeased = exec (ClaimOutbox (\<lambda>_. ''claim'') 1 8000 9000 []) demoSecond"

definition demoEntry :: "string \<Rightarrow> nat \<Rightarrow> string" where
  "demoEntry kind n = kind @ ''/'' @ demoRunId n"

lemma demoLeased_reachable: "reachable demoLeased"
  unfolding demoLeased_def
  by (rule reachable_steps [OF demoSecond_reachable]) (rule steps_exec [OF steps_refl], simp)

text \<open>C6: an unexpired lease excludes every other drain. While an entry of a reachable store is
  leased, a claim neither returns it nor changes it.\<close>

theorem outbox_lease_exclusive:
  assumes "reachable s" and "claimPendingOutbox uuid s limit now exp excluded = (s', claimed)"
    and "map_of (ms_outbox s) k = Some e" and "o_state e = OutLeased c until" and "now < until"
  shows "k \<notin> set (map o_entryId claimed) \<and> map_of (ms_outbox s') k = Some e"
proof -
  note keyed = reachable_entriesKeyed [OF assms(1)]
  have "k \<notin> set (map o_entryId claimed)"
    unfolding claim_get(2) [OF keyed assms(2)] by (rule leased_not_selected [OF keyed assms(3-5)])
  with not_claimed_same [OF keyed assms(2)] assms(3) show ?thesis by simp
qed

theorem outbox_lease_exclusive_witness:
  "demoEntry ''dispatch'' 1 \<notin>
     set (map o_entryId (snd (claimPendingOutbox (\<lambda>_. ''other'') demoLeased 10 8500 9500 [])))"
proof -
  have "map_option o_state (map_of (ms_outbox demoLeased) (demoEntry ''dispatch'' 1)) = Some (OutLeased ''claim'' 9000)"
    by code_simp
  then obtain e where "map_of (ms_outbox demoLeased) (demoEntry ''dispatch'' 1) = Some e"
    "o_state e = OutLeased ''claim'' 9000" by blast
  with outbox_lease_exclusive [OF demoLeased_reachable surjective_pairing, of _ e] show ?thesis by simp
qed

text \<open>What a claim hands out. From a reachable store a claim returns at most the requested
  number of distinct entries; each was due or had outlived its lease, and is stored leased to
  this claim until the requested instant with one more attempt.\<close>

lemma outbox_claim_leases:
  assumes "reachable s" and "claimPendingOutbox uuid s limit now exp excluded = (s', claimed)"
    and "i < length claimed"
  shows "length claimed \<le> limit \<and> distinct (map o_entryId claimed) \<and>
    (\<exists>old. map_of (ms_outbox s) (o_entryId (claimed ! i)) = Some old \<and>
       (leaseExpired now old \<or> outboxDue now excluded old) \<and>
       o_attempts (claimed ! i) = o_attempts old + 1) \<and>
    o_state (claimed ! i) = OutLeased (uuid i) exp \<and>
    map_of (ms_outbox s') (o_entryId (claimed ! i)) = Some (claimed ! i)"
proof -
  note keyed = reachable_entriesKeyed [OF assms(1)]
  note n = claimed_nth [OF keyed assms(2,3)]
  let ?sel = "outboxSelected s limit now excluded"
  have "?sel ! i \<in> set ?sel" using n(1) assms(3) by simp
  then have "?sel ! i \<in> set (outboxEligible s now excluded)"
    by (auto simp: outboxSelected_def dest: in_set_takeD)
  then have "map_of (ms_outbox s) (o_entryId (?sel ! i)) = Some (?sel ! i) \<and>
      (leaseExpired now (?sel ! i) \<or> outboxDue now excluded (?sel ! i))"
    using entriesKeyedD(3) [OF keyed, of "?sel ! i"] by (auto simp: outboxEligible_set)
  moreover have "length claimed \<le> limit" using n(1) by (simp add: outboxSelected_def)
  moreover have "distinct (map o_entryId claimed)"
    unfolding claim_get(2) [OF keyed assms(2)] by (rule selected_distinct [OF keyed])
  ultimately show ?thesis using n(2,3) by (simp add: leaseEntry_def)
qed

lemma selected_fair:
  assumes due: "e \<in> set (map snd (ms_outbox s))" "outboxDue now excluded e"
    and out: "e \<notin> set (outboxSelected s limit now excluded)"
    and e': "e' \<in> set (outboxSelected s limit now excluded)" "o_state e' = OutPending"
  shows "\<not> claimFairer e e'"
proof -
  let ?due = "sortBy claimFairer (filter (outboxDue now excluded) (map snd (ms_outbox s)))"
  let ?exp = "filter (leaseExpired now) (map snd (ms_outbox s))"
  let ?n = "limit - length ?exp"
  have sel: "outboxSelected s limit now excluded = take limit ?exp @ take ?n ?due"
    unfolding outboxSelected_def outboxEligible_def Let_def by (rule take_append)
  have "e' \<notin> set ?exp" using e'(2) by (auto simp: leaseExpired_def)
  with e'(1) sel have "e' \<in> set (take ?n ?due)" by (auto dest: in_set_takeD)
  moreover have "e \<in> set (drop ?n ?due)"
  proof -
    have "e \<in> set ?due" using due by simp
    then have "e \<in> set (take ?n ?due) \<union> set (drop ?n ?due)" by (metis append_take_drop_id set_append)
    with out sel show ?thesis by auto
  qed
  moreover have "sorted_wrt (\<lambda>a b. \<not> claimFairer b a) (take ?n ?due @ drop ?n ?due)"
    using claim_order.sorted_sortBy by simp
  ultimately show ?thesis unfolding sorted_wrt_append by blast
qed

lemma selected_stored:
  assumes "entriesKeyed (ms_outbox s)" and "x \<in> set (outboxSelected s limit now excluded)"
  shows "map_of (ms_outbox s) (o_entryId x) = Some x"
  using assms(2) entriesKeyedD(3) [OF assms(1), of x]
  by (auto simp: outboxSelected_def outboxEligible_set dest!: in_set_takeD)

text \<open>C7: no starvation. A due entry is left out of a claim only when the claim is full, and then
  every pending entry it took is at least as entitled: fewer attempts, or as many and not
  created later.\<close>

theorem outbox_claim_fair:
  assumes "reachable s" and "claimPendingOutbox uuid s limit now exp excluded = (s', claimed)"
    and "map_of (ms_outbox s) k = Some e" and "outboxDue now excluded e"
    and "k \<notin> set (map o_entryId claimed)"
  shows "length claimed = limit \<and>
    (\<forall>e'. map_of (ms_outbox s) (o_entryId e') = Some e' \<and> o_state e' = OutPending \<and>
       o_entryId e' \<in> set (map o_entryId claimed) \<longrightarrow>
       o_attempts e' < o_attempts e \<or> (o_attempts e' = o_attempts e \<and> o_createdAt e' \<le> o_createdAt e))"
proof -
  note keyed = reachable_entriesKeyed [OF assms(1)]
  let ?sel = "outboxSelected s limit now excluded"
  have ids: "set (map o_entryId claimed) = o_entryId ` set ?sel"
    using arg_cong [OF claim_get(2) [OF keyed assms(2)], of set] by simp
  have id: "o_entryId e = k" using entriesKeyedD(2) [OF keyed assms(3)] .
  have stored: "e \<in> set (map snd (ms_outbox s))"
    using entriesKeyedD(3) [OF keyed, of e] assms(3) id by simp
  have out: "e \<notin> set ?sel" using assms(5) id unfolding ids by blast
  moreover have "e \<in> set (outboxEligible s now excluded)"
    using stored assms(4) by (simp add: outboxEligible_set)
  ultimately have "limit < length (outboxEligible s now excluded)"
    by (metis linorder_not_le outboxSelected_def take_all)
  moreover have "length claimed = length ?sel"
    using arg_cong [OF claim_get(2) [OF keyed assms(2)], of length] by simp
  ultimately have len: "length claimed = limit" by (simp add: outboxSelected_def)
  have "o_attempts e' < o_attempts e \<or> (o_attempts e' = o_attempts e \<and> o_createdAt e' \<le> o_createdAt e)"
    if e': "map_of (ms_outbox s) (o_entryId e') = Some e'" "o_state e' = OutPending"
      "o_entryId e' \<in> set (map o_entryId claimed)" for e'
  proof -
    from e'(3) obtain x where x: "x \<in> set ?sel" "o_entryId x = o_entryId e'" unfolding ids by force
    have "Some x = Some e'" using selected_stored [OF keyed x(1)] e'(1) unfolding x(2) by (rule subst)
    then have "x = e'" by (rule option.inject [THEN iffD1])
    with selected_fair [OF stored assms(4) out x(1)] e'(2) show ?thesis
      by (auto simp: claimFairer_def byOutboxClaimFairness_def Let_def split: if_splits)
  qed
  with len show ?thesis by blast
qed

theorem outbox_claim_fair_witness:
  "length (snd (claimPendingOutbox (\<lambda>_. ''claim'') demoSecond 1 8000 9000 [])) = 1"
proof -
  let ?c = "claimPendingOutbox (\<lambda>_. ''claim'') demoSecond 1 8000 9000 []"
  have "map_option (outboxDue 8000 []) (map_of (ms_outbox demoSecond) (demoEntry ''outcome'' 1)) = Some True"
    and "demoEntry ''outcome'' 1 \<notin> set (map o_entryId (snd ?c))" by code_simp+
  then obtain e where "map_of (ms_outbox demoSecond) (demoEntry ''outcome'' 1) = Some e" "outboxDue 8000 [] e"
    by blast
  with outbox_claim_fair [OF demoSecond_reachable surjective_pairing, of _ e] \<open>_ \<notin> _\<close> show ?thesis by blast
qed

text \<open>Settlement is fenced by the claim. It succeeds exactly when the entry is leased under the
  claim it names; then the entry takes the requested state, and in no case is any other entry
  touched. A refused settlement changes nothing.\<close>

lemma outbox_settle_fenced:
  "(snd (settleOutbox s input) \<longleftrightarrow>
      (\<exists>e until. map_of (ms_outbox s) (os_entryId input) = Some e \<and>
                 o_state e = OutLeased (os_claimId input) until)) \<and>
   (if snd (settleOutbox s input)
    then map_option o_state (map_of (ms_outbox (fst (settleOutbox s input))) (os_entryId input))
           = Some (toOutboxState (os_state input))
    else fst (settleOutbox s input) = s) \<and>
   (\<forall>k. k = os_entryId input \<or> map_of (ms_outbox (fst (settleOutbox s input))) k = map_of (ms_outbox s) k)"
proof (cases "map_of (ms_outbox s) (os_entryId input)")
  case None
  then show ?thesis by (simp add: settleOutbox_def settleOutboxEntry_def)
next
  case (Some e)
  then show ?thesis
    by (cases "o_state e") (auto simp: settleOutbox_def settleOutboxEntry_def Let_def js.get_put)
qed

subsection \<open>Draining\<close>

text \<open>Successive claims of a drain that hands nothing back meanwhile.\<close>

fun claimRounds ::
  "(nat \<Rightarrow> nat \<Rightarrow> string) \<Rightarrow> nat \<Rightarrow> timestamp \<Rightarrow> timestamp \<Rightarrow> string list \<Rightarrow> nat \<Rightarrow> memStore \<Rightarrow> memStore"
where
  "claimRounds uuid limit now exp excluded 0 s = s"
| "claimRounds uuid limit now exp excluded (Suc n) s =
     claimRounds uuid limit now exp excluded n (fst (claimPendingOutbox (uuid n) s limit now exp excluded))"

lemma claim_keyed:
  "entriesKeyed (ms_outbox s) \<Longrightarrow> entriesKeyed (ms_outbox (fst (claimPendingOutbox uuid s limit now exp excluded)))"
  by (simp add: claim_unfold Let_def entriesKeyed_writes)

lemma claimed_stored_cases:
  assumes keyed: "entriesKeyed (ms_outbox s)"
    and c: "claimPendingOutbox uuid s limit now exp excluded = (s', claimed)"
    and e: "e \<in> set (map snd (ms_outbox s'))"
  shows "e \<in> set claimed \<or> (e \<in> set (map snd (ms_outbox s)) \<and> e \<notin> set (outboxSelected s limit now excluded))"
proof -
  have keyed': "entriesKeyed (ms_outbox s')" using claim_keyed [OF keyed, of uuid limit now exp excluded] c by simp
  from e have stored: "map_of (ms_outbox s') (o_entryId e) = Some e" using entriesKeyedD(3) [OF keyed'] by blast
  show ?thesis
  proof (cases "o_entryId e \<in> set (map o_entryId claimed)")
    case True
    then obtain i where i: "i < length claimed" "o_entryId (claimed ! i) = o_entryId e"
      by (auto simp: in_set_conv_nth)
    have "Some (claimed ! i) = Some e" using claimed_nth(3) [OF keyed c i(1)] stored unfolding i(2) by (rule subst)
    then have "claimed ! i = e" by (rule option.inject [THEN iffD1])
    with i(1) show ?thesis using nth_mem by blast
  next
    case False
    with not_claimed_same [OF keyed c] stored have "map_of (ms_outbox s) (o_entryId e) = Some e" by simp
    moreover from False have "e \<notin> set (outboxSelected s limit now excluded)"
      unfolding claim_get(2) [OF keyed c] by auto
    ultimately show ?thesis using entriesKeyedD(3) [OF keyed, of e] by blast
  qed
qed

lemma claim_shrinks:
  assumes keyed: "entriesKeyed (ms_outbox s)" and "now < exp"
  shows "length (outboxEligible (fst (claimPendingOutbox uuid s limit now exp excluded)) now excluded)
    \<le> length (outboxEligible s now excluded) - limit"
proof -
  obtain s' claimed where c: "claimPendingOutbox uuid s limit now exp excluded = (s', claimed)" by fastforce
  let ?el = "outboxEligible s now excluded"
  have fresh: "\<not> leaseExpired now e \<and> \<not> outboxDue now excluded e" if "e \<in> set claimed" for e
  proof -
    from that obtain i where "i < length claimed" "e = claimed ! i" by (auto simp: in_set_conv_nth)
    with claimed_nth(2) [OF keyed c] assms(2) show ?thesis
      by (auto simp: leaseEntry_def leaseExpired_def outboxDue_def)
  qed
  have sub: "set (outboxEligible s' now excluded) \<subseteq> set (drop limit ?el)"
  proof
    fix e assume "e \<in> set (outboxEligible s' now excluded)"
    then have e: "e \<in> set (map snd (ms_outbox s'))" "leaseExpired now e \<or> outboxDue now excluded e"
      unfolding outboxEligible_set by blast+
    with claimed_stored_cases [OF keyed c e(1)] fresh
    have "e \<in> set ?el" "e \<notin> set (take limit ?el)" by (auto simp: outboxEligible_set outboxSelected_def)
    then show "e \<in> set (drop limit ?el)" by (metis Un_iff append_take_drop_id set_append)
  qed
  have "entriesKeyed (ms_outbox s')" using claim_keyed [OF keyed, of uuid limit now exp excluded] c by simp
  then have "distinct (outboxEligible s' now excluded)" using outboxEligible_distinct distinct_map by blast
  then have "length (outboxEligible s' now excluded) = card (set (outboxEligible s' now excluded))"
    by (simp add: distinct_card)
  also have "\<dots> \<le> length (drop limit ?el)" using card_mono [OF _ sub] card_length le_trans by blast
  finally show ?thesis using c by simp
qed

text \<open>Draining reaches everything. Whatever a reachable store holds, as many claims of size
  \<open>limit\<close> as its eligible entries need leave none that is due or expired: each has been
  leased.\<close>

lemma outbox_drained:
  assumes "reachable s" and "now < exp" and "length (outboxEligible s now excluded) \<le> n * limit"
  shows "outboxEligible (claimRounds uuid limit now exp excluded n s) now excluded = []"
proof -
  have "entriesKeyed (ms_outbox s) \<Longrightarrow> length (outboxEligible s now excluded) \<le> n * limit \<Longrightarrow>
      outboxEligible (claimRounds uuid limit now exp excluded n s) now excluded = []"
  proof (induction n arbitrary: s)
    case (Suc n)
    let ?s' = "fst (claimPendingOutbox (uuid n) s limit now exp excluded)"
    have "length (outboxEligible ?s' now excluded) \<le> n * limit"
      using claim_shrinks [OF Suc.prems(1) assms(2), of "uuid n" limit excluded] Suc.prems(2) by simp
    with Suc.IH [OF claim_keyed [OF Suc.prems(1)]] show ?case by simp
  qed simp
  with reachable_entriesKeyed [OF assms(1)] assms(3) show ?thesis by blast
qed

end
