(* ===== verification/Queue_Fairness.thy ===== *)
theory Queue_Fairness
  imports Memory_Store
begin

text \<open>
  The selection functions of \<^verbatim>\<open>store.ts\<close>: a claim serves the class of the first turn, from
  the provider's cursor on, that has a run waiting, and moves the cursor past that turn; the provider chosen is a least occupied one among those a
  claim may use, and within its class the oldest run wins.
\<close>

subsection \<open>Class turns\<close>

lemma length_turns [simp]: "length QUEUE_PRIORITY_TURNS = 7"
  by (simp add: QUEUE_PRIORITY_TURNS_def)

lemma turnAt_mod [simp]: "turnAt (n mod 7 + k) = turnAt (n + k)" "turnAt (n mod 7) = turnAt n"
  by (simp_all add: turnAt_def mod_add_left_eq)

lemma turnAt_values:
  "n mod 7 = 0 \<Longrightarrow> turnAt n = Urgent" "n mod 7 = 2 \<Longrightarrow> turnAt n = Normal" "n mod 7 = 6 \<Longrightarrow> turnAt n = Background"
  by (simp_all add: turnAt_def QUEUE_PRIORITY_TURNS_def)

lemma turn_within_cycle: "\<exists>d < 7. turnAt (p + d) = c"
proof -
  have pos: "\<exists>d < 7. (p + d) mod 7 = m" if "m < 7" for m
  proof -
    have "(p + (m + 6 * p) mod 7) mod 7 = m" using that by presburger
    then show ?thesis by (intro exI [where x = "(m + 6 * p) mod 7"]) simp
  qed
  show ?thesis
    by (cases c) (use pos [of 0] pos [of 2] pos [of 6] turnAt_values in \<open>force+\<close>)
qed

lemma turnAfterFrom_Some:
  "turnAfterFrom n p c = Some x \<longleftrightarrow>
     (\<exists>k < n. (\<forall>j < k. turnAt (p + j) \<noteq> c) \<and> turnAt (p + k) = c \<and> x = (p + k + 1) mod 7)"
  by (induction n arbitrary: p)
    (auto simp: Ex_less_Suc2 All_less_Suc2 Let_def turnAt_def mod_Suc_eq)

lemma turnAfter_total: "queuePriorityTurnAfter p c \<noteq> None"
proof -
  from turn_within_cycle obtain d where d: "d < 7" "turnAt (p + d) = c" by blast
  let ?k = "LEAST k. turnAt (p + k) = c"
  have "turnAt (p + ?k) = c" using d(2) by (rule LeastI)
  moreover have "?k \<le> d" using d(2) by (rule Least_le)
  moreover have "\<forall>j < ?k. turnAt (p + j) \<noteq> c" using not_less_Least by blast
  ultimately have "turnAfterFrom 7 p c = Some ((p + ?k + 1) mod 7)"
    unfolding turnAfterFrom_Some using d(1) by (intro exI [where x = ?k]) simp
  then show ?thesis by (simp add: queuePriorityTurnAfter_def)
qed

lemma selectFromTurns_Some:
  "selectFromTurns n p runs = Some r \<longleftrightarrow>
     (\<exists>k < n. (\<forall>j < k. find (\<lambda>x. priorityOf x = turnAt (p + j)) runs = None) \<and>
              find (\<lambda>x. priorityOf x = turnAt (p + k)) runs = Some r)"
  by (induction n arbitrary: p) (auto simp: Ex_less_Suc2 All_less_Suc2 split: option.split)

text \<open>One claim of the class turn: the run it serves has the class of the turn it stops at, no
  earlier turn has a waiting class, and the cursor moves just past it.\<close>

lemma class_turn:
  assumes "selectPriorityQueuedRun runs p = Some r"
  obtains k where "k < 7" "priorityOf r = turnAt (p + k)" "r \<in> set runs"
    "\<forall>j < k. \<forall>x \<in> set runs. priorityOf x \<noteq> turnAt (p + j)"
    "queuePriorityTurnAfter p (priorityOf r) = Some ((p + k + 1) mod 7)"
proof -
  from assms obtain k where k: "k < 7" "\<forall>j < k. \<forall>x \<in> set runs. priorityOf x \<noteq> turnAt (p + j)"
    "find (\<lambda>x. priorityOf x = turnAt (p + k)) runs = Some r"
    by (auto simp: selectPriorityQueuedRun_def selectFromTurns_Some find_None_iff)
  from k(3) have r: "r \<in> set runs" "priorityOf r = turnAt (p + k)" by (auto simp: find_Some_iff)
  then have "turnAfterFrom 7 p (priorityOf r) = Some ((p + k + 1) mod 7)"
    unfolding turnAfterFrom_Some using k by (intro exI [where x = k]) auto
  with k r that show thesis by (simp add: queuePriorityTurnAfter_def)
qed

lemma class_turn_exists: "runs \<noteq> [] \<Longrightarrow> \<exists>r. selectPriorityQueuedRun runs p = Some r"
proof -
  assume "runs \<noteq> []"
  then obtain x where x: "x \<in> set runs" by (cases runs) auto
  obtain d where d: "d < 7" "turnAt (p + d) = priorityOf x" using turn_within_cycle by blast
  let ?P = "\<lambda>k. \<exists>x \<in> set runs. priorityOf x = turnAt (p + k)"
  let ?k = "LEAST k. ?P k"
  have P: "?P d" using x d by metis
  then have "?P ?k" by (rule LeastI)
  then obtain r where "find (\<lambda>x. priorityOf x = turnAt (p + ?k)) runs = Some r"
    by (metis (mono_tags, lifting) find_None_iff option.exhaust)
  moreover have "?k \<le> d" using P by (rule Least_le)
  moreover have "\<forall>j < ?k. \<forall>x \<in> set runs. priorityOf x \<noteq> turnAt (p + j)" using not_less_Least by blast
  ultimately show ?thesis
    unfolding selectPriorityQueuedRun_def selectFromTurns_Some length_turns find_None_iff using d(1) by (meson le_less_trans)
qed

subsection \<open>Providers\<close>

lemma strLess_negtrans: "strLess x z \<Longrightarrow> strLess x y \<or> strLess y z"
  by (metis strLess_total strLess_trans)

interpretation fifo_order: strict_weak_order fifoLess
proof
  show "fifoLess x y \<Longrightarrow> \<not> fifoLess y x" for x y
    by (auto simp: fifoLess_def dest: strLess_trans)
  show "fifoLess x z \<Longrightarrow> fifoLess x y \<or> fifoLess y z" for x y z
    using strLess_negtrans by (auto simp: fifoLess_def)
qed

interpretation head_order: strict_weak_order "headLess occupancy order" for occupancy order
proof
  show "headLess occupancy order x y \<Longrightarrow> \<not> headLess occupancy order y x" for x y
    by (auto simp: headLess_def Let_def dest: strLess_trans)
  show "headLess occupancy order x z \<Longrightarrow> headLess occupancy order x y \<or> headLess occupancy order y z" for x y z
    using strLess_negtrans by (auto simp: headLess_def Let_def)
qed

text \<open>The loop over the candidates keeps, per provider, a run of that provider no candidate
  precedes.\<close>

definition headsOf :: "run list \<Rightarrow> (string \<times> run) list \<Rightarrow> bool" where
  "headsOf cs heads \<longleftrightarrow>
     keysDistinct heads \<and>
     (\<forall>p h. map_of heads p = Some h \<longrightarrow> h \<in> set cs \<and> r_pipeline h = p) \<and>
     (\<forall>c \<in> set cs. \<exists>h. map_of heads (r_pipeline c) = Some h \<and> \<not> fifoLess c h)"

lemma pushHead_headsOf: "headsOf cs heads \<Longrightarrow> headsOf (cs @ [r]) (pushHead heads r)"
proof -
  assume h: "headsOf cs heads"
  show ?thesis
  proof (cases "\<exists>cur. map_of heads (r_pipeline r) = Some cur \<and> \<not> fifoLess r cur")
    case True
    with h show ?thesis by (auto simp: headsOf_def pushHead_def)
  next
    case False
    then have push: "pushHead heads r = AList.update (r_pipeline r) r heads"
      by (auto simp: pushHead_def split: option.split)
    have "\<exists>x. map_of (pushHead heads r) (r_pipeline c) = Some x \<and> \<not> fifoLess c x" if c: "c \<in> set (cs @ [r])" for c
    proof (cases "r_pipeline c = r_pipeline r")
      case True
      have "\<not> fifoLess c r"
      proof (cases "c = r")
        case False
        with c h obtain x where x: "map_of heads (r_pipeline c) = Some x" "\<not> fifoLess c x" by (auto simp: headsOf_def)
        with \<open>\<not> (\<exists>cur. _ cur)\<close> True have "fifoLess r x" by auto
        with x(2) show ?thesis using fifo_order.lt_negtrans [of r x c] fifo_order.lt_asym by blast
      qed (simp add: fifo_order.lt_irrefl)
      with True show ?thesis by (simp add: push js.get_put)
    next
      case False
      with c h show ?thesis by (auto simp: push js.get_put headsOf_def)
    qed
    with h show ?thesis by (auto simp: headsOf_def push js.get_put js.invar_put split: if_splits)
  qed
qed

lemma queueHeads_headsOf: "headsOf cs (queueHeads cs)"
  by (induction cs rule: rev_induct)
    (simp_all add: queueHeads_def pushHead_headsOf, simp add: headsOf_def)

lemma find_sorted_minimal:
  assumes "sorted_wrt (\<lambda>a b. \<not> fifoLess b a) ys" and "find P ys = Some r" and "x \<in> set ys" and "P x"
  shows "\<not> fifoLess x r"
  using assms by (induction ys) (auto simp: fifo_order.lt_irrefl split: if_splits)

text \<open>The candidates of a selection, and those whose provider has room.\<close>

definition queueCandidates :: "run list \<Rightarrow> string list \<Rightarrow> timestamp option \<Rightarrow> run list" where
  "queueCandidates queued pipelines now =
     filter (\<lambda>r. isQueueAdmissionCandidate r now \<and> r_pipeline r \<in> set (uniq pipelines)) queued"

definition openHeads :: "run list \<Rightarrow> run list \<Rightarrow> run list" where
  "openHeads live cs =
     filter (\<lambda>h. belowCeiling (r_pipeline h) (liveClaims (r_pipeline h) live)) (map snd (queueHeads cs))"

lemma selectFairQueuedRun_unfold:
  "selectFairQueuedRun queued live pipelines now positions =
     (case sortBy (headLess (\<lambda>p. liveClaims p live) (uniq pipelines))
             (openHeads live (queueCandidates queued pipelines now)) of
        [] \<Rightarrow> None
      | provider # _ \<Rightarrow>
          selectPriorityQueuedRun
            (sortBy fifoLess (filter (\<lambda>r. r_pipeline r = r_pipeline provider) (queueCandidates queued pipelines now)))
            (orElse (map_of positions (r_pipeline provider)) 0))"
  unfolding selectFairQueuedRun_def openHeads_def queueCandidates_def Let_def by (rule refl)

lemma openHeads_cover:
  assumes "c \<in> set cs" and "belowCeiling (r_pipeline c) (liveClaims (r_pipeline c) live)"
  obtains h where "h \<in> set (openHeads live cs)" "r_pipeline h = r_pipeline c"
proof -
  note q = queueHeads_headsOf [of cs]
  from q assms(1) obtain h where h: "map_of (queueHeads cs) (r_pipeline c) = Some h"
    by (auto simp: headsOf_def)
  with q have "r_pipeline h = r_pipeline c" "h \<in> set (map snd (queueHeads cs))"
    using js.items_get [of "queueHeads cs" h] by (auto simp: headsOf_def)
  with assms(2) that show thesis by (simp add: openHeads_def)
qed

lemma openHeads_in:
  assumes "h \<in> set (openHeads live cs)"
  shows "h \<in> set cs" and "belowCeiling (r_pipeline h) (liveClaims (r_pipeline h) live)"
proof -
  note q = queueHeads_headsOf [of cs]
  from assms have "h \<in> set (map snd (queueHeads cs))" by (simp add: openHeads_def)
  with q obtain p where "map_of (queueHeads cs) p = Some h"
    using js.items_get [of "queueHeads cs" h] by (auto simp: headsOf_def)
  with q show "h \<in> set cs" by (auto simp: headsOf_def)
  from assms show "belowCeiling (r_pipeline h) (liveClaims (r_pipeline h) live)" by (simp add: openHeads_def)
qed

lemma selectFair_none:
  assumes "selectFairQueuedRun queued live pipelines now positions = None"
    and "c \<in> set (queueCandidates queued pipelines now)"
  shows "\<not> belowCeiling (r_pipeline c) (liveClaims (r_pipeline c) live)"
proof
  let ?cs = "queueCandidates queued pipelines now"
  let ?heads = "sortBy (headLess (\<lambda>p. liveClaims p live) (uniq pipelines)) (openHeads live ?cs)"
  assume "belowCeiling (r_pipeline c) (liveClaims (r_pipeline c) live)"
  with assms(2) obtain h where "h \<in> set (openHeads live ?cs)" by (rule openHeads_cover)
  then have "?heads \<noteq> []" by auto
  then obtain provider rest where p: "?heads = provider # rest" by (cases ?heads) auto
  then have "provider \<in> set (openHeads live ?cs)" using set_sortBy by (metis list.set_intros(1))
  then have "provider \<in> set ?cs" by (rule openHeads_in)
  then have "sortBy fifoLess (filter (\<lambda>r. r_pipeline r = r_pipeline provider) ?cs) \<noteq> []"
    by (auto simp: filter_empty_conv)
  from class_turn_exists [OF this, of "orElse (map_of positions (r_pipeline provider)) 0"] assms(1) p
  show False by (auto simp: selectFairQueuedRun_unfold)
qed

lemma selectFair_some:
  assumes "selectFairQueuedRun queued live pipelines now positions = Some r"
  shows "r \<in> set (queueCandidates queued pipelines now)"
    and "belowCeiling (r_pipeline r) (liveClaims (r_pipeline r) live)"
    and "c \<in> set (queueCandidates queued pipelines now) \<Longrightarrow>
         belowCeiling (r_pipeline c) (liveClaims (r_pipeline c) live) \<Longrightarrow>
         liveClaims (r_pipeline r) live \<le> liveClaims (r_pipeline c) live"
    and "c \<in> set (queueCandidates queued pipelines now) \<Longrightarrow> r_pipeline c = r_pipeline r \<Longrightarrow>
         priorityOf c = priorityOf r \<Longrightarrow> \<not> fifoLess c r"
proof -
  let ?cs = "queueCandidates queued pipelines now"
  let ?lt = "headLess (\<lambda>p. liveClaims p live) (uniq pipelines)"
  let ?heads = "sortBy ?lt (openHeads live ?cs)"
  from assms obtain provider rest where p: "?heads = provider # rest"
    by (cases ?heads) (auto simp: selectFairQueuedRun_unfold)
  let ?mine = "sortBy fifoLess (filter (\<lambda>r. r_pipeline r = r_pipeline provider) ?cs)"
  let ?pos = "orElse (map_of positions (r_pipeline provider)) 0"
  from assms p have sel: "selectPriorityQueuedRun ?mine ?pos = Some r"
    by (simp add: selectFairQueuedRun_unfold)
  then have "r \<in> set ?mine" by (rule class_turn)
  then have r: "r \<in> set ?cs" "r_pipeline r = r_pipeline provider" by auto
  have head: "provider \<in> set (openHeads live ?cs)" using set_sortBy p by (metis list.set_intros(1))
  from r show "r \<in> set ?cs" by simp
  from openHeads_in(2) [OF head] r show "belowCeiling (r_pipeline r) (liveClaims (r_pipeline r) live)" by simp
  show "liveClaims (r_pipeline r) live \<le> liveClaims (r_pipeline c) live"
    if c: "c \<in> set ?cs" "belowCeiling (r_pipeline c) (liveClaims (r_pipeline c) live)"
  proof -
    from c obtain h where h: "h \<in> set (openHeads live ?cs)" "r_pipeline h = r_pipeline c" by (rule openHeads_cover)
    with head_order.hd_sortBy_minimal [of "openHeads live ?cs" h] p have "\<not> ?lt h provider"
      by (metis empty_iff empty_set list.sel(1))
    with h r show ?thesis by (auto simp: headLess_def Let_def)
  qed
  show "\<not> fifoLess c r" if c: "c \<in> set ?cs" "r_pipeline c = r_pipeline r" "priorityOf c = priorityOf r"
  proof -
    from sel obtain k where "find (\<lambda>x. priorityOf x = turnAt (?pos + k)) ?mine = Some r"
      by (auto simp: selectPriorityQueuedRun_def selectFromTurns_Some)
    moreover from this have "priorityOf r = turnAt (?pos + k)" by (auto simp: find_Some_iff)
    ultimately show ?thesis
      using find_sorted_minimal [OF fifo_order.sorted_sortBy] c r by simp
  qed
qed

end
