(* ===== verification/Queue_Guarantees.thy ===== *)
theory Queue_Guarantees
  imports Scenario Queue_Fairness
begin

text \<open>
  What a claim of the queue guarantees: it takes an admissible run whenever there is one and
  nothing else, prefers the least occupied provider and the oldest run of its class, and shares a
  provider's claims 4:2:1 between the classes while all of them wait, however claims and other commands interleave.
\<close>

text \<open>The runs a claim may take: live and queued with no credential operation outstanding and no
  unexpired deferral, of a granted provider that is neither cooling down nor at its ceiling.\<close>

definition claimable :: "memStore \<Rightarrow> string list \<Rightarrow> timestamp \<Rightarrow> run \<Rightarrow> bool" where
  "claimable s pipelines now r \<longleftrightarrow>
     r \<in> set (allRuns s) \<and> isQueueAdmissionCandidate r (Some now) \<and> r_pipeline r \<in> set pipelines \<and>
     \<not> providerIsCoolingDown (map_option cooldownDocOf (map_of (ms_providerCooldowns s) (r_pipeline r))) now \<and>
     belowCeiling (r_pipeline r) (liveClaims (r_pipeline r) (allRuns s))"

definition warmPipelines :: "memStore \<Rightarrow> string list \<Rightarrow> timestamp \<Rightarrow> string list" where
  "warmPipelines s pipelines now =
     filter (\<lambda>p. \<not> providerIsCoolingDown (map_option cooldownDocOf (map_of (ms_providerCooldowns s) p)) now) pipelines"

lemma claimable_candidate:
  "claimable s pipelines now r \<longleftrightarrow>
     r \<in> set (queueCandidates (allRuns s) (warmPipelines s pipelines now) (Some now)) \<and>
     belowCeiling (r_pipeline r) (liveClaims (r_pipeline r) (allRuns s))"
  by (auto simp: claimable_def queueCandidates_def warmPipelines_def)

abbreviation claimChoice :: "memStore \<Rightarrow> string list \<Rightarrow> timestamp \<Rightarrow> run option" where
  "claimChoice s pipelines now \<equiv>
     selectFairQueuedRun (allRuns s) (allRuns s) (warmPipelines s pipelines now) (Some now) (ms_priorityPositions s)"

lemma storeClaim_cases:
  "claimChoice s pipelines (ci_now input) = None \<Longrightarrow> storeClaimQueuedRun s pipelines input = (s, Inr None)"
  "claimChoice s pipelines (ci_now input) = Some r \<Longrightarrow>
     snd (storeClaimQueuedRun s pipelines input) = Inr (Some (claimQueuedRun r input)) \<and>
     ms_runs (fst (storeClaimQueuedRun s pipelines input)) =
       AList.update (r_runId r) (claimQueuedRun r input) (ms_runs s)"
  using turnAfter_total by (auto simp: storeClaimQueuedRun_def warmPipelines_def Let_def split: option.split)

lemma claimChoice_none:
  "claimChoice s pipelines now = None \<longleftrightarrow> (\<forall>r. \<not> claimable s pipelines now r)"
proof
  assume "claimChoice s pipelines now = None"
  from selectFair_none [OF this] show "\<forall>r. \<not> claimable s pipelines now r" by (auto simp: claimable_candidate)
next
  assume none: "\<forall>r. \<not> claimable s pipelines now r"
  show "claimChoice s pipelines now = None"
  proof (rule ccontr)
    assume "claimChoice s pipelines now \<noteq> None"
    then obtain r where "claimChoice s pipelines now = Some r" by blast
    from selectFair_some(1,2) [OF this] none show False by (auto simp: claimable_candidate)
  qed
qed

text \<open>The scenario just before its claim.\<close>

definition demoQueued :: memStore where
  "demoQueued = execAll (take 3 demoStart) emptyStore"

lemma queue_claim_empty: "storeClaimQueuedRun s pipelines input = (s', Inr None) \<Longrightarrow> s' = s"
  using storeClaim_cases [of s pipelines input] by (cases "claimChoice s pipelines (ci_now input)") auto

text \<open>C15: a claim takes only what it may, fairly. The run a claim hands out was admissible, is stored
  with the claim, belongs to a provider no other admissible run's provider undercuts in live
  claims, and no admissible run of the same provider and class is older.\<close>

theorem queue_claim_sound:
  assumes "snd (storeClaimQueuedRun s pipelines input) = Inr (Some c)"
  shows "\<exists>r. claimable s pipelines (ci_now input) r \<and> c = claimQueuedRun r input \<and>
    map_of (ms_runs (fst (storeClaimQueuedRun s pipelines input))) (r_runId r) = Some c \<and>
    (\<forall>x. claimable s pipelines (ci_now input) x \<longrightarrow>
       liveClaims (r_pipeline r) (allRuns s) \<le> liveClaims (r_pipeline x) (allRuns s) \<and>
       (r_pipeline x = r_pipeline r \<and> priorityOf x = priorityOf r \<longrightarrow> \<not> fifoLess x r))"
proof -
  from assms obtain r where r: "claimChoice s pipelines (ci_now input) = Some r"
    using storeClaim_cases(1) [of s pipelines input] by fastforce
  from storeClaim_cases(2) [OF r] assms have "c = claimQueuedRun r input"
    "map_of (ms_runs (fst (storeClaimQueuedRun s pipelines input))) (r_runId r) = Some c"
    by (simp_all add: js.get_put)
  then show ?thesis using selectFair_some [OF r] unfolding claimable_candidate by blast
qed

theorem queue_claim_sound_witness:
  "\<exists>r. claimable demoQueued [''claude''] (ci_now demoClaim) r"
proof -
  have "case snd (storeClaimQueuedRun demoQueued [''claude''] demoClaim) of Inr (Some _) \<Rightarrow> True | _ \<Rightarrow> False"
    by code_simp
  then obtain c where "snd (storeClaimQueuedRun demoQueued [''claude''] demoClaim) = Inr (Some c)"
    by (auto split: sum.splits option.splits)
  from queue_claim_sound [OF this] show ?thesis by blast
qed

text \<open>C16: a claim never misses work and never fails. It comes back empty, leaving the store as it
  was, exactly when no run is admissible; and advancing the class cursor never raises the
  exception the code has for an unknown class.\<close>

theorem queue_claim_complete:
  "(snd (storeClaimQueuedRun s pipelines input) = Inr None \<longleftrightarrow> (\<forall>r. \<not> claimable s pipelines (ci_now input) r)) \<and>
   (\<forall>e. snd (storeClaimQueuedRun s pipelines input) \<noteq> Inl e) \<and>
   (snd (storeClaimQueuedRun s pipelines input) = Inr None \<longleftrightarrow>
      storeClaimQueuedRun s pipelines input = (s, Inr None))"
proof (cases "claimChoice s pipelines (ci_now input)")
  case None
  then show ?thesis using storeClaim_cases(1) [OF None] claimChoice_none by auto
next
  case (Some r)
  then show ?thesis using storeClaim_cases(2) [OF Some] claimChoice_none [of s pipelines "ci_now input"] by auto
qed

subsection \<open>Shares of the classes\<close>

text \<open>A stretch of an execution seen from one provider: claims by any executor over any grants, in
  between any other command and any compare-and-set commit. The list holds the classes of the
  provider's runs that were handed out, in order, each at a moment when every class of the provider had
  an admissible run.\<close>

definition cursorOf :: "memStore \<Rightarrow> string \<Rightarrow> nat" where
  "cursorOf s p = orElse (map_of (ms_priorityPositions s) p) 0"

definition contended :: "memStore \<Rightarrow> string list \<Rightarrow> timestamp \<Rightarrow> string \<Rightarrow> bool" where
  "contended s pipelines now p \<longleftrightarrow>
     list_all (\<lambda>c. list_ex (\<lambda>r. r_pipeline r = p \<and> priorityOf r = c \<and> claimable s pipelines now r) (allRuns s))
       [Urgent, Normal, Background]"

fun claimsQueue :: "command \<Rightarrow> bool" where
  "claimsQueue (ClaimQueued pipelines input) = True"
| "claimsQueue _ = False"

inductive handsOut :: "string \<Rightarrow> memStore \<Rightarrow> queuePriority list \<Rightarrow> memStore \<Rightarrow> bool" for p :: string and s :: memStore where
  hands_start: "handsOut p s [] s"
| hands_other: "handsOut p s cs s1 \<Longrightarrow> \<not> claimsQueue c \<Longrightarrow> handsOut p s cs (exec c s1)"
| hands_commit: "handsOut p s cs s1 \<Longrightarrow> handsOut p s cs (fst (commitOutcome s1 out revn))"
| hands_elsewhere: "handsOut p s cs s1 \<Longrightarrow> storeClaimQueuedRun s1 pipelines input = (s2, Inr answer) \<Longrightarrow>
    (\<And>r. answer = Some r \<Longrightarrow> r_pipeline r \<noteq> p) \<Longrightarrow> handsOut p s cs s2"
| hands_one: "handsOut p s cs s1 \<Longrightarrow> storeClaimQueuedRun s1 pipelines input = (s2, Inr (Some r)) \<Longrightarrow>
    r_pipeline r = p \<Longrightarrow> contended s1 pipelines (ci_now input) p \<Longrightarrow> handsOut p s (cs @ [priorityOf r]) s2"

lemma cursors_writes [simp]:
  "ms_priorityPositions (foldl writeRun s ws) = ms_priorityPositions s"
  "ms_priorityPositions (foldl writeCooldown s ws) = ms_priorityPositions s"
  "ms_priorityPositions (foldl writeEntry s es) = ms_priorityPositions s"
proof -
  show "ms_priorityPositions (foldl writeRun s ws) = ms_priorityPositions s"
    by (induction ws arbitrary: s) (simp_all add: writeRun_def)
  show "ms_priorityPositions (foldl writeCooldown s ws) = ms_priorityPositions s"
    by (induction ws arbitrary: s) (simp_all add: writeCooldown_def split: option.split)
  show "ms_priorityPositions (foldl writeEntry s es) = ms_priorityPositions s"
    by (induction es arbitrary: s) (simp_all add: writeEntry_def)
qed

lemma commit_cursors [simp]: "ms_priorityPositions (fst (commitOutcome s out revn)) = ms_priorityPositions s"
  by (auto simp: commitOutcome_def applyDecision_def Let_def split: outcome.split sum.split if_splits)

lemma record_cursors [simp]:
  "ms_priorityPositions (recordBinding s tx nb) = ms_priorityPositions s"
  "ms_priorityPositions (recordRevision s tx p d) = ms_priorityPositions s"
  by (simp_all add: recordBinding_def recordRevision_def split: option.split)

lemma transactRequest_cursors [simp]: "ms_priorityPositions (fst (transactRequest s tx decide)) = ms_priorityPositions s"
proof -
  have "ms_priorityPositions (fst (case commitOutcome (recordBinding s tx nb) out revn of
        (s', Decided d) \<Rightarrow> (recordRevision s' tx p d, Decided d) | other \<Rightarrow> other)) = ms_priorityPositions s" for nb out revn p
    using commit_cursors [of "recordBinding s tx nb" out revn]
    by (cases "commitOutcome (recordBinding s tx nb) out revn") (auto split: outcome.split)
  then show ?thesis by (auto simp: transactRequest_def Let_def split: sum.split prod.split outcome.split)
qed

lemma exec_cursors: "\<not> claimsQueue c \<Longrightarrow> ms_priorityPositions (exec c s) = ms_priorityPositions s"
  by (cases c)
    (simp_all add: request_def orchConfirmDispatch_def orchObserveStartupPlacement_def renew_def
      orchObservePlacement_def observeDelivery_def finishCredentialOperation_def beginCredential_def
      changeCredential_def recordTriagePublication_def rerouteOne_def orchCancel_def report_def transactRun_def
      cancelUnclaimedBefore_def invalidateSource_def orchExecutorExited_def sweepOne_def transactOnRun_def
      enqueueRun_def releaseQueuedRunClaim_def putRun_def claimPendingOutbox_def settleOutbox_def wakeOutbox_def
      writeTrackerIssue_def resolveSourceWorkId_def beginGithubAnchorProjectionRefresh_def
      applyGithubAnchorProjectionRefresh_def Let_def split: option.split sum.split)

text \<open>One claim reads the cursor of the provider it serves, serves the class of the first turn that has
  a run waiting, and stores the cursor just past that turn; other providers keep theirs.\<close>

lemma claim_turn:
  assumes "storeClaimQueuedRun s pipelines input = (s', Inr (Some c))"
  obtains r k where "claimable s pipelines (ci_now input) r" "c = claimQueuedRun r input"
    "priorityOf r = turnAt (cursorOf s (r_pipeline r) + k)"
    "\<And>j x. j < k \<Longrightarrow> claimable s pipelines (ci_now input) x \<Longrightarrow> r_pipeline x = r_pipeline r \<Longrightarrow>
       priorityOf x \<noteq> turnAt (cursorOf s (r_pipeline r) + j)"
    "ms_priorityPositions s' =
       AList.update (r_pipeline r) ((cursorOf s (r_pipeline r) + k + 1) mod 7) (ms_priorityPositions s)"
proof -
  let ?warm = "warmPipelines s pipelines (ci_now input)"
  let ?cs = "queueCandidates (allRuns s) ?warm (Some (ci_now input))"
  let ?heads = "sortBy (headLess (\<lambda>p. liveClaims p (allRuns s)) (uniq ?warm)) (openHeads (allRuns s) ?cs)"
  obtain r where r: "claimChoice s pipelines (ci_now input) = Some r"
    using assms storeClaim_cases(1) [of s pipelines input] by fastforce
  then obtain h rest where h: "?heads = h # rest" by (cases ?heads) (auto simp: selectFairQueuedRun_unfold)
  let ?mine = "sortBy fifoLess (filter (\<lambda>x. r_pipeline x = r_pipeline h) ?cs)"
  have sel: "selectPriorityQueuedRun ?mine (cursorOf s (r_pipeline h)) = Some r"
    using r h by (simp add: selectFairQueuedRun_unfold cursorOf_def)
  from class_turn [OF sel] obtain k where k: "priorityOf r = turnAt (cursorOf s (r_pipeline h) + k)" "r \<in> set ?mine"
    "\<forall>j < k. \<forall>x \<in> set ?mine. priorityOf x \<noteq> turnAt (cursorOf s (r_pipeline h) + j)"
    "queuePriorityTurnAfter (cursorOf s (r_pipeline h)) (priorityOf r) = Some ((cursorOf s (r_pipeline h) + k + 1) mod 7)"
    by blast
  have p: "r_pipeline h = r_pipeline r" using k(2) by simp
  show thesis
  proof (rule that [of r k])
    show "claimable s pipelines (ci_now input) r" using selectFair_some(1,2) [OF r] by (simp add: claimable_candidate)
    show "c = claimQueuedRun r input" using storeClaim_cases(2) [OF r] assms by simp
    show "priorityOf r = turnAt (cursorOf s (r_pipeline r) + k)" using k(1) p by simp
    show "priorityOf x \<noteq> turnAt (cursorOf s (r_pipeline r) + j)"
      if "j < k" "claimable s pipelines (ci_now input) x" "r_pipeline x = r_pipeline r" for j x
      using that k(3) p by (auto simp: claimable_candidate)
    show "ms_priorityPositions s' =
        AList.update (r_pipeline r) ((cursorOf s (r_pipeline r) + k + 1) mod 7) (ms_priorityPositions s)"
      using r k(4) assms unfolding p
      by (auto simp: storeClaimQueuedRun_def warmPipelines_def [symmetric] cursorOf_def Let_def split: option.splits)
  qed
qed

lemma contendedD: "contended s pipelines now p \<Longrightarrow> \<exists>r. r_pipeline r = p \<and> priorityOf r = c \<and> claimable s pipelines now r"
  by (cases c) (auto simp: contended_def list_ex_iff)

lemma claimed_fields [simp]:
  "r_pipeline (claimQueuedRun r input) = r_pipeline r" "priorityOf (claimQueuedRun r input) = priorityOf r"
  by (simp_all add: claimQueuedRun_def priorityOf_def)

lemma handsOut_turns:
  "handsOut p s cs s' \<Longrightarrow>
     cs = map (\<lambda>i. turnAt (cursorOf s p + i)) [0..<length cs] \<and> cursorOf s' p mod 7 = (cursorOf s p + length cs) mod 7"
proof (induction rule: handsOut.induct)
  case (hands_elsewhere cs s1 pipelines input s2 answer)
  have "cursorOf s2 p = cursorOf s1 p"
  proof (cases answer)
    case None
    with hands_elsewhere(2) have "s2 = s1"
      using queue_claim_empty [of s1 pipelines input] by simp
    then show ?thesis by simp
  next
    case (Some c)
    from claim_turn [OF hands_elsewhere(2) [unfolded Some]] obtain r k where "c = claimQueuedRun r input"
      "ms_priorityPositions s2 = AList.update (r_pipeline r) k (ms_priorityPositions s1)" by metis
    with hands_elsewhere(3) [OF Some] show ?thesis by (simp add: cursorOf_def js.get_put)
  qed
  with hands_elsewhere.IH show ?case by simp
next
  case (hands_one cs s1 pipelines input s2 c)
  from claim_turn [OF hands_one(2)] obtain r k where r: "c = claimQueuedRun r input"
    "priorityOf r = turnAt (cursorOf s1 (r_pipeline r) + k)"
    "\<And>j x. j < k \<Longrightarrow> claimable s1 pipelines (ci_now input) x \<Longrightarrow> r_pipeline x = r_pipeline r \<Longrightarrow>
       priorityOf x \<noteq> turnAt (cursorOf s1 (r_pipeline r) + j)"
    "ms_priorityPositions s2 = AList.update (r_pipeline r) ((cursorOf s1 (r_pipeline r) + k + 1) mod 7) (ms_priorityPositions s1)"
    by metis
  have p: "r_pipeline r = p" using r(1) hands_one(3) by simp
  obtain x where "r_pipeline x = p" "priorityOf x = turnAt (cursorOf s1 p)" "claimable s1 pipelines (ci_now input) x"
    using contendedD [OF hands_one(4)] by blast
  then have k: "k = 0" using r(3) [of 0 x] p by (cases k) auto
  have turn: "turnAt (cursorOf s1 p) = turnAt (cursorOf s p + length cs)"
    using hands_one.IH by (metis turnAt_mod(2))
  have "cursorOf s2 p = (cursorOf s1 p + 1) mod 7" using r(4) p k by (simp add: cursorOf_def js.get_put)
  also have "\<dots> = (cursorOf s p + length cs + 1) mod 7" using hands_one.IH by (metis mod_add_left_eq)
  finally show ?case using hands_one.IH r(1,2) p k turn by simp
qed (simp_all add: exec_cursors cursorOf_def)

text \<open>C17: under contention the shares are exact. However claims of several executors and every other
  command interleave, seven consecutive claims that hand out runs of a provider while each of its
  classes has an admissible run serve four urgent, two normal and one background run, wherever the
  stored cursor stood.\<close>

theorem queue_class_shares:
  assumes "handsOut p s cs s'" and "length cs = 7"
  shows "map (count_list cs) [Urgent, Normal, Background] = [4, 2, 1]"
proof -
  let ?pos = "cursorOf s p"
  have cs: "cs = map (\<lambda>i. turnAt (?pos mod 7 + i)) [0..<7]" using handsOut_turns [OF assms(1)] assms(2) by simp
  have "?pos mod 7 \<in> set [0..<7]" by simp
  moreover have "\<forall>p \<in> set [0..<7]. map (count_list (map (\<lambda>i. turnAt (p + i)) [0..<7])) [Urgent, Normal, Background] = [4, 2, 1]"
    by code_simp
  ultimately show ?thesis unfolding cs by blast
qed

text \<open>Three queued runs, one of each class; a run that is claimed is released before the next claim.\<close>

definition demoClassItem :: "string \<Rightarrow> taskId" where
  "demoClassItem c = WorkAnchor (''01HZXW8K3M5N7P9Q2R4S6T8V0'' @ c)"

definition demoContended :: memStore where
  "demoContended = execAll
     (concat (map (\<lambda>(c, priority).
        [Request allFormats 1000 ((demoRequest ''a'' ''claude'')\<lparr>rq_taskId := demoClassItem c, rq_priority := Some priority\<rparr>),
         ConfirmDispatch ''u1'' 2000 (runIdFor (demoClassItem c) 1), Enqueue (runIdFor (demoClassItem c) 1) 3000])
        [(''A'', Background), (''B'', Normal), (''C'', Urgent)])) emptyStore"

fun demoRounds :: "nat \<Rightarrow> memStore \<Rightarrow> (queuePriority list \<times> memStore) option" where
  "demoRounds 0 s = Some ([], s)"
| "demoRounds (Suc n) s =
     (case demoRounds n s of
        None \<Rightarrow> None
      | Some (cs, s1) \<Rightarrow>
          (case storeClaimQueuedRun s1 [''claude''] demoClaim of
             (s2, Inr (Some r)) \<Rightarrow>
               if r_pipeline r = ''claude'' \<and> contended s1 [''claude''] (ci_now demoClaim) ''claude''
               then Some (cs @ [priorityOf r], exec (ReleaseClaim (r_runId r) ''runner'' ''hash'' 4000 None) s2)
               else None
           | _ \<Rightarrow> None))"

lemma demoRounds_handsOut: "demoRounds n s = Some (cs, s') \<Longrightarrow> handsOut ''claude'' s cs s' \<and> length cs = n"
proof (induction n arbitrary: cs s')
  case (Suc n)
  then obtain cs1 s1 s2 r where "demoRounds n s = Some (cs1, s1)"
    "storeClaimQueuedRun s1 [''claude''] demoClaim = (s2, Inr (Some r))" "r_pipeline r = ''claude''"
    "contended s1 [''claude''] (ci_now demoClaim) ''claude''" "cs = cs1 @ [priorityOf r]"
    "s' = exec (ReleaseClaim (r_runId r) ''runner'' ''hash'' 4000 None) s2"
    by (auto simp del: exec.simps split: option.splits prod.splits sum.splits if_splits)
  with Suc.IH [of cs1 s1] show ?case
    using hands_other [OF hands_one, of "''claude''" s cs1 s1 "[''claude'']" demoClaim s2 r]
    by (simp del: exec.simps)
qed (simp add: hands_start)

theorem queue_class_shares_witness:
  "\<exists>cs s'. handsOut ''claude'' demoContended cs s' \<and> map (count_list cs) [Urgent, Normal, Background] = [4, 2, 1]"
proof -
  have "demoRounds 7 demoContended \<noteq> None" by code_simp
  then obtain cs s' where "demoRounds 7 demoContended = Some (cs, s')" by auto
  note h = demoRounds_handsOut [OF this]
  from conjunct1 [OF h] queue_class_shares [OF conjunct1 [OF h] conjunct2 [OF h]] show ?thesis by (intro exI conjI)
qed

subsection \<open>The status projection\<close>

lemma liveClaims_of_live:
  "length (filter (\<lambda>r. queueStateOf r = Some Claimed) (filter (\<lambda>r. r_pipeline r = p \<and> isLive (r_state r)) (listLiveRuns s)))
   = liveClaims p (allRuns s)"
  unfolding liveClaims_def listLiveRuns_def liveClaim_def filter_filter
  by (rule arg_cong [where f = length], rule filter_cong) (auto simp: isLive_cases)

lemma candidates_of_live:
  "filter (\<lambda>r. isQueueAdmissionCandidate r now)
     (filter (\<lambda>r. queueStateOf r = Some Queued) (filter (\<lambda>r. r_pipeline r = p \<and> isLive (r_state r)) (listLiveRuns s)))
   = filter (\<lambda>r. isQueueAdmissionCandidate r now \<and> r_pipeline r = p) (allRuns s)"
  unfolding listLiveRuns_def filter_filter
  by (rule filter_cong) (auto simp: isQueueAdmissionCandidate_def queueStateOf_def split: option.splits)

text \<open>C23: the console's queue status tells what a claim would find. For every provider of the
  status, the eligible count is exactly the number of stored runs a claim made at that moment
  over the same providers may take.\<close>

theorem admission_status_agrees:
  assumes "readQueueAdmissionStatus s pipelines now = Inr status" and "p \<in> set (qa_providers status)"
  shows "qs_eligible p =
    length (filter (\<lambda>r. claimable s pipelines now r \<and> r_pipeline r = qs_pipeline p) (allRuns s))"
proof -
  from assms obtain x where x: "x \<in> set pipelines"
    and p: "p = providerAdmission (listLiveRuns s) (map_of (ms_providerCooldowns s) x) x now"
    by (auto simp: readQueueAdmissionStatus_def projectQueueAdmissionStatus_def Let_def split: if_splits)
  let ?cool = "providerIsCoolingDown (map_option cooldownDocOf (map_of (ms_providerCooldowns s) x)) now"
  let ?closed = "?cool \<or> \<not> belowCeiling x (liveClaims x (allRuns s))"
  have e: "qs_eligible p = (if ?closed then 0
      else length (filter (\<lambda>r. isQueueAdmissionCandidate r (Some now) \<and> r_pipeline r = x) (allRuns s)))"
    unfolding p providerAdmission_def Let_def providerQueueAdmissionStatus.simps liveClaims_of_live candidates_of_live
    by (rule refl)
  have pipe: "qs_pipeline p = x" by (simp add: p providerAdmission_def Let_def)
  have "filter (\<lambda>r. claimable s pipelines now r \<and> r_pipeline r = x) (allRuns s) =
      (if ?closed then [] else filter (\<lambda>r. isQueueAdmissionCandidate r (Some now) \<and> r_pipeline r = x) (allRuns s))"
  proof (cases ?closed)
    case True
    then show ?thesis by (auto simp: claimable_def filter_empty_conv)
  next
    case False
    with x show ?thesis by (auto simp: claimable_def intro!: filter_cong)
  qed
  with e pipe show ?thesis by simp
qed

theorem admission_status_agrees_witness:
  "\<exists>status. readQueueAdmissionStatus demoQueued [''claude''] 3500 = Inr status \<and> map qs_eligible (qa_providers status) = [1] \<and>
     length (filter (\<lambda>r. claimable demoQueued [''claude''] 3500 r \<and> r_pipeline r = ''claude'') (allRuns demoQueued)) = 1"
proof -
  let ?st = "projectQueueAdmissionStatus (listLiveRuns demoQueued) (ms_providerCooldowns demoQueued) [''claude''] 3500"
  have "length (listLiveRuns demoQueued) = 1" by code_simp
  then have "length (filter (\<lambda>r. r_state r = st) (listLiveRuns demoQueued)) \<le> 1" for st
    by (metis length_filter_le)
  then have st: "readQueueAdmissionStatus demoQueued [''claude''] 3500 = Inr ?st"
    by (simp add: readQueueAdmissionStatus_def Let_def QUEUE_ADMISSION_READ_LIMIT_def not_less order_trans [where y = 1])
  have e: "map qs_eligible (qa_providers ?st) = [1]" "map qs_pipeline (qa_providers ?st) = [''claude'']" by code_simp+
  then obtain p where p: "qa_providers ?st = [p]" "qs_eligible p = 1" "qs_pipeline p = ''claude''" by auto
  from admission_status_agrees [OF st, of p] p st e show ?thesis by auto
qed

end
