(* ===== verification/Claim_Discipline.thy ===== *)
theory Claim_Discipline
  imports Decision_Contract
begin

text \<open>
  A second contract of the decision functions, about physical ownership: a decision never claims a
  run, never moves a claim to another token, reserves credential operations on the claimant only,
  never settles a live run over an outstanding credential operation without resolving it, mints
  successors unclaimed, and neither reopens a closed task nor gives it another run.
\<close>

definition opHeld :: "run \<Rightarrow> bool" where
  "opHeld r = (case r_credentialOperation r of None \<Rightarrow> True | Some op \<Rightarrow> isClaimant r (co_claimFingerprint op))"

definition unclaimedRun :: "run \<Rightarrow> bool" where
  "unclaimedRun r \<longleftrightarrow> r_queue r = None \<and> r_credentialOperation r = None"

definition claimToken :: "run \<Rightarrow> string option" where
  "claimToken r = Option.bind (r_queue r) q_tokenHash"

definition claimKept :: "run \<Rightarrow> run \<Rightarrow> bool" where
  "claimKept r w \<longleftrightarrow>
     (queueStateOf w = Some Claimed \<longrightarrow> queueStateOf r = Some Claimed \<and> claimToken w = claimToken r) \<and>
     opHeld w \<and>
     (isLive (r_state r) \<and> \<not> isLive (r_state w) \<longrightarrow>
        r_credentialOperation r = None \<or> r_credentialOperation w = None)"

definition closedIdle :: "task \<Rightarrow> bool" where
  "closedIdle t \<longleftrightarrow> (t_closedAt t \<noteq> None \<longrightarrow> t_activeRunId t = None)"

definition closedKept :: "task \<Rightarrow> task \<Rightarrow> bool" where
  "closedKept t t' \<longleftrightarrow>
     closedIdle t' \<and> (t_closedAt t \<noteq> None \<longrightarrow> t_closedAt t' = t_closedAt t \<and> t_runCount t' = t_runCount t)"

definition writeDisciplined :: "run \<Rightarrow> run \<Rightarrow> bool" where
  "writeDisciplined r w \<longleftrightarrow> (if r_runId w = r_runId r then claimKept r w else unclaimedRun w)"

definition disciplined :: "task \<Rightarrow> run \<Rightarrow> decision \<Rightarrow> bool" where
  "disciplined t r d \<longleftrightarrow> list_all (writeDisciplined r) (writtenRuns d) \<and> closedKept t (d_task d)"

locale disciplined_decider = run_decider +
  assumes decide_disciplined:
    "paired t r \<Longrightarrow> opHeld r \<Longrightarrow> closedIdle t \<Longrightarrow> decide t r = Decided d \<Longrightarrow> disciplined t r d"

subsection \<open>Building blocks\<close>

lemma claimKept_refl [simp]: "claimKept r r \<longleftrightarrow> opHeld r"
  by (simp add: claimKept_def)

lemma closedKept_refl [simp]: "closedKept t t \<longleftrightarrow> closedIdle t"
  by (simp add: closedKept_def)

lemma mintedRun_unclaimed [simp]: "unclaimedRun (mintedRun m)"
  by (simp add: unclaimedRun_def mintedRun_def Let_def)

lemma live_open: "paired t r \<Longrightarrow> isLive (r_state r) \<Longrightarrow> closedIdle t \<Longrightarrow> t_closedAt t = None"
  by (auto simp: paired_def closedIdle_def)

text \<open>The part of a run the contract reads; an update of anything else keeps it.\<close>

definition claimView :: "run \<Rightarrow> (queueState \<times> string option) option \<times> credentialOperation option" where
  "claimView r = (map_option (\<lambda>q. (q_state q, q_tokenHash q)) (r_queue r), r_credentialOperation r)"

lemma claimView_claimant: "claimView w = claimView r \<Longrightarrow> isClaimant w fp = isClaimant r fp"
  by (auto simp: claimView_def isClaimant_def split: option.splits)

lemma claimKept_view:
  assumes "opHeld r" and "claimView w = claimView r"
    and "isLive (r_state r) \<Longrightarrow> \<not> isLive (r_state w) \<Longrightarrow> r_credentialOperation r = None"
  shows "claimKept r w"
proof -
  have "r_credentialOperation w = r_credentialOperation r" "queueStateOf w = queueStateOf r" "claimToken w = claimToken r"
    using assms(2) by (cases "r_queue w"; cases "r_queue r"; simp add: claimView_def queueStateOf_def claimToken_def)+
  with assms claimView_claimant [OF assms(2)] show ?thesis
    by (auto simp: claimKept_def opHeld_def split: option.splits)
qed

lemma claimKept_trans_state:
  assumes "claimKept r m" and "claimKept m w" and "r_state m = r_state r" and "r_credentialOperation m = r_credentialOperation r"
  shows "claimKept r w"
  using assms by (auto simp: claimKept_def)

text \<open>A decision that rewrites the given run and leaves the task's lock, closure and count.\<close>

lemma disciplined_one:
  assumes "writtenRuns d = [w]" "r_runId w = r_runId r" "claimKept r w"
    "closedIdle t" "t_closedAt (d_task d) = t_closedAt t" "t_runCount (d_task d) = t_runCount t"
    "t_activeRunId (d_task d) = t_activeRunId t \<or> t_activeRunId (d_task d) = None"
  shows "disciplined t r d"
  using assms by (auto simp: disciplined_def writeDisciplined_def closedKept_def closedIdle_def)

lemma disciplined_task:
  assumes "onlyTask t' = Decided d" "closedKept t t'"
  shows "disciplined t r d"
  using assms by (auto simp: disciplined_def onlyTask_def)

text \<open>A settlement of a live run, alone or with a minted successor.\<close>

lemma settlesRun_disciplined:
  assumes p: "paired t r" and live: "isLive (r_state r)" and idle: "closedIdle t" and st: "settlesRun t r d"
    and kept: "\<And>w. d_run d = Some w \<Longrightarrow> claimKept r w"
    and opened: "d_additionalRuns d \<noteq> [] \<Longrightarrow> t_closedAt (d_task d) = None"
  shows "disciplined t r d"
  using st unfolding settlesRun_def
proof
  assume "settles t r d"
  then show ?thesis using kept live_open [OF p live idle] run_evolves_same(1)
    by (auto simp: settles_def disciplined_def writtenRuns_def writeDisciplined_def closedKept_def closedIdle_def
        split: option.splits)
next
  assume "settlesWithSuccessor t r d"
  then obtain w m where w: "d_run d = Some w" "run_evolves r w" "d_additionalRuns d = [mintedRun m]"
    "mi_taskId m = t_task t" "t_runCount t \<le> t_runCount (mi_task m)" by (auto simp: settlesWithSuccessor_def)
  with p have "r_runId (mintedRun m) \<noteq> r_runId r"
    using numbered_ne_next [of "t_task t" "t_runCount t" "r_runId r" "Suc (t_runCount (mi_task m))"]
    by (auto simp: paired_def)
  moreover have "r_runId w = r_runId r" using run_evolves_same(1) [OF w(2)] .
  ultimately show ?thesis using kept [OF w(1)] w opened live_open [OF p live idle]
    by (auto simp: disciplined_def writtenRuns_def writeDisciplined_def closedKept_def closedIdle_def
        simp del: mintedRun_fields)
qed

lemma keepsLock_disciplined:
  assumes "keepsLock t r d" and "closedIdle t" and "t_closedAt (d_task d) = t_closedAt t"
    and kept: "\<And>w. d_run d = Some w \<Longrightarrow> claimKept r w"
  shows "disciplined t r d"
proof (cases "d_run d")
  case None
  with assms show ?thesis
    by (auto simp: keepsLock_def disciplined_def writtenRuns_def closedKept_def closedIdle_def)
next
  case (Some w)
  with assms have "r_runId w = r_runId r" using run_evolves_same(1) by (auto simp: keepsLock_def)
  with Some assms kept [OF Some] show ?thesis
    by (auto simp: keepsLock_def disciplined_def writtenRuns_def writeDisciplined_def closedKept_def closedIdle_def)
qed

text \<open>The run transactions also reserve the credential cleanup of the run they settle; for that they
  settle only runs without an outstanding operation.\<close>

locale cleanup_decider = disciplined_decider +
  assumes settles_free: "paired t r \<Longrightarrow> opHeld r \<Longrightarrow> decide t r = Decided d \<Longrightarrow> d_run d = Some w \<Longrightarrow>
    isLive (r_state r) \<Longrightarrow> \<not> isLive (r_state w) \<Longrightarrow> r_credentialOperation r = None"

subsection \<open>Observations\<close>

lemma taskAndRun_fields:
  assumes "taskAndRun t r = Decided d"
  shows "d_task d = t" "d_run d = Some r"
  using assms by (auto simp: taskAndRun_def)

lemma confirmDispatch_kept:
  "opHeld r \<Longrightarrow> confirmDispatch now t r = Decided d \<Longrightarrow> d_run d = Some w \<Longrightarrow> claimKept r w \<and> isLive (r_state w)"
  "confirmDispatch now t r = Decided d \<Longrightarrow> t_closedAt (d_task d) = t_closedAt t"
  by (auto simp: claimView_def confirmDispatch_def taskAndRun_def intro!: claimKept_view split: if_splits)

interpretation confirm2: cleanup_decider "confirmDispatch now" for now
  by unfold_locales
    (auto intro!: keepsLock_disciplined [OF confirmDispatch_keeps] dest: confirmDispatch_kept)

lemma observeStartupPlacement_kept:
  "opHeld r \<Longrightarrow> observeStartupPlacement now t r c j obs placed = Decided d \<Longrightarrow> d_run d = Some w \<Longrightarrow>
     claimKept r w \<and> r_state w = r_state r"
  "observeStartupPlacement now t r c j obs placed = Decided d \<Longrightarrow> d_task d = t"
  by (auto simp: claimView_def observeStartupPlacement_def taskAndRun_def intro!: claimKept_view split: if_splits option.splits)

interpretation startup2: cleanup_decider "\<lambda>t r. observeStartupPlacement now t r c j obs placed" for now c j obs placed
  by unfold_locales
    (auto intro!: keepsLock_disciplined [OF observeStartupPlacement_keeps] dest: observeStartupPlacement_kept)

lemma renewLease_kept:
  "opHeld r \<Longrightarrow> renewLease now t r fp started = Decided d \<Longrightarrow> d_run d = Some w \<Longrightarrow>
     claimKept r w \<and> r_state w = r_state r"
  "renewLease now t r fp started = Decided d \<Longrightarrow> d_task d = t"
  by (cases "r_queue r")
    (auto simp: claimView_def renewLease_def renewedQueue_def intro!: claimKept_view split: if_splits option.splits)

interpretation heartbeat2: cleanup_decider "\<lambda>t r. renewLease now t r fp started" for now fp started
  by unfold_locales
    (auto intro!: keepsLock_disciplined [OF renewLease_keeps] dest: renewLease_kept)

lemma observePlacement_kept:
  "opHeld r \<Longrightarrow> observePlacement now t r c p = Decided d \<Longrightarrow> d_run d = Some w \<Longrightarrow>
     claimKept r w \<and> r_state w = r_state r"
  "observePlacement now t r c p = Decided d \<Longrightarrow> d_task d = t"
  by (auto simp: claimView_def observePlacement_def taskAndRun_def intro!: claimKept_view split: if_splits option.splits)

interpretation placement2: cleanup_decider "\<lambda>t r. observePlacement now t r c p" for now c p
  by unfold_locales
    (auto intro!: keepsLock_disciplined [OF observePlacement_keeps] dest: observePlacement_kept)

subsection \<open>Cancellation and reports\<close>

lemma cancelRun_free:
  assumes "cancelRun now t r remark i native = Decided d" and "opHeld r"
  shows "r_credentialOperation r = None" and "d_run d = Some w \<Longrightarrow> claimKept r w"
    and "native = None \<Longrightarrow> t_closedAt (d_task d) = t_closedAt t"
  using assms
  by (auto simp: claimView_def cancelRun_def Let_def canceledRun_def releaseLock_def resetLossBudgets_def
      intro!: claimKept_view split: if_splits option.splits taskId.splits)

lemma cancelRun_disciplined:
  assumes "paired t r" "opHeld r" "closedIdle t" "cancelRun now t r remark i native = Decided d"
  shows "disciplined t r d"
proof (rule settlesRun_disciplined [OF assms(1) _ assms(3)])
  note st = cancelRun_settles [OF assms(4,1)]
  show "isLive (r_state r)" "settlesRun t r d" using st by (simp_all add: settlesRun_def)
  show "d_additionalRuns d \<noteq> [] \<Longrightarrow> t_closedAt (d_task d) = None" using st by (simp add: settles_def)
qed (rule cancelRun_free(2) [OF assms(4,2)])

interpretation cancellation2: cleanup_decider "\<lambda>t r. cancelRun now t r remark i native" for now remark i native
  by unfold_locales (auto intro: cancelRun_disciplined cancelRun_free(1))

interpretation unclaimed2: cleanup_decider "decideCancelUnclaimed now notAfter remark issue" for now notAfter remark issue
  by unfold_locales
    (auto simp: decideCancelUnclaimed_def intro: cancelRun_disciplined cancelRun_free(1) split: if_splits)

lemma closedKept_cong:
  "t_closedAt t' = t_closedAt t \<Longrightarrow> t_runCount t' = t_runCount t \<Longrightarrow> closedKept t' x = closedKept t x"
  "t_closedAt t' = t_closedAt t \<Longrightarrow> t_activeRunId t' = t_activeRunId t \<Longrightarrow> closedIdle t' = closedIdle t"
  by (simp_all add: closedKept_def closedIdle_def)

lemma invalidateSourceRevision_split:
  assumes "invalidateSourceRevision now t r obs = Decided d"
  shows "(keepsLock t r d \<and> t_closedAt (d_task d) = t_closedAt t \<and>
      (\<forall>w. d_run d = Some w \<longrightarrow> r_state w = r_state r \<and> claimView w = claimView r)) \<or>
    cancelRun now (t\<lparr>t_desiredRevision := None, t_sourceObservedAt := Some obs, t_updatedAt := now\<rparr>) r
      (Some ''Source is no longer eligible'') None None = Decided d"
  using assms
  by (auto simp: invalidateSourceRevision_def Let_def keep_simps claimView_def split: if_splits option.splits)

lemma invalidateSourceRevision_disciplined:
  assumes "paired t r" "opHeld r" "closedIdle t" "invalidateSourceRevision now t r obs = Decided d"
  shows "disciplined t r d"
  using invalidateSourceRevision_split [OF assms(4)]
proof
  assume "keepsLock t r d \<and> t_closedAt (d_task d) = t_closedAt t \<and>
      (\<forall>w. d_run d = Some w \<longrightarrow> r_state w = r_state r \<and> claimView w = claimView r)"
  then show ?thesis using assms by (auto intro!: keepsLock_disciplined claimKept_view)
next
  let ?t = "t\<lparr>t_desiredRevision := None, t_sourceObservedAt := Some obs, t_updatedAt := now\<rparr>"
  assume c: "cancelRun now ?t r (Some ''Source is no longer eligible'') None None = Decided d"
  have "disciplined ?t r d"
    by (rule cancelRun_disciplined [OF paired_cong [OF assms(1)] assms(2) _ c])
      (use assms(3) in \<open>simp_all add: closedIdle_def\<close>)
  then show ?thesis by (simp add: disciplined_def closedKept_def)
qed

interpretation invalidation2: cleanup_decider "\<lambda>t r. invalidateSourceRevision now t r obs" for now obs
proof unfold_locales
  fix t r d w
  assume a: "opHeld r" "invalidateSourceRevision now t r obs = Decided d" "d_run d = Some w"
    "isLive (r_state r)" "\<not> isLive (r_state w)"
  from invalidateSourceRevision_split [OF a(2)] show "r_credentialOperation r = None"
  proof
    assume "cancelRun now (t\<lparr>t_desiredRevision := None, t_sourceObservedAt := Some obs, t_updatedAt := now\<rparr>) r
        (Some ''Source is no longer eligible'') None None = Decided d"
    then show ?thesis using a(1) by (rule cancelRun_free(1))
  qed (use a in auto)
qed (rule invalidateSourceRevision_disciplined)

lemma mintRun_closedAt [simp]: "t_closedAt (d_task (mintRun m)) = t_closedAt (mi_task m)"
  by (simp add: mintRun_def Let_def)

lemma sourceSuccessorInput_open:
  "sourceSuccessorInput d r now = Some m \<Longrightarrow> t_closedAt (mi_task m) = None"
  by (auto simp: sourceSuccessorInput_def Let_def resetLossBudgets_def split: option.splits if_splits)

lemma advanceSourceRevision_fields:
  assumes "advanceSourceRevision d now = Decided d'" and "d_run d = Some r"
  shows "d_run d' = Some r" and "d_additionalRuns d' = [] \<Longrightarrow> d_task d' = d_task d"
    and "d_additionalRuns d' \<noteq> [] \<Longrightarrow> d_additionalRuns d = [] \<Longrightarrow> t_closedAt (d_task d') = None"
  using assms sourceSuccessorInput_open [of d r now]
  by (cases "sourceSuccessorInput d r now"; auto simp: advanceSourceRevision_def withSuccessor_def)+

text \<open>A report keeps the operation it found; it settles only when there is none.\<close>

lemma reportResult_kept:
  assumes "reportResult now t r fp result = Decided d"
  shows "\<exists>w. d_run d = Some w \<and> claimView w = claimView r \<and>
      (r_credentialOperation r = None \<or> r_state w = r_state r)"
    and "d_additionalRuns d \<noteq> [] \<Longrightarrow> t_closedAt (d_task d) = None"
    and "d_additionalRuns d = [] \<Longrightarrow> t_closedAt (d_task d) = t_closedAt t"
proof -
  let ?w = "reportedRun now t r result"
  let ?d = "settle (resetLossBudgets (releaseLock t (r_runId r) now)) ?w now"
  have view: "claimView ?w = claimView r" by (simp add: reportedRun_def claimView_def)
  have "(\<exists>cp. taskAndRun t (r\<lparr>r_credentialPendingResult := cp, r_updatedAt := now\<rparr>) = Decided d) \<or>
      (r_credentialOperation r = None \<and>
       ((\<exists>dl ob. d = ?d\<lparr>d_task := (d_task ?d)\<lparr>t_delivery := dl\<rparr>, d_outbox := d_outbox ?d @ ob\<rparr>) \<or>
        advanceSourceRevision ?d now = Decided d))"
    using assms by (auto simp: reportResult_def Let_def split: if_splits option.splits)
  then consider (deferred) cp where "taskAndRun t (r\<lparr>r_credentialPendingResult := cp, r_updatedAt := now\<rparr>) = Decided d"
    | (settled) "r_credentialOperation r = None" "d_run d = Some ?w"
        "d_additionalRuns d \<noteq> [] \<Longrightarrow> t_closedAt (d_task d) = None"
        "d_additionalRuns d = [] \<Longrightarrow> t_closedAt (d_task d) = t_closedAt (d_task ?d)"
    using advanceSourceRevision_fields [of ?d now d ?w] by auto
  then show "\<exists>w. d_run d = Some w \<and> claimView w = claimView r \<and>
        (r_credentialOperation r = None \<or> r_state w = r_state r)"
    and "d_additionalRuns d \<noteq> [] \<Longrightarrow> t_closedAt (d_task d) = None"
    and "d_additionalRuns d = [] \<Longrightarrow> t_closedAt (d_task d) = t_closedAt t"
    by (cases; use view in \<open>auto simp: taskAndRun_def claimView_def releaseLock_def resetLossBudgets_def\<close>)+
qed

text \<open>From how a decision treats the lock and the view to the contract.\<close>

lemma cases_disciplined:
  assumes p: "paired t r" and idle: "closedIdle t"
    and st: "keepsLock t r d \<or> (isLive (r_state r) \<and> settlesRun t r d)"
    and kept: "\<And>w. d_run d = Some w \<Longrightarrow> claimKept r w"
    and opened: "d_additionalRuns d \<noteq> [] \<Longrightarrow> t_closedAt (d_task d) = None"
    and same: "d_additionalRuns d = [] \<Longrightarrow> t_closedAt (d_task d) = t_closedAt t"
  shows "disciplined t r d"
  using st
proof
  assume k: "keepsLock t r d"
  show ?thesis by (rule keepsLock_disciplined [OF k idle same kept]) (use k in \<open>simp add: keepsLock_def\<close>)
next
  assume "isLive (r_state r) \<and> settlesRun t r d"
  then show ?thesis using settlesRun_disciplined [OF p _ idle _ kept opened] by blast
qed

lemma reportResult_claim:
  assumes "opHeld r" and "reportResult now t r fp result = Decided d" and "d_run d = Some w"
  shows "claimKept r w" and "isLive (r_state r) \<Longrightarrow> \<not> isLive (r_state w) \<Longrightarrow> r_credentialOperation r = None"
    and "claimView w = claimView r"
  using reportResult_kept(1) [OF assms(2)] assms(1,3) by (auto intro!: claimKept_view)

lemma reportResult_disciplined:
  assumes "paired t r" "opHeld r" "closedIdle t" "reportResult now t r fp result = Decided d"
  shows "disciplined t r d"
  using reportResult_cases [OF assms(1,4)] reportResult_kept(2,3) [OF assms(4)] reportResult_claim(1) [OF assms(2,4)]
  by (intro cases_disciplined [OF assms(1,3)]) auto

interpretation reporting2: cleanup_decider "\<lambda>t r. reportResult now t r fp result" for now fp result
  by unfold_locales (auto intro: reportResult_disciplined dest: reportResult_claim(2))

lemma reportTarget_view [simp]: "claimView (reportTarget r result dl pub) = claimView r"
  "r_runId (reportTarget r result dl pub) = r_runId r"
  by (simp_all add: reportTarget_def claimView_def)

lemma opHeld_view: "claimView w = claimView r \<Longrightarrow> opHeld w = opHeld r"
  using claimView_claimant by (auto simp: opHeld_def claimView_def split: option.splits)

lemma claimKept_from_view:
  "claimView m = claimView r \<Longrightarrow> r_state m = r_state r \<Longrightarrow> claimKept m w \<Longrightarrow> claimKept r w"
  by (cases "r_queue m"; cases "r_queue r"; auto simp: claimKept_def claimView_def queueStateOf_def claimToken_def)

lemma disciplined_from_view:
  "claimView m = claimView r \<Longrightarrow> r_state m = r_state r \<Longrightarrow> r_runId m = r_runId r \<Longrightarrow>
   disciplined t m d \<Longrightarrow> disciplined t r d"
  using claimKept_from_view by (auto simp: disciplined_def writeDisciplined_def list_all_iff split: if_splits)

lemma decideReport_report:
  "decideReport now result fp dl pub t r = Decided d \<Longrightarrow>
   reportResult now t (reportTarget r result dl pub) fp result = Decided d"
  by (auto simp: decideReport_def split: if_splits)

interpretation success2: cleanup_decider "decideReport now result fp dl pub" for now result fp dl pub
proof unfold_locales
  fix t r d
  assume a: "paired t r" "opHeld r" "closedIdle t" "decideReport now result fp dl pub t r = Decided d"
  let ?r = "reportTarget r result dl pub"
  have "disciplined t ?r d"
    using reportResult_disciplined [OF paired_evolves [OF a(1) reportTarget_evolves] _ a(3) decideReport_report [OF a(4)]]
      opHeld_view [OF reportTarget_view(1)] a(2) by blast
  then show "disciplined t r d"
    by (rule disciplined_from_view [rotated -1]) (simp_all add: reportTarget_evolves)
next
  fix t r d w
  assume a: "opHeld r" "decideReport now result fp dl pub t r = Decided d" "d_run d = Some w"
    "isLive (r_state r)" "\<not> isLive (r_state w)"
  have "opHeld (reportTarget r result dl pub)" using opHeld_view [OF reportTarget_view(1)] a(1) by blast
  from reportResult_claim(2) [OF this decideReport_report [OF a(2)] a(3)] a(4,5)
  have "r_credentialOperation (reportTarget r result dl pub) = None" by simp
  then show "r_credentialOperation r = None" by (simp add: reportTarget_def)
qed

subsection \<open>Loss\<close>

lemma claimKept_free:
  assumes "r_credentialOperation r = None" and "r_credentialOperation w = None"
    and "r_queue w = r_queue r \<or> queueStateOf w \<noteq> Some Claimed"
  shows "claimKept r w"
  using assms by (auto simp: claimKept_def opHeld_def queueStateOf_def claimToken_def)

lemma lostRun_kept: "r_credentialOperation r = None \<Longrightarrow> claimKept r (lostRun now r by')"
  by (rule claimKept_free) (auto simp: lostRun_def queueStateOf_def split: option.split)

lemma settleLost_fields:
  "d_run (settleLost now t r by') = Some (lostRun now r by')" "d_additionalRuns (settleLost now t r by') = []"
  "t_closedAt (d_task (settleLost now t r by')) = t_closedAt t"
  by (simp_all add: settleLost_def releaseLock_def)

lemma settleLostAndRetry_fields:
  assumes "settleLostAndRetry now (Decided lost) = Decided d" and "d_run lost = Some w" and "d_additionalRuns lost = []"
  shows "d_run d = Some w"
    and "d_additionalRuns d \<noteq> [] \<Longrightarrow> t_closedAt (d_task lost) = None \<Longrightarrow> t_closedAt (d_task d) = None"
  using assms sourceSuccessorInput_open [of lost w now]
  by (auto simp: settleLostAndRetry_def withSuccessor_def Let_def split: if_splits option.splits)

lemma loss_disciplined:
  assumes p: "paired t r" and live: "isLive (r_state r)" and idle: "closedIdle t"
    and op: "r_credentialOperation r = None" and act: "t_activeRunId t = Some (r_runId r)"
    and d: "settleLostAndRetry now (Decided (settleLost now t r by')) = Decided d"
  shows "disciplined t r d"
proof (rule settlesRun_disciplined [OF p live idle])
  note f = settleLostAndRetry_fields [OF d settleLost_fields(1,2)]
  show "settlesRun t r d"
    by (rule settleLostAndRetry_settles [OF settleLost_settles [OF live act] _ d]) (use p in \<open>simp add: paired_def\<close>)
  show "claimKept r w" if "d_run d = Some w" for w
  proof -
    from that f(1) have "w = lostRun now r by'" by (metis option.inject)
    then show ?thesis using lostRun_kept [OF op] by (rule ssubst)
  qed
  show "t_closedAt (d_task d) = None" if "d_additionalRuns d \<noteq> []"
    using f(2) [OF that] live_open [OF p live idle] settleLost_fields(3) by simp
qed

lemma expireLease_lost:
  assumes "expireLease now t r = Decided d"
  shows "d = settleLost now t r ByExpiry" "isLive (r_state r)" "r_credentialOperation r = None"
    "t_activeRunId t = Some (r_runId r)"
  using assms by (auto simp: expireLease_def split: if_splits option.splits)

lemma expireLeaseAndRetry_lost:
  assumes "expireLeaseAndRetry now t r = Decided d"
  shows "settleLostAndRetry now (Decided (settleLost now t r ByExpiry)) = Decided d" "isLive (r_state r)"
    "r_credentialOperation r = None" "t_activeRunId t = Some (r_runId r)"
proof -
  from assms obtain lost where l: "expireLease now t r = Decided lost"
    unfolding expireLeaseAndRetry_def by (rule settleLostAndRetry_loss)
  note e = expireLease_lost [OF l]
  from assms l e(1) show "settleLostAndRetry now (Decided (settleLost now t r ByExpiry)) = Decided d"
    by (simp add: expireLeaseAndRetry_def)
  show "isLive (r_state r)" "r_credentialOperation r = None" "t_activeRunId t = Some (r_runId r)" by (fact e)+
qed

interpretation expiry2: cleanup_decider "expireLeaseAndRetry now" for now
proof unfold_locales
  fix t r d
  assume a: "paired t r" "closedIdle t" "expireLeaseAndRetry now t r = Decided d"
  note l = expireLeaseAndRetry_lost [OF a(3)]
  show "disciplined t r d" by (rule loss_disciplined [OF a(1) l(2) a(2) l(3,4,1)])
qed (rule expireLeaseAndRetry_lost(3))

lemma retireSettledClaim_kept:
  assumes "retireSettledClaim now t r = Decided d" and "opHeld r" and "d_run d = Some w"
  shows "claimKept r w" and "r_state w = r_state r"
proof -
  have "(\<exists>es. w = r\<lparr>r_events := es\<rparr>) \<or>
      (r_credentialOperation r = None \<and> (\<exists>q. w = r\<lparr>r_queue := Some (q\<lparr>q_state := Retired\<rparr>)\<rparr>))"
    using assms(1,3)
    by (auto simp: retireSettledClaim_def taskAndRun_def Let_def split: option.splits if_splits intro: exI [where x = "r_events r"])
  then show "claimKept r w" "r_state w = r_state r"
  proof -
    assume "(\<exists>es. w = r\<lparr>r_events := es\<rparr>) \<or>
        (r_credentialOperation r = None \<and> (\<exists>q. w = r\<lparr>r_queue := Some (q\<lparr>q_state := Retired\<rparr>)\<rparr>))"
    then show "claimKept r w"
    proof (elim disjE exE conjE)
      fix es assume "w = r\<lparr>r_events := es\<rparr>"
      then show ?thesis using assms(2) by (intro claimKept_view) (simp_all add: claimView_def)
    next
      fix q assume "r_credentialOperation r = None" "w = r\<lparr>r_queue := Some (q\<lparr>q_state := Retired\<rparr>)\<rparr>"
      then show ?thesis by (intro claimKept_free) (simp_all add: queueStateOf_def)
    qed
  qed auto
qed

lemma retireSettledClaim_task: "retireSettledClaim now t r = Decided d \<Longrightarrow> d_task d = t"
  by (auto simp: retireSettledClaim_def taskAndRun_def Let_def split: option.splits if_splits)

lemma executorExited_lost:
  assumes "executorExited now t r c = Decided d"
  shows "d = settleLost now t r ByExecutor" "isLive (r_state r)" "r_credentialOperation r = None"
    "t_activeRunId t = Some (r_runId r)"
  using assms by (auto simp: executorExited_def split: if_splits)

interpretation exit2: cleanup_decider "\<lambda>t r. executorExitedAndRetry now t r c" for now c
proof unfold_locales
  fix t r d
  assume a: "paired t r" "opHeld r" "closedIdle t" "executorExitedAndRetry now t r c = Decided d"
  from executorExitedAndRetry_cases [OF a(4)] show "disciplined t r d"
  proof
    assume k: "retireSettledClaim now t r = Decided d"
    show ?thesis
      by (rule keepsLock_disciplined [OF retireSettledClaim_keeps [OF k] a(3)])
        (simp_all add: retireSettledClaim_task [OF k] retireSettledClaim_kept(1) [OF k a(2)])
  next
    assume "\<exists>lost. executorExited now t r c = Decided lost \<and> settleLostAndRetry now (Decided lost) = Decided d"
    then obtain lost where l: "executorExited now t r c = Decided lost"
      and d: "settleLostAndRetry now (Decided lost) = Decided d" by blast
    note e = executorExited_lost [OF l]
    from d e(1) have "settleLostAndRetry now (Decided (settleLost now t r ByExecutor)) = Decided d" by simp
    then show ?thesis by (rule loss_disciplined [OF a(1) e(2) a(3) e(3,4)])
  qed
next
  fix t r d w
  assume a: "opHeld r" "executorExitedAndRetry now t r c = Decided d" "d_run d = Some w"
    "isLive (r_state r)" "\<not> isLive (r_state w)"
  from executorExitedAndRetry_cases [OF a(2)] show "r_credentialOperation r = None"
    using retireSettledClaim_kept(2) [OF _ a(1,3)] a(4,5) executorExited_lost(3) by auto
qed

subsection \<open>Credential operations\<close>

lemma reserveCredentialOperation_kept:
  assumes "reserveCredentialOperation now t r fp i k = Decided d" and "d_run d = Some w"
  shows "claimKept r w" and "r_state w = r_state r"
proof -
  from assms have fp: "isClaimant r fp" and
    w: "\<exists>op. w = r\<lparr>r_credentialOperation := Some op, r_updatedAt := now\<rparr> \<and> co_claimFingerprint op = fp"
    by (auto simp: reserveCredentialOperation_def taskAndRun_def split: if_splits)
  from w fp show "claimKept r w" "r_state w = r_state r"
    by (auto simp: claimKept_def opHeld_def isClaimant_def queueStateOf_def claimToken_def)
qed

lemma reserveCredentialOperation_task: "reserveCredentialOperation now t r fp i k = Decided d \<Longrightarrow> d_task d = t"
  by (auto simp: reserveCredentialOperation_def taskAndRun_def split: if_splits)

interpretation reserving2: disciplined_decider "\<lambda>t r. reserveCredentialOperation now t r fp i k" for now fp i k
  by unfold_locales
    (metis keepsLock_disciplined reserveCredentialOperation_keeps reserveCredentialOperation_kept(1)
      reserveCredentialOperation_task)

lemma credentialApplied_kept:
  assumes "r_credentialOperation r = Some op" and "isClaimant r (co_claimFingerprint op)"
  shows "claimKept r (credentialApplied now r op fp change)"
  using assms
  by (cases change; cases "r_queue r")
    (auto simp: claimKept_def opHeld_def isClaimant_def queueStateOf_def claimToken_def)

lemma claimKept_settled:
  assumes "claimKept r m" and "claimView w = claimView m" and "r_credentialOperation m = None"
  shows "claimKept r w"
proof -
  have "r_credentialOperation w = None" "queueStateOf w = queueStateOf m" "claimToken w = claimToken m"
    using assms(2,3) by (cases "r_queue w"; cases "r_queue m"; simp add: claimView_def queueStateOf_def claimToken_def)+
  with assms(1) show ?thesis by (simp add: claimKept_def opHeld_def)
qed

lemma claimKept_updatedAt [simp]: "claimKept r (w\<lparr>r_updatedAt := u\<rparr>) = claimKept r w"
  by (simp add: claimKept_def opHeld_def queueStateOf_def claimToken_def isClaimant_def cong: option.case_cong)

text \<open>A change of an operation either writes the changed run, or, finishing a deferred completion,
  reports it over a run whose operation is gone.\<close>

lemma changeCredentialOperation_split:
  assumes "changeCredentialOperation now t r i fp change = Decided d"
  obtains op where "r_credentialOperation r = Some op" "isClaimant r (co_claimFingerprint op)"
    and "d = \<lparr>d_task = t, d_run = Some ((credentialApplied now r op fp change)\<lparr>r_updatedAt := now\<rparr>),
              d_additionalRuns = [], d_outbox = []\<rparr> \<or>
         (\<exists>a b (p :: credentialPendingResult). change = Finish a b \<and>
            reportResult now t (credentialApplied now r op fp change) (Some (cp_claimFingerprint p)) (cp_result p) = Decided d)"
proof -
  from assms obtain op where op: "r_credentialOperation r = Some op" "isClaimant r (co_claimFingerprint op)"
    and d: "(case (change, r_credentialPendingResult (credentialApplied now r op fp change)) of
        (Finish _ _, Some p) \<Rightarrow>
          reportResult now t (credentialApplied now r op fp change) (Some (cp_claimFingerprint p)) (cp_result p)
      | _ \<Rightarrow> taskAndRun t ((credentialApplied now r op fp change)\<lparr>r_updatedAt := now\<rparr>)) = Decided d"
    by (auto simp: changeCredentialOperation_def Let_def simp del: credentialApplied.simps credentialObjection.simps
        split: option.splits if_splits)
  show thesis
    by (rule that [OF op], cases change; cases "r_credentialPendingResult (credentialApplied now r op fp change)")
      (use d in \<open>auto simp: taskAndRun_def simp del: credentialApplied.simps\<close>)
qed

lemma changeCredentialOperation_kept:
  assumes "changeCredentialOperation now t r i fp change = Decided d"
  shows "d_run d = Some w \<Longrightarrow> claimKept r w"
    and "d_additionalRuns d \<noteq> [] \<Longrightarrow> t_closedAt (d_task d) = None"
    and "d_additionalRuns d = [] \<Longrightarrow> t_closedAt (d_task d) = t_closedAt t"
proof -
  from assms obtain op where op: "r_credentialOperation r = Some op" "isClaimant r (co_claimFingerprint op)"
    and d: "d = \<lparr>d_task = t, d_run = Some ((credentialApplied now r op fp change)\<lparr>r_updatedAt := now\<rparr>),
              d_additionalRuns = [], d_outbox = []\<rparr> \<or>
         (\<exists>a b (p :: credentialPendingResult). change = Finish a b \<and>
            reportResult now t (credentialApplied now r op fp change) (Some (cp_claimFingerprint p)) (cp_result p) = Decided d)"
    by (rule changeCredentialOperation_split)
  let ?m = "credentialApplied now r op fp change"
  note m = credentialApplied_kept [OF op, of now fp change]
  show "d_additionalRuns d \<noteq> [] \<Longrightarrow> t_closedAt (d_task d) = None"
    "d_additionalRuns d = [] \<Longrightarrow> t_closedAt (d_task d) = t_closedAt t"
    using d reportResult_kept(2,3) by (auto simp del: credentialApplied.simps)
  show "claimKept r w" if w: "d_run d = Some w"
    using d
  proof (elim disjE exE conjE)
    assume "d = \<lparr>d_task = t, d_run = Some (?m\<lparr>r_updatedAt := now\<rparr>), d_additionalRuns = [], d_outbox = []\<rparr>"
    with w have "w = ?m\<lparr>r_updatedAt := now\<rparr>" by simp
    then show ?thesis using m by (simp del: credentialApplied.simps)
  next
    fix a b and p :: credentialPendingResult
    assume f: "change = Finish a b" and rep: "reportResult now t ?m (Some (cp_claimFingerprint p)) (cp_result p) = Decided d"
    from f have free: "r_credentialOperation ?m = None" by simp
    then have "opHeld ?m" by (simp add: opHeld_def del: credentialApplied.simps)
    from reportResult_claim(3) [OF this rep w] show ?thesis by (rule claimKept_settled [OF m _ free])
  qed
qed

lemma changeCredentialOperation_disciplined:
  assumes "paired t r" "closedIdle t" "changeCredentialOperation now t r i fp change = Decided d"
  shows "disciplined t r d"
  by (rule cases_disciplined [OF assms(1,2) changeCredentialOperation_cases [OF assms(1,3)]
        changeCredentialOperation_kept [OF assms(3)]])

interpretation credential2: disciplined_decider "\<lambda>t r. changeCredentialOperation now t r i fp change" for now i fp change
  by unfold_locales (rule changeCredentialOperation_disciplined)

lemma decideTriagePublication_kept:
  "opHeld r \<Longrightarrow> decideTriagePublication now patch t r = Decided d \<Longrightarrow> d_run d = Some w \<Longrightarrow> claimKept r w"
  "decideTriagePublication now patch t r = Decided d \<Longrightarrow> d_task d = t"
  by (auto simp: claimView_def decideTriagePublication_def taskAndRun_def intro!: claimKept_view
      split: if_splits option.splits)

interpretation triage2: disciplined_decider "decideTriagePublication now patch" for now patch
  by unfold_locales
    (auto intro!: keepsLock_disciplined [OF decideTriagePublication_keeps] dest: decideTriagePublication_kept)

subsection \<open>Provider fallback\<close>

lemma requestRun_open:
  "requestRun input = Decided d \<Longrightarrow> t_closedAt (d_task d) = None \<and> Option.bind (ri_task input) t_closedAt = None"
  by (auto simp: requestRun_def requestMintInput_def requestBaseTask_def split: option.splits if_splits)

lemma successor_fields:
  assumes "successor now settled p why f = Decided d"
  shows "d_run d = d_run settled" "t_closedAt (d_task d) = None" "d_additionalRuns d \<noteq> []"
  using assms
  by (auto simp: successor_def decidedRun_def fallbackRequest_def split: option.splits outcome.splits dest: requestRun_open)

lemma settleProviderFallback_fields:
  assumes "settleProviderFallback now settled auth avail = Decided d"
  shows "d_run d = d_run settled" and "d = settled \<or> t_closedAt (d_task d) = None \<and> d_additionalRuns d \<noteq> []"
  using assms
  by (auto simp: settleProviderFallback_def decidedRun_def split: option.splits dest: successor_fields)

lemma reportResultWithFallback_split:
  assumes "reportResultWithFallback now t r result fp auth avail = Decided d"
  obtains settled where "reportResult now t r fp result = Decided settled"
    "settleProviderFallback now settled auth avail = Decided d"
  using assms by (auto simp: reportResultWithFallback_def split: outcome.splits)

lemma reportResultWithFallback_kept:
  assumes "opHeld r" and "reportResultWithFallback now t r result fp auth avail = Decided d"
  shows "d_run d = Some w \<Longrightarrow> claimKept r w"
    and "d_run d = Some w \<Longrightarrow> isLive (r_state r) \<Longrightarrow> \<not> isLive (r_state w) \<Longrightarrow> r_credentialOperation r = None"
    and "d_additionalRuns d \<noteq> [] \<Longrightarrow> t_closedAt (d_task d) = None"
    and "d_additionalRuns d = [] \<Longrightarrow> t_closedAt (d_task d) = t_closedAt t"
proof -
  from assms(2) obtain settled where s: "reportResult now t r fp result = Decided settled"
    and d: "settleProviderFallback now settled auth avail = Decided d" by (rule reportResultWithFallback_split)
  note f = settleProviderFallback_fields [OF d]
  note k = reportResult_claim [OF assms(1) s]
  show "claimKept r w" if "d_run d = Some w" using k(1) that f(1) by simp
  show "r_credentialOperation r = None" if "d_run d = Some w" "isLive (r_state r)" "\<not> isLive (r_state w)"
    using k(2) that f(1) by simp
  show "d_additionalRuns d \<noteq> [] \<Longrightarrow> t_closedAt (d_task d) = None"
    "d_additionalRuns d = [] \<Longrightarrow> t_closedAt (d_task d) = t_closedAt t"
    using f(2) reportResult_kept(2,3) [OF s] by (elim disjE; simp)+
qed

interpretation failure2: cleanup_decider "\<lambda>t r. decideFailureReport a now result fp t r q" for a now result fp q
proof unfold_locales
  fix t r d
  assume a: "paired t r" "opHeld r" "closedIdle t" "decideFailureReport a now result fp t r q = Decided d"
  note f = a(4) [unfolded decideFailureReport_def]
  from reportResultWithFallback_cases [OF a(1) f]
  have "keepsLock t r d \<or> (isLive (r_state r) \<and> settlesRun t r d)" by blast
  then show "disciplined t r d"
    using reportResultWithFallback_kept(1,3,4) [OF a(2) f] by (rule cases_disciplined [OF a(1,3)])
qed (auto simp: decideFailureReport_def dest: reportResultWithFallback_kept(2))

lemma decideFinish_split:
  assumes "decideFinish a now i fp restored at t r q = Decided d"
  obtains settled where "changeCredentialOperation now t r i fp (Finish restored at) = Decided settled"
    "d = settled \<or> (\<exists>auth avail. settleProviderFallback now settled auth avail = Decided d \<and>
       r_credentialPendingResult r \<noteq> None)"
  using assms by (auto simp: decideFinish_def split: outcome.splits option.splits if_splits)

interpretation finishing2: disciplined_decider "\<lambda>t r. decideFinish a now i fp restored at t r q"
  for a now i fp restored at q
proof unfold_locales
  fix t r d
  assume a: "paired t r" "closedIdle t" "decideFinish a now i fp restored at t r q = Decided d"
  from a(3) obtain settled where s: "changeCredentialOperation now t r i fp (Finish restored at) = Decided settled"
    and d: "d = settled \<or> (\<exists>auth avail. settleProviderFallback now settled auth avail = Decided d \<and>
       r_credentialPendingResult r \<noteq> None)" by (rule decideFinish_split)
  note k = changeCredentialOperation_kept [OF s]
  from d show "disciplined t r d"
  proof (elim disjE exE conjE)
    assume "d = settled"
    with changeCredentialOperation_disciplined [OF a(1,2) s] show ?thesis by simp
  next
    fix auth avail
    assume e: "settleProviderFallback now settled auth avail = Decided d" and "r_credentialPendingResult r \<noteq> None"
    with finish_pending_live [OF s] have live: "isLive (r_state r)" by blast
    from a(1) have tid: "r_task r = t_task t" by (simp add: paired_def)
    have st: "keepsLock t r settled \<or> settlesRun t r settled"
      using changeCredentialOperation_cases [OF a(1) s] by blast
    note f = settleProviderFallback_fields [OF e]
    from settleProviderFallback_settles [OF live tid st e] live
    have "keepsLock t r d \<or> (isLive (r_state r) \<and> settlesRun t r d)" by blast
    then show ?thesis
    proof (rule cases_disciplined [OF a(1,2)])
      show "claimKept r w" if "d_run d = Some w" for w using k(1) that f(1) by simp
    qed (use f(2) k(2,3) in auto)
  qed
qed

lemma rerouteQueuedRun_split:
  assumes "rerouteQueuedRun now t r cd auth avail = Decided d"
  obtains f p where "queueStateOf r = Some Queued" "d_run d = Some (reroutedRun now r f p)"
    "t_closedAt (d_task d) = None"
proof -
  from assms obtain f p where "queueStateOf r = Some Queued"
    "successor now \<lparr>d_task = t\<lparr>t_activeRunId := None, t_updatedAt := now\<rparr>,
          d_run = Some (reroutedRun now r f p), d_additionalRuns = [], d_outbox = []\<rparr>
          p ProviderCooldownReason f = Decided d"
    by (auto simp: rerouteQueuedRun_def split: if_splits option.splits)
  with that successor_fields(1,2) show thesis by fastforce
qed

lemma opHeld_queued: "opHeld r \<Longrightarrow> queueStateOf r \<noteq> Some Claimed \<Longrightarrow> r_credentialOperation r = None"
  by (auto simp: opHeld_def isClaimant_def queueStateOf_def split: option.splits)

lemma rerouteQueuedRun_disciplined:
  assumes "paired t r" "opHeld r" "closedIdle t" "rerouteQueuedRun now t r cd auth avail = Decided d"
  shows "disciplined t r d"
proof -
  from assms(4) obtain f p where x: "queueStateOf r = Some Queued" "d_run d = Some (reroutedRun now r f p)"
    "t_closedAt (d_task d) = None" by (rule rerouteQueuedRun_split)
  from x(1) opHeld_queued [OF assms(2)] have free: "r_credentialOperation r = None" by simp
  from assms(1) have tid: "r_task r = t_task t" by (simp add: paired_def)
  note st = rerouteQueuedRun_settles [OF tid assms(4)]
  show ?thesis
  proof (rule settlesRun_disciplined [OF assms(1) st(2) assms(3)])
    show "settlesRun t r d" using st(1) by (simp add: settlesRun_def)
    show "claimKept r w" if "d_run d = Some w" for w
    proof -
      from that x(2) have "w = reroutedRun now r f p" by (metis option.inject)
      then show ?thesis using free by (simp add: reroutedRun_def claimKept_free)
    qed
  qed (rule x(3))
qed

interpretation rerouting2: disciplined_decider "\<lambda>t r. rerouteQueuedRun now t r (cd r) (auth t r) avail"
  for now cd auth avail
  by unfold_locales (rule rerouteQueuedRun_disciplined)

subsection \<open>Deliveries\<close>

lemma minted_other:
  "paired t r \<Longrightarrow> mi_taskId m = t_task t \<Longrightarrow> t_runCount t \<le> t_runCount (mi_task m) \<Longrightarrow>
   r_runId (mintedRun m) \<noteq> r_runId r"
  using numbered_ne_next [of "t_task t" "t_runCount t" "r_runId r" "Suc (t_runCount (mi_task m))"]
  by (auto simp: paired_def)

text \<open>A minted run beside a rewrite of the given one.\<close>

lemma disciplined_minted:
  assumes "paired t r" "mi_taskId m = t_task t" "t_runCount t \<le> t_runCount (mi_task m)"
    and "set (writtenRuns d) \<subseteq> {mintedRun m, w}" "r_runId w = r_runId r" "claimKept r w"
    and "t_closedAt (d_task d) = None" "t_closedAt t = None"
  shows "disciplined t r d"
  using assms(4-) minted_other [OF assms(1-3)]
  by (auto simp: disciplined_def writeDisciplined_def closedKept_def closedIdle_def list_all_iff simp del: mintedRun_fields)

lemma advanceDelivery_split:
  assumes "advanceDelivery now t r ob auth = Decided d"
  shows "(keepsLock t r d \<and> t_closedAt (d_task d) = t_closedAt t \<and>
      (\<forall>w. d_run d = Some w \<longrightarrow> r_state w = r_state r \<and> claimView w = claimView r)) \<or>
    (\<exists>b why s dl m. requestRun (correctionRequest now t r b why) = Decided s \<and>
        d = s\<lparr>d_task := (d_task s)\<lparr>t_delivery := dl\<rparr>, d_run := Some r, d_additionalRuns := [m]\<rparr> \<and>
        d_run s = Some m)"
    and "t_closedAt t = None"
proof -
  from assms obtain b where b: "t_delivery t = Some b" and fresh: "\<not> deliveryStale t r b ob"
    by (auto simp: advanceDelivery_def split: if_splits option.splits)
  show "(keepsLock t r d \<and> t_closedAt (d_task d) = t_closedAt t \<and>
      (\<forall>w. d_run d = Some w \<longrightarrow> r_state w = r_state r \<and> claimView w = claimView r)) \<or>
    (\<exists>b why s dl m. requestRun (correctionRequest now t r b why) = Decided s \<and>
        d = s\<lparr>d_task := (d_task s)\<lparr>t_delivery := dl\<rparr>, d_run := Some r, d_additionalRuns := [m]\<rparr> \<and>
        d_run s = Some m)"
  proof (cases ob)
    case (ObsCorrection head why)
    with assms b fresh show ?thesis
      by (cases "requestRun (correctionRequest now t r b why)")
        (auto simp: advanceDelivery_def decidedRun_def keep_simps split: if_splits option.splits)
  qed (use assms b fresh in \<open>auto simp: advanceDelivery_def Let_def keep_simps rebind_def claimView_def split: if_splits\<close>)
  from assms show "t_closedAt t = None" by (auto simp: advanceDelivery_def split: if_splits)
qed

lemma advanceDelivery_disciplined:
  assumes "paired t r" "opHeld r" "closedIdle t" "advanceDelivery now t r ob auth = Decided d"
  shows "disciplined t r d"
  using advanceDelivery_split(1) [OF assms(4)]
proof (elim disjE exE conjE)
  assume k: "keepsLock t r d" "t_closedAt (d_task d) = t_closedAt t"
    "\<forall>w. d_run d = Some w \<longrightarrow> r_state w = r_state r \<and> claimView w = claimView r"
  show ?thesis
    by (rule keepsLock_disciplined [OF k(1) assms(3) k(2)], rule claimKept_view [OF assms(2)]) (use k(3) in auto)
next
  fix b why s dl m
  assume s: "requestRun (correctionRequest now t r b why) = Decided s"
    and d: "d = s\<lparr>d_task := (d_task s)\<lparr>t_delivery := dl\<rparr>, d_run := Some r, d_additionalRuns := [m]\<rparr>"
    and m: "d_run s = Some m"
  from s obtain work where sm: "s = mintRun (requestMintInput (correctionRequest now t r b why) work)"
    by (rule requestRun_Decided)
  with m have m': "m = mintedRun (requestMintInput (correctionRequest now t r b why) work)" by simp
  show ?thesis
    by (rule disciplined_minted [OF assms(1), where m = "requestMintInput (correctionRequest now t r b why) work" and w = r])
      (use requestRun_open [OF s] assms(2) advanceDelivery_split(2) [OF assms(4)] in
        \<open>simp_all add: d m' writtenRuns_def del: mintedRun_fields\<close>)
qed

interpretation delivery2: cleanup_decider "\<lambda>t r. advanceDelivery now t r ob (auth t r)" for now ob auth
proof unfold_locales
  fix t r d w
  assume a: "advanceDelivery now t r ob (auth t r) = Decided d" "d_run d = Some w"
    "isLive (r_state r)" "\<not> isLive (r_state w)"
  from a(1) have "r_state r = Finished"
    by (auto simp: advanceDelivery_def deliveryStale_def split: if_splits option.splits)
  with a(3) show "r_credentialOperation r = None" by (simp add: isLive_cases)
qed (rule advanceDelivery_disciplined)

subsection \<open>The cleanup reservation\<close>

context cleanup_decider begin

lemma cleanup_disciplined:
  assumes "paired t r" "opHeld r" "closedIdle t" and c: "withCleanup i r (decide t r) = Decided d"
  shows "disciplined t r d"
proof -
  from c obtain d0 where d0: "decide t r = Decided d0" by (rule withCleanup_Decided)
  note dis = decide_disciplined [OF assms(1-3) d0]
  show ?thesis
  proof (cases "d = d0")
    case True
    with dis show ?thesis by simp
  next
    case False
    with c d0 obtain n fp c where n: "d_run d0 = Some n" and need: "needsCleanup r (Some n)"
      and c: "reserveCredentialOperation (r_updatedAt n) (d_task d0) n fp i CredCleanup = Decided c"
      and d: "d = d0\<lparr>d_run := d_run c\<rparr>"
      by (auto simp: withCleanup_def split: option.splits if_splits outcome.splits)
    from c obtain op n' where n': "d_run c = Some n'" "n' = n\<lparr>r_credentialOperation := Some op, r_updatedAt := r_updatedAt n\<rparr>"
      "co_claimFingerprint op = fp" "isClaimant n fp"
      by (auto simp: reserveCredentialOperation_def taskAndRun_def split: if_splits)
    have wd: "writeDisciplined r n" using dis n by (simp add: disciplined_def writtenRuns_def)
    from n'(4) have "\<not> unclaimedRun n" by (auto simp: isClaimant_def unclaimedRun_def split: option.splits)
    with wd have same: "r_runId n = r_runId r" "claimKept r n" by (auto simp: writeDisciplined_def split: if_splits)
    have "r_credentialOperation r = None"
      using settles_free [OF assms(1,2) d0 n] need by (simp add: needsCleanup_def)
    with same n' have "claimKept r n'"
      by (auto simp: claimKept_def opHeld_def isClaimant_def queueStateOf_def claimToken_def)
    with same n' have "writeDisciplined r n'" by (simp add: writeDisciplined_def)
    with dis n n'(1) show ?thesis by (simp add: disciplined_def writtenRuns_def d)
  qed
qed

end

end
