(* ===== verification/Request_Discipline.thy ===== *)
theory Request_Discipline
  imports Claim_Discipline
begin

text \<open>
  The ownership contract of \<open>Claim_Discipline\<close> for the request callback: an admission mints unclaimed
  runs over open tasks, and where it cancels the predecessor it does so under the same rules.
\<close>

definition heldRequest :: "requestRunInput \<Rightarrow> bool" where
  "heldRequest input \<longleftrightarrow> optHolds opHeld (ri_activeRun input) \<and> optHolds closedIdle (ri_task input)"

definition disciplinedRequest :: "requestRunInput \<Rightarrow> decision \<Rightarrow> bool" where
  "disciplinedRequest input d \<longleftrightarrow>
     list_all (\<lambda>w. case ri_activeRun input of None \<Rightarrow> unclaimedRun w | Some a \<Rightarrow> writeDisciplined a w) (writtenRuns d) \<and>
     (case ri_task input of None \<Rightarrow> closedIdle (d_task d) | Some t \<Rightarrow> closedKept t (d_task d))"

lemma disciplinedRequest_active:
  "ri_task input = Some t \<Longrightarrow> ri_activeRun input = Some a \<Longrightarrow> disciplined t a d \<Longrightarrow> disciplinedRequest input d"
  by (simp add: disciplinedRequest_def disciplined_def)

lemma disciplinedRequest_cong [simp]:
  "disciplinedRequest (input\<lparr>ri_sourceRevision := x\<rparr>) d = disciplinedRequest input d"
  "disciplinedRequest (input\<lparr>ri_priority := y\<rparr>) d = disciplinedRequest input d"
  by (simp_all add: disciplinedRequest_def)

lemma onlyTask_disciplinedRequest:
  assumes "ri_task input = Some t" and "onlyTask t' = Decided d" and "closedKept t t'"
  shows "disciplinedRequest input d"
  using assms by (auto simp: disciplinedRequest_def onlyTask_def)

lemma requestRun_disciplined:
  assumes p: "pairedRequest input" and d: "requestRun input = Decided d"
  shows "disciplinedRequest input d"
proof -
  from d obtain work where m: "d = mintRun (requestMintInput input work)" by (rule requestRun_Decided)
  note opened = requestRun_open [OF d]
  have "closedIdle (d_task d)" using opened by (simp add: closedIdle_def)
  moreover have "writeDisciplined a (mintedRun (requestMintInput input work))" if "ri_activeRun input = Some a" for a
  proof -
    from p that obtain t where "ri_task input = Some t" "paired t a" "ri_taskId input = t_task t"
      by (auto simp: pairedRequest_def split: option.splits)
    then show ?thesis using minted_other [of t a "requestMintInput input work"]
      by (simp add: writeDisciplined_def requestBaseTask_def del: mintedRun_fields)
  qed
  ultimately show ?thesis using opened
    by (auto simp: disciplinedRequest_def closedKept_def m writtenRuns_def simp del: mintedRun_fields split: option.splits)
qed

text \<open>Cancelling the predecessor and minting over its task, committed together.\<close>

lemma handover_disciplined:
  assumes p: "paired t a" and h: "opHeld a" "closedIdle t" and tid: "ri_taskId input = t_task t"
    and c: "cancelRun now t a remark i native = Decided c" and w: "d_run c = Some w"
    and n: "requestRun (input\<lparr>ri_task := Some (d_task c), ri_activeRun := None\<rparr>) = Decided n"
    and d: "writtenRuns d = writtenRuns n @ [w]" "d_task d = d_task n"
  shows "disciplined t a d"
proof -
  let ?input = "input\<lparr>ri_task := Some (d_task c), ri_activeRun := None\<rparr>"
  from n obtain work where m: "n = mintRun (requestMintInput ?input work)" by (rule requestRun_Decided)
  note st = cancelRun_settles [OF c p]
  have "r_runId w = r_runId a" "t_runCount (d_task c) = t_runCount t"
    using st(1) w run_evolves_same(1) by (auto simp: settles_def)
  then show ?thesis
    by (intro disciplined_minted [OF p, where m = "requestMintInput ?input work" and w = w])
      (use d m tid requestRun_open [OF n] live_open [OF p st(2) h(2)] cancelRun_free(2) [OF c h(1) w] in
        \<open>simp_all add: requestBaseTask_def writtenRuns_def del: mintedRun_fields\<close>)
qed

lemma cancelThenRequest_disciplined:
  assumes "paired t a" "opHeld a" "closedIdle t" "ri_taskId input = t_task t"
    and d: "cancelThenRequest (cancelRun now t a remark i native) input = Decided d"
  shows "disciplined t a d"
proof -
  from d obtain c n w where c: "cancelRun now t a remark i native = Decided c" and w: "d_run c = Some w"
    and n: "requestRun (input\<lparr>ri_task := Some (d_task c), ri_activeRun := None\<rparr>) = Decided n"
    and dn: "d = n\<lparr>d_additionalRuns := [w], d_outbox := d_outbox c @ d_outbox n\<rparr>"
    by (auto simp: cancelThenRequest_def decidedRun_def split: outcome.splits option.splits)
  from n have "d_additionalRuns n = []" by (rule requestRun_Decided) (simp add: mintRun_def Let_def)
  then show ?thesis
    by (intro handover_disciplined [OF assms(1-4) c w n]) (simp_all add: dn writtenRuns_def)
qed

lemma labelHandoff_disciplined:
  assumes "paired t a" "opHeld a" "closedIdle t" "ri_taskId input = t_task t"
    and d: "labelHandoff input t a = Decided d"
  shows "disciplined t a d"
proof -
  let ?c = "cancelRun (ri_now input) t a
      (Some (''Authorized label provider handoff to '' @ ri_pipeline input)) None None"
  from d obtain c n w where c: "?c = Decided c" and w: "d_run c = Some w"
    and n: "requestRun (input\<lparr>ri_task := Some (d_task c), ri_activeRun := None\<rparr>) = Decided n"
    and dn: "d = n\<lparr>d_additionalRuns := [w]\<rparr>"
    by (auto simp: labelHandoff_def decidedRun_def split: outcome.splits option.splits)
  from n have "d_additionalRuns n = []" by (rule requestRun_Decided) (simp add: mintRun_def Let_def)
  then show ?thesis
    by (intro handover_disciplined [OF assms(1-4) c w n]) (simp_all add: dn writtenRuns_def)
qed

lemma heldRequestD:
  "heldRequest input \<Longrightarrow> ri_activeRun input = Some a \<Longrightarrow> opHeld a"
  "heldRequest input \<Longrightarrow> ri_task input = Some t \<Longrightarrow> closedIdle t"
  by (simp_all add: heldRequest_def)

lemma revisionOrdering_task:
  assumes "revisionOrdering task revn = Some (Decided d)"
  obtains t t' where "task = Some t" "onlyTask t' = Decided d" "t_closedAt t' = t_closedAt t"
    "t_runCount t' = t_runCount t" "t_activeRunId t' = t_activeRunId t"
proof -
  from assms obtain t where t: "task = Some t"
    by (auto simp: revisionOrdering_def split: option.splits)
  with assms have "\<exists>t'. onlyTask t' = Decided d \<and> t_closedAt t' = t_closedAt t \<and>
      t_runCount t' = t_runCount t \<and> t_activeRunId t' = t_activeRunId t"
    by (auto simp: revisionOrdering_def split: option.splits if_splits)
  with t that show thesis by blast
qed

lemma closedKept_same:
  "closedIdle t \<Longrightarrow> t_closedAt t' = t_closedAt t \<Longrightarrow> t_runCount t' = t_runCount t \<Longrightarrow>
   t_activeRunId t' = t_activeRunId t \<Longrightarrow> closedKept t t'"
  by (simp add: closedKept_def closedIdle_def)

lemma requestRevisionRun_disciplined:
  assumes p: "pairedRequest input" and h: "heldRequest input" and d: "requestRevisionRun input revn = Decided d"
  shows "disciplinedRequest input d"
proof -
  let ?input = "input\<lparr>ri_sourceRevision := Some revn\<rparr>"
  consider (ordering) "revisionOrdering (ri_task input) revn = Some (Decided d)"
    | (request) "requestRun ?input = Decided d"
    | (desired) t where "ri_task input = Some t" "onlyTask (desiredTask (ri_now input) t revn) = Decided d"
    | (supersede) t a where "ri_task input = Some t" "ri_activeRun input = Some a"
        "cancelThenRequest (cancelRun (ri_now input) (desiredTask (ri_now input) t revn) a
           (Some ''Superseded by a newer source revision'') None None) ?input = Decided d"
    using d unfolding requestRevisionRun_def liveRun_def
    by (auto split: option.splits if_splits)
  then show ?thesis
  proof cases
    case ordering
    then obtain t t' where t: "ri_task input = Some t" "onlyTask t' = Decided d" "t_closedAt t' = t_closedAt t"
      "t_runCount t' = t_runCount t" "t_activeRunId t' = t_activeRunId t" by (rule revisionOrdering_task)
    from closedKept_same [OF heldRequestD(2) [OF h t(1)] t(3-5)]
    show ?thesis by (rule onlyTask_disciplinedRequest [OF t(1,2)])
  next
    case request
    then show ?thesis using requestRun_disciplined [of ?input] p by simp
  next
    case desired
    have "closedKept t (desiredTask (ri_now input) t revn)"
      by (rule closedKept_same [OF heldRequestD(2) [OF h desired(1)]]) (simp_all add: desiredTask_def)
    then show ?thesis by (rule onlyTask_disciplinedRequest [OF desired])
  next
    case supersede
    let ?t' = "desiredTask (ri_now input) t revn"
    note pa = pairedRequest_active [OF p supersede(1,2)]
    have same: "t_closedAt ?t' = t_closedAt t" by (simp add: desiredTask_def)
    have "disciplined ?t' a d"
      by (rule cancelThenRequest_disciplined [OF paired_cong [OF conjunct1 [OF pa]] heldRequestD(1) [OF h supersede(2)] _ _ supersede(3)])
        (use pa heldRequestD(2) [OF h supersede(1)] in \<open>simp_all add: closedIdle_def same\<close>)
    then have "disciplined t a d" using closedKept_cong(1) [OF same] by (simp add: disciplined_def)
    then show ?thesis by (rule disciplinedRequest_active [OF supersede(1,2)])
  qed
qed

lemma acceptRouting_disciplined:
  assumes "acceptRouting d req label = Decided d'" and "disciplinedRequest input d"
  shows "disciplinedRequest input d'"
proof -
  from assms(1) have same: "writtenRuns d' = writtenRuns d"
    "t_closedAt (d_task d') = t_closedAt (d_task d)" "t_runCount (d_task d') = t_runCount (d_task d)"
    "t_activeRunId (d_task d') = t_activeRunId (d_task d)"
    by (auto simp: acceptRouting_def decidedRun_def writtenRuns_def split: option.splits)
  with assms(2) show ?thesis
    by (simp add: disciplinedRequest_def closedKept_def closedIdle_def cong: option.case_cong)
qed

lemma rejectRouting_disciplined:
  assumes "heldRequest input" and "rejectRouting input req why = Decided d"
  shows "disciplinedRequest input d"
proof (cases "ri_task input")
  case (Some t)
  let ?t' = "t\<lparr>t_providerRouting := Some (req\<lparr>pr_reason := Some why\<rparr>), t_updatedAt := ri_now input\<rparr>"
  from assms(2) Some have "onlyTask ?t' = Decided d" by (simp add: rejectRouting_def)
  then show ?thesis
    by (rule onlyTask_disciplinedRequest [OF Some]) (rule closedKept_same [OF heldRequestD(2) [OF assms(1) Some]], simp_all)
qed (use assms in \<open>simp add: rejectRouting_def\<close>)

lemma settleRouting_disciplined:
  assumes h: "heldRequest input" and d: "settleRouting input req label out = Decided d"
    and out: "\<And>d'. out = Decided d' \<Longrightarrow> disciplinedRequest input d'"
  shows "disciplinedRequest input d"
  using d out acceptRouting_disciplined rejectRouting_disciplined [OF h]
  by (cases out) (auto simp: settleRouting_def)

lemma decideLabelProviderRequest_disciplined:
  assumes p: "pairedRequest input" and h: "heldRequest input"
    and d: "decideLabelProviderRequest input admitted label latest retained = Decided d"
  shows "disciplinedRequest input d"
  using decideLabelProviderRequest_cases [OF d]
proof (elim disjE exE conjE)
  fix t assume t: "ri_task input = Some t" "onlyTask t = Decided d"
  then show ?thesis using onlyTask_disciplinedRequest [OF t] heldRequestD(2) [OF h t(1)] by simp
next
  fix req why assume "rejectRouting input req why = Decided d"
  then show ?thesis by (rule rejectRouting_disciplined [OF h])
next
  fix req prio
  assume s: "settleRouting input req label (requestRun (input\<lparr>ri_priority := prio\<rparr>)) = Decided d"
  show ?thesis
    using requestRun_disciplined [of "input\<lparr>ri_priority := prio\<rparr>"] p by (intro settleRouting_disciplined [OF h s]) simp
next
  fix req prio t a
  assume ta: "ri_task input = Some t" "ri_activeRun input = Some a"
    and s: "settleRouting input req label (labelHandoff (input\<lparr>ri_priority := prio\<rparr>) t a) = Decided d"
  note pa = pairedRequest_active [OF p ta]
  show ?thesis
  proof (rule settleRouting_disciplined [OF h s])
    fix d' assume l: "labelHandoff (input\<lparr>ri_priority := prio\<rparr>) t a = Decided d'"
    have "disciplined t a d'"
      by (rule labelHandoff_disciplined [OF conjunct1 [OF pa] heldRequestD(1) [OF h ta(2)] heldRequestD(2) [OF h ta(1)] _ l])
        (simp add: pa)
    then show "disciplinedRequest input d'" by (rule disciplinedRequest_active [OF ta])
  qed
qed

lemma replaceQueued_disciplined:
  assumes p: "pairedRequest args" and h: "heldRequest args" and d: "replaceQueued input args runId = Decided d"
  shows "disciplinedRequest args d"
proof -
  let ?n = "Some (''queued provider switch to '' @ rq_pipeline input)"
  from d obtain t a where ta: "ri_task args = Some t" "ri_activeRun args = Some a"
    and c: "cancelThenRequest (cancelRun (ri_now args) t a ?n None None) args = Decided d"
    by (auto simp: replaceQueued_def split: option.splits if_splits)
  note pa = pairedRequest_active [OF p ta]
  have "disciplined t a d"
    by (rule cancelThenRequest_disciplined [OF conjunct1 [OF pa] heldRequestD(1) [OF h ta(2)] heldRequestD(2) [OF h ta(1)] _ c])
      (simp add: pa)
  then show ?thesis by (rule disciplinedRequest_active [OF ta])
qed

lemma decideRequest_disciplined:
  assumes "pairedRequest (requestArgs now input st)" and "heldRequest (requestArgs now input st)"
    and "decideRequest now input st = Decided d"
  shows "disciplinedRequest (requestArgs now input st) d"
  using assms requestPrecheck_refuses requestRun_disciplined requestRevisionRun_disciplined
    replaceQueued_disciplined decideLabelProviderRequest_disciplined
  unfolding decideRequest_def Let_def by (auto split: option.splits)

end
