(* ===== verification/Lock_Machine.thy ===== *)
theory Lock_Machine
  imports Store_Operations
begin

text \<open>
  The abstract specification of the task mutex: a lock per task that hands out tickets. A ticket is
  new when it is issued, only the holder can leave, and a handover retires the old holder and
  issues the next ticket at once. The store refines it: its tickets are the run identifiers and
  the holder is the task's active run.
\<close>

record ticketLock =
  tl_issued :: "string set"
  tl_holder :: "string option"

inductive lockStep :: "(taskId \<Rightarrow> ticketLock) \<Rightarrow> (taskId \<Rightarrow> ticketLock) \<Rightarrow> bool" where
  lock_stutter: "lockStep L L"
| lock_release: "tl_holder (L tid) = Some i \<Longrightarrow> lockStep L (L(tid := (L tid)\<lparr>tl_holder := None\<rparr>))"
| lock_acquire: "tl_holder (L tid) = None \<Longrightarrow> i \<notin> tl_issued (L tid) \<Longrightarrow>
    lockStep L (L(tid := \<lparr>tl_issued = insert i (tl_issued (L tid)), tl_holder = Some i\<rparr>))"
| lock_handover: "tl_holder (L tid) = Some j \<Longrightarrow> i \<notin> tl_issued (L tid) \<Longrightarrow>
    lockStep L (L(tid := \<lparr>tl_issued = insert i (tl_issued (L tid)), tl_holder = Some i\<rparr>))"

inductive_cases lockStepE: "lockStep L L'"

text \<open>The abstraction: the tickets of a task are its stored runs.\<close>

definition absLock :: "memStore \<Rightarrow> taskId \<Rightarrow> ticketLock" where
  "absLock s tid =
     \<lparr>tl_issued = {i. \<exists>r. map_of (ms_runs s) i = Some r \<and> r_task r = tid},
      tl_holder = (if validTaskId tid then Option.bind (readTask s tid) (\<lambda>v. t_activeRunId (vt_task v)) else None)\<rparr>"

lemma absLock_cong:
  assumes "ms_tasks s' = ms_tasks s"
    and "\<And>i. map_option r_task (map_of (ms_runs s') i) = map_option r_task (map_of (ms_runs s) i)"
  shows "absLock s' = absLock s"
proof
  fix tid
  have "(\<exists>r. map_of (ms_runs s') i = Some r \<and> r_task r = tid) \<longleftrightarrow>
      (\<exists>r. map_of (ms_runs s) i = Some r \<and> r_task r = tid)" for i
    using assms(2) [of i] by (cases "map_of (ms_runs s') i"; cases "map_of (ms_runs s) i") auto
  with assms(1) show "absLock s' tid = absLock s tid" by (simp add: absLock_def readTask_def)
qed

lemma absLock_update:
  assumes "map_of (ms_runs s) i = Some r" "r_task r' = r_task r"
    and "ms_runs s' = AList.update i r' (ms_runs s)" "ms_tasks s' = ms_tasks s"
  shows "absLock s' = absLock s"
  by (rule absLock_cong) (use assms in \<open>simp_all add: js.get_put\<close>)

lemma lockStep_same: "absLock s' = absLock s \<Longrightarrow> lockStep (absLock s) (absLock s')"
  using lock_stutter by metis

subsection \<open>Applying a decision\<close>

text \<open>A run the store did not hold is the one the lock moves to.\<close>

lemma applied_new_is_active:
  assumes A: "applied s s' tid n act K d revn" and w: "w \<in> set (writtenRuns d)"
    and new: "map_of (ms_runs s) (r_runId w) = None"
  shows "t_activeRunId (d_task d) = Some (r_runId w)"
proof -
  have "published K d w" using applied_safe [OF A] w by (simp add: safe_def list_all_iff)
  moreover have "\<not> list_ex (\<lambda>r. run_evolves r w \<and> concluded d r w) K"
    using new applied_known [OF A] run_evolves_same(1) by (auto simp: list_ex_iff readRun_def)
  ultimately have "isLive (r_state w)" by (simp add: published_def)
  with applied_written_ok [OF A w] show ?thesis by (simp add: writeOk_def)
qed

text \<open>The lock moves onto a stored run only by staying there.\<close>

lemma applied_stored_active:
  assumes A: "applied s s' tid n act K d revn" and a: "t_activeRunId (d_task d) = Some i"
    and r: "map_of (ms_runs s) i = Some r"
  shows "act = Some i"
proof (rule ccontr)
  assume ne: "act \<noteq> Some i"
  with a applied_safe [OF A] have "i \<in> set (writtenIds d)" by (auto simp: safe_def lockMoves_def)
  then obtain w where w: "w \<in> set (writtenRuns d)" "r_runId w = i" by (auto simp: writtenIds_def)
  with a applied_written_ok [OF A w(1)] have live: "isLive (r_state w)" and tid: "r_task w = tid" by (simp_all add: writeOk_def)
  from w(2) r have ev: "run_evolves r w" by (intro applied_written_evolves [OF A w(1)]) simp
  have "isLive (r_state r)" using run_evolvesD(3) [OF ev] live by (cases "isLive (r_state r)") simp_all
  moreover have "r_task r = tid" using run_evolves_same(2) [OF ev] tid by simp
  ultimately show False using applied_stored_of_task(3) [OF A] r ne by (simp add: readRun_def)
qed

lemma applied_holder:
  assumes A: "applied s s' tid n act K d revn"
  shows "tl_holder (absLock s tid) = act" "tl_holder (absLock s' tid) = t_activeRunId (d_task d)"
proof -
  show "tl_holder (absLock s tid) = act"
    using applied_snap [OF A] applied_tid(2) [OF A]
    by (auto simp: absLock_def snapshotOf_def split: option.splits)
  show "tl_holder (absLock s' tid) = t_activeRunId (d_task d)"
    using applied_tasks [OF A] applied_tid(2) [OF A] by (simp add: absLock_def readTask_def)
qed

lemma applied_issued:
  assumes A: "applied s s' tid n act K d revn"
  shows "tl_issued (absLock s' tid) =
    tl_issued (absLock s tid) \<union> {r_runId w |w. w \<in> set (writtenRuns d) \<and> map_of (ms_runs s) (r_runId w) = None}"
    (is "?l = ?r")
proof (intro set_eqI iffI)
  fix i assume "i \<in> ?l"
  then obtain r where r: "map_of (ms_runs s') i = Some r" "r_task r = tid" by (auto simp: absLock_def)
  from A r(1) show "i \<in> ?r"
  proof (cases rule: applied_runs_cases)
    case written
    show ?thesis
    proof (cases "map_of (ms_runs s) i")
      case (Some x)
      with written have "run_evolves x r" by (intro applied_written_evolves [OF A written(1)]) simp
      then have "r_task x = tid" using r(2) run_evolves_same(2) by simp
      with Some show ?thesis by (auto simp: absLock_def)
    qed (use written in auto)
  next
    case kept
    with r show ?thesis by (auto simp: absLock_def)
  qed
next
  fix i assume "i \<in> ?r"
  then consider r where "map_of (ms_runs s) i = Some r" "r_task r = tid"
    | w where "w \<in> set (writtenRuns d)" "r_runId w = i" by (auto simp: absLock_def)
  then show "i \<in> ?l"
  proof cases
    case (1 r)
    obtain r' where "map_of (ms_runs s') i = Some r'" "run_evolves r r'" by (rule applied_kept_run_survives [OF A 1(1)])
    with 1(2) run_evolves_same(2) show ?thesis by (auto simp: absLock_def)
  next
    case (2 w)
    with applied_written_get [OF A 2(1)] applied_written_ok [OF A 2(1)] show ?thesis
      by (auto simp: absLock_def writeOk_def)
  qed
qed

lemma applied_elsewhere:
  assumes A: "applied s s' tid n act K d revn" and ne: "tid' \<noteq> tid"
  shows "absLock s' tid' = absLock s tid'"
proof -
  have "(\<exists>r. map_of (ms_runs s') i = Some r \<and> r_task r = tid') \<longleftrightarrow>
      (\<exists>r. map_of (ms_runs s) i = Some r \<and> r_task r = tid')" for i
  proof
    assume "\<exists>r. map_of (ms_runs s') i = Some r \<and> r_task r = tid'"
    then obtain r where r: "map_of (ms_runs s') i = Some r" "r_task r = tid'" by blast
    from A r(1) show "\<exists>r. map_of (ms_runs s) i = Some r \<and> r_task r = tid'"
    proof (cases rule: applied_runs_cases)
      case written
      with applied_written_ok [OF A written(1)] r(2) ne show ?thesis by (simp add: writeOk_def)
    qed (use r in blast)
  next
    assume "\<exists>r. map_of (ms_runs s) i = Some r \<and> r_task r = tid'"
    then obtain r where r: "map_of (ms_runs s) i = Some r" "r_task r = tid'" by blast
    obtain r' where "map_of (ms_runs s') i = Some r'" "run_evolves r r'" by (rule applied_kept_run_survives [OF A r(1)])
    with r(2) run_evolves_same(2) show "\<exists>r. map_of (ms_runs s') i = Some r \<and> r_task r = tid'" by auto
  qed
  moreover have "readTask s' tid' = readTask s tid'" if "validTaskId tid'"
    using applied_tasks [OF A] taskKey_inj [OF that applied_tid(2) [OF A]] ne by (auto simp: readTask_def)
  ultimately show ?thesis by (simp add: absLock_def)
qed

lemma applied_lockStep:
  assumes A: "applied s s' tid n act K d revn"
  shows "lockStep (absLock s) (absLock s')"
proof -
  let ?L = "absLock s" and ?new = "{r_runId w |w. w \<in> set (writtenRuns d) \<and> map_of (ms_runs s) (r_runId w) = None}"
  have upd: "absLock s' = ?L(tid := absLock s' tid)"
    using applied_elsewhere [OF A] by (auto simp: fun_eq_iff)
  note hold = applied_holder [OF A] and iss = applied_issued [OF A]
  show ?thesis
  proof (cases "?new = {}")
    case True
    then have same: "tl_issued (absLock s' tid) = tl_issued (?L tid)" unfolding iss by blast
    have "t_activeRunId (d_task d) = act \<or> (t_activeRunId (d_task d) = None \<and> act \<noteq> None)"
    proof (cases "t_activeRunId (d_task d)")
      case (Some i)
      show ?thesis
      proof (cases "map_of (ms_runs s) i")
        case None
        then have "i \<notin> set (writtenIds d)" using True by (auto simp: writtenIds_def)
        with Some applied_safe [OF A] show ?thesis by (auto simp: safe_def lockMoves_def)
      next
        case (Some r)
        with \<open>t_activeRunId (d_task d) = Some i\<close> applied_stored_active [OF A] show ?thesis by simp
      qed
    qed auto
    then show ?thesis
    proof
      assume "t_activeRunId (d_task d) = act"
      with hold same have "absLock s' tid = ?L tid" by simp
      then have "absLock s' = ?L" using upd by simp
      then show ?thesis by (rule lockStep_same)
    next
      assume n: "t_activeRunId (d_task d) = None \<and> act \<noteq> None"
      then obtain a where a: "tl_holder (?L tid) = Some a" using hold(1) by auto
      have "absLock s' tid = (?L tid)\<lparr>tl_holder := None\<rparr>" using hold(2) same n by simp
      with upd lock_release [where L = ?L, OF a] show ?thesis by simp
    qed
  next
    case False
    then obtain w where w: "w \<in> set (writtenRuns d)" "map_of (ms_runs s) (r_runId w) = None" by auto
    let ?i = "r_runId w"
    have act': "t_activeRunId (d_task d) = Some ?i" by (rule applied_new_is_active [OF A w])
    have only: "r_runId x = ?i" if "x \<in> set (writtenRuns d)" "map_of (ms_runs s) (r_runId x) = None" for x
      using applied_new_is_active [OF A that] act' by simp
    then have "?new = {?i}" using w by blast
    with iss hold(2) act' have "absLock s' tid = \<lparr>tl_issued = insert ?i (tl_issued (?L tid)), tl_holder = Some ?i\<rparr>" by simp
    moreover have fresh: "?i \<notin> tl_issued (?L tid)" using w(2) by (simp add: absLock_def)
    ultimately show ?thesis using upd lock_acquire [where L = ?L, OF _ fresh] lock_handover [where L = ?L, OF _ fresh]
      by (cases "tl_holder (?L tid)") simp_all
  qed
qed

end
