(* ===== verification/Claim_Invariant.thy ===== *)
theory Claim_Invariant
  imports Execution Request_Discipline Queue_Fairness Lock_Machine
begin

text \<open>
  Ownership as an invariant of the store: an outstanding credential operation belongs to the
  run's claimant, a closed task is idle, and no provider has more live claims than its ceiling.
  Along an execution a closed task stays closed without another run, and no step settles a live
  run over an operation it leaves outstanding. The interface \<open>ordered_op\<close> states this for one
  operation and is interpreted on each.
\<close>

definition claimInv :: "memStore \<Rightarrow> bool" where
  "claimInv s \<longleftrightarrow>
     (\<forall>i r. map_of (ms_runs s) i = Some r \<longrightarrow> opHeld r) \<and>
     (\<forall>k v. map_of (ms_tasks s) k = Some v \<longrightarrow> closedIdle (vt_task v)) \<and>
     (\<forall>p c. QUEUE_PIPELINE_MAX_LIVE_CLAIMS p = Some c \<longrightarrow> liveClaims p (allRuns s) \<le> c)"

definition closedStable :: "memStore \<Rightarrow> memStore \<Rightarrow> bool" where
  "closedStable s s' \<longleftrightarrow>
     (\<forall>k v. map_of (ms_tasks s) k = Some v \<longrightarrow> t_closedAt (vt_task v) \<noteq> None \<longrightarrow>
        (\<exists>v'. map_of (ms_tasks s') k = Some v' \<and> t_closedAt (vt_task v') = t_closedAt (vt_task v) \<and>
              t_runCount (vt_task v') = t_runCount (vt_task v)))"

definition pinned :: "memStore \<Rightarrow> memStore \<Rightarrow> bool" where
  "pinned s s' \<longleftrightarrow>
     (\<forall>i r r'. map_of (ms_runs s) i = Some r \<longrightarrow> map_of (ms_runs s') i = Some r' \<longrightarrow>
        isLive (r_state r) \<longrightarrow> \<not> isLive (r_state r') \<longrightarrow>
        r_credentialOperation r = None \<or> r_credentialOperation r' = None)"

text \<open>One step: runs stay pinned and the mutex moves as its specification allows.\<close>

definition stepwise :: "memStore \<Rightarrow> memStore \<Rightarrow> bool" where
  "stepwise s s' \<longleftrightarrow> pinned s s' \<and> lockStep (absLock s) (absLock s')"

definition orderly :: "memStore \<Rightarrow> memStore \<Rightarrow> bool" where
  "orderly s s' \<longleftrightarrow> claimInv s' \<and> closedStable s s' \<and> lockStep\<^sup>*\<^sup>* (absLock s) (absLock s')"

locale ordered_op =
  fixes operation :: "memStore \<Rightarrow> memStore"
  assumes op_orderly: "storeInv s \<Longrightarrow> claimInv s \<Longrightarrow> orderly s (operation s)"
    and op_stepwise: "storeInv s \<Longrightarrow> claimInv s \<Longrightarrow> stepwise s (operation s)"

lemma claimInvD:
  "claimInv s \<Longrightarrow> map_of (ms_runs s) i = Some r \<Longrightarrow> opHeld r"
  "claimInv s \<Longrightarrow> map_of (ms_tasks s) k = Some v \<Longrightarrow> closedIdle (vt_task v)"
  "claimInv s \<Longrightarrow> QUEUE_PIPELINE_MAX_LIVE_CLAIMS p = Some c \<Longrightarrow> liveClaims p (allRuns s) \<le> c"
  unfolding claimInv_def by blast+

lemma claimInv_empty: "claimInv emptyStore"
  by (simp add: claimInv_def emptyStore_def liveClaims_def allRuns_def)

lemma orderly_refl [simp]: "orderly s s \<longleftrightarrow> claimInv s"
  by (simp add: orderly_def closedStable_def)

lemma stepwise_refl [simp]: "stepwise s s"
  by (simp add: stepwise_def pinned_def lock_stutter)

lemma closedStable_trans: "closedStable a b \<Longrightarrow> closedStable b c \<Longrightarrow> closedStable a c"
  unfolding closedStable_def by metis

lemma orderly_trans: "orderly a b \<Longrightarrow> orderly b c \<Longrightarrow> orderly a c"
  unfolding orderly_def using closedStable_trans rtranclp_trans by metis

lemma orderlyD: "orderly s s' \<Longrightarrow> claimInv s'" "orderly s s' \<Longrightarrow> closedStable s s'"
  "orderly s s' \<Longrightarrow> lockStep\<^sup>*\<^sup>* (absLock s) (absLock s')"
  by (simp_all add: orderly_def)

subsection \<open>Counting claims\<close>

definition claimIds :: "string \<Rightarrow> memStore \<Rightarrow> string set" where
  "claimIds p s = {i. \<exists>r. map_of (ms_runs s) i = Some r \<and> r_pipeline r = p \<and> liveClaim r}"

lemma finite_claimIds [simp]: "finite (claimIds p s)"
  by (rule finite_subset [OF _ finite_dom_map_of [of "ms_runs s"]]) (auto simp: claimIds_def)

lemma count_items:
  "distinct (map fst xs) \<Longrightarrow> length (filter P (map snd xs)) = card {i. \<exists>r. map_of xs i = Some r \<and> P r}"
proof (induction xs)
  case (Cons x xs)
  let ?C = "\<lambda>ys. {i. \<exists>r. map_of ys i = Some r \<and> P r}"
  have fresh: "map_of xs (fst x) = None" using Cons.prems by (simp add: map_of_eq_None_iff)
  have fin: "finite (?C xs)" by (rule finite_subset [OF _ finite_dom_map_of [of xs]]) auto
  have "?C (x # xs) = (if P (snd x) then insert (fst x) (?C xs) else ?C xs)"
    using fresh by (cases x) auto
  moreover have "fst x \<notin> ?C xs" using fresh by simp
  moreover have "length (filter P (map snd xs)) = card (?C xs)" using Cons by simp
  ultimately show ?case using fin by (simp only: list.map filter.simps list.size) simp
qed simp

lemma liveClaims_card: "keysDistinct (ms_runs s) \<Longrightarrow> liveClaims p (allRuns s) = card (claimIds p s)"
  unfolding liveClaims_def allRuns_def claimIds_def keysDistinct_def by (rule count_items)

text \<open>An update under which every live claim was one before keeps the ceilings.\<close>

lemma claims_shrink:
  assumes "keysDistinct (ms_runs s)" "keysDistinct (ms_runs s')"
    and "\<And>i r'. map_of (ms_runs s') i = Some r' \<Longrightarrow> liveClaim r' \<Longrightarrow>
      \<exists>r. map_of (ms_runs s) i = Some r \<and> liveClaim r \<and> r_pipeline r = r_pipeline r'"
  shows "liveClaims p (allRuns s') \<le> liveClaims p (allRuns s)"
proof -
  have "claimIds p s' \<subseteq> claimIds p s" using assms(3) by (fastforce simp: claimIds_def)
  then show ?thesis unfolding liveClaims_card [OF assms(1)] liveClaims_card [OF assms(2)] by (rule card_mono [OF finite_claimIds])
qed

lemma claimInv_runs:
  assumes inv: "storeInv s" "claimInv s" and inv': "storeInv s'"
    and tasks: "ms_tasks s' = ms_tasks s" and lock: "absLock s' = absLock s"
    and held: "\<And>i r'. map_of (ms_runs s') i = Some r' \<Longrightarrow> opHeld r'"
    and claims: "\<And>i r'. map_of (ms_runs s') i = Some r' \<Longrightarrow> liveClaim r' \<Longrightarrow>
      \<exists>r. map_of (ms_runs s) i = Some r \<and> liveClaim r \<and> r_pipeline r = r_pipeline r'"
  shows "orderly s s'"
proof -
  have "liveClaims p (allRuns s') \<le> c" if "QUEUE_PIPELINE_MAX_LIVE_CLAIMS p = Some c" for p c
    using claims_shrink [OF storeInvD(5) [OF inv(1)] storeInvD(5) [OF inv'] claims] claimInvD(3) [OF inv(2) that]
    by (meson order_trans)
  then show ?thesis using held claimInvD(2) [OF inv(2)] tasks lock
    by (simp add: orderly_def claimInv_def closedStable_def)
qed

lemma orderly_cong:
  assumes "claimInv s" "ms_tasks s' = ms_tasks s" "ms_runs s' = ms_runs s"
  shows "orderly s s'" "stepwise s s'"
proof -
  have "absLock s' = absLock s" using assms(2,3) by (intro absLock_cong) simp_all
  then show "orderly s s'" "stepwise s s'"
    using assms lock_stutter [of "absLock s"]
    by (auto simp: orderly_def claimInv_def closedStable_def stepwise_def pinned_def allRuns_def)
qed

subsection \<open>Applying a disciplined decision\<close>

definition ownedBy :: "run list \<Rightarrow> decision \<Rightarrow> bool" where
  "ownedBy K d \<longleftrightarrow>
     list_all (\<lambda>w. unclaimedRun w \<or> list_ex (\<lambda>k. r_runId w = r_runId k \<and> claimKept k w) K) (writtenRuns d)"

definition keepsClosed :: "memStore \<Rightarrow> taskId \<Rightarrow> decision \<Rightarrow> bool" where
  "keepsClosed s tid d \<longleftrightarrow>
     (case readTask s tid of None \<Rightarrow> closedIdle (d_task d) | Some v \<Rightarrow> closedKept (vt_task v) (d_task d))"

lemma liveClaim_live: "liveClaim r \<longleftrightarrow> queueStateOf r = Some Claimed \<and> isLive (r_state r)"
  by (auto simp: liveClaim_def isLive_cases)

lemma unclaimedRun_free: "unclaimedRun w \<Longrightarrow> opHeld w \<and> \<not> liveClaim w \<and> r_credentialOperation w = None"
  by (simp add: unclaimedRun_def opHeld_def liveClaim_def queueStateOf_def)

lemma applied_owner:
  assumes A: "applied s s' tid n act K d revn" and o: "ownedBy K d" and w: "w \<in> set (writtenRuns d)"
  obtains "unclaimedRun w" | k where "map_of (ms_runs s) (r_runId w) = Some k" "claimKept k w" "run_evolves k w"
proof -
  from o w consider "unclaimedRun w" | k where "k \<in> set K" "r_runId w = r_runId k" "claimKept k w"
    by (auto simp: ownedBy_def list_all_iff list_ex_iff)
  then show thesis
  proof cases
    case 2
    then have k: "map_of (ms_runs s) (r_runId w) = Some k" using applied_known [OF A 2(1)] by (simp add: readRun_def)
    show thesis by (rule that(2) [OF k 2(3) applied_written_evolves [OF A w k]])
  qed (rule that(1))
qed

lemma applied_held:
  assumes A: "applied s s' tid n act K d revn" and o: "ownedBy K d" and c: "claimInv s"
    and r: "map_of (ms_runs s') i = Some r"
  shows "opHeld r"
  using A r
proof (cases rule: applied_runs_cases)
  case written
  from A o written(1) show ?thesis
    by (cases rule: applied_owner) (simp_all add: unclaimedRun_free claimKept_def)
qed (rule claimInvD(1) [OF c])

lemma applied_claims:
  assumes A: "applied s s' tid n act K d revn" and o: "ownedBy K d"
    and r: "map_of (ms_runs s') i = Some r" and live: "liveClaim r"
  shows "\<exists>x. map_of (ms_runs s) i = Some x \<and> liveClaim x \<and> r_pipeline x = r_pipeline r"
  using A r
proof (cases rule: applied_runs_cases)
  case written
  from A o written(1) show ?thesis
  proof (cases rule: applied_owner)
    case (2 k)
    have "isLive (r_state k)"
      using run_evolvesD(3) [OF 2(3)] live by (cases "isLive (r_state k)") (simp_all add: liveClaim_live)
    moreover have "r_pipeline k = r_pipeline r" using run_evolvesD(1) [OF 2(3)] by (simp add: sameIdentity_def)
    ultimately show ?thesis using 2 written(2) live by (auto simp: claimKept_def liveClaim_live)
  qed (use live unclaimedRun_free in blast)
qed (use live in blast)

lemma applied_pinned:
  assumes A: "applied s s' tid n act K d revn" and o: "ownedBy K d"
  shows "pinned s s'"
  unfolding pinned_def
proof (intro allI impI)
  fix i r r'
  assume r: "map_of (ms_runs s) i = Some r" and r': "map_of (ms_runs s') i = Some r'"
    and live: "isLive (r_state r)" "\<not> isLive (r_state r')"
  from A r' show "r_credentialOperation r = None \<or> r_credentialOperation r' = None"
  proof (cases rule: applied_runs_cases)
    case written
    from A o written(1) show ?thesis
    proof (cases rule: applied_owner)
      case (2 k)
      with r written(2) have "k = r" by (metis option.inject)
      with 2(2) live show ?thesis by (simp add: claimKept_def)
    qed (simp add: unclaimedRun_def)
  next
    case kept
    with r have "r' = r" by (metis option.inject)
    with live show ?thesis by simp
  qed
qed

lemma applied_orderly:
  assumes A: "applied s s' tid n act K d revn" and o: "ownedBy K d" and k: "keepsClosed s tid d" and c: "claimInv s"
  shows "orderly s s'"
proof -
  have inv': "storeInv s'" using applied_apply_keeps [OF A] by (simp add: keeps_def)
  have ceil: "liveClaims p (allRuns s') \<le> c'" if "QUEUE_PIPELINE_MAX_LIVE_CLAIMS p = Some c'" for p c'
    using claims_shrink [OF storeInvD(5) [OF applied_inv [OF A]] storeInvD(5) [OF inv'] applied_claims [OF A o]]
      claimInvD(3) [OF c that] by (meson order_trans)
  have idle: "closedIdle (d_task d)" using k by (auto simp: keepsClosed_def closedKept_def split: option.splits)
  have tasks: "closedIdle (vt_task v)" if "map_of (ms_tasks s') i = Some v" for i v
    using that applied_tasks [OF A] idle claimInvD(2) [OF c] by (auto split: if_splits)
  have "closedStable s s'" unfolding closedStable_def
  proof (intro allI impI)
    fix i v assume v: "map_of (ms_tasks s) i = Some v" and cl: "t_closedAt (vt_task v) \<noteq> None"
    show "\<exists>v'. map_of (ms_tasks s') i = Some v' \<and> t_closedAt (vt_task v') = t_closedAt (vt_task v) \<and>
        t_runCount (vt_task v') = t_runCount (vt_task v)"
      using v cl k applied_tasks [OF A, of i]
      by (cases "i = taskKey tid") (auto simp: keepsClosed_def readTask_def closedKept_def)
  qed
  with applied_held [OF A o c] tasks ceil applied_lockStep [OF A] show ?thesis by (simp add: orderly_def claimInv_def)
qed

lemma commitOutcome_orderly:
  assumes "storeInv s" "claimInv s" and "snapshotOf s tid n act K"
    and "\<And>d. out = Decided d \<Longrightarrow> safe tid n act K d \<and> ownedBy K d \<and> keepsClosed s tid d"
  shows "orderly s (fst (commitOutcome s out revn)) \<and> stepwise s (fst (commitOutcome s out revn))"
proof (cases out)
  case (Decided d)
  show ?thesis
  proof (cases "applyDecision s d revn")
    case (Inr s')
    with assms Decided have A: "applied s s' tid n act K d revn" by (simp add: applied_def)
    from applied_orderly [OF A] applied_pinned [OF A] applied_lockStep [OF A] assms Decided Inr show ?thesis
      by (simp add: commitOutcome_def stepwise_def)
  qed (use assms Decided in \<open>simp add: commitOutcome_def\<close>)
qed (use assms in \<open>simp_all add: commitOutcome_def\<close>)

subsection \<open>The run transactions\<close>

lemma disciplined_owned: "disciplined t r d \<Longrightarrow> ownedBy [r] d"
  by (auto simp: disciplined_def ownedBy_def writeDisciplined_def list_all_iff split: if_splits)

lemma transactRun_orderly:
  assumes inv: "storeInv s" "claimInv s"
    and some: "\<And>v r d. readRun s runId = Some r \<Longrightarrow> readTask s (r_task r) = Some v \<Longrightarrow> paired (vt_task v) r \<Longrightarrow>
      opHeld r \<Longrightarrow> closedIdle (vt_task v) \<Longrightarrow> decide (runSnapshot s runId ps sr) = Decided d \<Longrightarrow>
      safeFor (vt_task v) r d \<and> disciplined (vt_task v) r d"
    and none: "\<And>d. readRun s runId = None \<Longrightarrow> decide (runSnapshot s runId ps sr) \<noteq> Decided d"
  shows "orderly s (fst (transactRun s runId ps sr decide)) \<and> stepwise s (fst (transactRun s runId ps sr decide))"
proof (cases "readRun s runId")
  case None
  from none [OF None] have "fst (transactRun s runId ps sr decide) = s"
    by (auto simp: transactRun_def commitOutcome_def Let_def split: outcome.split)
  with inv show ?thesis by simp
next
  case (Some r)
  from inv(1) Some obtain v where v: "r_runId r = runId" "readTask s (r_task r) = Some v"
    "paired (vt_task v) r" "validTaskId (r_task r)" by (rule storeInv_run)
  have held: "opHeld r" using claimInvD(1) [OF inv(2)] Some by (simp add: readRun_def)
  have idle: "closedIdle (vt_task v)" using claimInvD(2) [OF inv(2)] v(2) by (simp add: readTask_def)
  show ?thesis unfolding transactRun_def Let_def
  proof (rule commitOutcome_orderly [OF inv snapshotOf_run [OF inv(1) Some v(2)]])
    fix d assume d: "decide (runSnapshot s runId ps sr) = Decided d"
    note sd = some [OF Some v(2,3) held idle d]
    note own = disciplined_owned [OF conjunct2 [OF sd]]
    from v(3) have "t_task (vt_task v) = r_task r" by (simp add: paired_def)
    with sd v(2) own show "safe (t_task (vt_task v)) (t_runCount (vt_task v)) (t_activeRunId (vt_task v)) [r] d \<and>
        ownedBy [r] d \<and> keepsClosed s (t_task (vt_task v)) d"
      by (simp add: safeFor_def keepsClosed_def disciplined_def)
  qed
qed

lemma onRun_orderly:
  assumes inv: "storeInv s" "claimInv s"
    and dec: "\<And>t r d q. paired t r \<Longrightarrow> opHeld r \<Longrightarrow> closedIdle t \<Longrightarrow>
      withCleanup cid r (decide t r q) = Decided d \<Longrightarrow> safeFor t r d \<and> disciplined t r d"
  shows "orderly s (fst (transactRun s runId ps sr (onRun cid decide))) \<and>
    stepwise s (fst (transactRun s runId ps sr (onRun cid decide)))"
  by (rule transactRun_orderly [OF inv]) (auto simp: onRun_def intro: dec [THEN conjunct1] dec [THEN conjunct2])

sublocale cleanup_decider \<subseteq> ord: ordered_op "\<lambda>s. fst (transactOnRun cid s runId decide)" for cid runId
proof -
  have "orderly s (fst (transactOnRun cid s runId decide)) \<and> stepwise s (fst (transactOnRun cid s runId decide))"
    if "storeInv s" "claimInv s" for s
    unfolding transactOnRun_def
    by (rule onRun_orderly [OF that]) (blast intro: cleanup_safe cleanup_disciplined)
  then show "ordered_op (\<lambda>s. fst (transactOnRun cid s runId decide))" by unfold_locales auto
qed

context disciplined_decider begin

lemma plain_orderly:
  assumes "storeInv s" "claimInv s"
  shows "orderly s (fst (transactRun s runId ps sr (onTaskAndRun decide))) \<and>
    stepwise s (fst (transactRun s runId ps sr (onTaskAndRun decide)))"
  by (rule transactRun_orderly [OF assms]) (auto simp: onTaskAndRun_def intro: decide_safe decide_disciplined)

end

interpretation beginOrd: ordered_op "\<lambda>s. fst (beginCredential now s runId fp i k)" for now runId fp i k
  by unfold_locales (simp_all add: beginCredential_def reserving2.plain_orderly)

interpretation changeOrd: ordered_op "\<lambda>s. fst (changeCredential now s runId i fp change)" for now runId i fp change
  by unfold_locales (simp_all add: changeCredential_def credential2.plain_orderly)

interpretation triageOrd: ordered_op "\<lambda>s. fst (recordTriagePublication now s runId patch)" for now runId patch
  by unfold_locales (simp_all add: recordTriagePublication_def triage2.plain_orderly)

lemma finishCredentialOperation_orderly:
  assumes "storeInv s" "claimInv s"
  shows "orderly s (fst (finishCredentialOperation a readNow now s runId i fp restored at)) \<and>
    stepwise s (fst (finishCredentialOperation a readNow now s runId i fp restored at))"
  unfolding finishCredentialOperation_def
  by (rule transactRun_orderly [OF assms]) (auto intro: finishing.decide_safe finishing2.decide_disciplined)

interpretation finishOrd: ordered_op "\<lambda>s. fst (finishCredentialOperation a readNow now s runId i fp restored at)"
  for a readNow now runId i fp restored at
  by unfold_locales (simp_all add: finishCredentialOperation_orderly)

lemma cancelUnclaimedBefore_orderly:
  assumes "storeInv s" "claimInv s"
  shows "orderly s (fst (cancelUnclaimedBefore now s runId notAfter remark issue)) \<and>
    stepwise s (fst (cancelUnclaimedBefore now s runId notAfter remark issue))"
  unfolding cancelUnclaimedBefore_def
  by (rule transactRun_orderly [OF assms]) (auto intro: unclaimed.decide_safe unclaimed2.decide_disciplined)

interpretation cancelUnclaimedOrd: ordered_op "\<lambda>s. fst (cancelUnclaimedBefore now s runId notAfter remark issue)"
  for now runId notAfter remark issue
  by unfold_locales (simp_all add: cancelUnclaimedBefore_orderly)

lemma rerouteOne_orderly:
  assumes "storeInv s" "claimInv s"
  shows "orderly s (fst (rerouteOne a ep now s runId)) \<and> stepwise s (fst (rerouteOne a ep now s runId))"
  unfolding rerouteOne_def
proof (rule transactRun_orderly [OF assms])
  fix v r d
  assume r: "readRun s runId = Some r" "readTask s (r_task r) = Some v" and p: "paired (vt_task v) r"
    "opHeld r" "closedIdle (vt_task v)"
    and d: "decideReroute a ep now (runSnapshot s runId (Some (fa_pipelines a)) None) = Decided d"
  then have "safeFor (vt_task v) r d" by (intro decideReroute_safe [OF _ _ _ d]) simp_all
  moreover from r d obtain cd auth avail where "rerouteQueuedRun now (vt_task v) r cd auth avail = Decided d"
    by (auto simp: decideReroute_def split: option.splits)
  ultimately show "safeFor (vt_task v) r d \<and> disciplined (vt_task v) r d"
    using rerouteQueuedRun_disciplined [OF p] by blast
qed (simp_all add: decideReroute_def)

interpretation rerouteOrd: ordered_op "\<lambda>s. fst (rerouteOne a ep now s runId)" for a ep now runId
  by unfold_locales (simp_all add: rerouteOne_orderly)

lemma report_orderly:
  assumes "storeInv s" "claimInv s"
  shows "orderly s (fst (report a readNow now s runId result fp cid dl pub)) \<and>
    stepwise s (fst (report a readNow now s runId result fp cid dl pub))"
proof (cases "a \<noteq> None \<and> \<not> rr_ok result")
  case True
  then obtain auth where "a = Some auth" "\<not> rr_ok result" by auto
  with onRun_orderly [OF assms, of cid "decideFailureReport auth now result fp"]
    failure.cleanup_safe failure2.cleanup_disciplined show ?thesis by (simp add: report_def)
next
  case False
  then have "report a readNow now s runId result fp cid dl pub =
      transactOnRun cid s runId (decideReport now result fp dl pub)"
    by (auto simp: report_def split: option.split)
  with success2.ord.op_orderly [OF assms] success2.ord.op_stepwise [OF assms] show ?thesis by simp
qed

interpretation reportOrd: ordered_op "\<lambda>s. fst (report a readNow now s runId result fp cid dl pub)"
  for a readNow now runId result fp cid dl pub
  by unfold_locales (simp_all add: report_orderly)

subsection \<open>The request transaction\<close>

lemma request_held:
  assumes inv: "storeInv s" "claimInv s" and tid: "validTaskId (rq_taskId input)"
  shows "heldRequest (requestArgs now input (requestSnapshot s (requestTx input) i))"
proof (cases "readTask s (rq_taskId input)")
  case None
  then show ?thesis by (simp add: heldRequest_def activeRunIn_def)
next
  case (Some v)
  have "closedIdle (vt_task v)" using claimInvD(2) [OF inv(2)] Some by (simp add: readTask_def)
  moreover have "opHeld a" if "activeRunIn s (Some v) = Some a" for a
  proof -
    have "map_of (ms_runs s) (r_runId a) = Some a"
      using activeRun_paired [OF inv(1) Some tid] that by (simp add: readRun_def)
    then show ?thesis by (rule claimInvD(1) [OF inv(2)])
  qed
  ultimately show ?thesis using Some by (cases "activeRunIn s (Some v)") (simp_all add: heldRequest_def)
qed

lemma disciplinedRequest_owned:
  "disciplinedRequest input d \<Longrightarrow> ownedBy (case ri_activeRun input of None \<Rightarrow> [] | Some a \<Rightarrow> [a]) d"
  by (auto simp: disciplinedRequest_def ownedBy_def writeDisciplined_def list_all_iff split: option.splits if_splits)

lemma recordBinding_orderly: "claimInv s \<Longrightarrow> claimInv (recordBinding s tx nb)"
  using orderly_cong(1) [of s "recordBinding s tx nb"] by (simp add: orderly_def)

lemma request_commit_orderly:
  fixes now i nb
  assumes inv: "storeInv s" "claimInv s" and tid: "validTaskId (rq_taskId input)"
  defines "st \<equiv> requestSnapshot s (requestTx input) i"
  defines "s1 \<equiv> recordBinding s (requestTx input) nb"
  shows "orderly s1 (fst (commitOutcome s1 (decideRequest now input st) revn)) \<and>
    stepwise s1 (fst (commitOutcome s1 (decideRequest now input st) revn))"
proof -
  let ?args = "requestArgs now input st"
  have s1: "storeInv s1" "claimInv s1"
    using keeps_cong [OF inv(1), of s1] outboxGrows_same [OF inv(1), of s1] recordBinding_orderly [OF inv(2)]
    by (simp_all add: keeps_def s1_def)
  show ?thesis
  proof (rule commitOutcome_orderly [OF s1])
    show "snapshotOf s1 (ri_taskId ?args) (case ri_task ?args of None \<Rightarrow> 0 | Some t \<Rightarrow> t_runCount t)
        (Option.bind (ri_task ?args) t_activeRunId) (case ri_activeRun ?args of None \<Rightarrow> [] | Some a \<Rightarrow> [a])"
      using request_snapshotOf [OF inv(1) tid, of now i] snapshotOf_cong [of s1 s] by (simp add: st_def s1_def)
  next
    fix d assume d: "decideRequest now input st = Decided d"
    note p = request_paired [OF inv(1) tid, of now i, folded st_def]
    note h = request_held [OF inv tid, of now i, folded st_def]
    note dis = decideRequest_disciplined [OF p h d]
    have "keepsClosed s1 (ri_taskId ?args) d"
      using dis by (auto simp: keepsClosed_def disciplinedRequest_def st_def s1_def readTask_def split: option.splits)
    with decideRequest_safe [OF p d] disciplinedRequest_owned [OF dis]
    show "safe (ri_taskId ?args) (case ri_task ?args of None \<Rightarrow> 0 | Some t \<Rightarrow> t_runCount t)
        (Option.bind (ri_task ?args) t_activeRunId) (case ri_activeRun ?args of None \<Rightarrow> [] | Some a \<Rightarrow> [a]) d \<and>
        ownedBy (case ri_activeRun ?args of None \<Rightarrow> [] | Some a \<Rightarrow> [a]) d \<and> keepsClosed s1 (ri_taskId ?args) d"
      by (simp add: safeRequest_def)
  qed
qed

text \<open>Whatever the outcome, the transaction leaves the tasks and runs of its commit.\<close>

lemma transactRequest_commit:
  obtains "fst (transactRequest s tx decide) = s"
  | i nb where "ms_tasks (fst (transactRequest s tx decide)) =
        ms_tasks (fst (commitOutcome (recordBinding s tx nb) (decide (requestSnapshot s tx i))
          (map_option vt_revision (readTask s (rx_taskId tx)))))"
      "ms_runs (fst (transactRequest s tx decide)) =
        ms_runs (fst (commitOutcome (recordBinding s tx nb) (decide (requestSnapshot s tx i))
          (map_option vt_revision (readTask s (rx_taskId tx)))))"
proof -
  let ?binding = "resolveRequestBinding (rx_requestId tx) (rx_requestBinding tx)
      (Option.bind (rx_requestBinding tx)
        (\<lambda>b. map_of (ms_requestBindings s) (bindingKeyOf (rx_taskId tx) (rb_bindingKey b))))"
  show thesis
  proof (cases ?binding)
    case (Inl e)
    then have "fst (transactRequest s tx decide) = s" by (simp add: transactRequest_def)
    then show thesis by (rule that(1))
  next
    case (Inr b)
    obtain i nb where b: "b = (i, nb)" by (cases b)
    let ?c = "commitOutcome (recordBinding s tx nb) (decide (requestSnapshot s tx i))
          (map_option vt_revision (readTask s (rx_taskId tx)))"
    obtain s' o' where c: "?c = (s', o')" by (cases ?c)
    have "fst (transactRequest s tx decide) = s \<or>
        ms_tasks (fst (transactRequest s tx decide)) = ms_tasks s' \<and>
        ms_runs (fst (transactRequest s tx decide)) = ms_runs s'"
      using Inr b c by (cases "decide (requestSnapshot s tx i)"; cases o') (auto simp: transactRequest_def Let_def)
    then show thesis using that(1) that(2) [of nb i] c by auto
  qed
qed

lemma orderly_same:
  assumes "ms_tasks a = ms_tasks s" "ms_runs a = ms_runs s" "ms_tasks b = ms_tasks s'" "ms_runs b = ms_runs s'"
  shows "orderly s s' \<Longrightarrow> orderly a b" "stepwise s s' \<Longrightarrow> stepwise a b"
proof -
  have lock: "absLock a = absLock s" "absLock b = absLock s'" by (rule absLock_cong; simp add: assms)+
  show "orderly s s' \<Longrightarrow> orderly a b"
    by (simp add: orderly_def claimInv_def closedStable_def allRuns_def lock assms)
  show "stepwise s s' \<Longrightarrow> stepwise a b" by (simp add: stepwise_def pinned_def lock assms)
qed

lemma request_orderly:
  assumes inv: "storeInv s" "claimInv s" and tid: "validTaskId (rq_taskId input)"
  shows "orderly s (fst (request z now s input)) \<and> stepwise s (fst (request z now s input))"
proof -
  let ?tx = "requestTx input"
  have "orderly s (fst (transactRequest s ?tx (decideRequest now input))) \<and>
      stepwise s (fst (transactRequest s ?tx (decideRequest now input)))"
  proof (cases rule: transactRequest_commit [of s ?tx "decideRequest now input"])
    case 1
    with inv show ?thesis by simp
  next
    case (2 i nb)
    note c = request_commit_orderly [OF inv tid, where i = i and nb = nb and now = now
        and revn = "map_option vt_revision (readTask s (rx_taskId ?tx))"]
    from c orderly_same [OF _ _ 2, of s "recordBinding s ?tx nb"] show ?thesis by simp
  qed
  with inv show ?thesis by (simp add: request_def)
qed

subsection \<open>The queue\<close>

lemma queue_update_orderly:
  assumes inv: "storeInv s" "claimInv s" "storeInv s'" and r: "map_of (ms_runs s) i = Some r"
    and s': "ms_runs s' = AList.update i r' (ms_runs s)" "ms_tasks s' = ms_tasks s"
    and r': "opHeld r'" "\<not> liveClaim r'" "r_state r' = r_state r" "r_task r' = r_task r"
  shows "orderly s s' \<and> stepwise s s'"
proof
  have get: "map_of (ms_runs s') j = (if j = i then Some r' else map_of (ms_runs s) j)" for j
    by (simp add: s' js.get_put)
  show "orderly s s'"
  proof (rule claimInv_runs [OF inv s'(2) absLock_update [OF r r'(4) s']])
    fix j x assume "map_of (ms_runs s') j = Some x"
    then show "opHeld x" using get r'(1) claimInvD(1) [OF inv(2)] by (cases "j = i") auto
  next
    fix j x assume x: "map_of (ms_runs s') j = Some x" "liveClaim x"
    then have "j \<noteq> i" using get r'(2) by (cases "j = i") auto
    with x get show "\<exists>r. map_of (ms_runs s) j = Some r \<and> liveClaim r \<and> r_pipeline r = r_pipeline x" by simp
  qed
  have "pinned s s'" unfolding pinned_def
  proof (intro allI impI)
    fix j a b
    assume a: "map_of (ms_runs s) j = Some a" "map_of (ms_runs s') j = Some b" "isLive (r_state a)" "\<not> isLive (r_state b)"
    then have "r_state b = r_state a" using get [of j] r r'(3) by (cases "j = i") auto
    with a(3,4) show "r_credentialOperation a = None \<or> r_credentialOperation b = None" by simp
  qed
  then show "stepwise s s'"
    using lockStep_same [OF absLock_update [OF r r'(4) s']] by (simp add: stepwise_def)
qed

lemma queued_free: "queueStateOf (r\<lparr>r_queue := Some (queuedQueue u), r_updatedAt := now\<rparr>) = Some Queued"
  by (simp add: queueStateOf_def queuedQueue_def)

lemma queued_again:
  assumes "r_credentialOperation r = None"
  shows "opHeld (r\<lparr>r_queue := Some (queuedQueue u), r_updatedAt := now\<rparr>)"
    and "\<not> liveClaim (r\<lparr>r_queue := Some (queuedQueue u), r_updatedAt := now\<rparr>)"
  using assms by (simp_all add: opHeld_def liveClaim_def queued_free)

interpretation enqueueOrd: ordered_op "\<lambda>s. enqueueRun s runId now" for runId now
proof -
  have "orderly s (enqueueRun s runId now) \<and> stepwise s (enqueueRun s runId now)"
    if inv: "storeInv s" "claimInv s" for s
  proof (cases "\<exists>r. map_of (ms_runs s) runId = Some r \<and> r_queue r = None")
    case True
    then obtain r where r: "map_of (ms_runs s) runId = Some r" "r_queue r = None" by blast
    then have "queueStateOf r \<noteq> Some Claimed" by (simp add: queueStateOf_def)
    then have free: "r_credentialOperation r = None" using opHeld_queued [OF claimInvD(1) [OF inv(2) r(1)]] by simp
    show ?thesis
      by (rule queue_update_orderly [OF inv enqueueOp.op_inv [OF inv(1)] r(1), where r' = "r\<lparr>r_queue := Some (queuedQueue None), r_updatedAt := now\<rparr>"])
        (use r queued_again [OF free] in \<open>simp_all add: enqueueRun_def\<close>)
  next
    case False
    then have "enqueueRun s runId now = s" by (auto simp: enqueueRun_def split: option.split)
    with inv show ?thesis by simp
  qed
  then show "ordered_op (\<lambda>s. enqueueRun s runId now)" by unfold_locales auto
qed

lemma releaseQueuedRunClaim_orderly:
  assumes inv: "storeInv s" "claimInv s"
  shows "orderly s (fst (releaseQueuedRunClaim s runId who token now until)) \<and>
    stepwise s (fst (releaseQueuedRunClaim s runId who token now until))"
proof (cases "snd (releaseQueuedRunClaim s runId who token now until)")
  case True
  then obtain r where r: "map_of (ms_runs s) runId = Some r" and free: "r_credentialOperation r = None"
    and s': "fst (releaseQueuedRunClaim s runId who token now until) =
      putRun s (r\<lparr>r_queue := Some (queuedQueue until), r_updatedAt := now\<rparr>)"
    by (auto simp: releaseQueuedRunClaim_def split: option.splits if_splits)
  have "r_runId r = runId" using storeInvD(2) [OF inv(1) r] by (simp add: runOk_def)
  then show ?thesis
    by (intro queue_update_orderly [OF inv releaseOp.op_inv [OF inv(1)] r, where r' = "r\<lparr>r_queue := Some (queuedQueue until), r_updatedAt := now\<rparr>"])
      (use queued_again [OF free] in \<open>simp_all add: s' putRun_def\<close>)
next
  case False
  then have "fst (releaseQueuedRunClaim s runId who token now until) = s"
    by (auto simp: releaseQueuedRunClaim_def split: option.splits if_splits)
  with inv show ?thesis by simp
qed

interpretation releaseOrd: ordered_op "\<lambda>s. fst (releaseQueuedRunClaim s runId who token now until)"
  for runId who token now until
  by unfold_locales (simp_all add: releaseQueuedRunClaim_orderly)

lemma belowCeilingD: "belowCeiling p n \<Longrightarrow> QUEUE_PIPELINE_MAX_LIVE_CLAIMS p = Some c \<Longrightarrow> n < c"
  by (simp add: belowCeiling_def)

lemma claimQueuedRun_fields:
  "r_pipeline (claimQueuedRun r input) = r_pipeline r"
  "r_credentialOperation (claimQueuedRun r input) = r_credentialOperation r"
  by (simp_all add: claimQueuedRun_def)

text \<open>A claim adds one live claim, to a provider that was below its ceiling.\<close>

lemma claim_claimIds:
  assumes "ms_runs s' = AList.update i (claimQueuedRun r input) (ms_runs s)"
  shows "claimIds p s' \<subseteq> (if p = r_pipeline r then insert i (claimIds p s) else claimIds p s)"
  using assms by (auto simp: claimIds_def js.get_put claimQueuedRun_fields split: if_splits)

lemma claim_ceiling:
  assumes "keysDistinct (ms_runs s)" "keysDistinct (ms_runs s')"
    and s': "ms_runs s' = AList.update i (claimQueuedRun r input) (ms_runs s)"
    and below: "belowCeiling (r_pipeline r) (liveClaims (r_pipeline r) (allRuns s))"
    and c: "QUEUE_PIPELINE_MAX_LIVE_CLAIMS p = Some c" and old: "liveClaims p (allRuns s) \<le> c"
  shows "liveClaims p (allRuns s') \<le> c"
proof (cases "p = r_pipeline r")
  case True
  have "card (claimIds p s') \<le> card (insert i (claimIds p s))"
    using claim_claimIds [OF s', of p] True by (intro card_mono) simp_all
  also have "\<dots> \<le> Suc (card (claimIds p s))" by (simp add: card_insert_if)
  also have "\<dots> \<le> c" using belowCeilingD [OF below] c True liveClaims_card [OF assms(1), of p] by simp
  finally show ?thesis using liveClaims_card [OF assms(2)] by simp
next
  case False
  have "card (claimIds p s') \<le> card (claimIds p s)"
    using claim_claimIds [OF s', of p] False by (intro card_mono) simp_all
  with old show ?thesis using liveClaims_card [OF assms(1)] liveClaims_card [OF assms(2)] by simp
qed

lemma storeClaimQueuedRun_split:
  obtains "fst (storeClaimQueuedRun s pipelines input) = s"
  | r where "r \<in> set (allRuns s)" "isQueueAdmissionCandidate r (Some (ci_now input))"
      "belowCeiling (r_pipeline r) (liveClaims (r_pipeline r) (allRuns s))"
      "ms_runs (fst (storeClaimQueuedRun s pipelines input)) = AList.update (r_runId r) (claimQueuedRun r input) (ms_runs s)"
      "ms_tasks (fst (storeClaimQueuedRun s pipelines input)) = ms_tasks s"
proof -
  let ?eligible = "filter (\<lambda>p. \<not> providerIsCoolingDown
      (map_option cooldownDocOf (map_of (ms_providerCooldowns s) p)) (ci_now input)) pipelines"
  show thesis
  proof (cases "selectFairQueuedRun (allRuns s) (allRuns s) ?eligible (Some (ci_now input)) (ms_priorityPositions s)")
    case None
    then show thesis by (intro that(1)) (simp add: storeClaimQueuedRun_def Let_def)
  next
    case (Some r)
    note sel = selectFairQueuedRun_in [OF Some] selectFair_some(2) [OF Some]
    show thesis
      by (rule that(2) [of r]) (use sel Some in \<open>simp_all add: storeClaimQueuedRun_def Let_def split: option.split\<close>)
  qed
qed

lemma storeClaimQueuedRun_orderly:
  assumes inv: "storeInv s" "claimInv s"
  shows "orderly s (fst (storeClaimQueuedRun s pipelines input)) \<and> stepwise s (fst (storeClaimQueuedRun s pipelines input))"
proof (cases rule: storeClaimQueuedRun_split [of s pipelines input])
  case 1
  with inv show ?thesis by simp
next
  case (2 r)
  let ?s' = "fst (storeClaimQueuedRun s pipelines input)"
  let ?r' = "claimQueuedRun r input"
  have inv': "storeInv ?s'" by (rule claimOp.op_inv [OF inv(1)])
  have st: "map_of (ms_runs s) (r_runId r) = Some r" by (rule stored_run [OF inv(1) 2(1)])
  have get: "map_of (ms_runs ?s') j = (if j = r_runId r then Some ?r' else map_of (ms_runs s) j)" for j
    by (simp add: 2(4) js.get_put)
  have free: "opHeld ?r'" using 2(2) by (simp add: isQueueAdmissionCandidate_def opHeld_def claimQueuedRun_fields)
  have held: "opHeld x" if "map_of (ms_runs ?s') j = Some x" for j x
    using that get free claimInvD(1) [OF inv(2)] by (cases "j = r_runId r") auto
  have ceil: "liveClaims p (allRuns ?s') \<le> c" if "QUEUE_PIPELINE_MAX_LIVE_CLAIMS p = Some c" for p c
    by (rule claim_ceiling [OF storeInvD(5) [OF inv(1)] storeInvD(5) [OF inv'] 2(4,3) that claimInvD(3) [OF inv(2) that]])
  have lock: "absLock ?s' = absLock s" by (rule absLock_update [OF st _ 2(4,5)]) (simp add: claimQueuedRun_def)
  have "orderly s ?s'"
    using held ceil claimInvD(2) [OF inv(2)] 2(5) lock by (simp add: orderly_def claimInv_def closedStable_def)
  moreover have "pinned s ?s'" unfolding pinned_def
  proof (intro allI impI)
    fix j a b
    assume a: "map_of (ms_runs s) j = Some a" "map_of (ms_runs ?s') j = Some b" "isLive (r_state a)" "\<not> isLive (r_state b)"
    then have "r_state b = r_state a" using get [of j] st by (cases "j = r_runId r") auto
    with a(3,4) show "r_credentialOperation a = None \<or> r_credentialOperation b = None" by simp
  qed
  moreover have "lockStep (absLock s) (absLock ?s')"
    by (rule lockStep_same [OF lock])
  ultimately show ?thesis by (simp add: stepwise_def)
qed

interpretation claimOrd: ordered_op "\<lambda>s. fst (storeClaimQueuedRun s pipelines input)" for pipelines input
  by unfold_locales (simp_all add: storeClaimQueuedRun_orderly)

subsection \<open>Compare and set\<close>

locale closing_decider = task_decider +
  assumes decide_closed: "decide (Some v) a = Decided d \<Longrightarrow> closedIdle (vt_task v) \<Longrightarrow>
      (t_activeRunId (vt_task v) \<noteq> None \<longrightarrow> liveRun a \<noteq> None) \<Longrightarrow> closedKept (vt_task v) (d_task d)"

text \<open>A task whose revision is unchanged has not changed at any moment in between.\<close>

lemma unchanged_between:
  assumes "keeps a b" "keeps b c" and "readTask a tid = Some v"
    and "map_option vt_revision (readTask c tid) = Some (vt_revision v)"
  shows "readTask b tid = Some v" "readTask c tid = Some v"
proof -
  from assms(1,3) obtain x where x: "readTask b tid = Some x" "taskEvolves v x"
    unfolding keeps_def evolves_def readTask_def by blast
  from assms(2) x(1) obtain y where y: "readTask c tid = Some y" "taskEvolves x y"
    unfolding keeps_def evolves_def readTask_def by blast
  from y(1) assms(4) have "vt_revision y = vt_revision v" by simp
  with x(2) y(2) have "x = v \<and> y = v" by (auto simp: taskEvolves_def)
  with x(1) y(1) show "readTask b tid = Some v" "readTask c tid = Some v" by simp_all
qed

context closing_decider begin

lemma once_orderly:
  assumes inv: "storeInv s" "claimInv s" and tid: "validTaskId tid"
    and env: "\<And>x j. storeInv x \<Longrightarrow> keeps x (env j x)" "\<And>x j. storeInv x \<Longrightarrow> claimInv x \<Longrightarrow> orderly x (env j x)"
  shows "orderly s (fst (once env s tid decide))"
proof -
  let ?s1 = "env 0 s" and ?s2 = "env 1 (env 0 s)"
  have k: "keeps s ?s1" "orderly s ?s1" using env inv by blast+
  then have inv1: "storeInv ?s1" "claimInv ?s1" by (simp_all add: keeps_def orderly_def)
  have k2: "keeps ?s1 ?s2" "orderly ?s1 ?s2" using env inv1 by blast+
  then have inv2: "storeInv ?s2" "claimInv ?s2" by (simp_all add: keeps_def orderly_def)
  let ?vt = "readTask s tid" and ?a = "readActiveRun ?s1 tid"
  have "orderly ?s2 (fst (commitOutcome ?s2 (decide ?vt ?a) (map_option vt_revision ?vt)))"
  proof (cases "\<exists>d s'. decide ?vt ?a = Decided d \<and> applyDecision ?s2 d (map_option vt_revision ?vt) = Inr s'")
    case False
    with inv2 show ?thesis by (auto simp: commitOutcome_def split: outcome.split sum.split)
  next
    case True
    then obtain d s' where d: "decide ?vt ?a = Decided d" and s': "applyDecision ?s2 d (map_option vt_revision ?vt) = Inr s'"
      by blast
    from decide_task [OF d] obtain v where v: "?vt = Some v" "writtenRuns d = []" "d_outbox d = []"
      "t_task (d_task d) = t_task (vt_task v)" "t_runCount (d_task d) = t_runCount (vt_task v)"
      "t_activeRunId (d_task d) = t_activeRunId (vt_task v)" by blast
    have td: "t_task (vt_task v) = tid" by (rule storeInv_task [OF inv(1) v(1) tid])
    from s' v(1,4) td have "map_option vt_revision (readTask ?s2 tid) = Some (vt_revision v)"
      by (auto simp: applyDecision_def readTask_def Let_def split: if_splits)
    note same = unchanged_between [OF k(1) k2(1) v(1) this]
    have live: "liveRun ?a \<noteq> None" if "t_activeRunId (vt_task v) \<noteq> None"
      using activeRun_paired [OF inv1(1) same(1) tid] that same(1)
      by (auto simp: readActiveRun_def liveRun_def split: option.splits)
    have "closedIdle (vt_task v)" using claimInvD(2) [OF inv(2)] v(1) by (simp add: readTask_def)
    then have kept: "closedKept (vt_task v) (d_task d)" using decide_closed [of v ?a d] d v(1) live by simp
    have snap: "snapshotOf ?s2 tid (t_runCount (vt_task v)) (t_activeRunId (vt_task v)) []"
      using tid same(2) by (simp add: snapshotOf_def)
    show ?thesis
      by (rule conjunct1 [OF commitOutcome_orderly [OF inv2 snap]])
        (use d v td kept same(2) in \<open>auto simp: safe_unfold ownedBy_def keepsClosed_def\<close>)
  qed
  from orderly_trans [OF orderly_trans [OF k(2) k2(2)] this] show ?thesis by (simp add: once_def Let_def)
qed

lemma transact_orderly:
  assumes inv: "storeInv s" "claimInv s" and tid: "validTaskId tid"
    and env: "\<And>x j. storeInv x \<Longrightarrow> keeps x (env j x)" "\<And>x j. storeInv x \<Longrightarrow> claimInv x \<Longrightarrow> orderly x (env j x)"
  shows "orderly s (fst (transact env s tid decide))"
proof (cases "once env s tid decide")
  case (Pair s' out)
  have "orderly s (fst (once env s tid decide))" "keeps s (fst (once env s tid decide))"
    by (rule once_orderly [OF inv tid env], assumption+, rule once_keeps [OF inv(1) env(1) tid])
  with Pair have k: "orderly s s'" "keeps s s'" by simp_all
  then have "storeInv s'" "claimInv s'" by (simp_all add: keeps_def orderly_def)
  then have e: "orderly s' (env 2 s')" "keeps s' (env 2 s')" using env by blast+
  then have inv2: "storeInv (env 2 s')" "claimInv (env 2 s')" by (simp_all add: keeps_def orderly_def)
  have "orderly (env 2 s') (fst (once (\<lambda>i. env (i + 3)) (env 2 s') tid decide))"
    by (rule once_orderly [OF inv2 tid]) (auto intro: env)
  then have "orderly s (fst (once (\<lambda>i. env (i + 3)) (env 2 s') tid decide))" using k(1) e(1) orderly_trans by blast
  with k Pair show ?thesis by (auto simp: transact_def split: outcome.splits jsError.splits)
qed

end

interpretation closingOrd: closing_decider "\<lambda>vt a. closeTask now (map_option vt_task vt) a" for now
  by unfold_locales
    (auto simp: closeTask_def onlyTask_def closedKept_def closedIdle_def split: option.splits if_splits)

interpretation workingOrd: closing_decider "\<lambda>vt a. updateTaskWork now (map_option vt_task vt) a work" for now work
  by unfold_locales
    (auto simp: updateTaskWork_def onlyTask_def closedKept_def closedIdle_def split: option.splits if_splits)

interpretation refreshingOrd: closing_decider "\<lambda>vt a. decideRefreshIssue now issue vt" for now issue
  by unfold_locales
    (auto simp: decideRefreshIssue_def onlyTask_def closedKept_def closedIdle_def split: option.splits if_splits)

subsection \<open>Executions\<close>

lemma feed_frames:
  "ms_tasks (fst (claimPendingOutbox uuid s limit now until excluded)) = ms_tasks s"
  "ms_runs (fst (claimPendingOutbox uuid s limit now until excluded)) = ms_runs s"
  "ms_tasks (fst (settleOutbox s st)) = ms_tasks s" "ms_runs (fst (settleOutbox s st)) = ms_runs s"
  "ms_tasks (fst (wakeOutbox s e now)) = ms_tasks s" "ms_runs (fst (wakeOutbox s e now)) = ms_runs s"
  "ms_tasks (case writeTrackerIssue z s pr of Inl _ \<Rightarrow> s | Inr s' \<Rightarrow> s') = ms_tasks s"
  "ms_runs (case writeTrackerIssue z s pr of Inl _ \<Rightarrow> s | Inr s' \<Rightarrow> s') = ms_runs s"
  "ms_tasks (fst (resolveSourceWorkId s key candidate)) = ms_tasks s"
  "ms_runs (fst (resolveSourceWorkId s key candidate)) = ms_runs s"
  "ms_tasks (fst (beginGithubAnchorProjectionRefresh s anchor)) = ms_tasks s"
  "ms_runs (fst (beginGithubAnchorProjectionRefresh s anchor)) = ms_runs s"
  "ms_tasks (fst (applyGithubAnchorProjectionRefresh s anchor g p)) = ms_tasks s"
  "ms_runs (fst (applyGithubAnchorProjectionRefresh s anchor g p)) = ms_runs s"
  by (auto simp: claimPendingOutbox_def settleOutbox_def wakeOutbox_def writeTrackerIssue_def resolveSourceWorkId_def
      beginGithubAnchorProjectionRefresh_def applyGithubAnchorProjectionRefresh_def Let_def
      split: option.splits sum.splits if_splits)

lemmas ord_facts =
  confirm2.ord.op_orderly confirm2.ord.op_stepwise startup2.ord.op_orderly startup2.ord.op_stepwise
  heartbeat2.ord.op_orderly heartbeat2.ord.op_stepwise placement2.ord.op_orderly placement2.ord.op_stepwise
  delivery2.ord.op_orderly delivery2.ord.op_stepwise cancellation2.ord.op_orderly cancellation2.ord.op_stepwise
  invalidation2.ord.op_orderly invalidation2.ord.op_stepwise exit2.ord.op_orderly exit2.ord.op_stepwise
  expiry2.ord.op_orderly expiry2.ord.op_stepwise reportOrd.op_orderly reportOrd.op_stepwise
  finishOrd.op_orderly finishOrd.op_stepwise beginOrd.op_orderly beginOrd.op_stepwise
  changeOrd.op_orderly changeOrd.op_stepwise triageOrd.op_orderly triageOrd.op_stepwise
  rerouteOrd.op_orderly rerouteOrd.op_stepwise cancelUnclaimedOrd.op_orderly cancelUnclaimedOrd.op_stepwise
  enqueueOrd.op_orderly enqueueOrd.op_stepwise claimOrd.op_orderly claimOrd.op_stepwise
  releaseOrd.op_orderly releaseOrd.op_stepwise

lemma exec_orderly:
  "storeInv s \<Longrightarrow> claimInv s \<Longrightarrow> admissible c \<Longrightarrow> orderly s (exec c s) \<and> stepwise s (exec c s)"
  by (cases c)
    (simp_all add: request_orderly ord_facts orderly_cong feed_frames
      orchConfirmDispatch_def orchObserveStartupPlacement_def renew_def orchObservePlacement_def
      observeDelivery_def orchCancel_def invalidateSource_def orchExecutorExited_def sweepOne_def)

lemma steps_orderly: "steps s s' \<Longrightarrow> storeInv s \<Longrightarrow> claimInv s \<Longrightarrow> orderly s s'"
proof (induction rule: steps.induct)
  case (steps_exec s s1 c)
  have "storeInv s1" using steps_keeps [OF steps_exec.hyps(1) steps_exec.prems(1)] by (simp add: keeps_def)
  moreover have o: "orderly s s1" using steps_exec by blast
  ultimately have "orderly s1 (exec c s1)" using exec_orderly steps_exec.hyps(2) by (auto simp: orderly_def)
  with o show ?case by (rule orderly_trans)
next
  case (steps_close s s1 env tid now)
  have inv: "storeInv s1" using steps_keeps [OF steps_close.hyps(1) steps_close.prems(1)] by (simp add: keeps_def)
  have o: "orderly s s1" using steps_close by blast
  have "orderly s1 (fst (close env now s1 tid))" unfolding close_def
    by (rule closingOrd.transact_orderly [OF inv orderlyD(1) [OF o]]) (use steps_close steps_keeps in auto)
  with o show ?case by (rule orderly_trans)
next
  case (steps_updateWork s s1 env tid now work)
  have inv: "storeInv s1" using steps_keeps [OF steps_updateWork.hyps(1) steps_updateWork.prems(1)] by (simp add: keeps_def)
  have o: "orderly s s1" using steps_updateWork by blast
  have "orderly s1 (fst (updateWork env now s1 tid work))" unfolding updateWork_def
    by (rule workingOrd.transact_orderly [OF inv orderlyD(1) [OF o]]) (use steps_updateWork steps_keeps in auto)
  with o show ?case by (rule orderly_trans)
next
  case (steps_refreshIssue s s1 env tid z now issue)
  have inv: "storeInv s1" using steps_keeps [OF steps_refreshIssue.hyps(1) steps_refreshIssue.prems(1)] by (simp add: keeps_def)
  have o: "orderly s s1" using steps_refreshIssue by blast
  have "orderly s1 (fst (transact env s1 tid (\<lambda>vt _. decideRefreshIssue now issue vt)))"
    by (rule refreshingOrd.transact_orderly [OF inv orderlyD(1) [OF o]]) (use steps_refreshIssue steps_keeps in auto)
  moreover have "claimInv s1" using o by (simp add: orderly_def)
  ultimately have "orderly s1 (fst (refreshIssue z env now s1 tid issue))" by (simp add: refreshIssue_def)
  with o show ?case by (rule orderly_trans)
qed simp

lemma reachable_claimInv: "reachable s \<Longrightarrow> claimInv s"
  using steps_orderly [of emptyStore s] storeInv_empty claimInv_empty by (auto simp: reachable_def orderly_def)

lemma reachable_orderly: "reachable s \<Longrightarrow> steps s s' \<Longrightarrow> orderly s s'"
  using steps_orderly reachable_inv reachable_claimInv by blast

lemma reachable_exec_stepwise: "reachable s \<Longrightarrow> admissible c \<Longrightarrow> stepwise s (exec c s)"
  using exec_orderly reachable_inv reachable_claimInv by blast

end
