(* ===== verification/Ownership_Guarantees.thy ===== *)
theory Ownership_Guarantees
  imports Scenario Claim_Invariant
begin

text \<open>
  What the control plane guarantees about physical ownership: provider ceilings, the authority of
  the claim token, credential operations and closed items.
\<close>

subsection \<open>Ceilings\<close>

text \<open>C18: a provider never has more live claims than its ceiling allows, in any reachable state,
  however claims, releases, retries and settlements interleave.\<close>

theorem provider_ceilings:
  assumes "reachable s" and "QUEUE_PIPELINE_MAX_LIVE_CLAIMS p = Some c"
  shows "liveClaims p (allRuns s) \<le> c"
  by (rule claimInvD(3) [OF reachable_claimInv [OF assms(1)] assms(2)])

theorem provider_ceilings_witness:
  "liveClaims ''codex'' (allRuns demoCodex) \<le> 1 \<and> liveClaims ''codex'' (allRuns demoCodex) = 1"
proof
  show "liveClaims ''codex'' (allRuns demoCodex) \<le> 1"
    by (rule provider_ceilings [OF demoCodex_reachable]) (simp add: QUEUE_PIPELINE_MAX_LIVE_CLAIMS_def)
  show "liveClaims ''codex'' (allRuns demoCodex) = 1" by code_simp
qed

subsection \<open>The claim token\<close>

text \<open>The run a command acts on and the claim fingerprint it presents, for the commands executors
  and the credential broker issue.\<close>

fun claimantOf :: "command \<Rightarrow> (string \<times> string) option" where
  "claimantOf (Renew uuid now runId fp started) = map_option (Pair runId) fp"
| "claimantOf (Report a readNow now runId result fp cid dl pub) = map_option (Pair runId) fp"
| "claimantOf (ObserveStartup uuid now runId c j obs placed) = map_option (Pair runId) (ec_claimFingerprint c)"
| "claimantOf (ObservePlacement uuid now runId c p) = map_option (Pair runId) (ec_claimFingerprint c)"
| "claimantOf (ExecutorExited uuid now runId c) = map_option (Pair runId) (ec_claimFingerprint c)"
| "claimantOf (BeginCredential now runId fp i k) = Some (runId, fp)"
| "claimantOf (ChangeCredential now runId i fp change) = Some (runId, fp)"
| "claimantOf (FinishCredential a readNow now runId i fp restored at) = Some (runId, fp)"
| "claimantOf (ReleaseClaim runId who token now until) = Some (runId, token)"
| "claimantOf _ = None"

lemma transactRun_undecided:
  "(\<And>d. decide (runSnapshot s i ps sr) \<noteq> Decided d) \<Longrightarrow> fst (transactRun s i ps sr decide) = s"
  by (auto simp: transactRun_def commitOutcome_def Let_def split: outcome.split)

lemma onRun_undecided:
  assumes r: "readRun s i = Some r" and "\<And>t q d. decide t r q \<noteq> Decided d"
  shows "fst (transactRun s i ps sr (onRun cid decide)) = s"
proof (rule transactRun_undecided, rule notI)
  fix d assume "onRun cid decide (runSnapshot s i ps sr) = Decided d"
  with r obtain t q where "withCleanup cid r (decide t r q) = Decided d"
    by (auto simp: onRun_def split: option.splits)
  with assms(2) show False by (metis withCleanup_Decided)
qed

lemma transactOnRun_undecided:
  "readRun s i = Some r \<Longrightarrow> (\<And>t d. decide t r \<noteq> Decided d) \<Longrightarrow> fst (transactOnRun cid s i decide) = s"
  unfolding transactOnRun_def by (rule onRun_undecided)

lemma stranger_undecided:
  assumes "\<not> isClaimant r fp"
  shows "renewLease now t r (Some fp) started \<noteq> Decided d"
    and "reportResult now t r (Some fp) result \<noteq> Decided d"
    and "decideReport now result (Some fp) dl pub t r \<noteq> Decided d"
    and "decideFailureReport a now result (Some fp) t r q \<noteq> Decided d"
    and "ec_claimFingerprint c = Some fp \<Longrightarrow> observeStartupPlacement now t r c j obs placed \<noteq> Decided d"
    and "ec_claimFingerprint c = Some fp \<Longrightarrow> observePlacement now t r c p \<noteq> Decided d"
    and "reserveCredentialOperation now t r fp i k \<noteq> Decided d"
    and "changeCredentialOperation now t r i fp change \<noteq> Decided d"
    and "decideFinish a' now i fp restored at t r q \<noteq> Decided d"
proof -
  show rep: "reportResult now t r (Some fp) result \<noteq> Decided d" for now t result d
    using assms by (simp add: reportResult_def refused_def)
  have target: "\<not> isClaimant (reportTarget r result dl pub) fp"
    using assms claimView_claimant [OF reportTarget_view(1)] by simp
  then show "decideReport now result (Some fp) dl pub t r \<noteq> Decided d"
    by (simp add: decideReport_def reportResult_def refused_def)
  show "decideFailureReport a now result (Some fp) t r q \<noteq> Decided d"
    using assms by (simp add: decideFailureReport_def reportResultWithFallback_def reportResult_def refused_def)
  show chg: "changeCredentialOperation now t r i fp change \<noteq> Decided d" for change d
    using assms by (simp add: changeCredentialOperation_def refused_def split: option.split)
  show "decideFinish a' now i fp restored at t r q \<noteq> Decided d"
    using chg [of "Finish restored at"] by (auto simp: decideFinish_def split: outcome.split)
qed (use assms in \<open>simp_all add: renewLease_def observeStartupPlacement_def observePlacement_def claimantOwns_def
      reserveCredentialOperation_def refused_def split: option.split\<close>)

text \<open>An exit reported under another token is refused, or finds a claim already retired.\<close>

lemma stranger_exit:
  assumes "\<not> isClaimant r fp" and "ec_claimFingerprint c = Some fp"
  shows "executorExitedAndRetry now t r c \<noteq> Decided d"
proof (cases "exitOwned r c")
  case False
  then show ?thesis by (simp add: executorExitedAndRetry_def executorExited_def settleLostAndRetry_def refused_def)
next
  case True
  with assms have "queueStateOf r \<noteq> Some Claimed" "\<not> isLive (r_state r)"
    by (auto simp: exitOwned_def isClaimant_def queueStateOf_def split: option.splits)
  with True show ?thesis by (simp add: executorExitedAndRetry_def executorExited_def refused_def)
qed

lemma stranger_report:
  assumes "readRun s i = Some r" and "\<not> isClaimant r fp"
  shows "fst (report a readNow now s i result (Some fp) cid dl pub) = s"
  using onRun_undecided [OF assms(1)] transactOnRun_undecided [OF assms(1)] stranger_undecided(3,4) [OF assms(2)]
  by (simp add: report_def split: option.split)

lemma stranger_plain:
  assumes "readRun s i = Some r" and "\<And>t d. decide t r \<noteq> Decided d"
  shows "fst (transactRun s i ps sr (onTaskAndRun decide)) = s"
  by (rule transactRun_undecided) (use assms in \<open>auto simp: onTaskAndRun_def refused_def split: option.splits\<close>)

lemma stranger_finish:
  assumes "readRun s i = Some r" and "\<not> isClaimant r fp"
  shows "fst (finishCredentialOperation a readNow now s i op fp restored at) = s"
  unfolding finishCredentialOperation_def
  by (rule transactRun_undecided)
    (use assms stranger_undecided(9) [OF assms(2)] in \<open>auto simp: refused_def split: option.splits\<close>)

text \<open>C19: a lost claim carries no authority. Whatever a client presenting a token that is not the
  claimant's asks of a run, be it a heartbeat, a placement, a report, an exit, a release or a
  credential operation, the store is left exactly as it was.\<close>

theorem stale_claimant_powerless:
  assumes "claimantOf c = Some (runId, fp)" and "readRun s runId = Some r" and "\<not> isClaimant r fp"
  shows "exec c s = s"
  using assms(1)
proof (cases c rule: claimantOf.cases)
  case (9 rid who token now until)
  with assms show ?thesis by (simp add: releaseQueuedRunClaim_def readRun_def)
qed (use assms stranger_undecided [OF assms(3)] stranger_exit [OF assms(3)] stranger_report stranger_finish
      transactOnRun_undecided [OF assms(2)] stranger_plain [OF assms(2)] in
      \<open>auto simp: renew_def orchObserveStartupPlacement_def orchObservePlacement_def orchExecutorExited_def
        beginCredential_def changeCredential_def\<close>)

theorem stale_claimant_powerless_witness:
  "exec (Report None 6000 6000 (demoRunId 1) demoResult (Some ''stale'') ''u3'' None False) demoRunning = demoRunning"
  by (rule stale_claimant_powerless [OF _ demo_reads(1), of _ "''stale''"]) (simp, code_simp)

subsection \<open>Credential operations\<close>

text \<open>C20: an outstanding credential operation is always the claimant's. In a reachable state the run
  that holds one is claimed under exactly the token that reserved it.\<close>

theorem credential_holder:
  assumes "reachable s" and "r \<in> set (allRuns s)" and "r_credentialOperation r = Some op"
  shows "isClaimant r (co_claimFingerprint op)"
proof -
  have "map_of (ms_runs s) (r_runId r) = Some r" by (rule stored_run [OF reachable_inv [OF assms(1)] assms(2)])
  from claimInvD(1) [OF reachable_claimInv [OF assms(1)] this] assms(3) show ?thesis by (simp add: opHeld_def)
qed

theorem credential_holder_witness:
  "r_credentialOperation (demoStored demoCodex 1) \<noteq> None \<and>
   isClaimant (demoStored demoCodex 1) (co_claimFingerprint (the (r_credentialOperation (demoStored demoCodex 1))))"
proof -
  have "r_credentialOperation (demoStored demoCodex 1) \<noteq> None" by code_simp
  then obtain op where op: "r_credentialOperation (demoStored demoCodex 1) = Some op" by blast
  have "readRun demoCodex (demoRunId 1) \<noteq> None" by code_simp
  then have "readRun demoCodex (demoRunId 1) = Some (demoStored demoCodex 1)" by (auto simp: demoStored_def)
  then have "demoStored demoCodex 1 \<in> set (allRuns demoCodex)" by (rule readRun_in_allRuns)
  from credential_holder [OF demoCodex_reachable this op] op show ?thesis by simp
qed

text \<open>C21: no run is settled over an operation that stays outstanding. When a step takes a live run
  with an outstanding operation to a settled state, that same step has resolved the operation.\<close>

theorem credential_pins_run:
  assumes "reachable s" and "admissible c"
    and "readRun s i = Some r" and "isLive (r_state r)" and "r_credentialOperation r \<noteq> None"
    and "readRun (exec c s) i = Some r'" and "\<not> isLive (r_state r')"
  shows "r_credentialOperation r' = None"
proof -
  have "r_credentialOperation r = None \<or> r_credentialOperation r' = None"
    by (rule reachable_exec_stepwise [OF assms(1,2), unfolded stepwise_def pinned_def, THEN conjunct1, rule_format, folded readRun_def])
      (fact assms)+
  with assms(5) show ?thesis by metis
qed

theorem credential_pins_run_witness:
  "isLive (r_state (demoStored demoCodex 1)) \<and> r_state (demoStored (exec demoFinish demoCodex) 1) = Finished \<and>
   r_credentialOperation (demoStored (exec demoFinish demoCodex) 1) = None"
proof -
  have r: "readRun demoCodex (demoRunId 1) \<noteq> None" "readRun (exec demoFinish demoCodex) (demoRunId 1) \<noteq> None"
    by code_simp+
  then have reads: "readRun demoCodex (demoRunId 1) = Some (demoStored demoCodex 1)"
    "readRun (exec demoFinish demoCodex) (demoRunId 1) = Some (demoStored (exec demoFinish demoCodex) 1)"
    by (auto simp: demoStored_def)
  have live: "isLive (r_state (demoStored demoCodex 1))" by code_simp
  have op: "r_credentialOperation (demoStored demoCodex 1) \<noteq> None" by code_simp
  have fin: "r_state (demoStored (exec demoFinish demoCodex) 1) = Finished" by code_simp
  have "r_credentialOperation (demoStored (exec demoFinish demoCodex) 1) = None"
    by (rule credential_pins_run [OF demoCodex_reachable _ reads(1) live op reads(2)])
      (simp add: demoFinish_def, unfold fin, code_simp)
  with live fin show ?thesis by simp
qed

subsection \<open>Closed items\<close>

text \<open>C22: closing is final. Once a task of a reachable store is closed, along every later execution
  it stays closed, keeps its run count and never has an active run again.\<close>

theorem closed_task_final:
  assumes "reachable s" and "steps s s'" and "readTask s tid = Some v" and "t_closedAt (vt_task v) \<noteq> None"
  shows "\<exists>v'. readTask s' tid = Some v' \<and> t_closedAt (vt_task v') = t_closedAt (vt_task v) \<and>
    t_runCount (vt_task v') = t_runCount (vt_task v) \<and> t_activeRunId (vt_task v') = None"
proof -
  note o = reachable_orderly [OF assms(1,2)]
  from o assms(3,4) obtain v' where v': "readTask s' tid = Some v'" "t_closedAt (vt_task v') = t_closedAt (vt_task v)"
    "t_runCount (vt_task v') = t_runCount (vt_task v)"
    unfolding orderly_def closedStable_def readTask_def by blast
  have "claimInv s'" using o by (simp add: orderly_def)
  then have "closedIdle (vt_task v')" using v'(1) unfolding readTask_def by (rule claimInvD(2))
  with v' assms(4) show ?thesis by (simp add: closedIdle_def)
qed

theorem closed_task_final_witness:
  "\<exists>v v'. readTask demoClosed demoTask = Some v \<and> t_closedAt (vt_task v) = Some 9000 \<and>
     readTask (exec (Request allFormats 10000 (demoRequest ''c'' ''claude'')) demoClosed) demoTask = Some v' \<and>
     t_closedAt (vt_task v') = Some 9000 \<and> t_activeRunId (vt_task v') = None"
proof -
  have "map_option (\<lambda>v. t_closedAt (vt_task v)) (readTask demoClosed demoTask) = Some (Some 9000)" by code_simp
  then obtain v where v: "readTask demoClosed demoTask = Some v" "t_closedAt (vt_task v) = Some 9000" by auto
  have "steps demoClosed (exec (Request allFormats 10000 (demoRequest ''c'' ''claude'')) demoClosed)"
    by (rule steps_exec [OF steps_refl]) code_simp
  from closed_task_final [OF demoClosed_reachable this v(1)] v show ?thesis by auto
qed

end
