(* ===== verification/Concurrency_Guarantees.thy ===== *)
theory Concurrency_Guarantees
  imports Scenario Claim_Invariant
begin

text \<open>
  Concurrent clients. The store refines the ticket lock of \<open>Lock_Machine\<close>; and the compare-and-set
  methods, which read the task, then its active run, then write, with other clients running in
  between, have the effect of one atomic operation at the instant of their write, or none.
\<close>

subsection \<open>The mutex\<close>

text \<open>C24: the task mutex is a ticket lock. Every command moves the abstract lock by at most one
  permitted step (a fresh ticket for a free lock, the holder leaving, or both at once), and any
  execution, compare-and-set writers included, is a sequence of such steps.\<close>

theorem mutex_refines_ticket_lock:
  assumes "reachable s" and "admissible c" and "steps s s'"
  shows "lockStep (absLock s) (absLock (exec c s)) \<and> lockStep\<^sup>*\<^sup>* (absLock s) (absLock s')"
  using reachable_exec_stepwise [OF assms(1,2)] orderlyD(3) [OF reachable_orderly [OF assms(1,3)]]
  by (simp add: stepwise_def)

theorem mutex_refines_ticket_lock_witness:
  "lockStep (absLock demoRunning) (absLock (exec (Cancel ''u4'' 8000 (demoRunId 1) None None None) demoRunning)) \<and>
   lockStep\<^sup>*\<^sup>* (absLock demoRunning) (absLock demoSecond)"
  by (rule mutex_refines_ticket_lock [OF demoRunning_reachable _ demo_steps]) simp

subsection \<open>Compare and set\<close>

text \<open>Decisions that look at the active run only to see whether there is a live one.\<close>

locale cas_decider = task_decider +
  assumes decide_live: "decide vt a = Decided d \<Longrightarrow> (liveRun a = None \<longleftrightarrow> liveRun b = None) \<Longrightarrow> decide vt b = Decided d"
begin

lemma once_atomic:
  assumes inv: "storeInv s" and tid: "validTaskId tid"
    and env: "\<And>x j. steps x (env j x)"
    and c: "once env s tid decide = (s', Decided d)"
  shows "\<exists>x. steps s x \<and> decide (readTask x tid) (readActiveRun x tid) = Decided d \<and>
    applyDecision x d (map_option vt_revision (readTask x tid)) = Inr s'"
proof -
  let ?s1 = "env 0 s" and ?s2 = "env 1 (env 0 s)" and ?vt = "readTask s tid"
  have k: "keeps s ?s1" by (rule steps_keeps [OF env inv])
  then have inv1: "storeInv ?s1" by (simp add: keeps_def)
  have k2: "keeps ?s1 ?s2" by (rule steps_keeps [OF env inv1])
  then have inv2: "storeInv ?s2" by (simp add: keeps_def)
  from c have d: "decide ?vt (readActiveRun ?s1 tid) = Decided d"
    and ap: "applyDecision ?s2 d (map_option vt_revision ?vt) = Inr s'"
    by (auto simp: once_def commitOutcome_def Let_def split: outcome.splits sum.splits)
  from decide_task [OF d] obtain v where v: "?vt = Some v" "t_task (d_task d) = t_task (vt_task v)" by blast
  have td: "t_task (vt_task v) = tid" by (rule storeInv_task [OF inv v(1) tid])
  from ap v td have "map_option vt_revision (readTask ?s2 tid) = Some (vt_revision v)"
    by (auto simp: applyDecision_def readTask_def Let_def split: if_splits)
  note same = unchanged_between [OF k k2 v(1) this]
  have live: "liveRun (readActiveRun x tid) = None \<longleftrightarrow> t_activeRunId (vt_task v) = None"
    if "storeInv x" "readTask x tid = Some v" for x
    using activeRun_paired [OF that tid] that(2) paired_live by (fastforce simp: readActiveRun_def liveRun_def split: option.splits)
  have "decide (readTask ?s2 tid) (readActiveRun ?s2 tid) = Decided d"
    using decide_live [OF d, of "readActiveRun ?s2 tid"] live [OF inv1 same(1)] live [OF inv2 same(2)] same(2) v(1) by simp
  moreover have "steps s ?s2" using steps_trans [OF env [of "env 0 s" 1] env] .
  ultimately show ?thesis using ap same(2) v(1) by auto
qed

lemma transact_atomic:
  assumes inv: "storeInv s" and tid: "validTaskId tid"
    and env: "\<And>x j. steps x (env j x)"
    and c: "transact env s tid decide = (s', Decided d)"
  shows "\<exists>x. steps s x \<and> decide (readTask x tid) (readActiveRun x tid) = Decided d \<and>
    applyDecision x d (map_option vt_revision (readTask x tid)) = Inr s'"
proof (cases "\<exists>y t. once env s tid decide = (y, Threw (StoreConflict t))")
  case False
  with c have "once env s tid decide = (s', Decided d)"
    by (auto simp: transact_def split: prod.splits outcome.splits jsError.splits)
  then show ?thesis by (rule once_atomic [OF inv tid env])
next
  case True
  then obtain y t where y: "once env s tid decide = (y, Threw (StoreConflict t))" by blast
  then have "y = env 1 (env 0 s)"
    by (auto simp: once_def commitOutcome_def Let_def split: outcome.splits sum.splits)
  then have st: "steps s (env 2 y)" using steps_trans env by metis
  then have inv2: "storeInv (env 2 y)" using steps_keeps [OF _ inv] by (simp add: keeps_def)
  from c y have "once (\<lambda>i. env (i + 3)) (env 2 y) tid decide = (s', Decided d)" by (simp add: transact_def)
  from once_atomic [OF inv2 tid env this] obtain x where "steps (env 2 y) x"
    "decide (readTask x tid) (readActiveRun x tid) = Decided d"
    "applyDecision x d (map_option vt_revision (readTask x tid)) = Inr s'" by blast
  with steps_trans [OF _ st] show ?thesis by blast
qed

end

interpretation closeAtomic: cas_decider "\<lambda>vt a. closeTask now (map_option vt_task vt) a" for now
  by unfold_locales (auto simp: closeTask_def split: option.splits if_splits)

interpretation workAtomic: cas_decider "\<lambda>vt a. updateTaskWork now (map_option vt_task vt) a work" for now work
  by unfold_locales (auto simp: updateTaskWork_def split: option.splits if_splits)

interpretation refreshAtomic: cas_decider "\<lambda>vt a. decideRefreshIssue now issue vt" for now issue
  by unfold_locales

text \<open>C25: a compare-and-set that succeeds is atomic. Whatever other clients do while a close is
  suspended between its reads and its write, when it answers with a decision there is an instant
  of the execution at which the whole close, run at once, takes that same decision and leaves
  exactly the same store.\<close>

theorem close_atomic:
  assumes "reachable s" and "validTaskId tid" and "\<And>x j. steps x (env j x)"
    and "close env now s tid = (s', Decided d)"
  shows "\<exists>x. steps s x \<and>
    closeTask now (map_option vt_task (readTask x tid)) (readActiveRun x tid) = Decided d \<and>
    applyDecision x d (map_option vt_revision (readTask x tid)) = Inr s'"
  by (rule closeAtomic.transact_atomic [OF reachable_inv [OF assms(1)] assms(2,3) assms(4) [unfolded close_def]])

theorem close_atomic_witness:
  "\<exists>x. steps demoIdle x \<and>
    closeTask 9000 (map_option vt_task (readTask x demoTask)) (readActiveRun x demoTask) =
      snd (close (\<lambda>_ x. x) 9000 demoIdle demoTask) \<and>
    map_option (\<lambda>v. t_closedAt (vt_task v)) (readTask demoClosed demoTask) = Some (Some 9000)"
proof -
  have "\<exists>d. snd (close (\<lambda>_ x. x) 9000 demoIdle demoTask) = Decided d"
  proof -
    have "(case snd (close (\<lambda>_ x. x) 9000 demoIdle demoTask) of Decided d \<Rightarrow> True | _ \<Rightarrow> False)" by code_simp
    then show ?thesis by (auto split: outcome.splits)
  qed
  then obtain d where d: "close (\<lambda>_ x. x) 9000 demoIdle demoTask = (demoClosed, Decided d)"
    unfolding demoClosed_def by (metis prod.collapse)
  have v: "validTaskId demoTask" by code_simp
  from close_atomic [OF demoIdle_reachable v _ d] steps_refl obtain x where "steps demoIdle x"
    "closeTask 9000 (map_option vt_task (readTask x demoTask)) (readActiveRun x demoTask) = Decided d" by blast
  moreover have "map_option (\<lambda>v. t_closedAt (vt_task v)) (readTask demoClosed demoTask) = Some (Some 9000)" by code_simp
  ultimately show ?thesis using d by auto
qed

text \<open>A compare-and-set that fails changes nothing. When both attempts lose their race, the store
  is what the other clients left, and the exception names the task.\<close>

lemma cas_conflict_harmless:
  assumes "transact env s tid decide = (s', Threw (StoreConflict t))"
  shows "s' = env 4 (env 3 (env 2 (env 1 (env 0 s))))"
  using assms
  by (auto simp: transact_def once_def commitOutcome_def Let_def numeral_eq_Suc
      split: prod.splits outcome.splits sum.splits jsError.splits)

end
