(* ===== verification/Store_Frames.thy ===== *)
theory Store_Frames
  imports Execution
begin

text \<open>
  The parts of the store only their own operations write: source identities, tracker issues and
  anchor projections. An order on such a part that its operations respect holds along every
  execution; the interface \<open>monotone_part\<close> says so and is interpreted on each part.
\<close>

definition sideParts ::
  "memStore \<Rightarrow> (string \<times> string) list \<times> (string \<times> trackerIssueProjection) list \<times> (string \<times> anchorProjectionEntry) list"
where
  "sideParts s = (ms_sourceWorkIds s, ms_trackerIssues s, ms_githubAnchorProjections s)"

lemma sideParts_writes [simp]:
  "sideParts (foldl writeRun s ws) = sideParts s"
  "sideParts (foldl writeCooldown s ws) = sideParts s"
  "sideParts (foldl writeEntry s es) = sideParts s"
proof -
  show "sideParts (foldl writeRun s ws) = sideParts s"
    by (induction ws arbitrary: s) (simp_all add: sideParts_def writeRun_def)
  show "sideParts (foldl writeCooldown s ws) = sideParts s"
    by (induction ws arbitrary: s) (simp_all add: sideParts_def writeCooldown_def split: option.split)
  show "sideParts (foldl writeEntry s es) = sideParts s"
    by (induction es arbitrary: s) (simp_all add: sideParts_def writeEntry_def)
qed

lemma sideParts_tasks [simp]: "sideParts (s\<lparr>ms_tasks := x\<rparr>) = sideParts s"
  by (simp add: sideParts_def)

lemma commitOutcome_parts [simp]: "sideParts (fst (commitOutcome s out revn)) = sideParts s"
  by (auto simp: commitOutcome_def applyDecision_def Let_def split: outcome.split sum.split if_splits)

lemma transactRun_parts [simp]: "sideParts (fst (transactRun s i ps sr decide)) = sideParts s"
  by (simp add: transactRun_def Let_def)

lemma record_parts [simp]:
  "sideParts (recordBinding s tx nb) = sideParts s" "sideParts (recordRevision s tx p d) = sideParts s"
  by (simp_all add: sideParts_def recordBinding_def recordRevision_def split: option.split)

lemma transactRequest_parts [simp]: "sideParts (fst (transactRequest s tx decide)) = sideParts s"
proof -
  have "sideParts (fst (case commitOutcome (recordBinding s tx nb) out revn of
        (s', Decided d) \<Rightarrow> (recordRevision s' tx p d, Decided d) | other \<Rightarrow> other)) = sideParts s" for nb out revn p
    using commitOutcome_parts [of "recordBinding s tx nb" out revn]
    by (cases "commitOutcome (recordBinding s tx nb) out revn") (auto split: outcome.split)
  then show ?thesis
    by (auto simp: transactRequest_def Let_def split: sum.split prod.split outcome.split)
qed

lemma report_parts [simp]: "sideParts (fst (report a readNow now s i result fp cid dl pub)) = sideParts s"
  by (simp add: report_def transactOnRun_def split: option.split)

lemma queue_parts [simp]:
  "sideParts (enqueueRun s i now) = sideParts s"
  "sideParts (fst (storeClaimQueuedRun s pipelines input)) = sideParts s"
  "sideParts (fst (releaseQueuedRunClaim s i who token now until)) = sideParts s"
  by (auto simp: sideParts_def enqueueRun_def storeClaimQueuedRun_def releaseQueuedRunClaim_def putRun_def Let_def
      split: option.split)

lemma outbox_parts [simp]:
  "sideParts (fst (claimPendingOutbox uuid s limit now until excluded)) = sideParts s"
  "sideParts (fst (settleOutbox s input)) = sideParts s"
  "sideParts (fst (wakeOutbox s e now)) = sideParts s"
  by (simp_all add: claimPendingOutbox_def settleOutbox_def wakeOutbox_def Let_def sideParts_def [symmetric]
      split: option.split) (simp_all add: sideParts_def)

text \<open>The commands that write these parts.\<close>

fun writesParts :: "command \<Rightarrow> bool" where
  "writesParts (WriteTrackerIssue z p) = True"
| "writesParts (ResolveSourceWorkId key candidate) = True"
| "writesParts (BeginProjection anchor) = True"
| "writesParts (ApplyProjection anchor generation p) = True"
| "writesParts _ = False"

lemma exec_parts: "\<not> writesParts c \<Longrightarrow> sideParts (exec c s) = sideParts s"
  by (cases c)
    (simp_all add: request_def orchConfirmDispatch_def orchObserveStartupPlacement_def renew_def
      orchObservePlacement_def observeDelivery_def finishCredentialOperation_def beginCredential_def
      changeCredential_def recordTriagePublication_def rerouteOne_def orchCancel_def
      cancelUnclaimedBefore_def invalidateSource_def orchExecutorExited_def sweepOne_def transactOnRun_def)

lemma once_parts: "sideParts (fst (once env s tid decide)) = sideParts (env 1 (env 0 s))"
  by (simp add: once_def Let_def)

text \<open>A reflexive and transitive relation between stores that depends on these parts alone and
  that their operations respect.\<close>

locale monotone_part =
  fixes grows :: "memStore \<Rightarrow> memStore \<Rightarrow> bool"
  assumes parts: "sideParts s' = sideParts s \<Longrightarrow> grows s s'"
    and trans: "grows a b \<Longrightarrow> grows b x \<Longrightarrow> grows a x"
    and writes: "writesParts c \<Longrightarrow> grows s (exec c s)"
begin

lemma exec_grows: "grows s (exec c s)"
  using writes parts exec_parts by blast

lemma once_grows:
  assumes "\<And>x j. grows x (env j x)"
  shows "grows s (fst (once env s tid decide))"
  using parts [OF once_parts [of env s tid decide]] trans assms by metis

lemma transact_grows:
  assumes "\<And>x j. grows x (env j x)"
  shows "grows s (fst (transact env s tid decide))"
proof (cases "once env s tid decide")
  case (Pair s' out)
  have "grows s (fst (once env s tid decide))" by (rule once_grows) (rule assms)
  with Pair have a: "grows s s'" by simp
  have "grows (env 2 s') (fst (once (\<lambda>i. env (i + 3)) (env 2 s') tid decide))" by (rule once_grows) (rule assms)
  with assms have "grows s' (fst (once (\<lambda>i. env (i + 3)) (env 2 s') tid decide))" by (rule trans)
  with a Pair show ?thesis using trans by (auto simp: transact_def split: outcome.splits jsError.splits)
qed

lemma steps_grow: "steps s s' \<Longrightarrow> grows s s'"
proof (induction rule: steps.induct)
  case (steps_refl s)
  then show ?case by (simp add: parts)
next
  case (steps_exec s s1 c)
  then show ?case using trans exec_grows by blast
next
  case (steps_close s s1 env tid now)
  then show ?case unfolding close_def using trans transact_grows by blast
next
  case (steps_updateWork s s1 env tid now work)
  then show ?case unfolding updateWork_def using trans transact_grows by blast
next
  case (steps_refreshIssue s s1 env tid z now issue)
  have "grows s1 (fst (refreshIssue z env now s1 tid issue))"
    using transact_grows [of env] steps_refreshIssue parts by (simp add: refreshIssue_def)
  with steps_refreshIssue trans show ?case by blast
qed

end

end
