(* ===== verification/Paging.thy ===== *)
theory Paging
  imports Memory_Store "HOL-Library.Multiset"
begin

text \<open>
  Keyset pagination: walking a feed by its cursors. A page is the run of entries after the cursor's
  key in a strictly ordered feed, so the pages of one walk partition it. The interface
  \<open>key_order\<close> is interpreted on the document-key order of the tracker feed.
\<close>

lemma mset_insertBy [simp]: "mset (insertBy lt x ys) = add_mset x (mset ys)"
  by (induction ys) auto

lemma mset_sortBy [simp]: "mset (sortBy lt xs) = mset xs"
  by (induction xs) auto

locale key_order =
  fixes less :: "'k \<Rightarrow> 'k \<Rightarrow> bool"
  assumes less_irrefl: "\<not> less k k"
    and less_trans: "less a b \<Longrightarrow> less b c \<Longrightarrow> less a c"
    and less_total: "a \<noteq> b \<Longrightarrow> less a b \<or> less b a"
begin

lemma less_weak: "strict_weak_order (\<lambda>a b. less (fst a) (fst b))"
proof
  show "\<not> less (fst y) (fst x)" if "less (fst x) (fst y)" for x y :: "'k \<times> 'v"
    using that less_trans less_irrefl by blast
  show "less (fst x) (fst y) \<or> less (fst y) (fst z)" if "less (fst x) (fst z)" for x y z :: "'k \<times> 'v"
    using that less_total less_trans by metis
qed

lemma sorted_keys:
  assumes "keysDistinct m"
  shows "sorted_wrt (\<lambda>a b. less (fst a) (fst b)) (sortBy (\<lambda>a b. less (fst a) (fst b)) m)"
proof -
  let ?s = "sortBy (\<lambda>a b. less (fst a) (fst b)) m"
  have "inj_on fst (set ?s)" "distinct ?s" using assms by (auto simp: keysDistinct_def distinct_map)
  then have d: "distinct (map fst ?s)" by (simp add: distinct_map)
  have "sorted_wrt (\<lambda>a b. \<not> less (fst b) (fst a)) ?s" by (rule strict_weak_order.sorted_sortBy [OF less_weak])
  then show ?thesis unfolding sorted_wrt_iff_nth_less
  proof (intro allI impI)
    fix i j
    assume a: "\<forall>i j. i < j \<longrightarrow> j < length ?s \<longrightarrow> \<not> less (fst (?s ! j)) (fst (?s ! i))" and "i < j" "j < length ?s"
    moreover have "fst (?s ! i) \<noteq> fst (?s ! j)"
      using d \<open>i < j\<close> \<open>j < length ?s\<close> nth_eq_iff_index_eq [OF d, of i j] by simp
    ultimately show "less (fst (?s ! i)) (fst (?s ! j))" using less_total by blast
  qed
qed

lemma after_key:
  assumes "sorted_wrt (\<lambda>a b. less (fst a) (fst b)) xs" and "i < length xs"
  shows "filter (\<lambda>e. less (fst (xs ! i)) (fst e)) xs = drop (Suc i) xs"
  using assms
proof (induction xs arbitrary: i)
  case (Cons x xs)
  show ?case
  proof (cases i)
    case 0
    have "filter (\<lambda>e. less (fst x) (fst e)) xs = xs" using Cons.prems by (simp add: filter_id_conv)
    with 0 less_irrefl show ?thesis by simp
  next
    case (Suc k)
    with Cons.prems have "less (fst x) (fst (xs ! k))" by simp
    then have "\<not> less (fst (xs ! k)) (fst x)" using less_trans less_irrefl by blast
    with Suc Cons show ?thesis by simp
  qed
qed simp

end

subsection \<open>The document-key order\<close>

definition hexVal :: "char \<Rightarrow> nat" where
  "hexVal c = (if isDigit c then digitVal c else of_char c - 55)"

lemma hexVal_upperHex: "d < 16 \<Longrightarrow> hexVal (upperHex d) = d"
  by (auto simp: hexVal_def upperHex_def isDigit_def digitVal_def)

text \<open>The first character of an encoded string, and what follows it.\<close>

fun decodeHead :: "string \<Rightarrow> char \<times> string" where
  "decodeHead (c # r) =
     (if c \<noteq> CHR ''%'' then (c, r)
      else
        (let n = 16 * hexVal (r ! 0) + hexVal (r ! 1)
         in if n < 128 then (char_of n, drop 2 r)
            else (char_of (64 * (n - 192) + (16 * hexVal (r ! 3) + hexVal (r ! 4) - 128)), drop 5 r)))"
| "decodeHead [] = (CHR 0x00, [])"

lemma decodeHead_encode: "decodeHead (encodeURIChar c @ xs) = (c, xs)"
proof -
  let ?n = "of_char c :: nat"
  have n: "?n < 256" using of_char_mod_256 [of c] by (metis mod_less_divisor zero_less_numeral)
  consider "uriUnreserved c" | "\<not> uriUnreserved c" "?n < 128" | "\<not> uriUnreserved c" "\<not> ?n < 128" by blast
  then show ?thesis
  proof cases
    case 1
    then have "c \<noteq> CHR ''%''" by (auto simp: uriUnreserved_def isLower_def isUpper_def isDigit_def)
    with 1 show ?thesis by (simp add: encodeURIChar_def)
  next
    case 2
    then have "?n div 16 < 16" "?n mod 16 < 16" "16 * (?n div 16) + ?n mod 16 = ?n" by auto
    with 2 show ?thesis by (simp add: encodeURIChar_def percentOctet_def Let_def hexVal_upperHex)
  next
    case 3
    let ?a = "192 + ?n div 64" and ?b = "128 + ?n mod 64"
    have d: "?n div 64 < 4" by (rule less_mult_imp_div_less) (use n in simp)
    have a: "?a div 16 < 16" "?a mod 16 < 16" "16 * (?a div 16) + ?a mod 16 = ?a" using d by auto
    have b: "?b div 16 < 16" "?b mod 16 < 16" "16 * (?b div 16) + ?b mod 16 = ?b" by auto
    have e: "encodeURIChar c = [CHR ''%'', upperHex (?a div 16), upperHex (?a mod 16),
        CHR ''%'', upperHex (?b div 16), upperHex (?b mod 16)]"
      using 3 by (simp add: encodeURIChar_def percentOctet_def Let_def)
    have "64 * (?a - 192) + (?b - 128) = ?n" by simp
    then show ?thesis unfolding e using a b by (simp add: Let_def hexVal_upperHex)
  qed
qed

lemma encodeURIChar_nonempty [simp]: "encodeURIChar c \<noteq> []"
  by (simp add: encodeURIChar_def percentOctet_def Let_def)

lemma encodeURIComponent_inj: "encodeURIComponent a = encodeURIComponent b \<Longrightarrow> a = b"
proof (induction a arbitrary: b)
  case Nil
  then show ?case by (cases b) (simp_all add: encodeURIComponent_def)
next
  case (Cons c a)
  show ?case
  proof (cases b)
    case Nil
    with Cons.prems show ?thesis by (simp add: encodeURIComponent_def)
  next
    case (Cons d b')
    with Cons.prems have "encodeURIChar c @ encodeURIComponent a = encodeURIChar d @ encodeURIComponent b'"
      by (simp add: encodeURIComponent_def)
    then have "c = d \<and> encodeURIComponent a = encodeURIComponent b'" using decodeHead_encode by (metis prod.inject)
    with Cons.IH Cons show ?thesis by simp
  qed
qed

interpretation issueKeys: key_order issueKeyLess
proof
  show "\<not> issueKeyLess k k" for k by (simp add: issueKeyLess_def)
  show "issueKeyLess a c" if "issueKeyLess a b" "issueKeyLess b c" for a b c
    using that strLess_trans by (auto simp: issueKeyLess_def)
  show "issueKeyLess a b \<or> issueKeyLess b a" if "a \<noteq> b" for a b
    using that encodeURIComponent_inj strLess_total by (auto simp: issueKeyLess_def)
qed

subsection \<open>Walking the tracker feed\<close>

definition sortedIssues :: "memStore \<Rightarrow> (string \<times> trackerIssueProjection) list" where
  "sortedIssues s = sortBy (\<lambda>a b. issueKeyLess (fst a) (fst b)) (ms_trackerIssues s)"

text \<open>The pages a client collects following the cursors, at most \<open>n\<close> of them.\<close>

fun trackerPages :: "nat \<Rightarrow> memStore \<Rightarrow> nat \<Rightarrow> string option \<Rightarrow> trackerIssueProjection list" where
  "trackerPages 0 s limit cursor = []"
| "trackerPages (Suc n) s limit cursor =
     (let (page, next) = listTrackerIssues s limit cursor
      in page @ (case next of None \<Rightarrow> [] | Some c \<Rightarrow> trackerPages n s limit (Some c)))"

lemma listTrackerIssues_unfold:
  "listTrackerIssues s limit cursor =
     (let entries = filter (\<lambda>e. case cursor of None \<Rightarrow> True | Some c \<Rightarrow> issueKeyLess c (fst e)) (sortedIssues s);
          page = take limit entries
      in (map snd page,
          if length entries > length page then (if page = [] then None else Some (fst (last page))) else None))"
  unfolding listTrackerIssues_def sortedIssues_def by (simp add: case_prod_beta')

lemma page_at:
  assumes m: "keysDistinct (ms_trackerIssues s)" and "0 < limit"
    and at: "filter (\<lambda>e. case cursor of None \<Rightarrow> True | Some c \<Rightarrow> issueKeyLess c (fst e)) (sortedIssues s) = drop j (sortedIssues s)"
  shows "fst (listTrackerIssues s limit cursor) = map snd (take limit (drop j (sortedIssues s)))"
    and "snd (listTrackerIssues s limit cursor) = None \<Longrightarrow> drop (j + limit) (sortedIssues s) = []"
    and "snd (listTrackerIssues s limit cursor) = Some c \<Longrightarrow>
      filter (\<lambda>e. issueKeyLess c (fst e)) (sortedIssues s) = drop (j + limit) (sortedIssues s)"
proof -
  let ?E = "sortedIssues s"
  show "fst (listTrackerIssues s limit cursor) = map snd (take limit (drop j ?E))"
    by (simp add: listTrackerIssues_unfold Let_def at)
  show "drop (j + limit) ?E = []" if "snd (listTrackerIssues s limit cursor) = None"
    using that \<open>0 < limit\<close> by (auto simp: listTrackerIssues_unfold Let_def at min_def split: if_splits)
  show "filter (\<lambda>e. issueKeyLess c (fst e)) ?E = drop (j + limit) ?E" if "snd (listTrackerIssues s limit cursor) = Some c"
  proof -
    from that have more: "j + limit < length ?E" and c: "c = fst (last (take limit (drop j ?E)))"
      by (auto simp: listTrackerIssues_unfold Let_def at min_def split: if_splits)
    with \<open>0 < limit\<close> have "last (take limit (drop j ?E)) = ?E ! (j + limit - 1)"
      by (simp add: last_conv_nth min_def)
    with c have "c = fst (?E ! (j + limit - 1))" by simp
    moreover have "sorted_wrt (\<lambda>a b. issueKeyLess (fst a) (fst b)) ?E"
      unfolding sortedIssues_def by (rule issueKeys.sorted_keys [OF m])
    ultimately show ?thesis using issueKeys.after_key [of ?E "j + limit - 1"] more \<open>0 < limit\<close> by simp
  qed
qed

lemma trackerPages_suffix:
  assumes m: "keysDistinct (ms_trackerIssues s)" and "0 < limit"
    and "filter (\<lambda>e. case cursor of None \<Rightarrow> True | Some c \<Rightarrow> issueKeyLess c (fst e)) (sortedIssues s) = drop j (sortedIssues s)"
    and "length (sortedIssues s) \<le> j + n * limit"
  shows "trackerPages n s limit cursor = map snd (drop j (sortedIssues s))"
  using assms(3,4)
proof (induction n arbitrary: cursor j)
  case (Suc n)
  note p = page_at [OF m \<open>0 < limit\<close> Suc.prems(1)]
  obtain page next' where l: "listTrackerIssues s limit cursor = (page, next')" by (cases "listTrackerIssues s limit cursor")
  have page: "page = map snd (take limit (drop j (sortedIssues s)))" using p(1) l by simp
  have split: "map snd (drop j (sortedIssues s)) = page @ map snd (drop (j + limit) (sortedIssues s))"
    unfolding page by (metis add.commute append_take_drop_id drop_drop map_append)
  show ?case
  proof (cases next')
    case None
    with p(2) l have "drop (j + limit) (sortedIssues s) = []" by simp
    with split None l show ?thesis by simp
  next
    case (Some c)
    with p(3) l have "filter (\<lambda>e. issueKeyLess c (fst e)) (sortedIssues s) = drop (j + limit) (sortedIssues s)" by simp
    then have "trackerPages n s limit (Some c) = map snd (drop (j + limit) (sortedIssues s))"
      using Suc.IH [of "Some c" "j + limit"] Suc.prems(2) by (simp add: algebra_simps)
    with split Some l show ?thesis by simp
  qed
qed simp

end
