(* ===== verification/Feed_Guarantees.thy ===== *)
theory Feed_Guarantees
  imports Scenario Store_Frames Paging
begin

text \<open>
  The feeds beside the run protocol: source identities, tracker issues and GitHub anchor
  projections. What one client resolved, observed or fenced is not undone by any later execution.
\<close>

lemma sidePartsD:
  assumes "sideParts s' = sideParts s"
  shows "ms_sourceWorkIds s' = ms_sourceWorkIds s" "ms_trackerIssues s' = ms_trackerIssues s"
    "ms_githubAnchorProjections s' = ms_githubAnchorProjections s"
  using assms by (simp_all add: sideParts_def)

text \<open>A map in which entries are only added or replaced by entries above them.\<close>

definition entriesGrow :: "('v \<Rightarrow> 'v \<Rightarrow> bool) \<Rightarrow> ('k \<times> 'v) list \<Rightarrow> ('k \<times> 'v) list \<Rightarrow> bool" where
  "entriesGrow R m m' \<longleftrightarrow> (\<forall>k v. map_of m k = Some v \<longrightarrow> (\<exists>v'. map_of m' k = Some v' \<and> R v v'))"

lemma entriesGrowD: "entriesGrow R m m' \<Longrightarrow> map_of m k = Some v \<Longrightarrow> \<exists>v'. map_of m' k = Some v' \<and> R v v'"
  unfolding entriesGrow_def by blast

lemma entriesGrow_refl: "reflp R \<Longrightarrow> entriesGrow R m m"
  unfolding entriesGrow_def by (meson reflpD)

lemma entriesGrow_trans: "transp R \<Longrightarrow> entriesGrow R a b \<Longrightarrow> entriesGrow R b c \<Longrightarrow> entriesGrow R a c"
  unfolding entriesGrow_def by (meson transpD)

lemma entriesGrow_update:
  assumes "reflp R" and "\<And>v. map_of m k = Some v \<Longrightarrow> R v x"
  shows "entriesGrow R m (AList.update k x m)"
  unfolding entriesGrow_def
proof (intro allI impI)
  fix j v assume "map_of m j = Some v"
  with assms show "\<exists>v'. map_of (AList.update k x m) j = Some v' \<and> R v v'"
    by (cases "j = k") (auto simp: js.get_put dest: reflpD)
qed

lemma refresh_frames [simp]:
  "ms_sourceWorkIds (case writeTrackerIssue z s p of Inl _ \<Rightarrow> s | Inr s' \<Rightarrow> s') = ms_sourceWorkIds s"
  "ms_sourceWorkIds (fst (beginGithubAnchorProjectionRefresh s a)) = ms_sourceWorkIds s"
  "ms_sourceWorkIds (fst (applyGithubAnchorProjectionRefresh s a g q)) = ms_sourceWorkIds s"
  "ms_trackerIssues (fst (resolveSourceWorkId s k c)) = ms_trackerIssues s"
  "ms_trackerIssues (fst (beginGithubAnchorProjectionRefresh s a)) = ms_trackerIssues s"
  "ms_trackerIssues (fst (applyGithubAnchorProjectionRefresh s a g q)) = ms_trackerIssues s"
  "ms_githubAnchorProjections (case writeTrackerIssue z s p of Inl _ \<Rightarrow> s | Inr s' \<Rightarrow> s') = ms_githubAnchorProjections s"
  "ms_githubAnchorProjections (fst (resolveSourceWorkId s k c)) = ms_githubAnchorProjections s"
  by (auto simp: writeTrackerIssue_def beginGithubAnchorProjectionRefresh_def applyGithubAnchorProjectionRefresh_def
      resolveSourceWorkId_def Let_def split: sum.split option.split)

subsection \<open>Source identities\<close>

abbreviation identitiesGrow :: "memStore \<Rightarrow> memStore \<Rightarrow> bool" where
  "identitiesGrow s s' \<equiv> entriesGrow (=) (ms_sourceWorkIds s) (ms_sourceWorkIds s')"

lemma reflp_eq_string: "reflp ((=) :: string \<Rightarrow> _)" "transp ((=) :: string \<Rightarrow> _)"
  by (auto intro: reflpI transpI)

lemma resolve_grows: "identitiesGrow s (fst (resolveSourceWorkId s k c))"
  unfolding resolveSourceWorkId_def Let_def
  by (simp, rule entriesGrow_update [OF reflp_eq_string(1)]) simp

interpretation identities: monotone_part identitiesGrow
proof
  show "identitiesGrow s s'" if "sideParts s' = sideParts s" for s s'
    by (simp add: sidePartsD [OF that] entriesGrow_refl reflp_eq_string)
  show "identitiesGrow a x" if "identitiesGrow a b" "identitiesGrow b x" for a b x
    by (rule entriesGrow_trans [OF reflp_eq_string(2) that])
  show "identitiesGrow s (exec c s)" if "writesParts c" for c s
    using that by (cases c) (simp_all add: resolve_grows entriesGrow_refl reflp_eq_string)
qed

text \<open>An external source keeps the work item it was first given. Once a source key is resolved,
  every later resolution along any execution answers the same work item, whatever candidate it
  brings.\<close>

lemma source_identity_stable:
  assumes "resolveSourceWorkId s key candidate = (s1, w)" and "steps s1 s2"
  shows "snd (resolveSourceWorkId s2 key other) = w"
proof -
  have "map_of (ms_sourceWorkIds s1) key = Some w" using assms(1) by (auto simp: resolveSourceWorkId_def Let_def js.get_put)
  from entriesGrowD [OF identities.steps_grow [OF assms(2)] this] have "map_of (ms_sourceWorkIds s2) key = Some w" by simp
  then show ?thesis by (simp add: resolveSourceWorkId_def)
qed

subsection \<open>Tracker issues\<close>

definition supersedes :: "trackerIssueProjection \<Rightarrow> trackerIssueProjection \<Rightarrow> bool" where
  "supersedes p q \<longleftrightarrow> q = p \<or> ti_updatedAt (tp_issue p) < ti_updatedAt (tp_issue q)"

lemma supersedes_order: "reflp supersedes" "transp supersedes"
  by (auto simp: supersedes_def intro!: reflpI transpI)

abbreviation issuesAdvance :: "memStore \<Rightarrow> memStore \<Rightarrow> bool" where
  "issuesAdvance s s' \<equiv> entriesGrow supersedes (ms_trackerIssues s) (ms_trackerIssues s')"

lemma writeTrackerIssue_cases:
  obtains (refused) e where "writeTrackerIssue z s p = Inl e"
  | (newer) "writeTrackerIssue z s p =
      Inr (s\<lparr>ms_trackerIssues := AList.update (issueSourceKey (ti_reference (tp_issue p))) p (ms_trackerIssues s)\<rparr>)"
      "\<And>q. map_of (ms_trackerIssues s) (issueSourceKey (ti_reference (tp_issue p))) = Some q \<Longrightarrow> supersedes q p"
  | (older) q where "writeTrackerIssue z s p = Inr s"
      "map_of (ms_trackerIssues s) (issueSourceKey (ti_reference (tp_issue p))) = Some q"
      "ti_updatedAt (tp_issue p) \<le> ti_updatedAt (tp_issue q)"
proof (cases "validTrackerIssueProjection z p")
  case False
  then show thesis by (intro refused) (simp add: writeTrackerIssue_def)
next
  case True
  show thesis
  proof (cases "map_of (ms_trackerIssues s) (issueSourceKey (ti_reference (tp_issue p)))")
    case None
    with True show thesis by (intro newer) (simp_all add: writeTrackerIssue_def Let_def)
  next
    case (Some q)
    show thesis
    proof (cases "ti_updatedAt (tp_issue q) < ti_updatedAt (tp_issue p)")
      case True
      with \<open>validTrackerIssueProjection z p\<close> Some show thesis
        by (intro newer) (simp_all add: writeTrackerIssue_def Let_def supersedes_def)
    next
      case False
      with \<open>validTrackerIssueProjection z p\<close> Some show thesis
        by (intro older [of q]) (simp_all add: writeTrackerIssue_def Let_def)
    qed
  qed
qed

lemma writeTrackerIssue_advances: "issuesAdvance s (case writeTrackerIssue z s p of Inl _ \<Rightarrow> s | Inr s' \<Rightarrow> s')"
proof (cases rule: writeTrackerIssue_cases [of z s p])
  case newer
  from entriesGrow_update [OF supersedes_order(1) newer(2)] show ?thesis by (simp add: newer(1))
qed (simp_all add: entriesGrow_refl supersedes_order)

interpretation issues: monotone_part issuesAdvance
proof
  show "issuesAdvance s s'" if "sideParts s' = sideParts s" for s s'
    by (simp add: sidePartsD [OF that] entriesGrow_refl supersedes_order)
  show "issuesAdvance a x" if "issuesAdvance a b" "issuesAdvance b x" for a b x
    by (rule entriesGrow_trans [OF supersedes_order(2) that])
  show "issuesAdvance s (exec c s)" if "writesParts c" for c s
    using that by (cases c) (simp_all add: writeTrackerIssue_advances entriesGrow_refl supersedes_order)
qed

text \<open>The tracker projection only moves forward. After an accepted write, along every execution
  the stored projection of that issue is of a source update no earlier than the one written: a
  delayed older observation never overwrites it.\<close>

lemma tracker_issue_monotone:
  assumes "writeTrackerIssue z s p = Inr s1" and "steps s1 s2"
  shows "\<exists>q. readTrackerIssue s2 (ti_reference (tp_issue p)) = Some q \<and>
    ti_updatedAt (tp_issue p) \<le> ti_updatedAt (tp_issue q)"
proof -
  let ?k = "issueSourceKey (ti_reference (tp_issue p))"
  have "\<exists>q. map_of (ms_trackerIssues s1) ?k = Some q \<and> ti_updatedAt (tp_issue p) \<le> ti_updatedAt (tp_issue q)"
  proof (cases rule: writeTrackerIssue_cases [of z s p])
    case (refused e)
    with assms(1) show ?thesis by simp
  next
    case newer
    from newer(1) assms(1) have "s1 = s\<lparr>ms_trackerIssues := AList.update ?k p (ms_trackerIssues s)\<rparr>" by simp
    then have "map_of (ms_trackerIssues s1) ?k = Some p" by (simp add: js.get_put)
    then show ?thesis by blast
  next
    case (older q)
    with assms(1) have "s1 = s" by simp
    with older show ?thesis by blast
  qed
  then obtain q where q: "map_of (ms_trackerIssues s1) ?k = Some q" "ti_updatedAt (tp_issue p) \<le> ti_updatedAt (tp_issue q)"
    by blast
  from entriesGrowD [OF issues.steps_grow [OF assms(2)] q(1)] obtain q' where
    "map_of (ms_trackerIssues s2) ?k = Some q'" "supersedes q q'" by blast
  with q(2) show ?thesis by (auto simp: readTrackerIssue_def supersedes_def)
qed

definition demoIssue :: "timestamp \<Rightarrow> trackerIssueProjection" where
  "demoIssue at =
     \<lparr>tp_issue = \<lparr>ti_reference = LinearIssue ''workspace'' ''issue'', ti_identifier = ''ENG-1'', ti_url = ''u'',
        ti_title = ''t'', ti_description = [], ti_state = IssueOpen, ti_updatedAt = at, ti_teamId = None,
        ti_status = None, ti_labels = [], ti_assignees = []\<rparr>,
      tp_repo = None, tp_observedAt = at\<rparr>"

definition issuesKeyed :: "memStore \<Rightarrow> memStore \<Rightarrow> bool" where
  "issuesKeyed s s' \<longleftrightarrow> (keysDistinct (ms_trackerIssues s) \<longrightarrow> keysDistinct (ms_trackerIssues s'))"

lemma writeTrackerIssue_keyed: "issuesKeyed s (case writeTrackerIssue z s p of Inl _ \<Rightarrow> s | Inr s' \<Rightarrow> s')"
  by (cases rule: writeTrackerIssue_cases [of z s p]) (simp_all add: issuesKeyed_def js.invar_put)

interpretation keyed: monotone_part issuesKeyed
proof
  show "issuesKeyed s s'" if "sideParts s' = sideParts s" for s s'
    by (simp add: issuesKeyed_def sidePartsD [OF that])
  show "issuesKeyed a x" if "issuesKeyed a b" "issuesKeyed b x" for a b x
    using that by (simp add: issuesKeyed_def)
  show "issuesKeyed s (exec c s)" if "writesParts c" for c s
    using that by (cases c) (simp_all add: writeTrackerIssue_keyed, simp_all add: issuesKeyed_def)
qed

lemma reachable_issues_keyed: "reachable s \<Longrightarrow> keysDistinct (ms_trackerIssues s)"
  using keyed.steps_grow [of emptyStore s] by (simp add: reachable_def issuesKeyed_def emptyStore_def)

text \<open>C26: the cursors of the tracker feed lead through all of it. Following the cursors of a
  reachable store from the start, with any positive page size and as many pages as the feed
  needs, returns every stored projection exactly once.\<close>

theorem tracker_pages_complete:
  assumes "reachable s" and "0 < limit" and "length (ms_trackerIssues s) \<le> n * limit"
  shows "mset (trackerPages n s limit None) = mset (map snd (ms_trackerIssues s))"
proof -
  have "trackerPages n s limit None = map snd (drop 0 (sortedIssues s))"
    by (rule trackerPages_suffix [OF reachable_issues_keyed [OF assms(1)] assms(2)])
      (use assms(3) in \<open>simp_all add: sortedIssues_def\<close>)
  then show ?thesis by (simp add: sortedIssues_def mset_map)
qed

definition demoIssueAt :: "string \<Rightarrow> trackerIssueProjection" where
  "demoIssueAt i = (demoIssue 5)\<lparr>tp_issue := (tp_issue (demoIssue 5))\<lparr>ti_reference := LinearIssue ''workspace'' i\<rparr>\<rparr>"

definition demoFeed :: memStore where
  "demoFeed = execAll (map (\<lambda>i. WriteTrackerIssue allFormats (demoIssueAt i)) [''c'', ''a'', ''b'']) emptyStore"

theorem tracker_pages_complete_witness:
  "mset (trackerPages 2 demoFeed 2 None) = mset (map snd (ms_trackerIssues demoFeed)) \<and>
   length (ms_trackerIssues demoFeed) = 3"
proof
  have valid: "validTrackerIssueProjection allFormats (demoIssueAt i)" for i
    by (simp add: demoIssueAt_def validTrackerIssueProjection_def validTrackerIssue_def demoIssue_def allFormats_def
        lengthWithin_def)
  show l: "length (ms_trackerIssues demoFeed) = 3"
    by (simp add: demoFeed_def execAll_def writeTrackerIssue_def valid Let_def emptyStore_def)
      (simp add: demoIssueAt_def issueSourceKey_def)
  have r: "reachable demoFeed" unfolding demoFeed_def reachable_def by (rule execAll_steps) simp
  show "mset (trackerPages 2 demoFeed 2 None) = mset (map snd (ms_trackerIssues demoFeed))"
    by (rule tracker_pages_complete [OF r]) (simp_all add: l)
qed

subsection \<open>Anchor projections\<close>

definition laterGeneration :: "anchorProjectionEntry \<Rightarrow> anchorProjectionEntry \<Rightarrow> bool" where
  "laterGeneration e e' \<longleftrightarrow> ap_refreshGeneration e \<le> ap_refreshGeneration e'"

lemma laterGeneration_order: "reflp laterGeneration" "transp laterGeneration"
  by (auto simp: laterGeneration_def intro!: reflpI transpI)

abbreviation generationsGrow :: "memStore \<Rightarrow> memStore \<Rightarrow> bool" where
  "generationsGrow s s' \<equiv> entriesGrow laterGeneration (ms_githubAnchorProjections s) (ms_githubAnchorProjections s')"

lemma begin_grows: "generationsGrow s (fst (beginGithubAnchorProjectionRefresh s anchor))"
  unfolding beginGithubAnchorProjectionRefresh_def Let_def
  by (simp, rule entriesGrow_update [OF laterGeneration_order(1)]) (simp add: laterGeneration_def)

lemma apply_parts:
  obtains "ms_githubAnchorProjections (fst (applyGithubAnchorProjectionRefresh s anchor g q)) = ms_githubAnchorProjections s"
  | p where "ms_githubAnchorProjections (fst (applyGithubAnchorProjectionRefresh s anchor g q)) =
        AList.update (taskKey anchor) \<lparr>ap_projection = p, ap_refreshGeneration = g\<rparr> (ms_githubAnchorProjections s)"
      "map_option ap_refreshGeneration (map_of (ms_githubAnchorProjections s) (taskKey anchor)) = Some g"
proof -
  have "ms_githubAnchorProjections (fst (applyGithubAnchorProjectionRefresh s anchor g q)) = ms_githubAnchorProjections s \<or>
     (\<exists>p. ms_githubAnchorProjections (fst (applyGithubAnchorProjectionRefresh s anchor g q)) =
        AList.update (taskKey anchor) \<lparr>ap_projection = p, ap_refreshGeneration = g\<rparr> (ms_githubAnchorProjections s) \<and>
      map_option ap_refreshGeneration (map_of (ms_githubAnchorProjections s) (taskKey anchor)) = Some g)"
    by (cases q) (auto simp: applyGithubAnchorProjectionRefresh_def Let_def)
  then show thesis using that by blast
qed

lemma apply_grows: "generationsGrow s (fst (applyGithubAnchorProjectionRefresh s anchor g q))"
proof (cases rule: apply_parts [of s anchor g q])
  case 1
  then show ?thesis by (simp add: entriesGrow_refl laterGeneration_order)
next
  case (2 p)
  show ?thesis unfolding 2(1)
    by (rule entriesGrow_update [OF laterGeneration_order(1)]) (use 2(2) in \<open>simp add: laterGeneration_def\<close>)
qed

interpretation generations: monotone_part generationsGrow
proof
  show "generationsGrow s s'" if "sideParts s' = sideParts s" for s s'
    by (simp add: sidePartsD [OF that] entriesGrow_refl laterGeneration_order)
  show "generationsGrow a x" if "generationsGrow a b" "generationsGrow b x" for a b x
    by (rule entriesGrow_trans [OF laterGeneration_order(2) that])
  show "generationsGrow s (exec c s)" if "writesParts c" for c s
    using that by (cases c) (simp_all add: begin_grows apply_grows entriesGrow_refl laterGeneration_order)
qed

text \<open>A refresh is fenced by the refreshes begun after it. Once a second refresh of an anchor
  has begun, the result of the first is refused whenever it arrives, and changes nothing.\<close>

lemma projection_fence:
  assumes "beginGithubAnchorProjectionRefresh s anchor = (s1, g1)" and "steps s1 s2"
    and "beginGithubAnchorProjectionRefresh s2 anchor = (s3, g2)" and "steps s3 s4"
  shows "applyGithubAnchorProjectionRefresh s4 anchor g1 projection = (s4, Inr False)"
proof -
  let ?gen = "\<lambda>x. map_option ap_refreshGeneration (map_of (ms_githubAnchorProjections x) (taskKey anchor))"
  have "?gen s1 = Some g1" using assms(1) by (auto simp: beginGithubAnchorProjectionRefresh_def Let_def js.get_put)
  then obtain e1 where e1: "map_of (ms_githubAnchorProjections s1) (taskKey anchor) = Some e1" "ap_refreshGeneration e1 = g1" by auto
  from entriesGrowD [OF generations.steps_grow [OF assms(2)] e1(1)] obtain e2 where
    e2: "map_of (ms_githubAnchorProjections s2) (taskKey anchor) = Some e2" "g1 \<le> ap_refreshGeneration e2"
    using e1(2) by (auto simp: laterGeneration_def)
  have "?gen s3 = Some g2" "g1 < g2" using assms(3) e2 by (auto simp: beginGithubAnchorProjectionRefresh_def Let_def js.get_put)
  then obtain e3 where e3: "map_of (ms_githubAnchorProjections s3) (taskKey anchor) = Some e3" "g1 < ap_refreshGeneration e3" by auto
  from entriesGrowD [OF generations.steps_grow [OF assms(4)] e3(1)] obtain e4 where
    "map_of (ms_githubAnchorProjections s4) (taskKey anchor) = Some e4" "g1 < ap_refreshGeneration e4"
    using e3(2) by (auto simp: laterGeneration_def)
  then show ?thesis by (simp add: applyGithubAnchorProjectionRefresh_def Let_def)
qed

end
