(* ===== verification/Policy_Guarantees.thy ===== *)
theory Policy_Guarantees
  imports Scenario
begin

text \<open>
  Recovery policy: automatic retries and provider fallbacks come to an end. A chain of runs is what
  repeated losses or provider failures of the newest run make of one task.
\<close>

subsection \<open>Automatic retries\<close>

text \<open>The runs minted when each run of a chain loses its executor in turn, at the given instants.\<close>

fun lossChain :: "(nat \<Rightarrow> timestamp) \<Rightarrow> nat \<Rightarrow> task \<Rightarrow> run \<Rightarrow> run list" where
  "lossChain clock 0 t r = []"
| "lossChain clock (Suc n) t r =
     (case expireLeaseAndRetry (clock n) t r of
        Decided d \<Rightarrow>
          (case d_additionalRuns d of
             m # _ \<Rightarrow> m # lossChain clock n (d_task d) m
           | [] \<Rightarrow> [])
      | _ \<Rightarrow> [])"

definition revisionStale :: "task \<Rightarrow> run \<Rightarrow> bool" where
  "revisionStale t r =
     (case (r_sourceRevision r, t_desiredRevision t, t_closedAt t) of
        (Some own, Some desired, None) \<Rightarrow> wr_key own \<noteq> wr_key desired
      | _ \<Rightarrow> False)"

text \<open>The retries a run has left: a superseded one restarts the budget once.\<close>

definition retryBudget :: "task \<Rightarrow> run \<Rightarrow> nat" where
  "retryBudget t r = (if revisionStale t r then Suc MAX_AUTO_RETRIES else MAX_AUTO_RETRIES - t_consecutiveLost t)"

lemma lossSuccessor_stale:
  assumes "sourceSuccessorInput lost w now = Some m" and "r_state w = Lost"
  shows "revisionStale (d_task lost) w" and "t_consecutiveLost (mi_task m) = 0"
    and "t_desiredRevision (mi_task m) = t_desiredRevision (d_task lost)"
    and "mi_sourceRevision m = t_desiredRevision (d_task lost)"
  using assms
  by (auto simp: sourceSuccessorInput_def revisionStale_def Let_def resetLossBudgets_def split: option.splits if_splits)

lemma mintRun_task:
  "t_consecutiveLost (d_task (mintRun m)) = t_consecutiveLost (mi_task m)"
  "t_desiredRevision (d_task (mintRun m)) = t_desiredRevision (mi_task m)"
  "t_closedAt (d_task (mintRun m)) = t_closedAt (mi_task m)"
  "r_sourceRevision (mintedRun m) = mi_sourceRevision m"
  by (simp_all add: mintRun_def mintedRun_def Let_def)

lemma settleLost_task:
  "t_consecutiveLost (d_task (settleLost now t r by')) = Suc (t_consecutiveLost t)"
  "t_desiredRevision (d_task (settleLost now t r by')) = t_desiredRevision t"
  "t_closedAt (d_task (settleLost now t r by')) = t_closedAt t"
  "d_run (settleLost now t r by') = Some (lostRun now r by')" "d_additionalRuns (settleLost now t r by') = []"
  by (simp_all add: settleLost_def releaseLock_def)

lemma lostRun_revision [simp]:
  "r_sourceRevision (lostRun now r by') = r_sourceRevision r" "r_state (lostRun now r by') = Lost"
  by (simp_all add: lostRun_def)

lemma settleLostAndRetry_minted:
  assumes d: "settleLostAndRetry now (Decided lost) = Decided d" and w: "d_run lost = Some w"
    and none: "d_additionalRuns lost = []" and m: "d_additionalRuns d = m # ms"
  obtains (advance) i where "sourceSuccessorInput lost w now = Some i" "d_task d = d_task (mintRun i)" "m = mintedRun i"
    | (retry) "sourceSuccessorInput lost w now = None" "t_consecutiveLost (d_task lost) \<le> MAX_AUTO_RETRIES"
        "d_task d = d_task (mintRun (retryInput now (d_task lost) w))" "m = mintedRun (retryInput now (d_task lost) w)"
proof -
  from m none have ne: "d \<noteq> lost" by auto
  note u = d [unfolded settleLostAndRetry_def outcome.case decidedRun_Some [OF w]]
  have goose: "r_pipeline w \<noteq> ''goose''" using u ne by (cases "r_pipeline w = ''goose''") simp_all
  show thesis
  proof (cases "sourceSuccessorInput lost w now")
    case (Some i)
    with u goose have "withSuccessor lost (mintRun i) = Decided d" by simp
    with m show thesis by (intro advance [OF Some]) (auto simp: withSuccessor_def)
  next
    case None
    let ?retry = "mintRun (retryInput now (d_task lost) w)"
    have few: "t_consecutiveLost (d_task lost) \<le> MAX_AUTO_RETRIES"
      using u ne goose None by (cases "t_consecutiveLost (d_task lost) > MAX_AUTO_RETRIES") simp_all
    let ?stop = "r_sourceRevision w \<noteq> None \<and> (t_desiredRevision (d_task lost) = None \<or>
        orElse (r_revisionAttempt w) 1 > MAX_AUTO_RETRIES)"
    have u2: "(if ?stop then Decided lost
        else Decided \<lparr>d_task = d_task ?retry, d_run = Some w,
          d_additionalRuns = [mintedRun (retryInput now (d_task lost) w)], d_outbox = d_outbox lost @ d_outbox ?retry\<rparr>) = Decided d"
      using u goose None few by (simp add: Let_def cong: if_cong)
    have "d = \<lparr>d_task = d_task ?retry, d_run = Some w,
          d_additionalRuns = [mintedRun (retryInput now (d_task lost) w)], d_outbox = d_outbox lost @ d_outbox ?retry\<rparr>"
      using u2 ne by (metis outcome.inject(1))
    with m show thesis by (intro retry [OF None few]) simp_all
  qed
qed

lemma expireLeaseAndRetry_loss:
  assumes "expireLeaseAndRetry now t r = Decided d"
  shows "settleLostAndRetry now (Decided (settleLost now t r ByExpiry)) = Decided d"
proof -
  from assms obtain lost where l: "expireLease now t r = Decided lost"
    unfolding expireLeaseAndRetry_def by (rule settleLostAndRetry_loss)
  then have "lost = settleLost now t r ByExpiry" by (auto simp: expireLease_def refused_def split: if_splits)
  with assms l show ?thesis by (simp add: expireLeaseAndRetry_def)
qed

lemma retryInput_revision: "mi_sourceRevision (retryInput now t r) = r_sourceRevision r"
  by (simp add: retryInput_def)

lemma loss_consumes_budget:
  assumes "expireLeaseAndRetry now t r = Decided d" and "d_additionalRuns d = m # ms"
  shows "retryBudget (d_task d) m < retryBudget t r"
proof -
  let ?lost = "settleLost now t r ByExpiry" and ?w = "lostRun now r ByExpiry"
  have stale: "revisionStale (d_task ?lost) ?w = revisionStale t r" by (simp add: revisionStale_def settleLost_task)
  from expireLeaseAndRetry_loss [OF assms(1)] settleLost_task(4,5) assms(2) show ?thesis
  proof (cases rule: settleLostAndRetry_minted)
    case (advance i)
    note s = lossSuccessor_stale [OF advance(1) lostRun_revision(2)]
    have "\<not> revisionStale (d_task d) m"
      using s(3,4) by (auto simp: advance(2,3) revisionStale_def mintRun_task split: option.splits)
    then show ?thesis using s(1,2) stale by (simp add: retryBudget_def advance(2) mintRun_task)
  next
    case retry
    have fresh: "\<not> revisionStale t r"
      using retry(1)
      by (auto simp: sourceSuccessorInput_def revisionStale_def Let_def settleLost_task split: option.splits if_splits)
    have "revisionStale (d_task d) m = revisionStale t r"
      by (simp add: retry(3,4) revisionStale_def mintRun_task settleLost_task retryInput_revision)
    with fresh retry(2) show ?thesis
      by (simp add: retryBudget_def retry(3) mintRun_task settleLost_task)
  qed
qed

text \<open>C35: automatic retries come to an end. However often the runs of a chain are lost, at most
  two retries follow, and one more when the source revision moved on in the meantime.\<close>

theorem loss_chain_bounded:
  "length (lossChain clock n t r) \<le> (if revisionStale t r then Suc MAX_AUTO_RETRIES else MAX_AUTO_RETRIES)"
proof -
  have "length (lossChain clock n t r) \<le> retryBudget t r"
  proof (induction n arbitrary: t r)
    case (Suc n)
    show ?case
    proof (cases "expireLeaseAndRetry (clock n) t r")
      case (Decided d)
      show ?thesis
      proof (cases "d_additionalRuns d")
        case (Cons m ms)
        from Suc [of "d_task d" m] loss_consumes_budget [OF Decided Cons] Decided Cons show ?thesis by simp
      qed (simp add: Decided)
    qed simp_all
  qed simp
  then show ?thesis by (simp add: retryBudget_def split: if_splits)
qed

subsection \<open>Provider fallback\<close>

text \<open>The runs minted by fallback when each run of a chain reports in turn.\<close>

fun fallbackChain ::
  "(nat \<Rightarrow> timestamp) \<Rightarrow> (nat \<Rightarrow> runResult) \<Rightarrow> (nat \<Rightarrow> string option) \<Rightarrow> (nat \<Rightarrow> string list) \<Rightarrow> (nat \<Rightarrow> string list) \<Rightarrow>
   nat \<Rightarrow> task \<Rightarrow> run \<Rightarrow> run list"
where
  "fallbackChain clock result fp auth avail 0 t r = []"
| "fallbackChain clock result fp auth avail (Suc n) t r =
     (case reportResultWithFallback (clock n) t r (result n) (fp n) (auth n) (avail n) of
        Decided d \<Rightarrow>
          (case d_additionalRuns d of
             m # _ \<Rightarrow>
               if r_requestSource m = ProviderFallbackRequested
               then m # fallbackChain clock result fp auth avail n (d_task d) m else []
           | [] \<Rightarrow> [])
      | _ \<Rightarrow> [])"

text \<open>The pipelines a policy still allows.\<close>

definition untried :: "run \<Rightarrow> string list" where
  "untried r =
     (case r_providerFallback r of
        None \<Rightarrow> []
      | Some p \<Rightarrow> filter (\<lambda>x. x \<notin> set (pf_attemptedPipelines p)) (pf_allowedPipelines p))"

lemma advanceSourceRevision_shape:
  assumes "advanceSourceRevision d0 now = Decided d" and "d_run d0 = Some w" and "d_additionalRuns d0 = []"
  shows "d_run d = Some w \<and> (d_additionalRuns d = [] \<or>
    (\<exists>i. sourceSuccessorInput d0 w now = Some i \<and> d_additionalRuns d = [mintedRun i]))"
proof (cases "sourceSuccessorInput d0 w now")
  case None
  with assms show ?thesis by (simp add: advanceSourceRevision_def)
next
  case (Some i)
  with assms show ?thesis
    by (auto simp: advanceSourceRevision_def withSuccessor_def mintRun_fields)
qed

lemma reportResult_shape:
  assumes "reportResult now t r fp result = Decided d"
  shows "\<exists>w. d_run d = Some w \<and> r_providerFallback w = r_providerFallback r \<and>
      (\<forall>m \<in> set (d_additionalRuns d). r_requestSource m \<noteq> ProviderFallbackRequested)"
proof -
  let ?w = "reportedRun now t r result"
  let ?d = "settle (resetLossBudgets (releaseLock t (r_runId r) now)) ?w now"
  have pf: "r_providerFallback ?w = r_providerFallback r" by (simp add: reportedRun_def)
  have source: "orElse (mi_requestSource i) Caller \<noteq> ProviderFallbackRequested"
    if "sourceSuccessorInput ?d ?w now = Some i" for i
    using that by (auto simp: sourceSuccessorInput_def Let_def split: option.splits if_splits)
  have "(\<exists>cp. taskAndRun t (r\<lparr>r_credentialPendingResult := cp, r_updatedAt := now\<rparr>) = Decided d) \<or>
       (\<exists>dl ob. d = ?d\<lparr>d_task := (d_task ?d)\<lparr>t_delivery := dl\<rparr>, d_outbox := d_outbox ?d @ ob\<rparr>) \<or>
        advanceSourceRevision ?d now = Decided d"
    using assms by (auto simp: reportResult_def Let_def split: if_splits option.splits)
  then consider (deferred) cp where "taskAndRun t (r\<lparr>r_credentialPendingResult := cp, r_updatedAt := now\<rparr>) = Decided d"
    | (settled) "d_run d = Some ?w" "d_additionalRuns d = [] \<or>
        (\<exists>i. sourceSuccessorInput ?d ?w now = Some i \<and> d_additionalRuns d = [mintedRun i])"
    using advanceSourceRevision_shape [of ?d now d ?w] by auto
  then show ?thesis by cases (auto simp: taskAndRun_def pf dest: source)
qed

lemma successor_policy:
  assumes "successor now settled p why f = Decided d" and "d_run settled = Some w"
    and "r_providerFallback w = Some policy" and "p \<in> set (pf_allowedPipelines policy)"
  obtains m where "d_additionalRuns d = [m]" "r_pipeline m = p"
    "r_providerFallback m = Some (fallbackPolicyAfter policy w p why f)"
proof -
  from assms(1-3) obtain n m where n: "requestRun (fallbackRequest now (d_task settled) w policy p why f) = Decided n"
    and m: "d_run n = Some m" and d: "d_additionalRuns d = [m]"
    by (auto simp: successor_def decidedRun_def split: outcome.splits option.splits)
  from n obtain work where "n = mintRun (requestMintInput (fallbackRequest now (d_task settled) w policy p why f) work)"
    by (rule requestRun_Decided)
  with m have "m = mintedRun (requestMintInput (fallbackRequest now (d_task settled) w policy p why f) work)" by simp
  moreover have "pf_allowedPipelines policy \<noteq> []" using assms(4) by auto
  ultimately have "r_pipeline m = p" "r_providerFallback m = Some (fallbackPolicyAfter policy w p why f)"
    by (simp_all add: mintedRun_def requestMintInput_def fallbackRequest_def fallbackPolicyAfter_def Let_def)
  with d show thesis by (rule that)
qed

lemma selectFallback_untried:
  assumes "selectFallbackPipeline r auth avail = Some p"
  shows "\<exists>policy. r_providerFallback r = Some policy \<and> p \<in> set (pf_allowedPipelines policy) \<and>
    p \<notin> set (pf_attemptedPipelines policy) \<and> p \<in> set auth \<and> p \<noteq> r_pipeline r"
  using assms by (auto simp: selectFallbackPipeline_def find_Some_iff split: option.splits)

lemma fallback_consumes:
  assumes d: "reportResultWithFallback now t r result fp auth avail = Decided d"
    and m: "d_additionalRuns d = m # ms" "r_requestSource m = ProviderFallbackRequested"
  shows "length (untried m) < length (untried r)" and "r_pipeline m \<in> set auth" and "r_pipeline m \<in> set (untried r)"
    and "r_pipeline m \<notin> set (untried m)" and "set (untried m) \<subseteq> set (untried r)"
proof -
  from d obtain settled where s: "reportResult now t r fp result = Decided settled"
    and f: "settleProviderFallback now settled auth avail = Decided d"
    by (auto simp: reportResultWithFallback_def split: outcome.splits)
  from reportResult_shape [OF s] obtain w where w: "d_run settled = Some w"
    and same: "r_providerFallback r = r_providerFallback w"
    and src: "\<forall>m \<in> set (d_additionalRuns settled). r_requestSource m \<noteq> ProviderFallbackRequested" by metis
  from src m have "d \<noteq> settled" by auto
  with f w obtain x avail' where x: "selectFallbackPipeline w auth avail' = Some x"
    and succ: "successor now settled x ProviderLimit (r_runId w) = Decided d"
    by (auto simp: settleProviderFallback_def orOpt_def split: option.splits)
  from selectFallback_untried [OF x] obtain policy where pol: "r_providerFallback w = Some policy"
    "x \<in> set (pf_allowedPipelines policy)" "x \<notin> set (pf_attemptedPipelines policy)" "x \<in> set auth" by blast
  from successor_policy [OF succ w pol(1,2)] m(1) have m': "r_pipeline m = x"
    "r_providerFallback m = Some (fallbackPolicyAfter policy w x ProviderLimit (r_runId w))" by auto
  have rest: "untried m = filter (\<lambda>y. y \<noteq> x) (untried r)"
    by (simp add: untried_def m'(2) same pol(1) fallbackPolicyAfter_def) (rule filter_cong; auto)
  have xin: "x \<in> set (untried r)" using pol by (simp add: untried_def same)
  with rest show "length (untried m) < length (untried r)" using length_filter_less [of x "untried r" "\<lambda>y. y \<noteq> x"] by simp
  show "r_pipeline m \<in> set auth" "r_pipeline m \<in> set (untried r)" using m'(1) pol(4) xin by simp_all
  show "r_pipeline m \<notin> set (untried m)" "set (untried m) \<subseteq> set (untried r)" using m'(1) rest by auto
qed

lemma fallback_chain_fresh:
  "length (fallbackChain clock result fp auth avail n t r) \<le> length (untried r) \<and>
   distinct (map r_pipeline (fallbackChain clock result fp auth avail n t r)) \<and>
   set (map r_pipeline (fallbackChain clock result fp auth avail n t r)) \<subseteq> set (untried r)"
proof (induction n arbitrary: t r)
  case (Suc n)
  show ?case
  proof (cases "fallbackChain clock result fp auth avail (Suc n) t r = []")
    case False
    then obtain d m ms where d: "reportResultWithFallback (clock n) t r (result n) (fp n) (auth n) (avail n) = Decided d"
      and m: "d_additionalRuns d = m # ms" "r_requestSource m = ProviderFallbackRequested"
      by (auto split: outcome.splits list.splits if_splits)
    from fallback_consumes [OF d m] Suc.IH [of "d_task d" m] d m show ?thesis by auto
  qed simp
qed simp

text \<open>C36: provider fallback ends, and never asks a provider twice. However the runs of a chain fail,
  at whatever times and with whatever authority and availability, the runs that fallback mints
  are for distinct providers the first run's policy allows and has not tried, so there are at
  most as many as such providers.\<close>

theorem fallback_chain_bounded:
  "distinct (map r_pipeline (fallbackChain clock result fp auth avail n t r)) \<and>
   set (map r_pipeline (fallbackChain clock result fp auth avail n t r)) \<subseteq> set (untried r) \<and>
   length (fallbackChain clock result fp auth avail n t r) \<le> length (untried r)"
  using fallback_chain_fresh by blast

end
