(* ===== verification/ISO_Time.thy ===== *)
theory ISO_Time
  imports JS_Date
begin

text \<open>
  \<^verbatim>\<open>Date.prototype.toISOString\<close>, and why the records of the model may hold instants
  where the code holds such strings: on the years 0 to 9999 the code-unit order of the printed
  strings is the order of the instants, so every \<^verbatim>\<open><\<close>, \<^verbatim>\<open><=\<close>,
  \<^verbatim>\<open>===\<close> and \<^verbatim>\<open>sort()\<close> the code applies to them decides as on
  the instants.
\<close>

text \<open>Fixed-width digits, most significant first, and the laws that make their code-unit order
  the numeric order.\<close>

fun padWith :: "nat \<Rightarrow> (nat \<Rightarrow> char) \<Rightarrow> nat \<Rightarrow> nat \<Rightarrow> string" where
  "padWith base digit 0 n = []"
| "padWith base digit (Suc k) n = padWith base digit k (n div base) @ [digit (n mod base)]"

abbreviation padNat :: "nat \<Rightarrow> nat \<Rightarrow> string" where
  "padNat \<equiv> padWith 10 digitChar"

definition isoYear :: "int \<Rightarrow> string" where
  "isoYear y =
     (if 0 \<le> y \<and> y \<le> 9999 then padNat 4 (nat y)
      else if y < 0 then ''-'' @ padNat 6 (nat (- y)) else ''+'' @ padNat 6 (nat y))"

definition toISOString :: "timestamp \<Rightarrow> string" where
  "toISOString t =
     isoYear (getUTCFullYear t) @ ''-'' @ padNat 2 (getUTCMonth t + 1) @ ''-'' @
     padNat 2 (nat (getUTCDate t)) @ ''T'' @ padNat 2 (nat (getUTCHours t)) @ '':'' @
     padNat 2 (nat (getUTCMinutes t)) @ '':'' @ padNat 2 (nat (getUTCSeconds t)) @ ''.'' @
     padNat 3 (nat (getUTCMilliseconds t)) @ ''Z''"

definition isoRange :: "timestamp \<Rightarrow> bool" where
  "isoRange t \<longleftrightarrow> 0 \<le> getUTCFullYear t \<and> getUTCFullYear t \<le> 9999"

subsection \<open>Fixed-width fields\<close>

lemma length_padWith [simp]: "length (padWith base digit k n) = k"
  by (induction k arbitrary: n) auto

lemma strLess_append:
  "length a = length b \<Longrightarrow> strLess (a @ x) (b @ y) \<longleftrightarrow> strLess a b \<or> a = b \<and> strLess x y"
proof (induction a b rule: list_induct2)
  case Nil
  then show ?case by simp
next
  case (Cons c a d b)
  then show ?case by auto
qed

locale digit_system =
  fixes base :: nat and digit :: "nat \<Rightarrow> char"
  assumes base_pos: "0 < base"
    and digit_less: "m < n \<Longrightarrow> n < base \<Longrightarrow> (of_char (digit m) :: nat) < of_char (digit n)"
begin

lemma digit_order:
  assumes "m < base" and "n < base"
  shows "(of_char (digit m) :: nat) < of_char (digit n) \<longleftrightarrow> m < n" "digit m = digit n \<longleftrightarrow> m = n"
  using assms digit_less [of m n] digit_less [of n m] by (metis linorder_neqE_nat order_less_asym order_less_irrefl)+

lemma less_by_digits:
  "m < n \<longleftrightarrow> m div base < n div base \<or> m div base = n div base \<and> m mod base < n mod base"
proof -
  have "m = m div base * base + m mod base" "n = n div base * base + n mod base" by simp_all
  moreover have "m mod base < base" "n mod base < base" using base_pos by simp_all
  moreover have "m div base \<le> n div base" if "m < n" using that by (simp add: div_le_mono)
  moreover have "m < n" if "m div base < n div base"
    using that div_le_mono [of n m base] by (meson leD le_less_linear)
  ultimately show ?thesis by (metis add_less_cancel_left linorder_less_linear order_le_less)
qed

lemma pad_inject:
  "m < base ^ k \<Longrightarrow> n < base ^ k \<Longrightarrow> padWith base digit k m = padWith base digit k n \<longleftrightarrow> m = n"
proof (induction k arbitrary: m n)
  case (Suc k)
  then have "m div base < base ^ k" "n div base < base ^ k"
    by (simp_all add: less_mult_imp_div_less mult.commute)
  with Suc.IH base_pos show ?case by (simp add: digit_order) (metis div_mult_mod_eq)
qed simp

lemma pad_order:
  "m < base ^ k \<Longrightarrow> n < base ^ k \<Longrightarrow> strLess (padWith base digit k m) (padWith base digit k n) \<longleftrightarrow> m < n"
proof (induction k arbitrary: m n)
  case (Suc k)
  then have "m div base < base ^ k" "n div base < base ^ k"
    by (simp_all add: less_mult_imp_div_less mult.commute)
  with Suc.IH base_pos show ?case
    by (simp add: strLess_append digit_order pad_inject less_by_digits [of m n])
qed simp

text \<open>A mixed-radix comparison: the first field decides unless it is equal.\<close>

lemma field_order:
  assumes "m < base ^ k" and "n < base ^ k"
  shows "strLess (padWith base digit k m @ x) (padWith base digit k n @ y) \<longleftrightarrow> m < n \<or> m = n \<and> strLess x y"
  using assms by (simp add: strLess_append pad_order pad_inject)

end

interpretation decimal: digit_system 10 digitChar
  by unfold_locales simp_all

lemma sep_order [simp]: "strLess (c # x) (c # y) \<longleftrightarrow> strLess x y"
  by simp

subsection \<open>Order\<close>

lemma day_order:
  "Day a < Day b \<longleftrightarrow>
     getUTCFullYear a < getUTCFullYear b \<or> getUTCFullYear a = getUTCFullYear b \<and>
       (getUTCMonth a < getUTCMonth b \<or> getUTCMonth a = getUTCMonth b \<and> getUTCDate a < getUTCDate b)"
  (is "_ \<longleftrightarrow> ?less a b")
proof -
  have less: "Day x < Day y" if "?less x y" for x y
  proof (cases "getUTCFullYear x < getUTCFullYear y")
    case True
    then have "DayFromYear (getUTCFullYear x + 1) \<le> DayFromYear (getUTCFullYear y)"
      by (intro DayFromYear_mono) simp
    with yearOfDay_correct [of "Day x"] yearOfDay_correct [of "Day y"] show ?thesis
      by (simp add: getUTCFullYear_def)
  next
    case False
    let ?ls = "monthLengths (leapYear (getUTCFullYear x))"
    from False that have y: "getUTCFullYear y = getUTCFullYear x" by auto
    show ?thesis
    proof (cases "getUTCMonth x = getUTCMonth y")
      case True
      with that y monthAndDay_correct(4) [of x] monthAndDay_correct(4) [of y] show ?thesis
        by (simp add: MakeDay_def)
    next
      case False
      with that y have m: "getUTCMonth x < getUTCMonth y" by auto
      have "sum_list (take (Suc (getUTCMonth x)) ?ls) + sum_list (take (getUTCMonth y - Suc (getUTCMonth x))
          (drop (Suc (getUTCMonth x)) ?ls)) = sum_list (take (getUTCMonth y) ?ls)"
        using m by (metis Suc_leI le_add_diff_inverse sum_list_append take_add)
      moreover have "0 \<le> sum_list (take k (drop l ?ls))" for k l
        by (auto intro!: sum_list_nonneg dest!: in_set_takeD in_set_dropD simp: monthLengths_def)
      ultimately have "sum_list (take (Suc (getUTCMonth x)) ?ls) \<le> sum_list (take (getUTCMonth y) ?ls)"
        by (metis le_add_same_cancel1)
      then have "sum_list (take (getUTCMonth x) ?ls) + ?ls ! getUTCMonth x
          \<le> sum_list (take (getUTCMonth y) ?ls)"
        using monthAndDay_correct(1) [of x] by (simp add: take_Suc_conv_app_nth)
      with y monthAndDay_correct [of x] monthAndDay_correct [of y] show ?thesis
        by (simp add: MakeDay_def)
    qed
  qed
  have eq: "Day a = Day b" if "\<not> ?less a b" "\<not> ?less b a"
  proof -
    from that have "getUTCFullYear a = getUTCFullYear b" "getUTCMonth a = getUTCMonth b"
      "getUTCDate a = getUTCDate b" by auto
    with monthAndDay_correct(4) [of a] monthAndDay_correct(4) [of b] show ?thesis by simp
  qed
  from less [of a b] less [of b a] eq show ?thesis by (metis order_less_asym order_less_irrefl)
qed

lemma time_order:
  "TimeWithinDay a < TimeWithinDay b \<longleftrightarrow>
     getUTCHours a < getUTCHours b \<or> getUTCHours a = getUTCHours b \<and>
       (getUTCMinutes a < getUTCMinutes b \<or> getUTCMinutes a = getUTCMinutes b \<and>
         (getUTCSeconds a < getUTCSeconds b \<or> getUTCSeconds a = getUTCSeconds b \<and>
           getUTCMilliseconds a < getUTCMilliseconds b))"
  using time_split [of a] time_split [of b] time_bounds [of a] time_bounds [of b] by linarith

lemma instant_order:
  "a < b \<longleftrightarrow> Day a < Day b \<or> Day a = Day b \<and> TimeWithinDay a < TimeWithinDay b"
proof -
  have "0 \<le> TimeWithinDay a" "TimeWithinDay a < msPerDay" "0 \<le> TimeWithinDay b" "TimeWithinDay b < msPerDay"
    by (simp_all add: TimeWithinDay_def msPerDay_def)
  with instant_split [of a] instant_split [of b] show ?thesis
    unfolding msPerDay_def by linarith
qed

lemma same_day:
  "Day a = Day b \<longleftrightarrow> getUTCFullYear a = getUTCFullYear b \<and> getUTCMonth a = getUTCMonth b \<and>
     getUTCDate a = getUTCDate b"
  using day_order [of a b] day_order [of b a] monthAndDay_correct(4) [of a] monthAndDay_correct(4) [of b]
  by (metis linorder_neq_iff order_less_irrefl)

lemma date_fields_small:
  "getUTCMonth t + 1 < 10 ^ 2" "nat (getUTCDate t) < 10 ^ 2" "nat (getUTCHours t) < 10 ^ 2"
  "nat (getUTCMinutes t) < 10 ^ 2" "nat (getUTCSeconds t) < 10 ^ 2" "nat (getUTCMilliseconds t) < 10 ^ 3"
proof -
  have "monthLengths leap ! m \<le> 31" if "m < 12" for leap m
    using that by (auto simp: monthLengths_def less_Suc_eq numeral_eq_Suc nth_Cons')
  then have "getUTCDate t \<le> 31" using monthAndDay_correct(1,3) [of t] by (meson order_trans)
  then show "getUTCMonth t + 1 < 10 ^ 2" "nat (getUTCDate t) < 10 ^ 2" "nat (getUTCHours t) < 10 ^ 2"
    "nat (getUTCMinutes t) < 10 ^ 2" "nat (getUTCSeconds t) < 10 ^ 2" "nat (getUTCMilliseconds t) < 10 ^ 3"
    using monthAndDay_correct(1,2) [of t] time_bounds [of t] by simp_all
qed

lemma isoYear_field: "isoRange t \<Longrightarrow> isoYear (getUTCFullYear t) = padNat 4 (nat (getUTCFullYear t))"
  "isoRange t \<Longrightarrow> nat (getUTCFullYear t) < 10 ^ 4"
  by (simp_all add: isoYear_def isoRange_def nat_less_iff)

lemma iso_order:
  assumes "isoRange a" and "isoRange b"
  shows "strLess (toISOString a) (toISOString b) \<longleftrightarrow> a < b"
proof -
  have n: "nat x < nat y \<longleftrightarrow> x < y" "nat x = nat y \<longleftrightarrow> x = y" if "0 \<le> x" "0 \<le> y" for x y
    using that by auto
  have "strLess (toISOString a) (toISOString b) \<longleftrightarrow>
     nat (getUTCFullYear a) < nat (getUTCFullYear b) \<or> nat (getUTCFullYear a) = nat (getUTCFullYear b) \<and>
     (getUTCMonth a + 1 < getUTCMonth b + 1 \<or> getUTCMonth a + 1 = getUTCMonth b + 1 \<and>
     (nat (getUTCDate a) < nat (getUTCDate b) \<or> nat (getUTCDate a) = nat (getUTCDate b) \<and>
     (nat (getUTCHours a) < nat (getUTCHours b) \<or> nat (getUTCHours a) = nat (getUTCHours b) \<and>
     (nat (getUTCMinutes a) < nat (getUTCMinutes b) \<or> nat (getUTCMinutes a) = nat (getUTCMinutes b) \<and>
     (nat (getUTCSeconds a) < nat (getUTCSeconds b) \<or> nat (getUTCSeconds a) = nat (getUTCSeconds b) \<and>
     (nat (getUTCMilliseconds a) < nat (getUTCMilliseconds b)))))))"
    unfolding toISOString_def isoYear_field [OF assms(1)] isoYear_field [OF assms(2)]
    by (simp only: decimal.field_order [OF isoYear_field(2) [OF assms(1)] isoYear_field(2) [OF assms(2)]]
        decimal.field_order [OF date_fields_small(1) date_fields_small(1)]
        decimal.field_order [OF date_fields_small(2) date_fields_small(2)]
        decimal.field_order [OF date_fields_small(3) date_fields_small(3)]
        decimal.field_order [OF date_fields_small(4) date_fields_small(4)]
        decimal.field_order [OF date_fields_small(5) date_fields_small(5)]
        decimal.field_order [OF date_fields_small(6) date_fields_small(6)]
        append_Cons append_Nil sep_order strLess_irrefl simp_thms)
  also have "\<dots> \<longleftrightarrow> a < b"
    using assms monthAndDay_correct(2) [of a] monthAndDay_correct(2) [of b] time_bounds [of a] time_bounds [of b]
    by (simp add: n isoRange_def instant_order [of a b] day_order time_order same_day
        del: zless_nat_conj) blast
  finally show ?thesis .
qed

lemma iso_inject:
  "isoRange a \<Longrightarrow> isoRange b \<Longrightarrow> toISOString a = toISOString b \<longleftrightarrow> a = b"
  by (metis iso_order linorder_neqE_linordered_idom strLess_irrefl)

end
