(* ===== verification/Cron_Guarantees.thy ===== *)
theory Cron_Guarantees
  imports Cron
begin

text \<open>
  What the cron grammar accepts and what the two searches find. A parsed expression has non-empty
  fields in range. The backward search returns exactly the greatest firing minute of its window
  after the watermark, the forward search the least; and a year's horizon is enough for every
  expression that fires on some date of a common year, whatever the weekday restriction leaves
  open. Expressions confined to 29 February are the ones it is not enough for.
\<close>

subsection \<open>The grammar\<close>

lemma valuesFrom_set:
  "x \<in> set (valuesFrom v hi step) \<Longrightarrow> v \<le> x \<and> x \<le> hi"
proof (induction v hi step rule: valuesFrom.induct)
  case (1 v hi step)
  then show ?case by (subst (asm) (2) valuesFrom.simps) (auto split: if_splits)
qed

lemma valuesFrom_first: "v \<le> hi \<Longrightarrow> 0 < step \<Longrightarrow> v \<in> set (valuesFrom v hi step)"
  by (subst valuesFrom.simps) simp

lemma parsePart_values:
  assumes "parsePart spec part = Inr vs"
  shows "vs \<noteq> [] \<and> set vs \<subseteq> {fs_min spec..fs_max spec}"
proof -
  from assms obtain lo hi step where vs: "vs = valuesFrom lo hi step" and "0 < step"
    and "lo \<le> hi" "fs_min spec \<le> lo" "hi \<le> fs_max spec"
    by (auto simp: parsePart_def Let_def split: prod.splits if_splits option.splits)
  with valuesFrom_first [of lo hi step] valuesFrom_set [of _ lo hi step] show ?thesis by fastforce
qed

lemma parseParts_values:
  assumes "parseParts spec parts = Inr vs"
  shows "set vs \<subseteq> {fs_min spec..fs_max spec} \<and> (parts \<noteq> [] \<longrightarrow> vs \<noteq> [])"
  using assms
proof (induction parts arbitrary: vs)
  case (Cons p parts)
  then obtain us ws where "parsePart spec p = Inr us" "parseParts spec parts = Inr ws" "vs = us @ ws"
    by (cases "parseParts spec parts") (auto split: sum.splits)
  with Cons.IH [of ws] parsePart_values [of spec p us] show ?case by auto
qed simp

lemma splitOn_nonempty [simp]: "splitOn c s \<noteq> []"
  by (cases s) (auto split: list.splits)

lemma parseField_values:
  assumes "parseField raw spec = Inr vs"
  shows "vs \<noteq> {} \<and> vs \<subseteq> {fs_min spec..fs_max spec}"
proof -
  from assms obtain us where "parseParts spec (splitOn CHR '','' raw) = Inr us" "vs = set us"
    by (cases "parseParts spec (splitOn CHR '','' raw)") (auto simp: parseField_def)
  with parseParts_values [OF this(1)] show ?thesis by auto
qed

lemma parseFields_values:
  "parseFields fs = Inr vs \<Longrightarrow>
    length vs = length fs \<and> (\<forall>i < length fs. parseField (fst (fs ! i)) (snd (fs ! i)) = Inr (vs ! i))"
proof (induction fs arbitrary: vs)
  case (Cons f fs)
  then obtain v ws where "parseField (fst f) (snd f) = Inr v" "parseFields fs = Inr ws" "vs = v # ws"
    by (cases f; cases "parseFields fs") (auto split: sum.splits)
  with Cons.IH [of ws] show ?case by (auto simp: nth_Cons split: nat.splits)
qed simp

definition fieldWithin :: "int set \<Rightarrow> int \<Rightarrow> int \<Rightarrow> bool" where
  "fieldWithin vs lo hi \<longleftrightarrow> vs \<noteq> {} \<and> vs \<subseteq> {lo..hi}"

definition cronWellFormed :: "cronSpec \<Rightarrow> bool" where
  "cronWellFormed spec \<longleftrightarrow>
     fieldWithin (cs_minute spec) 0 59 \<and> fieldWithin (cs_hour spec) 0 23 \<and>
     fieldWithin (cs_dayOfMonth spec) 1 31 \<and> fieldWithin (cs_month spec) 1 12 \<and>
     fieldWithin (cs_dayOfWeek spec) 0 6"

lemma parseCron_wellFormed:
  assumes "parseCron expr = Inr spec"
  shows "cronWellFormed spec"
proof -
  let ?fs = "zip (splitSpaces (jsTrim expr)) FIELDS"
  from assms have "length (splitSpaces (jsTrim expr)) = 5"
    by (auto simp: parseCron_def Let_def split: if_splits)
  then have len: "length ?fs = 5" and spec: "i < 5 \<Longrightarrow> snd (?fs ! i) = FIELDS ! i" for i
    by (simp_all add: FIELDS_def)
  from assms obtain vs where vs: "parseFields ?fs = Inr vs"
    and s: "spec = \<lparr>cs_minute = vs ! 0, cs_hour = vs ! 1, cs_dayOfMonth = vs ! 2,
                    cs_month = vs ! 3, cs_dayOfWeek = vs ! 4\<rparr>"
    by (cases "parseFields ?fs") (auto simp: parseCron_def Let_def split: if_splits)
  have "fieldWithin (vs ! i) (fs_min (FIELDS ! i)) (fs_max (FIELDS ! i))" if "i < 5" for i
    using parseFields_values [OF vs] len that spec parseField_values by (metis fieldWithin_def)
  from this [of 0] this [of 1] this [of 2] this [of 3] this [of 4] show ?thesis
    by (simp add: s cronWellFormed_def FIELDS_def)
qed

subsection \<open>Minutes\<close>

lemma truncateToMinute_mod: "truncateToMinute t = t - t mod 60000"
proof -
  have day: "t mod 86400000 mod 60000 = t mod 60000" by (rule mod_mod_cancel) simp
  have split: "x mod 60000 = 1000 * (x div 1000 mod 60) + x mod 1000" for x :: int
    using zmod_zmult2_eq [of 60 x 1000] by simp
  show ?thesis
    unfolding truncateToMinute_def getUTCSeconds_def getUTCMilliseconds_def TimeWithinDay_def msPerDay_def
    using split [of "t mod 86400000", unfolded day] by linarith
qed

lemma setUTCMinutes_shift:
  "setUTCMinutes t (getUTCMinutes t - 1) = t - 60000" "setUTCMinutes t (getUTCMinutes t + 1) = t + 60000"
  using instant_split [of t] time_split [of t] by (simp_all add: setUTCMinutes_def algebra_simps)

definition aboveBound :: "timestamp option \<Rightarrow> timestamp \<Rightarrow> bool" where
  "aboveBound lowerBound t = (case lowerBound of None \<Rightarrow> True | Some b \<Rightarrow> b < t)"

lemma aboveBound_mono: "aboveBound b t \<Longrightarrow> t \<le> u \<Longrightarrow> aboveBound b u"
  by (auto simp: aboveBound_def split: option.splits)

lemma lookBack_Suc:
  "lookBack spec b (Suc n) c =
     (if \<not> aboveBound b c then None else if matchesSpec spec c then Some c
      else lookBack spec b n (c - 60000))"
  by (simp add: aboveBound_def setUTCMinutes_shift not_less split: option.splits)

declare lookBack.simps(2) [simp del]

text \<open>The minutes a search of \<open>n\<close> steps visits, and the firing ones among them.\<close>

definition minutesBack :: "nat \<Rightarrow> timestamp \<Rightarrow> timestamp set" where
  "minutesBack n c = (\<lambda>k. c - 60000 * int k) ` {..<n}"

definition minutesAhead :: "nat \<Rightarrow> timestamp \<Rightarrow> timestamp set" where
  "minutesAhead n c = (\<lambda>k. c + 60000 * int k) ` {..<n}"

definition optMax :: "timestamp set \<Rightarrow> timestamp option" where
  "optMax S = (if S = {} then None else Some (Max S))"

definition optMin :: "timestamp set \<Rightarrow> timestamp option" where
  "optMin S = (if S = {} then None else Some (Min S))"

lemma minutes_Suc:
  "minutesBack (Suc n) c = insert c (minutesBack n (c - 60000))"
  "minutesAhead (Suc n) c = insert c (minutesAhead n (c + 60000))"
  unfolding minutesBack_def minutesAhead_def lessThan_Suc_eq_insert_0 image_insert image_image
  by (simp_all add: algebra_simps)

lemma minutes_finite [simp]: "finite (minutesBack n c)" "finite (minutesAhead n c)"
  by (simp_all add: minutesBack_def minutesAhead_def)

lemma minutes_bound: "t \<in> minutesBack n c \<Longrightarrow> t \<le> c" "t \<in> minutesAhead n c \<Longrightarrow> c \<le> t"
  by (auto simp: minutesBack_def minutesAhead_def)

lemma optMax_top: "c \<in> S \<Longrightarrow> finite S \<Longrightarrow> (\<And>t. t \<in> S \<Longrightarrow> t \<le> c) \<Longrightarrow> optMax S = Some c"
  using Max_eqI [of S c] by (auto simp: optMax_def)

lemma optMin_bottom: "c \<in> S \<Longrightarrow> finite S \<Longrightarrow> (\<And>t. t \<in> S \<Longrightarrow> c \<le> t) \<Longrightarrow> optMin S = Some c"
  using Min_eqI [of S c] by (auto simp: optMin_def)

lemma lookBack_max:
  "lookBack spec b n c = optMax {t \<in> minutesBack n c. matchesSpec spec t \<and> aboveBound b t}"
proof (induction n arbitrary: c)
  case (Suc n)
  let ?S = "{t \<in> minutesBack (Suc n) c. matchesSpec spec t \<and> aboveBound b t}"
  consider "\<not> aboveBound b c" | "aboveBound b c" "matchesSpec spec c" | "aboveBound b c" "\<not> matchesSpec spec c"
    by blast
  then show ?case
  proof cases
    case 1
    then have "?S = {}" using aboveBound_mono minutes_bound(1) by blast
    with 1 show ?thesis by (simp add: lookBack_Suc optMax_def)
  next
    case 2
    then have "optMax ?S = Some c" by (intro optMax_top) (auto simp: minutes_Suc(1) dest: minutes_bound(1))
    with 2 show ?thesis by (simp add: lookBack_Suc)
  next
    case 3
    then have "?S = {t \<in> minutesBack n (c - 60000). matchesSpec spec t \<and> aboveBound b t}"
      by (auto simp: minutes_Suc(1))
    with 3 Suc.IH show ?thesis by (simp add: lookBack_Suc)
  qed
qed (simp add: minutesBack_def optMax_def)

lemma lookAhead_min:
  "lookAhead spec n c = optMin {t \<in> minutesAhead n c. matchesSpec spec t}"
proof (induction n arbitrary: c)
  case (Suc n)
  let ?S = "{t \<in> minutesAhead (Suc n) c. matchesSpec spec t}"
  show ?case
  proof (cases "matchesSpec spec c")
    case True
    then have "optMin ?S = Some c" by (intro optMin_bottom) (auto simp: minutes_Suc(2) dest: minutes_bound(2))
    with True show ?thesis by simp
  next
    case False
    then have "?S = {t \<in> minutesAhead n (c + 60000). matchesSpec spec t}" by (auto simp: minutes_Suc(2))
    with False Suc.IH show ?thesis by (simp add: setUTCMinutes_shift)
  qed
qed (simp add: minutesAhead_def optMin_def)

text \<open>The window of a search in the terms of the specification: whole minutes, not after \<open>now\<close>
  and less than \<open>n\<close> minutes before it; and likewise ahead.\<close>

lemma multiple_of_minute: "t mod 60000 = 0 \<Longrightarrow> u mod 60000 = 0 \<Longrightarrow> t \<le> u \<Longrightarrow> \<exists>k. u = t + 60000 * int k"
proof -
  assume "t mod 60000 = 0" and "u mod 60000 = 0" and le: "t \<le> u"
  then have "(u - t) mod 60000 = 0" by (metis mod_diff_right_eq diff_zero mod_diff_left_eq)
  then obtain q where "u - t = 60000 * q" by (metis mod_0_imp_dvd dvdE)
  with le show ?thesis by (intro exI [of _ "nat q"]) simp
qed

lemma truncated: "truncateToMinute now mod 60000 = 0" "truncateToMinute now \<le> now"
  "t mod 60000 = 0 \<Longrightarrow> t \<le> now \<longleftrightarrow> t \<le> truncateToMinute now"
proof -
  show "truncateToMinute now mod 60000 = 0" "truncateToMinute now \<le> now"
    by (simp_all add: truncateToMinute_mod)
  assume "t mod 60000 = 0"
  then obtain a where "t = 60000 * a" by (metis mod_0_imp_dvd dvdE)
  moreover have "60000 * a \<le> 60000 * q + r \<longleftrightarrow> 60000 * a \<le> 60000 * q" if r: "0 \<le> r" "r < 60000" for q r
  proof
    assume "60000 * a \<le> 60000 * q + r"
    with r have "a \<le> q" by linarith
    then show "60000 * a \<le> 60000 * q" by simp
  qed (use r in simp)
  from this [of "now mod 60000" "now div 60000"]
  have "60000 * a \<le> now \<longleftrightarrow> 60000 * a \<le> now - now mod 60000" by (simp add: minus_mod_eq_mult_div)
  ultimately show "t \<le> now \<longleftrightarrow> t \<le> truncateToMinute now" by (simp add: truncateToMinute_mod)
qed

lemma minutesBack_iff:
  "t \<in> minutesBack n (truncateToMinute now) \<longleftrightarrow>
     t mod 60000 = 0 \<and> t \<le> now \<and> truncateToMinute now - t < 60000 * int n"
proof
  assume "t \<in> minutesBack n (truncateToMinute now)"
  then obtain k where "k < n" "t = truncateToMinute now - 60000 * int k" by (auto simp: minutesBack_def)
  with truncated(1,2) [of now] mod_diff_eq [of "truncateToMinute now" 60000 "60000 * int k"]
  show "t mod 60000 = 0 \<and> t \<le> now \<and> truncateToMinute now - t < 60000 * int n" by simp
next
  assume t: "t mod 60000 = 0 \<and> t \<le> now \<and> truncateToMinute now - t < 60000 * int n"
  then have "t \<le> truncateToMinute now" by (simp add: truncated(3) [symmetric])
  with multiple_of_minute [of t "truncateToMinute now"] t truncated(1) obtain k
    where "truncateToMinute now = t + 60000 * int k" by blast
  with t show "t \<in> minutesBack n (truncateToMinute now)" by (auto simp: minutesBack_def)
qed

lemma minutesAhead_iff:
  "t \<in> minutesAhead n (truncateToMinute now) \<longleftrightarrow>
     t mod 60000 = 0 \<and> truncateToMinute now \<le> t \<and> t - truncateToMinute now < 60000 * int n"
proof
  assume "t \<in> minutesAhead n (truncateToMinute now)"
  then obtain k where "k < n" "t = truncateToMinute now + 60000 * int k" by (auto simp: minutesAhead_def)
  with truncated(1) [of now] mod_add_eq [of "truncateToMinute now" 60000 "60000 * int k"]
  show "t mod 60000 = 0 \<and> truncateToMinute now \<le> t \<and> t - truncateToMinute now < 60000 * int n" by simp
next
  assume t: "t mod 60000 = 0 \<and> truncateToMinute now \<le> t \<and> t - truncateToMinute now < 60000 * int n"
  with multiple_of_minute [of "truncateToMinute now" t] truncated(1) obtain k
    where "t = truncateToMinute now + 60000 * int k" by blast
  with t show "t \<in> minutesAhead n (truncateToMinute now)" by (auto simp: minutesAhead_def)
qed

subsection \<open>The searches are exact\<close>

text \<open>The firing minutes of a cron specification.\<close>

definition fires :: "cronSpec \<Rightarrow> timestamp \<Rightarrow> bool" where
  "fires spec t \<longleftrightarrow> t mod 60000 = 0 \<and> matchesSpec spec t"

lemma optMax_in: "optMax S = Some t \<Longrightarrow> finite S \<Longrightarrow> t \<in> S"
  by (cases "S = {}") (auto simp: optMax_def intro: Max_in)

lemma latest_due_slot_above: "latestDueSlot spec now after = Some t \<Longrightarrow> aboveBound after t"
  unfolding latestDueSlot_def lookBack_max by (drule optMax_in) simp_all

text \<open>C32: the backward search is exact. It answers the greatest minute at which the expression
  fires, not after now, after the watermark and less than 366 days back, and nothing exactly when
  there is none: no due slot is skipped and none at or before the watermark is reported again.\<close>

theorem latest_due_slot_exact:
  "latestDueSlot spec now after =
     optMax {t. fires spec t \<and> t \<le> now \<and> aboveBound after t \<and>
                truncateToMinute now - t < 366 * msPerDay}"
  unfolding latestDueSlot_def lookBack_max minutesBack_iff
  by (rule arg_cong [of _ _ optMax]) (auto simp: MAX_LOOKBACK_MINUTES_def msPerDay_def fires_def)

lemma next_due_slot_exact:
  "nextDueSlot spec from days =
     optMin {t. fires spec t \<and> truncateToMinute from \<le> t \<and> t - truncateToMinute from < int days * msPerDay}"
  unfolding nextDueSlot_def lookAhead_min minutesAhead_iff
  by (rule arg_cong [of _ _ optMin]) (auto simp: msPerDay_def fires_def)

subsection \<open>A year is enough\<close>

text \<open>The instant of a wall-clock time on a calendar date.\<close>

definition instantAt :: "int \<Rightarrow> nat \<Rightarrow> int \<Rightarrow> int \<Rightarrow> int \<Rightarrow> timestamp" where
  "instantAt year month date hour minute =
     MakeDay year month date * msPerDay + (hour * 3600000 + minute * 60000)"

lemma day_remainder: "0 \<le> TimeWithinDay t" "TimeWithinDay t < msPerDay"
  by (simp_all add: TimeWithinDay_def msPerDay_def)

lemma time_of_day:
  assumes "0 \<le> x" and "x < msPerDay"
  shows "Day (n * msPerDay + x) = n" "TimeWithinDay (n * msPerDay + x) = x"
  using assms by (simp_all add: Day_def TimeWithinDay_def msPerDay_def)

lemma instantAt_fields:
  assumes m: "month < 12" and d: "1 \<le> date" "date \<le> monthLengths (leapYear year) ! month"
    and h: "0 \<le> hour" "hour < 24" and mi: "0 \<le> minute" "minute < 60"
  defines "t \<equiv> instantAt year month date hour minute"
  shows "Day t = MakeDay year month date" "getUTCHours t = hour" "getUTCMinutes t = minute"
    "getUTCDate t = date" "getUTCMonth t = month" "t mod 60000 = 0"
proof -
  let ?x = "hour * 3600000 + minute * 60000"
  have x: "0 \<le> ?x" "?x < msPerDay" using h mi by (simp_all add: msPerDay_def)
  note day = time_of_day [OF x, of "MakeDay year month date", folded instantAt_def]
  show "Day t = MakeDay year month date" by (simp add: t_def day)
  then show "getUTCDate t = date" "getUTCMonth t = month" using fields_of_MakeDay m d by blast+
  have "?x div 60000 = minute + 60 * hour" by simp
  with mi show "getUTCMinutes t = minute" by (simp add: getUTCMinutes_def t_def day)
  have "?x div 3600000 = hour" using mi by simp
  then show "getUTCHours t = hour" by (simp add: getUTCHours_def t_def day)
  have "t = 60000 * (1440 * MakeDay year month date + 60 * hour + minute)"
    by (simp add: t_def instantAt_def msPerDay_def)
  then show "t mod 60000 = 0" by simp
qed

lemma month_start_leap:
  assumes "month < 12"
  shows "sum_list (take month (monthLengths leap)) =
    sum_list (take month (monthLengths False)) + (if leap \<and> 2 \<le> month then 1 else 0)"
    "monthLengths False ! month \<le> monthLengths leap ! month"
proof -
  have "month \<in> {0, 1, 2, 3, 4, 5, 6, 7, 8, 9, 10, 11}"
    using assms by (auto simp: less_Suc_eq numeral_eq_Suc)
  then show "sum_list (take month (monthLengths leap)) =
      sum_list (take month (monthLengths False)) + (if leap \<and> 2 \<le> month then 1 else 0)"
    "monthLengths False ! month \<le> monthLengths leap ! month"
    by (auto simp: monthLengths_def)
qed

lemma next_year_day:
  assumes "month < 12"
  shows "MakeDay (y + 1) month date - MakeDay y month date \<le> 366"
  using assms by (auto simp: MakeDay_def DayFromYear_Suc DaysInYear_def month_start_leap [of month "leapYear _"])

lemma common_date_within_year:
  assumes m: "month < 12" and d: "1 \<le> date" "date \<le> monthLengths False ! month"
    and h: "0 \<le> hour" "hour < 24" and mi: "0 \<le> minute" "minute < 60"
  obtains y where "c \<le> instantAt y month date hour minute"
    "instantAt y month date hour minute < c + 366 * msPerDay"
    "date \<le> monthLengths (leapYear y) ! month"
proof -
  have len: "date \<le> monthLengths (leapYear y) ! month" for y
    using d(2) month_start_leap(2) [OF m] by (meson order_trans)
  define T where "T y = instantAt y month date hour minute" for y
  have day: "Day (T y) = MakeDay y month date" "getUTCFullYear (T y) = y" for y
  proof -
    show "Day (T y) = MakeDay y month date" unfolding T_def by (rule instantAt_fields(1)) (use assms len in auto)
    from fields_of_MakeDay(1) [OF this m d(1) len] show "getUTCFullYear (T y) = y" .
  qed
  let ?y = "getUTCFullYear c"
  have year: "DayFromYear (getUTCFullYear t) \<le> Day t" "Day t < DayFromYear (getUTCFullYear t + 1)" for t
    using yearOfDay_correct [of "Day t"] by (simp_all add: getUTCFullYear_def)
  have span: "T (y + 1) - T y \<le> 366 * msPerDay" for y
    using next_year_day [OF m, of y date] by (simp add: T_def instantAt_def msPerDay_def)
  show thesis
  proof (cases "c \<le> T ?y")
    case True
    have "Day (T ?y) + 1 - Day c \<le> 366"
      using year(1) [of c] year(2) [of "T ?y"] DaysInYear_bounds(2) [of ?y]
      by (simp add: day DayFromYear_Suc)
    then have "Day (T ?y) * msPerDay + msPerDay \<le> Day c * msPerDay + 366 * msPerDay"
      by (simp add: msPerDay_def)
    with instant_split [of c] instant_split [of "T ?y"] day_remainder(1) [of c] day_remainder(2) [of "T ?y"]
    have "T ?y < c + 366 * msPerDay" by linarith
    with True show ?thesis using that len by (simp add: T_def)
  next
    case False
    have "Day c < Day (T (?y + 1))" using year(2) [of c] year(1) [of "T (?y + 1)"] by (simp add: day)
    then have "c \<le> T (?y + 1)" using instant_order [of c "T (?y + 1)"] by linarith
    moreover have "T (?y + 1) < c + 366 * msPerDay" using False span [of ?y] by simp
    ultimately show ?thesis using that len by (simp add: T_def)
  qed
qed

text \<open>C33: an expression that can fire in a common year is never rejected. If it names a date that
  exists in every year and leaves the weekday open, then from any instant the search of
  \<open>DEFAULT_HORIZON_DAYS\<close> finds a firing minute within 366 days.\<close>

theorem next_due_within_year:
  assumes "parseCron expr = Inr spec" and "{0..6} \<subseteq> cs_dayOfWeek spec"
    and "m \<in> cs_month spec" and "d \<in> cs_dayOfMonth spec" and "d \<le> monthLengths False ! nat (m - 1)"
  shows "\<exists>t. nextDueSlot spec from DEFAULT_HORIZON_DAYS = Some t \<and> fires spec t"
proof -
  from parseCron_wellFormed [OF assms(1)] obtain h mi where h: "h \<in> cs_hour spec" "0 \<le> h" "h < 24"
    and mi: "mi \<in> cs_minute spec" "0 \<le> mi" "mi < 60" and m: "1 \<le> m" "nat (m - 1) < 12" and d: "1 \<le> d"
    using assms(3,4) by (fastforce simp: cronWellFormed_def fieldWithin_def)
  obtain y where y: "truncateToMinute from \<le> instantAt y (nat (m - 1)) d h mi"
    "instantAt y (nat (m - 1)) d h mi < truncateToMinute from + 366 * msPerDay"
    "d \<le> monthLengths (leapYear y) ! nat (m - 1)"
    by (rule common_date_within_year [OF m(2) d assms(5) h(2,3) mi(2,3)])
  define t where "t = instantAt y (nat (m - 1)) d h mi"
  note fields = instantAt_fields [OF m(2) d y(3) h(2,3) mi(2,3), folded t_def]
  have "getUTCDay t \<in> {0..6}" by (auto simp: getUTCDay_def intro: zle_add1_eq_le [THEN iffD1])
  then have "fires spec t" using fields h mi assms m by (auto simp: fires_def matchesSpec_def)
  let ?S = "{t. fires spec t \<and> truncateToMinute from \<le> t \<and>
              t - truncateToMinute from < int DEFAULT_HORIZON_DAYS * msPerDay}"
  have "t \<in> ?S" using \<open>fires spec t\<close> y(1,2) by (simp add: t_def DEFAULT_HORIZON_DAYS_def)
  moreover have "finite ?S"
    by (rule finite_subset [of _ "{truncateToMinute from..truncateToMinute from + 366 * msPerDay}"])
      (auto simp: DEFAULT_HORIZON_DAYS_def)
  ultimately have "Min ?S \<in> ?S" by (intro Min_in) auto
  with \<open>t \<in> ?S\<close> show ?thesis unfolding next_due_slot_exact optMin_def by auto
qed

definition demoCron :: cronSpec where
  "demoCron = \<lparr>cs_minute = {30}, cs_hour = {9}, cs_dayOfMonth = {1, 15}, cs_month = {1..12}, cs_dayOfWeek = {0..6}\<rparr>"

lemma demoCron_parses: "parseCron ''30 9 1,15 * *'' = Inr demoCron"
  by code_simp

theorem next_due_within_year_witness:
  "\<exists>t. nextDueSlot demoCron 1790000000000 DEFAULT_HORIZON_DAYS = Some t \<and> fires demoCron t"
  by (rule next_due_within_year [OF demoCron_parses, where m = 1 and d = 15])
    (simp_all add: demoCron_def monthLengths_def)

text \<open>The horizon is too short for the one date that is not in every year. An expression for
  29 February is well formed and fires, yet a search that starts more than 366 days before the
  next leap day finds nothing: creating such a schedule is refused, and a tick disables one that
  exists.\<close>

definition leapDayCron :: cronSpec where
  "leapDayCron = \<lparr>cs_minute = {0}, cs_hour = {0}, cs_dayOfMonth = {29}, cs_month = {2}, cs_dayOfWeek = {0..6}\<rparr>"

lemma leapDayCron_parses: "parseCron ''0 0 29 2 *'' = Inr leapDayCron"
  by code_simp

lemma leapDay_fires: "fires leapDayCron (instantAt 2028 1 29 0 0)"
proof -
  have "29 \<le> monthLengths (leapYear 2028) ! 1" by (simp add: leapYear_def monthLengths_def)
  note f = instantAt_fields [OF _ _ this, of 0 0, simplified]
  have "getUTCDay (instantAt 2028 1 29 0 0) \<in> {0..6}" by (auto simp: getUTCDay_def intro: zle_add1_eq_le [THEN iffD1])
  with f show ?thesis by (simp add: fires_def matchesSpec_def leapDayCron_def)
qed

lemma year_window:
  assumes "DayFromYear y \<le> Day t" and "Day t < DayFromYear (y + 2)"
  shows "getUTCFullYear t = y \<or> getUTCFullYear t = y + 1"
proof (cases "Day t < DayFromYear (y + 1)")
  case True
  with assms(1) show ?thesis by (simp add: getUTCFullYear_def yearOfDay_unique)
next
  case False
  with assms(2) show ?thesis by (simp add: getUTCFullYear_def yearOfDay_unique add.assoc)
qed

lemma leap_day_needs_leap_year: "fires leapDayCron t \<Longrightarrow> leapYear (getUTCFullYear t)"
  using monthAndDay_correct(3) [of t]
  by (auto simp: fires_def matchesSpec_def leapDayCron_def monthLengths_def split: if_splits)

lemma leap_day_cron_never_due:
  "nextDueSlot leapDayCron (instantAt 2025 2 1 0 0) DEFAULT_HORIZON_DAYS = None"
proof -
  have d: "MakeDay 2025 2 1 = 20148" "DayFromYear 2025 = 20089" "DayFromYear 2027 = 20819"
    by (simp_all add: MakeDay_def DayFromYear_def monthLengths_def leapYear_def numeral_2_eq_2)
  have start: "truncateToMinute (instantAt 2025 2 1 0 0) = 20148 * msPerDay"
    by (simp add: truncateToMinute_mod instantAt_def d msPerDay_def)
  have "\<not> fires leapDayCron t" if "20148 * msPerDay \<le> t" "t - 20148 * msPerDay < 366 * msPerDay" for t
  proof
    assume "fires leapDayCron t"
    then have "leapYear (getUTCFullYear t)" by (rule leap_day_needs_leap_year)
    moreover have "20148 \<le> Day t" "Day t < 20514"
      using that instant_split [of t] day_remainder [of t] unfolding msPerDay_def by linarith+
    ultimately show False using year_window [of 2025 t] d by (auto simp: leapYear_def)
  qed
  then have "{t. fires leapDayCron t \<and> 20148 * msPerDay \<le> t \<and> t - 20148 * msPerDay < 366 * msPerDay} = {}" by blast
  then show ?thesis unfolding next_due_slot_exact start by (simp add: optMin_def DEFAULT_HORIZON_DAYS_def)
qed

subsection \<open>Identifiers\<close>

lemma alphabet_sorted: "sorted_wrt (\<lambda>a b. (of_char a :: nat) < of_char b) ALPHABET"
  by code_simp

lemma length_ALPHABET [simp]: "length ALPHABET = 32"
  by (simp add: ALPHABET_def)

interpretation crockford: digit_system 32 "(!) ALPHABET"
proof
  show "m < n \<Longrightarrow> n < 32 \<Longrightarrow> (of_char (ALPHABET ! m) :: nat) < of_char (ALPHABET ! n)" for m n
    using sorted_wrt_nth_less [OF alphabet_sorted, of m n] by simp
qed simp

lemma timePrefix_pad:
  "0 \<le> time \<Longrightarrow> timePrefix k time prefix = padWith 32 ((!) ALPHABET) k (nat time) @ prefix"
proof (induction k arbitrary: time prefix)
  case (Suc k)
  have "nat (time div 32) = nat time div 32" "nat (time mod 32) = nat time mod 32"
    using Suc.prems by (simp_all add: nat_div_distrib nat_mod_distrib)
  with Suc show ?case by (simp add: jsRem_def alphabetAt_def)
qed simp

lemma crockfordTimePrefix_pad:
  "0 \<le> t \<Longrightarrow> crockfordTimePrefix t = padWith 32 ((!) ALPHABET) 10 (nat t)"
  by (simp add: crockfordTimePrefix_def timePrefix_pad)

lemma alphabet_chars: "list_all workIdChar ALPHABET"
  by code_simp

lemma padWith_digits: "\<forall>i < base. P (digit i) \<Longrightarrow> 0 < base \<Longrightarrow> list_all P (padWith base digit k n)"
  by (induction k arbitrary: n) auto

lemma alphabet_nth: "i < 32 \<Longrightarrow> workIdChar (ALPHABET ! i)"
  using alphabet_chars by (simp add: list_all_length)

lemma crockfordBytes_chars:
  "length (crockfordBytes bs) = length bs" "list_all workIdChar (crockfordBytes bs)"
  by (induction bs) (simp_all add: crockfordBytes_def alphabetAt_def alphabet_nth nat_mod_distrib)

lemma work_id_of_prefix:
  assumes "0 \<le> t" and "length bs = 16"
  shows "WORK_ID_RE (crockfordTimePrefix t @ crockfordBytes bs)"
  using assms padWith_digits [of 32 workIdChar "(!) ALPHABET" 10 "nat t"] alphabet_nth crockfordBytes_chars [of bs]
  by (simp add: WORK_ID_RE_def crockfordTimePrefix_pad)

text \<open>C34: the identifier of a slot is a work id that carries its slot. Given a digest of at least
  sixteen bytes, it has the shape every work id must have, slots of any schedules are ordered by
  their identifiers as by time, and so two different slots never share one.\<close>

theorem slot_item_ids:
  assumes "\<And>s. 16 \<le> length (sha256 s)" and "0 \<le> a" and "a < b" and "b < 32 ^ 10"
  shows "WORK_ID_RE (slotItemId sha256 x a) \<and> WORK_ID_RE (slotItemId sha256 y b) \<and>
    strLess (slotItemId sha256 x a) (slotItemId sha256 y b) \<and>
    slotItemId sha256 x a \<noteq> slotItemId sha256 y b"
proof -
  have "nat a < 32 ^ 10" "nat b < 32 ^ 10" "nat a < nat b" using assms by (simp_all add: nat_less_iff)
  then have "strLess (slotItemId sha256 x a) (slotItemId sha256 y b)"
    using assms crockford.field_order [of "nat a" 10 "nat b"] by (simp add: slotItemId_def crockfordTimePrefix_pad)
  moreover have "WORK_ID_RE (slotItemId sha256 z t)" if "0 \<le> t" for z t
    using that assms(1) by (simp add: slotItemId_def work_id_of_prefix)
  ultimately show ?thesis using assms by (metis order_less_imp_le order_trans strLess_irrefl)
qed

theorem slot_item_ids_witness:
  "WORK_ID_RE (slotItemId (\<lambda>s. replicate 32 (length s)) ''A'' 1790000000000) \<and>
   slotItemId (\<lambda>s. replicate 32 (length s)) ''A'' 1790000000000 \<noteq>
     slotItemId (\<lambda>s. replicate 32 (length s)) ''A'' 1790000060000"
  using slot_item_ids [of "\<lambda>s. replicate 32 (length s)" 1790000000000 1790000060000 "''A''" "''A''"] by simp

lemma ulid_work_id: "0 \<le> now \<Longrightarrow> length bytes = 16 \<Longrightarrow> WORK_ID_RE (ulid now bytes)"
  using work_id_of_prefix [of now bytes] by (simp add: ulid_def crockfordTimePrefix_def)

end
