(* ===== verification/Work_Spec.thy ===== *)
theory Work_Spec
  imports Model "HOL-Library.Monad_Syntax"
begin

text \<open>
  \<^verbatim>\<open>libs/work/src/spec.ts\<close> and \<^verbatim>\<open>work-repository.ts\<close>: what a work item
  asks for. A schema is a function from JSON to the value the validator returns; the value
  prints its keys in the order of the schema, which is what the code stores and compares. Reading
  back what was stored gives the same value.
\<close>

subsection \<open>Reading JSON\<close>

definition strictKeys :: "string list \<Rightarrow> json \<Rightarrow> bool" where
  "strictKeys allowed j =
     (case j of JObj kvs \<Rightarrow> list_all (\<lambda>(k, _). k \<in> set allowed) kvs | _ \<Rightarrow> False)"

fun jsonString :: "json \<Rightarrow> string option" where
  "jsonString (JStr s) = Some s"
| "jsonString _ = None"

fun jsonStrings :: "json \<Rightarrow> string list option" where
  "jsonStrings (JArr xs) = those (map jsonString xs)"
| "jsonStrings _ = None"

text \<open>A required field, and an optional one, which may be absent but not malformed.\<close>

definition requiredField :: "json \<Rightarrow> string \<Rightarrow> (json \<Rightarrow> 'a option) \<Rightarrow> 'a option" where
  "requiredField j k read = Option.bind (jsonField j k) read"

definition optionalField :: "json \<Rightarrow> string \<Rightarrow> (json \<Rightarrow> 'a option) \<Rightarrow> 'a option option" where
  "optionalField j k read =
     (case jsonField j k of None \<Rightarrow> Some None | Some v \<Rightarrow> map_option Some (read v))"

definition checked :: "('a \<Rightarrow> bool) \<Rightarrow> 'a option \<Rightarrow> 'a option" where
  "checked P x = (case x of Some v \<Rightarrow> if P v then Some v else None | None \<Rightarrow> None)"

definition bounded :: "nat \<Rightarrow> nat \<Rightarrow> json \<Rightarrow> string option" where
  "bounded lo hi j = checked (lengthWithin lo hi) (jsonString j)"

definition enumerated :: "string list \<Rightarrow> json \<Rightarrow> string option" where
  "enumerated values j = checked (\<lambda>s. s \<in> set values) (jsonString j)"

subsection \<open>The work specification\<close>

definition WORK_TITLE_MAX :: nat where
  "WORK_TITLE_MAX = 256"

definition WORK_DESCRIPTION_MAX :: nat where
  "WORK_DESCRIPTION_MAX = 16384"

definition PIPELINES :: "string list" where
  "PIPELINES = map fst PIPELINE_CONTRACTS"

definition workTargetSchema :: "json \<Rightarrow> string option" where
  "workTargetSchema j =
     (if strictKeys [''repo''] j then requiredField j ''repo'' (checked repoNamePattern \<circ> jsonString) else None)"

definition fallbackPipelinesSchema :: "string list \<Rightarrow> bool" where
  "fallbackPipelinesSchema ps \<longleftrightarrow>
     list_all (\<lambda>p. p \<in> set PIPELINES) ps \<and> length ps \<le> length PIPELINES - 1 \<and> distinct ps"

fun showPriority :: "queuePriority \<Rightarrow> string" where
  "showPriority Urgent = ''urgent''"
| "showPriority Normal = ''normal''"
| "showPriority Background = ''background''"

definition readPriority :: "json \<Rightarrow> queuePriority option" where
  "readPriority j =
     (case jsonString j of
        None \<Rightarrow> None
      | Some s \<Rightarrow> find (\<lambda>p. showPriority p = s) [Urgent, Normal, Background])"

record workSpec =
  ws_title :: string
  ws_description :: string
  ws_pipeline :: string
  ws_priority :: queuePriority
  ws_fallbackPipelines :: "string list option"
  ws_deliveryRuntime :: "string option"
  ws_deliverable :: "string option"
  ws_repo :: string

definition workSpecSchema :: "json \<Rightarrow> workSpec option" where
  "workSpecSchema j =
     (if \<not> strictKeys [''title'', ''description'', ''pipeline'', ''priority'', ''fallbackPipelines'',
                       ''deliveryRuntime'', ''deliverable'', ''target''] j then None
      else do {
        title \<leftarrow> requiredField j ''title'' (bounded 1 WORK_TITLE_MAX);
        description \<leftarrow> requiredField j ''description'' (bounded 1 WORK_DESCRIPTION_MAX);
        pipeline \<leftarrow> requiredField j ''pipeline'' (enumerated PIPELINES);
        priority \<leftarrow> optionalField j ''priority'' readPriority;
        fallbacks \<leftarrow> optionalField j ''fallbackPipelines'' (checked fallbackPipelinesSchema \<circ> jsonStrings);
        runtime \<leftarrow> optionalField j ''deliveryRuntime'' (enumerated [''none'', ''required'']);
        deliverable \<leftarrow> optionalField j ''deliverable'' (enumerated [''report'']);
        repo \<leftarrow> requiredField j ''target'' workTargetSchema;
        if (case fallbacks of None \<Rightarrow> False | Some ps \<Rightarrow> pipeline \<in> set ps) then None
        else Some \<lparr>ws_title = title, ws_description = description, ws_pipeline = pipeline,
                   ws_priority = orElse priority Normal, ws_fallbackPipelines = fallbacks,
                   ws_deliveryRuntime = runtime, ws_deliverable = deliverable, ws_repo = repo\<rparr>
      })"

text \<open>The validated value as JSON: its keys in the order of the schema.\<close>

definition optionalJson :: "string \<Rightarrow> ('a \<Rightarrow> json) \<Rightarrow> 'a option \<Rightarrow> (string \<times> json) list" where
  "optionalJson k write v = (case v of None \<Rightarrow> [] | Some x \<Rightarrow> [(k, write x)])"

definition targetJson :: "string \<Rightarrow> json" where
  "targetJson repo = JObj [(''repo'', JStr repo)]"

definition workSpecJson :: "workSpec \<Rightarrow> json" where
  "workSpecJson s = JObj
     ([(''title'', JStr (ws_title s)), (''description'', JStr (ws_description s)),
       (''pipeline'', JStr (ws_pipeline s)), (''priority'', JStr (showPriority (ws_priority s)))]
      @ optionalJson ''fallbackPipelines'' (JArr \<circ> map JStr) (ws_fallbackPipelines s)
      @ optionalJson ''deliveryRuntime'' JStr (ws_deliveryRuntime s)
      @ optionalJson ''deliverable'' JStr (ws_deliverable s)
      @ [(''target'', targetJson (ws_repo s))])"

subsection \<open>Stored specifications\<close>

definition SUMMARY_PIPELINES :: "string list" where
  "SUMMARY_PIPELINES = [''inbox-summary'', ''handoff-summary'']"

definition STORED_PIPELINES :: "string list" where
  "STORED_PIPELINES = PIPELINES @ [''goose''] @ SUMMARY_PIPELINES"

record summaryWorkSpec =
  ss_title :: string
  ss_description :: string
  ss_pipeline :: string
  ss_sourceKey :: string

definition summaryWorkSpecSchema :: "json \<Rightarrow> summaryWorkSpec option" where
  "summaryWorkSpecSchema j =
     (if \<not> strictKeys [''title'', ''description'', ''pipeline'', ''priority'', ''sourceKey''] j then None
      else do {
        title \<leftarrow> requiredField j ''title'' (bounded 1 WORK_TITLE_MAX);
        description \<leftarrow> requiredField j ''description'' (bounded 1 WORK_DESCRIPTION_MAX);
        pipeline \<leftarrow> requiredField j ''pipeline'' (enumerated SUMMARY_PIPELINES);
        _ \<leftarrow> requiredField j ''priority'' (enumerated [''background'']);
        sourceKey \<leftarrow> requiredField j ''sourceKey'' (bounded 1 256);
        Some \<lparr>ss_title = title, ss_description = description, ss_pipeline = pipeline,
              ss_sourceKey = sourceKey\<rparr>
      })"

record recipeWorkSpec =
  rc_title :: string
  rc_description :: string
  rc_repo :: string
  rc_jobOccurrence :: string

definition recipeWorkSpecSchema :: "json \<Rightarrow> recipeWorkSpec option" where
  "recipeWorkSpecSchema j =
     (if \<not> strictKeys [''title'', ''description'', ''pipeline'', ''priority'', ''target'', ''jobOccurrence''] j
      then None
      else do {
        title \<leftarrow> requiredField j ''title'' (bounded 1 WORK_TITLE_MAX);
        description \<leftarrow> requiredField j ''description'' (bounded 1 WORK_DESCRIPTION_MAX);
        _ \<leftarrow> requiredField j ''pipeline'' (enumerated [''goose'']);
        _ \<leftarrow> requiredField j ''priority'' (enumerated [''background'']);
        repo \<leftarrow> requiredField j ''target'' workTargetSchema;
        occurrence \<leftarrow> requiredField j ''jobOccurrence''
          (checked (\<lambda>s. length s = 64 \<and> list_all hexChar s) \<circ> jsonString);
        Some \<lparr>rc_title = title, rc_description = description, rc_repo = repo, rc_jobOccurrence = occurrence\<rparr>
      })"

datatype storedWorkSpec = CodingSpec workSpec | SummarySpec summaryWorkSpec | RecipeSpec recipeWorkSpec

definition storedWorkSpecSchema :: "json \<Rightarrow> storedWorkSpec option" where
  "storedWorkSpecSchema j =
     (case workSpecSchema j of
        Some s \<Rightarrow> Some (CodingSpec s)
      | None \<Rightarrow>
          (case summaryWorkSpecSchema j of
             Some s \<Rightarrow> Some (SummarySpec s)
           | None \<Rightarrow> map_option RecipeSpec (recipeWorkSpecSchema j)))"

fun storedWorkSpecJson :: "storedWorkSpec \<Rightarrow> json" where
  "storedWorkSpecJson (CodingSpec s) = workSpecJson s"
| "storedWorkSpecJson (SummarySpec s) = JObj
     [(''title'', JStr (ss_title s)), (''description'', JStr (ss_description s)),
      (''pipeline'', JStr (ss_pipeline s)), (''priority'', JStr ''background''),
      (''sourceKey'', JStr (ss_sourceKey s))]"
| "storedWorkSpecJson (RecipeSpec s) = JObj
     [(''title'', JStr (rc_title s)), (''description'', JStr (rc_description s)),
      (''pipeline'', JStr ''goose''), (''priority'', JStr ''background''),
      (''target'', targetJson (rc_repo s)), (''jobOccurrence'', JStr (rc_jobOccurrence s))]"

subsection \<open>Origin and payload\<close>

definition WORK_CHANNELS :: "string list" where
  "WORK_CHANNELS = [''api'', ''cron'', ''console'', ''github'', ''linear'', ''slack'']"

record workOrigin =
  wo_principal :: string
  wo_channel :: string
  wo_thread :: "string option"

definition workOriginSchema :: "json \<Rightarrow> workOrigin option" where
  "workOriginSchema j =
     (if \<not> strictKeys [''principal'', ''channel'', ''thread''] j then None
      else do {
        principal \<leftarrow> requiredField j ''principal'' (bounded 1 128);
        channel \<leftarrow> requiredField j ''channel'' (enumerated WORK_CHANNELS);
        thread \<leftarrow> optionalField j ''thread'' (bounded 0 512);
        Some \<lparr>wo_principal = principal, wo_channel = channel, wo_thread = thread\<rparr>
      })"

definition workOriginJson :: "workOrigin \<Rightarrow> json" where
  "workOriginJson w = JObj
     ([(''principal'', JStr (wo_principal w)), (''channel'', JStr (wo_channel w))]
      @ optionalJson ''thread'' JStr (wo_thread w))"

definition payloadSchema :: "(json \<Rightarrow> 'a option) \<Rightarrow> json \<Rightarrow> (workOrigin \<times> 'a) option" where
  "payloadSchema specSchema j =
     (if \<not> strictKeys [''origin'', ''spec''] j then None
      else do {
        origin \<leftarrow> requiredField j ''origin'' workOriginSchema;
        spec \<leftarrow> requiredField j ''spec'' specSchema;
        Some (origin, spec)
      })"

definition workPayloadSchema :: "json \<Rightarrow> (workOrigin \<times> workSpec) option" where
  "workPayloadSchema = payloadSchema workSpecSchema"

definition storedWorkPayloadSchema :: "json \<Rightarrow> (workOrigin \<times> storedWorkSpec) option" where
  "storedWorkPayloadSchema = payloadSchema storedWorkSpecSchema"

definition workPayloadJson :: "workOrigin \<Rightarrow> workSpec \<Rightarrow> json" where
  "workPayloadJson w s = JObj [(''origin'', workOriginJson w), (''spec'', workSpecJson s)]"

fun storedPipelineOf :: "storedWorkSpec \<Rightarrow> string" where
  "storedPipelineOf (CodingSpec s) = ws_pipeline s"
| "storedPipelineOf (SummarySpec s) = ss_pipeline s"
| "storedPipelineOf (RecipeSpec s) = ''goose''"

fun storedTitle :: "storedWorkSpec \<Rightarrow> string" where
  "storedTitle (CodingSpec s) = ws_title s"
| "storedTitle (SummarySpec s) = ss_title s"
| "storedTitle (RecipeSpec s) = rc_title s"

fun storedRepo :: "storedWorkSpec \<Rightarrow> string option" where
  "storedRepo (CodingSpec s) = Some (ws_repo s)"
| "storedRepo (SummarySpec s) = None"
| "storedRepo (RecipeSpec s) = Some (rc_repo s)"

definition readStoredWorkSpec :: "json \<Rightarrow> (string \<times> string \<times> string option) option" where
  "readStoredWorkSpec j =
     map_option (\<lambda>s. (storedTitle s, storedPipelineOf s, storedRepo s)) (storedWorkSpecSchema j)"

definition isSourceManagedWork :: "json \<Rightarrow> bool" where
  "isSourceManagedWork j =
     (case storedWorkPayloadSchema j of
        None \<Rightarrow> False
      | Some (origin, spec) \<Rightarrow>
          (case spec of SummarySpec _ \<Rightarrow> True | _ \<Rightarrow> False) \<or> wo_principal origin = ''svc:fleet-triage'')"

text \<open>\<^verbatim>\<open>workRepository\<close>: a spec without a target has the empty repository.\<close>

definition workRepository :: "string option \<Rightarrow> string" where
  "workRepository target = orElse target []"

subsection \<open>Reading back\<close>

lemma checked_Some [simp]: "checked P x = Some v \<longleftrightarrow> x = Some v \<and> P v"
  by (auto simp: checked_def split: option.splits)

lemma those_JStr [simp]: "those (map (jsonString \<circ> JStr) ps) = Some ps"
  by (induction ps) auto

lemma showPriority_inject [simp]: "showPriority p = showPriority q \<longleftrightarrow> p = q"
  by (cases p; cases q) auto

lemma readPriority_show [simp]: "readPriority (JStr (showPriority p)) = Some p"
  by (cases p) (simp_all add: readPriority_def)

named_theorems schema_Some "when reading a field of a schema succeeds"

lemma field_Some [schema_Some]:
  "requiredField j k rd = Some v \<longleftrightarrow> (\<exists>x. jsonField j k = Some x \<and> rd x = Some v)"
  "bounded lo hi x = Some s \<longleftrightarrow> jsonString x = Some s \<and> lengthWithin lo hi s"
  "enumerated values x = Some s \<longleftrightarrow> jsonString x = Some s \<and> s \<in> set values"
  by (auto simp: requiredField_def bounded_def enumerated_def bind_eq_Some_conv)

lemma optional_Some [schema_Some]:
  "optionalField j k rd = Some v \<longleftrightarrow> jsonField j k = None \<and> v = None \<or>
     (\<exists>x w. jsonField j k = Some x \<and> rd x = Some w \<and> v = Some w)"
  by (auto simp: optionalField_def split: option.splits)

lemma target_Some [schema_Some]:
  "workTargetSchema j = Some r \<longleftrightarrow> strictKeys [''repo''] j \<and>
     (\<exists>x. jsonField j ''repo'' = Some x \<and> jsonString x = Some r \<and> repoNamePattern r)"
  by (auto simp: workTargetSchema_def schema_Some)

lemmas schema_defs = requiredField_def optionalField_def jsonField_def bounded_def enumerated_def
  workTargetSchema_def strictKeys_def optionalJson_def targetJson_def

definition validWorkSpec :: "workSpec \<Rightarrow> bool" where
  "validWorkSpec s \<longleftrightarrow>
     lengthWithin 1 WORK_TITLE_MAX (ws_title s) \<and> lengthWithin 1 WORK_DESCRIPTION_MAX (ws_description s) \<and>
     ws_pipeline s \<in> set PIPELINES \<and>
     optHolds (\<lambda>ps. fallbackPipelinesSchema ps \<and> ws_pipeline s \<notin> set ps) (ws_fallbackPipelines s) \<and>
     optHolds (\<lambda>v. v \<in> {''none'', ''required''}) (ws_deliveryRuntime s) \<and>
     optHolds (\<lambda>v. v = ''report'') (ws_deliverable s) \<and> repoNamePattern (ws_repo s)"

lemma workSpecSchema_valid:
  assumes "workSpecSchema j = Some s"
  shows "validWorkSpec s"
proof -
  let ?fallbacks = "checked fallbackPipelinesSchema \<circ> jsonStrings"
  have f: "lengthWithin 1 WORK_TITLE_MAX (ws_title s)" "lengthWithin 1 WORK_DESCRIPTION_MAX (ws_description s)"
      "ws_pipeline s \<in> set PIPELINES" "repoNamePattern (ws_repo s)"
    and o: "optionalField j ''fallbackPipelines'' ?fallbacks = Some (ws_fallbackPipelines s)"
      "optionalField j ''deliveryRuntime'' (enumerated [''none'', ''required'']) = Some (ws_deliveryRuntime s)"
      "optionalField j ''deliverable'' (enumerated [''report'']) = Some (ws_deliverable s)"
      "optHolds (\<lambda>ps. ws_pipeline s \<notin> set ps) (ws_fallbackPipelines s)"
    using assms
    by (auto simp: workSpecSchema_def bind_eq_Some_conv field_Some target_Some optHolds_def
        split: if_splits option.splits)
  have "optHolds fallbackPipelinesSchema (ws_fallbackPipelines s)"
    "optHolds (\<lambda>v. v \<in> {''none'', ''required''}) (ws_deliveryRuntime s)"
    "optHolds (\<lambda>v. v = ''report'') (ws_deliverable s)"
    using o(1-3) by (auto simp: schema_Some)
  with f o(4) show ?thesis by (auto simp: validWorkSpec_def optHolds_def split: option.splits)
qed

lemma workSpec_roundtrip:
  assumes "validWorkSpec s"
  shows "workSpecSchema (workSpecJson s) = Some s"
  using assms
  by (cases "ws_fallbackPipelines s"; cases "ws_deliveryRuntime s"; cases "ws_deliverable s")
    (auto simp: workSpecSchema_def workSpecJson_def schema_defs validWorkSpec_def checked_def)

end
