(* ===== verification/Work_Authorization.thy ===== *)
theory Work_Authorization
  imports Work_Spec Cron
begin

text \<open>
  Who may ask for what: \<^verbatim>\<open>work-authorization.ts\<close>, the grant look-ups of
  \<^verbatim>\<open>work-grants.ts\<close> and \<^verbatim>\<open>work-provider-fallback.ts\<close> of the console.
  The deployment's list of control-plane repositories is the argument \<open>admitted\<close>. Authority only
  shrinks: a fallback never gains a pipeline its grant does not have, and a repository-bound
  caller reaches its own repository only.
\<close>

text \<open>\<^verbatim>\<open>toLowerCase\<close> on code units below 256.\<close>

definition lowerChar :: "char \<Rightarrow> char" where
  "lowerChar c =
     (let n = (of_char c :: nat)
      in if 65 \<le> n \<and> n \<le> 90 \<or> 192 \<le> n \<and> n \<le> 222 \<and> n \<noteq> 215 then char_of (n + 32) else c)"

definition toLowerCase :: "string \<Rightarrow> string" where
  "toLowerCase = map lowerChar"

subsection \<open>Grants\<close>

record workGrant =
  wg_principal :: string
  wg_subjects :: "string list"
  wg_pipelines :: "string list"
  wg_scopes :: "string list"
  wg_channel :: "string option"

definition resolvePrincipal :: "string \<Rightarrow> workGrant list \<Rightarrow> workGrant option" where
  "resolvePrincipal subject grants =
     find (\<lambda>g. toLowerCase subject \<in> set (map toLowerCase (wg_subjects g))) grants"

definition grantForPrincipal :: "string \<Rightarrow> workGrant list \<Rightarrow> workGrant option" where
  "grantForPrincipal who grants = find (\<lambda>g. wg_principal g = who) grants"

subsection \<open>Resource policy\<close>

record workAuthority =
  wa_principal :: string
  wa_pipelines :: "string list"
  wa_sourceRepository :: "string option"

definition repositoryForbiddenReason :: "(string \<Rightarrow> bool) \<Rightarrow> string option \<Rightarrow> string \<Rightarrow> string option" where
  "repositoryForbiddenReason admitted sourceRepository repository =
     (if \<not> admitted repository
      then Some (''native work items can only target a control-plane repository ('' @ repository
                 @ '' is not admitted)'')
      else if (case sourceRepository of
                 None \<Rightarrow> False | Some r \<Rightarrow> toLowerCase r \<noteq> toLowerCase repository)
      then Some ''Caller repository does not match target repository''
      else None)"

definition workForbiddenReason ::
  "(string \<Rightarrow> bool) \<Rightarrow> workAuthority \<Rightarrow> string \<Rightarrow> string option \<Rightarrow> string option"
where
  "workForbiddenReason admitted authority pipeline target =
     (if pipeline \<notin> set (wa_pipelines authority)
      then Some (wa_principal authority @ '' may not request pipeline '' @ pipeline)
      else repositoryForbiddenReason admitted (wa_sourceRepository authority) (workRepository target))"

definition scopedWorkGrant ::
  "(string \<Rightarrow> bool) \<Rightarrow> workAuthority \<Rightarrow> (string \<Rightarrow> string \<Rightarrow> bool) \<Rightarrow> string \<Rightarrow> string \<Rightarrow> bool"
where
  "scopedWorkGrant admitted authority granted who repository \<longleftrightarrow>
     who = wa_principal authority \<and>
     repositoryForbiddenReason admitted (wa_sourceRepository authority) repository = None \<and>
     granted who repository"

definition mayAccessStoredWork :: "(string \<Rightarrow> bool) \<Rightarrow> string option \<Rightarrow> json \<Rightarrow> bool" where
  "mayAccessStoredWork admitted sourceRepository work =
     (sourceRepository = None \<or>
      (case storedWorkPayloadSchema work of
         None \<Rightarrow> False
       | Some (_, spec) \<Rightarrow>
           repositoryForbiddenReason admitted sourceRepository (workRepository (storedRepo spec)) = None))"

subsection \<open>Operations open to repository-bound callers\<close>

definition occurrenceId :: "string \<Rightarrow> bool" where
  "occurrenceId s \<longleftrightarrow> length s = 64 \<and> list_all hexChar s"

text \<open>The table of method and path patterns, read on the path's segments.\<close>

definition repositoryBoundOperation :: "string \<Rightarrow> string \<Rightarrow> bool" where
  "repositoryBoundOperation verb path =
     (case splitOn CHR ''/'' path of
        [lead, a] \<Rightarrow>
          lead = [] \<and> verb = ''GET'' \<and> a \<in> {''issues'', ''items'', ''schedules'', ''jobs''}
      | [lead, a, b] \<Rightarrow>
          lead = [] \<and>
          (a = ''issues'' \<and> (verb = ''GET'' \<and> b \<in> {''owner'', ''source''} \<or> verb = ''POST'' \<and> b = ''dispatch'') \<or>
           a = ''items'' \<and> WORK_ID_RE b \<and> verb \<in> {''GET'', ''PUT'', ''PATCH''} \<or>
           a = ''schedules'' \<and> WORK_ID_RE b \<and> verb \<in> {''GET'', ''PUT'', ''PATCH'', ''DELETE''} \<or>
           a = ''dispatches'' \<and> b = ''github'' \<and> verb = ''POST'' \<or>
           a = ''jobs'' \<and> b \<in> {''refresh'', ''invoke''} \<and> verb = ''POST'')
      | [lead, a, b, c] \<Rightarrow>
          lead = [] \<and>
          (a = ''anchors'' \<and> b = ''github'' \<and> c = ''owner'' \<and> verb = ''GET'' \<or>
           a = ''items'' \<and> WORK_ID_RE b \<and> c \<in> {''cancel'', ''redispatch'', ''reply''} \<and> verb = ''POST'' \<or>
           a = ''schedules'' \<and> WORK_ID_RE b \<and> c \<in> {''enable'', ''disable''} \<and> verb = ''POST'' \<or>
           a = ''dispatches'' \<and> b = ''github'' \<and> c = ''redispatch'' \<and> verb = ''POST'' \<or>
           a = ''jobs'' \<and> b = ''occurrences'' \<and> occurrenceId c \<and> verb = ''GET'' \<or>
           a = ''jobs'' \<and> occurrenceId b \<and> c \<in> {''enable'', ''invoke''} \<and> verb = ''POST'')
      | _ \<Rightarrow> False)"

datatype principalVia = ViaGoogle | ViaSession | ViaOidc

record workPrincipal =
  wp_principal :: string
  wp_subject :: string
  wp_scopes :: "string list"
  wp_pipelines :: "string list"
  wp_via :: principalVia
  wp_sourceRepository :: "string option"
  wp_channel :: "string option"

definition authorityOf :: "workPrincipal \<Rightarrow> workAuthority" where
  "authorityOf p = \<lparr>wa_principal = wp_principal p, wa_pipelines = wp_pipelines p,
                    wa_sourceRepository = wp_sourceRepository p\<rparr>"

text \<open>\<open>path\<close> is the request path after the API prefix, \<open>authOrigin\<close> the configured public origin.\<close>

definition workRequestForbiddenReason ::
  "string \<Rightarrow> string \<Rightarrow> string \<Rightarrow> string option \<Rightarrow> workPrincipal option \<Rightarrow> string option"
where
  "workRequestForbiddenReason authOrigin verb path origin who =
     (if verb \<notin> {''GET'', ''HEAD'', ''OPTIONS''} \<and> map_option wp_via who = Some ViaSession \<and>
         origin \<noteq> Some authOrigin
      then Some ''Same-origin request required''
      else if Option.bind who wp_sourceRepository \<noteq> None \<and> \<not> repositoryBoundOperation verb path
      then Some ''Operation does not declare repository-bound access''
      else None)"

subsection \<open>Fallback authority\<close>

text \<open>The parse of the alternatives raises on a malformed list.\<close>

definition authorizeProviderFallback ::
  "workAuthority \<Rightarrow> string \<Rightarrow> string list option \<Rightarrow> string + providerFallbackRequest option"
where
  "authorizeProviderFallback who pipeline alternatives =
     (case alternatives of
        None \<Rightarrow> Inr None
      | Some ps \<Rightarrow>
          if \<not> fallbackPipelinesSchema ps then Inl ''ZodError''
          else
            (let allowed = filter (\<lambda>c. c \<noteq> pipeline \<and> c \<in> set (wa_pipelines who)) ps
             in if allowed = [] then Inr None
                else Inr (Some \<lparr>fr_principal = wa_principal who, fr_allowedPipelines = allowed,
                                fr_sourceRepository = wa_sourceRepository who\<rparr>)))"

definition currentFallbackPipelines ::
  "task \<Rightarrow> run \<Rightarrow> workGrant list \<Rightarrow> (string \<Rightarrow> bool) \<Rightarrow> string list"
where
  "currentFallbackPipelines t r grants repositoryAdmitted =
     (case r_providerFallback r of
        None \<Rightarrow> []
      | Some policy \<Rightarrow>
          (case grantForPrincipal (pf_principal policy) grants of
             None \<Rightarrow> []
           | Some grant \<Rightarrow>
               if ''work.operator'' \<notin> set (wg_scopes grant) then []
               else (case workPayloadSchema (t_work t) of
                       None \<Rightarrow> []
                     | Some (_, spec) \<Rightarrow>
                         if repositoryForbiddenReason repositoryAdmitted (pf_sourceRepository policy)
                              (ws_repo spec) \<noteq> None \<or>
                            (case t_task t of GithubAnchor repo _ \<Rightarrow> repo \<noteq> ws_repo spec | WorkAnchor _ \<Rightarrow> False)
                         then []
                         else filter (\<lambda>p. p \<in> set (pf_allowedPipelines policy)) (wg_pipelines grant))))"

lemma grantForPrincipal_Some:
  "grantForPrincipal p grants = Some g \<Longrightarrow> g \<in> set grants \<and> wg_principal g = p"
  by (auto simp: grantForPrincipal_def find_Some_iff)

lemma authorize_subset:
  "authorizeProviderFallback a p alts = Inr (Some fr) \<Longrightarrow>
     set (fr_allowedPipelines fr) \<subseteq> set (wa_pipelines a) - {p} \<and> fr_allowedPipelines fr \<noteq> [] \<and>
     fr_principal fr = wa_principal a"
  by (auto simp: authorizeProviderFallback_def Let_def split: option.splits if_splits)

lemma fallback_within_grant:
  assumes "p \<in> set (currentFallbackPipelines t r grants admitted)"
  shows "\<exists>policy g. r_providerFallback r = Some policy \<and> p \<in> set (pf_allowedPipelines policy) \<and>
       g \<in> set grants \<and> wg_principal g = pf_principal policy \<and>
       ''work.operator'' \<in> set (wg_scopes g) \<and> p \<in> set (wg_pipelines g)"
proof -
  from assms obtain policy where policy: "r_providerFallback r = Some policy"
    by (cases "r_providerFallback r") (simp_all add: currentFallbackPipelines_def)
  with assms obtain g where g: "grantForPrincipal (pf_principal policy) grants = Some g"
    by (cases "grantForPrincipal (pf_principal policy) grants") (simp_all add: currentFallbackPipelines_def)
  from assms have "''work.operator'' \<in> set (wg_scopes g) \<and> p \<in> set (pf_allowedPipelines policy) \<and>
      p \<in> set (wg_pipelines g)"
    by (cases "workPayloadSchema (t_work t)") (auto simp: currentFallbackPipelines_def policy g split: if_splits)
  with policy grantForPrincipal_Some [OF g] show ?thesis by blast
qed

end
