(* ===== verification/Work_Mint.thy ===== *)
theory Work_Mint
  imports Work_Authorization Orchestrator
begin

text \<open>
  \<^verbatim>\<open>apps/console/src/lib/work-mint.ts\<close>: read-or-create of a native work item, the one
  admission path of the create API and of schedule ticks. What other clients do to the store
  between the look-up and the transaction is the argument \<open>between\<close>; draining the outbox after a
  mint, which only runs other operations of the store, is the argument \<open>drain\<close>.
\<close>

definition isWorkOperatorPrincipal :: "workPrincipal option \<Rightarrow> bool" where
  "isWorkOperatorPrincipal p = (case p of None \<Rightarrow> False | Some w \<Rightarrow> ''work.operator'' \<in> set (wp_scopes w))"

datatype apiError = ORPCError string string | Raised jsError

abbreviation zodError :: apiError where
  "zodError \<equiv> Raised (JsError ''ZodError'')"

definition readWorkTask ::
  "(string \<Rightarrow> bool) \<Rightarrow> workPrincipal option \<Rightarrow> memStore \<Rightarrow> string \<Rightarrow> apiError + versionedTask option"
where
  "readWorkTask admitted who s workId =
     (case readTask s (WorkAnchor workId) of
        None \<Rightarrow> Inr None
      | Some v \<Rightarrow>
          if mayAccessStoredWork admitted (Option.bind who wp_sourceRepository) (t_work (vt_task v))
          then Inr (Some v) else Inl (ORPCError ''FORBIDDEN'' []))"

text \<open>\<open>None\<close> is the parse error.\<close>

definition sameSpec :: "json \<Rightarrow> json \<Rightarrow> bool option" where
  "sameSpec a b =
     (case (storedWorkSpecSchema a, storedWorkSpecSchema b) of
        (Some x, Some y) \<Rightarrow> Some (jsonText (storedWorkSpecJson x) = jsonText (storedWorkSpecJson y))
      | _ \<Rightarrow> None)"

datatype mintOutcome =
    MintForbidden string
  | MintConflict string
  | MintExisting task
  | Minted task

record mintItemInput =
  mt_id :: string
  mt_spec :: workSpec
  mt_origin :: workOrigin
  mt_issue :: "trackerIssue option"
  mt_params :: "params option"
  mt_requestId :: "string option"
  mt_grants :: workAuthority

definition specConflict :: "string \<Rightarrow> string" where
  "specConflict workId = ''item '' @ workId @ '' already exists with a different spec''"

text \<open>The comparison with a stored payload, as the look-up and the transaction both make it.\<close>

definition storedSpecMatches :: "json \<Rightarrow> workSpec \<Rightarrow> bool option" where
  "storedSpecMatches stored spec =
     (case storedWorkPayloadSchema stored of
        None \<Rightarrow> None
      | Some (_, st) \<Rightarrow> sameSpec (storedWorkSpecJson st) (workSpecJson spec))"

definition mintRequest :: "mintItemInput \<Rightarrow> providerFallbackRequest option \<Rightarrow> requestInput" where
  "mintRequest input fallback =
     \<lparr>rq_taskId = WorkAnchor (mt_id input),
      rq_requestId = orElse (mt_requestId input) (mt_id input),
      rq_requestSource = None,
      rq_pipeline = ws_pipeline (mt_spec input),
      rq_priority = Some (ws_priority (mt_spec input)),
      rq_params = Some (orElse (mt_params input) [(''mode'', ''implement'')]),
      rq_intervention = None,
      rq_work = Some (workPayloadJson (mt_origin input) (mt_spec input)),
      rq_issue = mt_issue input,
      rq_sourceRevision = None,
      rq_providerFallback = fallback,
      rq_providerFallbackForPipeline = None,
      rq_requestBinding = None,
      rq_replaceQueuedRunId = None,
      rq_labelProviderRequest = None,
      rq_pipelineForStoredTask = None,
      rq_useEffectivePipeline = False,
      rq_expectedEffectivePipeline = None,
      rq_isPipelineAuthorized = None,
      rq_isStoredWorkCompatible =
        Some (\<lambda>stored _. storedSpecMatches stored (mt_spec input) = Some True)\<rparr>"

text \<open>The transaction, where the comparison with a stored payload that does not parse raises.\<close>

definition mintTransaction ::
  "zodFormats \<Rightarrow> timestamp \<Rightarrow> memStore \<Rightarrow> mintItemInput \<Rightarrow> providerFallbackRequest option \<Rightarrow> memStore \<times> outcome"
where
  "mintTransaction z now s input fallback =
     (if (case readTask s (WorkAnchor (mt_id input)) of
            None \<Rightarrow> False
          | Some v \<Rightarrow> storedSpecMatches (t_work (vt_task v)) (mt_spec input) = None)
      then (s, Threw (JsError ''ZodError''))
      else request z now s (mintRequest input fallback))"

text \<open>The drain after the request is awaited unguarded: when it fails, so does the mint, although the
  item is stored.\<close>

definition mintItem ::
  "(string \<Rightarrow> bool) \<Rightarrow> zodFormats \<Rightarrow> timestamp \<Rightarrow> (memStore \<Rightarrow> memStore) \<Rightarrow>
   (memStore \<Rightarrow> memStore \<times> string option) \<Rightarrow> memStore \<Rightarrow> mintItemInput \<Rightarrow> memStore \<times> (apiError + mintOutcome)"
where
  "mintItem admitted z now between drain s input =
     (case workForbiddenReason admitted (mt_grants input) (ws_pipeline (mt_spec input))
             (Some (ws_repo (mt_spec input))) of
        Some message \<Rightarrow> (s, Inr (MintForbidden message))
      | None \<Rightarrow>
          (case readTask s (WorkAnchor (mt_id input)) of
             Some v \<Rightarrow>
               (s, case storedSpecMatches (t_work (vt_task v)) (mt_spec input) of
                     None \<Rightarrow> Inl zodError
                   | Some False \<Rightarrow> Inr (MintConflict (specConflict (mt_id input)))
                   | Some True \<Rightarrow> Inr (MintExisting (vt_task v)))
           | None \<Rightarrow>
               (case authorizeProviderFallback (mt_grants input) (ws_pipeline (mt_spec input))
                       (ws_fallbackPipelines (mt_spec input)) of
                  Inl e \<Rightarrow> (between s, Inl (Raised (JsError e)))
                | Inr fallback \<Rightarrow>
                    (case mintTransaction z now (between s) input fallback of
                       (s', Decided d) \<Rightarrow>
                         (case drain s' of
                            (s'', None) \<Rightarrow> (s'', Inr (Minted (d_task d)))
                          | (s'', Some message) \<Rightarrow> (s'', Inl (Raised (JsError message))))
                     | (s', Refused why _) \<Rightarrow>
                         (s', Inr (MintConflict (if why = WorkSpecMismatch then specConflict (mt_id input)
                                                 else showReason why)))
                     | (s', Threw e) \<Rightarrow> (s', Inl (Raised e))))))"

end
