(* ===== verification/Schedule_Store.thy ===== *)
theory Schedule_Store
  imports Work_Mint
begin

text \<open>
  \<^verbatim>\<open>schedule-store.ts\<close> and \<^verbatim>\<open>memory-schedule-store.ts\<close>: the schedule
  document and its store. A document is read and replaced in one atomic \<open>mutateSchedule\<close>; the
  callback may raise, which writes nothing.
\<close>

text \<open>\<^verbatim>\<open>isDeepStrictEqual\<close>: objects are equal up to the order of their keys.\<close>

lemma json_arr_size: "(x, y) \<in> set (zip xs ys) \<Longrightarrow> size x < Suc (size_list size xs)"
  by (induction xs ys rule: list_induct2') auto

lemma json_obj_size: "(k, x) \<in> set xs \<Longrightarrow> size x < Suc (size_list (size_prod (\<lambda>_. 0) size) xs)"
  by (induction xs) auto

function deepEqual :: "json \<Rightarrow> json \<Rightarrow> bool" where
  "deepEqual (JArr xs) b =
     (case b of
        JArr ys \<Rightarrow> length xs = length ys \<and> list_all (\<lambda>(x, y). deepEqual x y) (zip xs ys)
      | _ \<Rightarrow> False)"
| "deepEqual (JObj xs) b =
     (case b of
        JObj ys \<Rightarrow>
          length xs = length ys \<and>
          list_all (\<lambda>(k, x). case map_of ys k of None \<Rightarrow> False | Some y \<Rightarrow> deepEqual x y) xs
      | _ \<Rightarrow> False)"
| "deepEqual JNull b = (b = JNull)"
| "deepEqual (JBool x) b = (b = JBool x)"
| "deepEqual (JNum x) b = (b = JNum x)"
| "deepEqual (JStr x) b = (b = JStr x)"
  by pat_completeness auto
termination
  by (relation "measure (size \<circ> fst)") (auto intro: json_arr_size json_obj_size)

record pendingTick =
  pt_slotAt :: timestamp
  pt_itemId :: string
  pt_revision :: nat
  pt_spec :: json
  pt_createdBy :: string

datatype disabledReason = GrantRevoked | DisabledByOperator | InvalidSchedule

record schedule =
  sd_scheduleId :: string
  sd_cron :: string
  sd_spec :: json
  sd_enabled :: bool
  sd_createdBy :: string
  sd_createdAt :: timestamp
  sd_updatedAt :: timestamp
  sd_revision :: "nat option"
  sd_deletedAt :: "timestamp option"
  sd_pendingTick :: "pendingTick option"
  sd_lastSlotAt :: "timestamp option"
  sd_lastItemId :: "string option"
  sd_lastClosedSlotAt :: "timestamp option"
  sd_disabledReason :: "disabledReason option"

definition SCHEDULE_SPEC_MAX_BYTES :: nat where
  "SCHEDULE_SPEC_MAX_BYTES = 32768"

definition scheduleSpecSchema :: "json \<Rightarrow> bool" where
  "scheduleSpecSchema j \<longleftrightarrow> jsonRecord j \<and> utf8Length (jsonText j) \<le> SCHEDULE_SPEC_MAX_BYTES"

definition pendingScheduleTickSchema :: "pendingTick \<Rightarrow> bool" where
  "pendingScheduleTickSchema p \<longleftrightarrow>
     isoRange (pt_slotAt p) \<and> WORK_ID_RE (pt_itemId p) \<and> scheduleSpecSchema (pt_spec p) \<and>
     lengthWithin 1 128 (pt_createdBy p)"

definition scheduleSchema :: "schedule \<Rightarrow> bool" where
  "scheduleSchema s \<longleftrightarrow>
     WORK_ID_RE (sd_scheduleId s) \<and> lengthWithin 1 64 (sd_cron s) \<and> scheduleSpecSchema (sd_spec s) \<and>
     lengthWithin 1 128 (sd_createdBy s) \<and> isoRange (sd_createdAt s) \<and> isoRange (sd_updatedAt s) \<and>
     optHolds isoRange (sd_deletedAt s) \<and> optHolds pendingScheduleTickSchema (sd_pendingTick s) \<and>
     optHolds isoRange (sd_lastSlotAt s) \<and> optHolds WORK_ID_RE (sd_lastItemId s) \<and>
     optHolds isoRange (sd_lastClosedSlotAt s)"

type_synonym scheduleStore = "(string \<times> schedule) list"

type_synonym scheduleChange = "schedule option \<Rightarrow> apiError + schedule option"

definition readSchedule :: "scheduleStore \<Rightarrow> string \<Rightarrow> schedule option" where
  "readSchedule ss scheduleId = map_of ss scheduleId"

definition mutateSchedule ::
  "scheduleStore \<Rightarrow> string \<Rightarrow> scheduleChange \<Rightarrow> scheduleStore \<times> (apiError + schedule option)"
where
  "mutateSchedule ss scheduleId change =
     (case change (map_of ss scheduleId) of
        Inl e \<Rightarrow> (ss, Inl e)
      | Inr None \<Rightarrow> (ss, Inr None)
      | Inr (Some s) \<Rightarrow>
          if scheduleSchema s then (AList.update scheduleId s ss, Inr (Some s)) else (ss, Inl zodError))"

definition writeSchedule :: "scheduleStore \<Rightarrow> schedule \<Rightarrow> scheduleStore" where
  "writeSchedule ss s = AList.update (sd_scheduleId s) s ss"

definition listSchedules :: "(string \<Rightarrow> string \<Rightarrow> int) \<Rightarrow> scheduleStore \<Rightarrow> nat option \<Rightarrow> schedule list" where
  "listSchedules localeCompare ss limit =
     take (orElse limit 200)
       (sortBy (\<lambda>a b. localeCompare (sd_scheduleId b) (sd_scheduleId a) < 0)
         (filter (\<lambda>s. sd_deletedAt s = None) (map snd ss)))"

definition listEnabledSchedules :: "scheduleStore \<Rightarrow> schedule list" where
  "listEnabledSchedules ss = filter (\<lambda>s. sd_enabled s \<and> sd_deletedAt s = None) (map snd ss)"

definition listTickSchedules :: "scheduleStore \<Rightarrow> schedule list" where
  "listTickSchedules ss =
     filter (\<lambda>s. sd_enabled s \<and> sd_deletedAt s = None \<or> sd_pendingTick s \<noteq> None) (map snd ss)"

text \<open>A document changes only under its own key.\<close>

lemma mutateSchedule_other: "k \<noteq> scheduleId \<Longrightarrow> map_of (fst (mutateSchedule ss scheduleId change)) k = map_of ss k"
  by (auto simp: mutateSchedule_def update_conv split: sum.splits option.splits)

lemma mutateSchedule_same:
  "map_of (fst (mutateSchedule ss scheduleId change)) scheduleId =
     (case change (map_of ss scheduleId) of
        Inr (Some s) \<Rightarrow> if scheduleSchema s then Some s else map_of ss scheduleId
      | _ \<Rightarrow> map_of ss scheduleId)"
  by (auto simp: mutateSchedule_def update_conv split: sum.splits option.splits)

end
