(* ===== verification/Schedule_Router.thy ===== *)
theory Schedule_Router
  imports Schedule_Store
begin

text \<open>
  \<^verbatim>\<open>apps/console/src/lib/schedule-router.ts\<close>: the schedule API and the tick that mints
  due work. A tick admits an occurrence by writing a pending record into the schedule document,
  mints the item, and then settles the record; every write is one \<open>mutateSchedule\<close> whose callback
  is a definition of its own here, so that the interleavings of concurrent ticks and operators are
  sequences of these callbacks. A handler reads its clock and the grants once; the messages of
  the error report and the inbox push that follows a tick are not modelled.
\<close>

record workContext =
  cx_principal :: "workPrincipal option"
  cx_grants :: "workGrant list"
  cx_now :: timestamp
  cx_admitted :: "string \<Rightarrow> bool"
  cx_sha256 :: "string \<Rightarrow> nat list"
  cx_localeCompare :: "string \<Rightarrow> string \<Rightarrow> int"
  cx_formats :: zodFormats
  cx_between :: "memStore \<Rightarrow> memStore"
  cx_drain :: "memStore \<Rightarrow> memStore \<times> string option"

definition requireScope :: "workContext \<Rightarrow> string \<Rightarrow> apiError + workPrincipal" where
  "requireScope ctx scope =
     (case cx_principal ctx of
        None \<Rightarrow> Inl (ORPCError ''UNAUTHORIZED'' (scope @ '' scope required''))
      | Some p \<Rightarrow> if scope \<in> set (wp_scopes p) then Inr p
                  else Inl (ORPCError ''UNAUTHORIZED'' (scope @ '' scope required'')))"

subsection \<open>Documents\<close>

definition revisionOf :: "schedule \<Rightarrow> nat" where
  "revisionOf s = orElse (sd_revision s) 0"

definition samePending :: "pendingTick option \<Rightarrow> pendingTick \<Rightarrow> bool" where
  "samePending current admitted =
     (case current of
        None \<Rightarrow> False
      | Some c \<Rightarrow>
          pt_itemId c = pt_itemId admitted \<and> pt_slotAt c = pt_slotAt admitted \<and>
          pt_revision c = pt_revision admitted \<and> pt_createdBy c = pt_createdBy admitted \<and>
          deepEqual (pt_spec c) (pt_spec admitted))"

definition laterSlot :: "timestamp option \<Rightarrow> timestamp \<Rightarrow> timestamp" where
  "laterSlot previous slot =
     (case previous of None \<Rightarrow> slot | Some p \<Rightarrow> if p < slot then slot else p)"

definition admissionWatermark :: "schedule \<Rightarrow> timestamp option" where
  "admissionWatermark s =
     (case (sd_lastSlotAt s, sd_lastClosedSlotAt s) of
        (None, None) \<Rightarrow> None
      | (Some a, None) \<Rightarrow> Some a
      | (None, Some b) \<Rightarrow> Some b
      | (Some a, Some b) \<Rightarrow> Some (max a b))"

definition nextDueAt :: "schedule \<Rightarrow> timestamp \<Rightarrow> timestamp option" where
  "nextDueAt s now =
     (if \<not> sd_enabled s then None
      else (case parseCron (sd_cron s) of
              Inl _ \<Rightarrow> None
            | Inr cron \<Rightarrow>
                (let after = max now (max (orElse (admissionWatermark s) (sd_createdAt s) + 1)
                       (orElse (map_option pt_slotAt (sd_pendingTick s)) (sd_createdAt s) + 1))
                 in nextDueSlot cron (- ((- after) div 60000) * 60000) DEFAULT_HORIZON_DAYS)))"

record scheduleView =
  sv_id :: string
  sv_cron :: string
  sv_spec :: "workSpec option"
  sv_enabled :: bool
  sv_createdBy :: string
  sv_createdAt :: timestamp
  sv_updatedAt :: timestamp
  sv_revision :: nat
  sv_lastSlotAt :: "timestamp option"
  sv_lastItemId :: "string option"
  sv_disabledReason :: "disabledReason option"
  sv_lastClosedSlotAt :: "timestamp option"
  sv_nextDueAt :: "timestamp option"
  sv_pendingItemId :: "string option"

definition viewSafe :: "schedule \<Rightarrow> timestamp \<Rightarrow> scheduleView" where
  "viewSafe s now =
     \<lparr>sv_id = sd_scheduleId s, sv_cron = sd_cron s, sv_spec = workSpecSchema (sd_spec s),
      sv_enabled = sd_enabled s, sv_createdBy = sd_createdBy s, sv_createdAt = sd_createdAt s,
      sv_updatedAt = sd_updatedAt s, sv_revision = revisionOf s, sv_lastSlotAt = sd_lastSlotAt s,
      sv_lastItemId = sd_lastItemId s, sv_disabledReason = sd_disabledReason s,
      sv_lastClosedSlotAt = sd_lastClosedSlotAt s, sv_nextDueAt = nextDueAt s now,
      sv_pendingItemId = map_option pt_itemId (sd_pendingTick s)\<rparr>"

definition checkedCron :: "string \<Rightarrow> timestamp \<Rightarrow> apiError option" where
  "checkedCron cron now =
     (case parseCron cron of
        Inl _ \<Rightarrow> Some (ORPCError ''BAD_REQUEST'' ''Malformed cron expression'')
      | Inr spec \<Rightarrow>
          if nextDueSlot spec now DEFAULT_HORIZON_DAYS \<noteq> None then None
          else Some (ORPCError ''BAD_REQUEST'' ''cron expression never fires within a year''))"

definition currentSchedule :: "schedule option \<Rightarrow> nat option \<Rightarrow> apiError + schedule" where
  "currentSchedule current expectedRevision =
     (case current of
        None \<Rightarrow> Inl (ORPCError ''NOT_FOUND'' [])
      | Some s \<Rightarrow>
          if sd_deletedAt s \<noteq> None then Inl (ORPCError ''NOT_FOUND'' [])
          else if expectedRevision \<noteq> None \<and> expectedRevision \<noteq> Some (revisionOf s)
          then Inl (ORPCError ''CONFLICT'' ''Schedule changed; reload before applying your change'')
          else Inr s)"

subsection \<open>Authority\<close>

definition mayAccessSchedule :: "workContext \<Rightarrow> workPrincipal \<Rightarrow> schedule \<Rightarrow> bool" where
  "mayAccessSchedule ctx p s =
     mayAccessStoredWork (cx_admitted ctx) (wp_sourceRepository p)
       (JObj [(''spec'', sd_spec s),
              (''origin'', workOriginJson \<lparr>wo_principal = sd_createdBy s, wo_channel = ''api'', wo_thread = None\<rparr>)])"

definition specForbidden :: "workContext \<Rightarrow> workAuthority \<Rightarrow> workSpec \<Rightarrow> string option" where
  "specForbidden ctx authority spec =
     workForbiddenReason (cx_admitted ctx) authority (ws_pipeline spec) (Some (ws_repo spec))"

definition authorizeSchedule :: "workContext \<Rightarrow> workPrincipal \<Rightarrow> schedule \<Rightarrow> apiError option" where
  "authorizeSchedule ctx p s =
     (let denied = Some (ORPCError ''FORBIDDEN'' ''No grant for this schedule'')
      in if \<not> mayAccessSchedule ctx p s then denied
         else if wp_principal p = sd_createdBy s then None
         else (case workSpecSchema (sd_spec s) of
                 None \<Rightarrow> denied
               | Some spec \<Rightarrow> if specForbidden ctx (authorityOf p) spec \<noteq> None then denied else None))"

definition authorizeSpec :: "workContext \<Rightarrow> workPrincipal \<Rightarrow> workSpec \<Rightarrow> apiError option" where
  "authorizeSpec ctx p spec = map_option (ORPCError ''FORBIDDEN'') (specForbidden ctx (authorityOf p) spec)"

definition grantAuthority :: "workContext \<Rightarrow> string \<Rightarrow> workAuthority" where
  "grantAuthority ctx createdBy =
     \<lparr>wa_principal = createdBy,
      wa_pipelines = (case grantForPrincipal createdBy (cx_grants ctx) of
                        None \<Rightarrow> [] | Some g \<Rightarrow> wg_pipelines g),
      wa_sourceRepository = None\<rparr>"

definition enabledConfiguration ::
  "workContext \<Rightarrow> workPrincipal \<Rightarrow> string \<Rightarrow> json \<Rightarrow> string \<Rightarrow> apiError option"
where
  "enabledConfiguration ctx p cron spec createdBy =
     (case workSpecSchema spec of
        None \<Rightarrow> Some (ORPCError ''BAD_REQUEST'' ''Repair the invalid schedule before enabling it'')
      | Some parsed \<Rightarrow>
          (case checkedCron cron (cx_now ctx) of
             Some e \<Rightarrow> Some e
           | None \<Rightarrow>
               (case authorizeSpec ctx p parsed of
                  Some e \<Rightarrow> Some e
                | None \<Rightarrow>
                    if specForbidden ctx (grantAuthority ctx createdBy) parsed \<noteq> None
                    then Some (ORPCError ''FORBIDDEN''
                      ''The schedule creator no longer has a grant for this pipeline or repository'')
                    else None)))"

subsection \<open>Operator changes\<close>

record scheduleInput =
  si_id :: string
  si_cron :: string
  si_spec :: workSpec
  si_enabled :: "bool option"

definition createChange :: "workContext \<Rightarrow> workPrincipal \<Rightarrow> scheduleInput \<Rightarrow> scheduleChange" where
  "createChange ctx p input existing =
     (case existing of
        Some e \<Rightarrow>
          if sd_deletedAt e \<noteq> None \<or> sd_cron e \<noteq> si_cron input \<or>
             map_option (jsonText \<circ> workSpecJson) (workSpecSchema (sd_spec e))
               \<noteq> Some (jsonText (workSpecJson (si_spec input)))
          then Inl (ORPCError ''CONFLICT'' (''schedule '' @ si_id input @
                 '' already exists with a different cron or spec''))
          else Inr (Some e)
      | None \<Rightarrow>
          Inr (Some \<lparr>sd_scheduleId = si_id input, sd_cron = si_cron input,
                     sd_spec = workSpecJson (si_spec input),
                     sd_enabled = orElse (si_enabled input) True,
                     sd_createdBy = wp_principal p, sd_createdAt = cx_now ctx,
                     sd_updatedAt = cx_now ctx, sd_revision = Some 1, sd_deletedAt = None,
                     sd_pendingTick = None, sd_lastSlotAt = Some (cx_now ctx), sd_lastItemId = None,
                     sd_lastClosedSlotAt = None, sd_disabledReason = None\<rparr>))"

text \<open>A change of the current document under its revision, by somebody it is open to.\<close>

definition guardedChange ::
  "workContext \<Rightarrow> workPrincipal \<Rightarrow> nat \<Rightarrow> (schedule \<Rightarrow> apiError + schedule) \<Rightarrow> scheduleChange"
where
  "guardedChange ctx p expectedRevision change current =
     (case currentSchedule current (Some expectedRevision) of
        Inl e \<Rightarrow> Inl e
      | Inr s \<Rightarrow>
          (case authorizeSchedule ctx p s of
             Some e \<Rightarrow> Inl e
           | None \<Rightarrow> map_sum id Some (change s)))"

definition toggledSchedule :: "workContext \<Rightarrow> workPrincipal \<Rightarrow> bool \<Rightarrow> schedule \<Rightarrow> apiError + schedule" where
  "toggledSchedule ctx p enabled s =
     (case (if enabled then enabledConfiguration ctx p (sd_cron s) (sd_spec s) (sd_createdBy s) else None) of
        Some e \<Rightarrow> Inl e
      | None \<Rightarrow>
          Inr (s\<lparr>sd_enabled := enabled,
                 sd_disabledReason := (if enabled then None else Some DisabledByOperator),
                 sd_revision := Some (revisionOf s + 1), sd_updatedAt := cx_now ctx\<rparr>))"

definition updatedSchedule ::
  "workContext \<Rightarrow> workPrincipal \<Rightarrow> string \<Rightarrow> workSpec \<Rightarrow> bool \<Rightarrow> schedule \<Rightarrow> apiError + schedule"
where
  "updatedSchedule ctx p cron spec enabled s =
     (case (if enabled then enabledConfiguration ctx p cron (workSpecJson spec) (sd_createdBy s) else None) of
        Some e \<Rightarrow> Inl e
      | None \<Rightarrow>
          Inr (s\<lparr>sd_cron := cron, sd_spec := workSpecJson spec, sd_enabled := enabled,
                 sd_disabledReason := (if enabled then None else Some DisabledByOperator),
                 sd_updatedAt := cx_now ctx, sd_revision := Some (revisionOf s + 1)\<rparr>))"

definition deletedSchedule :: "workContext \<Rightarrow> schedule \<Rightarrow> apiError + schedule" where
  "deletedSchedule ctx s =
     Inr (s\<lparr>sd_enabled := False, sd_disabledReason := Some DisabledByOperator,
            sd_deletedAt := Some (cx_now ctx), sd_updatedAt := cx_now ctx,
            sd_revision := Some (revisionOf s + 1)\<rparr>)"

subsection \<open>Handlers\<close>

definition viewResult :: "workContext \<Rightarrow> apiError + schedule option \<Rightarrow> apiError + scheduleView" where
  "viewResult ctx r =
     (case r of
        Inl e \<Rightarrow> Inl e
      | Inr next \<Rightarrow> map_sum id (\<lambda>s. viewSafe s (cx_now ctx)) (currentSchedule next None))"

definition withOperator ::
  "workContext \<Rightarrow> scheduleStore \<Rightarrow> (workPrincipal \<Rightarrow> scheduleStore \<times> (apiError + 'a)) \<Rightarrow>
   scheduleStore \<times> (apiError + 'a)"
where
  "withOperator ctx ss handler =
     (case requireScope ctx ''work.operator'' of Inl e \<Rightarrow> (ss, Inl e) | Inr p \<Rightarrow> handler p)"

definition checkedInput :: "workContext \<Rightarrow> workPrincipal \<Rightarrow> string \<Rightarrow> workSpec \<Rightarrow> apiError option" where
  "checkedInput ctx p cron spec =
     (case authorizeSpec ctx p spec of Some e \<Rightarrow> Some e | None \<Rightarrow> checkedCron cron (cx_now ctx))"

definition createSchedule ::
  "workContext \<Rightarrow> scheduleStore \<Rightarrow> scheduleInput \<Rightarrow> scheduleStore \<times> (apiError + scheduleView)"
where
  "createSchedule ctx ss input =
     withOperator ctx ss (\<lambda>p.
       case checkedInput ctx p (si_cron input) (si_spec input) of
         Some e \<Rightarrow> (ss, Inl e)
       | None \<Rightarrow> apsnd (viewResult ctx) (mutateSchedule ss (si_id input) (createChange ctx p input)))"

definition getSchedule :: "workContext \<Rightarrow> scheduleStore \<Rightarrow> string \<Rightarrow> apiError + scheduleView" where
  "getSchedule ctx ss scheduleId =
     snd (withOperator ctx ss (\<lambda>p.
       (ss, case currentSchedule (readSchedule ss scheduleId) None of
              Inl e \<Rightarrow> Inl e
            | Inr s \<Rightarrow> if mayAccessSchedule ctx p s then Inr (viewSafe s (cx_now ctx))
                        else Inl (ORPCError ''FORBIDDEN'' []))))"

definition listSchedulesFor :: "workContext \<Rightarrow> scheduleStore \<Rightarrow> nat option \<Rightarrow> apiError + scheduleView list" where
  "listSchedulesFor ctx ss limit =
     snd (withOperator ctx ss (\<lambda>p.
       (ss, Inr (map (\<lambda>s. viewSafe s (cx_now ctx))
              (filter (mayAccessSchedule ctx p) (listSchedules (cx_localeCompare ctx) ss limit))))))"

definition updateSchedule ::
  "workContext \<Rightarrow> scheduleStore \<Rightarrow> string \<Rightarrow> nat \<Rightarrow> string \<Rightarrow> workSpec \<Rightarrow> bool \<Rightarrow>
   scheduleStore \<times> (apiError + scheduleView)"
where
  "updateSchedule ctx ss scheduleId expectedRevision cron spec enabled =
     withOperator ctx ss (\<lambda>p.
       case checkedInput ctx p cron spec of
         Some e \<Rightarrow> (ss, Inl e)
       | None \<Rightarrow>
           apsnd (viewResult ctx)
             (mutateSchedule ss scheduleId
               (guardedChange ctx p expectedRevision (updatedSchedule ctx p cron spec enabled))))"

definition deleteSchedule ::
  "workContext \<Rightarrow> scheduleStore \<Rightarrow> string \<Rightarrow> nat \<Rightarrow> scheduleStore \<times> (apiError + string option)"
where
  "deleteSchedule ctx ss scheduleId expectedRevision =
     withOperator ctx ss (\<lambda>p.
       apsnd (map_sum id (\<lambda>next. map_option pt_itemId (Option.bind next sd_pendingTick)))
         (mutateSchedule ss scheduleId (guardedChange ctx p expectedRevision (deletedSchedule ctx))))"

definition toggleSchedule ::
  "workContext \<Rightarrow> scheduleStore \<Rightarrow> string \<Rightarrow> nat \<Rightarrow> bool \<Rightarrow> scheduleStore \<times> (apiError + scheduleView)"
where
  "toggleSchedule ctx ss scheduleId expectedRevision enabled =
     withOperator ctx ss (\<lambda>p.
       apsnd (viewResult ctx)
         (mutateSchedule ss scheduleId
           (guardedChange ctx p expectedRevision (toggledSchedule ctx p enabled))))"

subsection \<open>Tick\<close>

definition disableInvalid :: "timestamp \<Rightarrow> nat \<Rightarrow> scheduleChange" where
  "disableInvalid now snapshotRevision current =
     (case current of
        None \<Rightarrow> Inr None
      | Some s \<Rightarrow>
          if \<not> sd_enabled s \<or> sd_deletedAt s \<noteq> None \<or> revisionOf s \<noteq> snapshotRevision then Inr None
          else Inr (Some (s\<lparr>sd_enabled := False, sd_disabledReason := Some InvalidSchedule,
                            sd_revision := Some (revisionOf s + 1), sd_updatedAt := now\<rparr>)))"

definition admitTick :: "nat \<Rightarrow> timestamp \<Rightarrow> string \<Rightarrow> workSpec \<Rightarrow> scheduleChange" where
  "admitTick snapshotRevision slot itemId spec current =
     (case current of
        None \<Rightarrow> Inr None
      | Some s \<Rightarrow>
          if \<not> sd_enabled s \<or> sd_deletedAt s \<noteq> None \<or> sd_pendingTick s \<noteq> None \<or>
             revisionOf s \<noteq> snapshotRevision \<or>
             (case admissionWatermark s of None \<Rightarrow> False | Some w \<Rightarrow> slot \<le> w)
          then Inr None
          else Inr (Some (s\<lparr>sd_pendingTick :=
                 Some \<lparr>pt_slotAt = slot, pt_itemId = itemId, pt_revision = revisionOf s,
                       pt_spec = workSpecJson spec, pt_createdBy = sd_createdBy s\<rparr>\<rparr>)))"

definition closePending :: "pendingTick \<Rightarrow> disabledReason \<Rightarrow> timestamp \<Rightarrow> scheduleChange" where
  "closePending admitted why now current =
     (case current of
        None \<Rightarrow> Inr None
      | Some s \<Rightarrow>
          if \<not> samePending (sd_pendingTick s) admitted then Inr None
          else
            (let rest = s\<lparr>sd_pendingTick := None,
                          sd_lastClosedSlotAt := Some (laterSlot (sd_lastClosedSlotAt s) (pt_slotAt admitted))\<rparr>
             in Inr (Some
                  (if sd_enabled s \<and> sd_deletedAt s = None \<and> revisionOf s = pt_revision admitted
                   then rest\<lparr>sd_enabled := False, sd_disabledReason := Some why,
                             sd_revision := Some (revisionOf s + 1), sd_updatedAt := now\<rparr>
                   else rest))))"

definition settleTick :: "pendingTick \<Rightarrow> timestamp \<Rightarrow> scheduleChange" where
  "settleTick admitted now current =
     (case current of
        None \<Rightarrow> Inr None
      | Some s \<Rightarrow>
          if \<not> samePending (sd_pendingTick s) admitted then Inr None
          else Inr (Some (s\<lparr>sd_pendingTick := None,
                            sd_lastSlotAt := Some (laterSlot (sd_lastSlotAt s) (pt_slotAt admitted)),
                            sd_lastItemId := Some (pt_itemId admitted), sd_updatedAt := now\<rparr>)))"

record tickReport =
  tr_minted :: "(string \<times> string) list"
  tr_disabled :: "string list"
  tr_errors :: "string list"

record tickState =
  ts_schedules :: scheduleStore
  ts_store :: memStore
  ts_report :: tickReport

definition reportMinted :: "string \<Rightarrow> string \<Rightarrow> tickState \<Rightarrow> tickState" where
  "reportMinted scheduleId itemId st =
     st\<lparr>ts_report := (ts_report st)\<lparr>tr_minted := tr_minted (ts_report st) @ [(scheduleId, itemId)]\<rparr>\<rparr>"

definition reportDisabled :: "string \<Rightarrow> tickState \<Rightarrow> tickState" where
  "reportDisabled scheduleId st =
     st\<lparr>ts_report := (ts_report st)\<lparr>tr_disabled := tr_disabled (ts_report st) @ [scheduleId]\<rparr>\<rparr>"

definition reportError :: "string \<Rightarrow> tickState \<Rightarrow> tickState" where
  "reportError scheduleId st =
     st\<lparr>ts_report := (ts_report st)\<lparr>tr_errors := tr_errors (ts_report st) @ [scheduleId]\<rparr>\<rparr>"

text \<open>A schedule write within the tick: the continuation sees what the callback returned, and an
  exception becomes an entry of the error report.\<close>

definition tickMutate ::
  "string \<Rightarrow> scheduleChange \<Rightarrow> (schedule option \<Rightarrow> tickState \<Rightarrow> tickState) \<Rightarrow> tickState \<Rightarrow> tickState"
where
  "tickMutate scheduleId change continue st =
     (case mutateSchedule (ts_schedules st) scheduleId change of
        (ss, Inl e) \<Rightarrow> reportError scheduleId (st\<lparr>ts_schedules := ss\<rparr>)
      | (ss, Inr next) \<Rightarrow> continue next (st\<lparr>ts_schedules := ss\<rparr>))"

definition closeOccurrence ::
  "string \<Rightarrow> pendingTick \<Rightarrow> disabledReason \<Rightarrow> timestamp \<Rightarrow> tickState \<Rightarrow> tickState"
where
  "closeOccurrence scheduleId admitted why now =
     tickMutate scheduleId (closePending admitted why now)
       (\<lambda>changed st. if Option.bind changed sd_disabledReason = Some why then reportDisabled scheduleId st else st)"

definition settleOccurrence :: "string \<Rightarrow> pendingTick \<Rightarrow> timestamp \<Rightarrow> tickState \<Rightarrow> tickState" where
  "settleOccurrence scheduleId admitted now =
     tickMutate scheduleId (settleTick admitted now)
       (\<lambda>settled st. if settled \<noteq> None then reportMinted scheduleId (pt_itemId admitted) st else st)"

definition storedItemMatches :: "memStore \<Rightarrow> string \<Rightarrow> workSpec \<Rightarrow> bool" where
  "storedItemMatches s itemId spec =
     (case Option.bind (readTask s (WorkAnchor itemId)) (\<lambda>v. jsonField (t_work (vt_task v)) ''spec'') of
        None \<Rightarrow> False
      | Some j \<Rightarrow> map_option (jsonText \<circ> workSpecJson) (workSpecSchema j) = Some (jsonText (workSpecJson spec)))"

definition tickMintInput :: "workContext \<Rightarrow> string \<Rightarrow> pendingTick \<Rightarrow> workSpec \<Rightarrow> mintItemInput" where
  "tickMintInput ctx scheduleId admitted spec =
     \<lparr>mt_id = pt_itemId admitted, mt_spec = spec,
      mt_origin = \<lparr>wo_principal = ''cron:'' @ scheduleId, wo_channel = ''cron'', wo_thread = None\<rparr>,
      mt_issue = None, mt_params = None, mt_requestId = None,
      mt_grants = grantAuthority ctx (pt_createdBy admitted)\<rparr>"

definition runPending :: "workContext \<Rightarrow> string \<Rightarrow> pendingTick \<Rightarrow> tickState \<Rightarrow> tickState" where
  "runPending ctx scheduleId admitted st =
     (case workSpecSchema (pt_spec admitted) of
        None \<Rightarrow> tickMutate scheduleId (closePending admitted InvalidSchedule (cx_now ctx))
            (\<lambda>changed st'. reportError scheduleId
               (if Option.bind changed sd_disabledReason = Some InvalidSchedule
                then reportDisabled scheduleId st' else st')) st
      | Some spec \<Rightarrow>
          (case mintItem (cx_admitted ctx) (cx_formats ctx) (cx_now ctx) (cx_between ctx) (cx_drain ctx)
                  (ts_store st) (tickMintInput ctx scheduleId admitted spec) of
             (s', r) \<Rightarrow>
               (let st' = st\<lparr>ts_store := s'\<rparr>;
                    matching = storedItemMatches s' (pt_itemId admitted) spec
                in case r of
                     Inl _ \<Rightarrow> reportError scheduleId st'
                   | Inr (MintForbidden _) \<Rightarrow>
                       if readTask s' (WorkAnchor (pt_itemId admitted)) = None
                       then closeOccurrence scheduleId admitted GrantRevoked (cx_now ctx) st'
                       else if matching then settleOccurrence scheduleId admitted (cx_now ctx) st'
                       else reportError scheduleId st'
                   | Inr (MintConflict _) \<Rightarrow>
                       if matching then settleOccurrence scheduleId admitted (cx_now ctx) st'
                       else reportError scheduleId st'
                   | Inr _ \<Rightarrow> settleOccurrence scheduleId admitted (cx_now ctx) st')))"

text \<open>What is due for a schedule without a pending record: \<open>None\<close> when its configuration is
  invalid.\<close>

definition tickDue :: "schedule \<Rightarrow> timestamp \<Rightarrow> (workSpec \<times> timestamp option) option" where
  "tickDue snapshot now =
     (case (workSpecSchema (sd_spec snapshot), parseCron (sd_cron snapshot)) of
        (Some spec, Inr cron) \<Rightarrow>
          if nextDueSlot cron now DEFAULT_HORIZON_DAYS = None then None
          else Some (spec, latestDueSlot cron now (admissionWatermark snapshot))
      | _ \<Rightarrow> None)"

definition tickSchedule :: "workContext \<Rightarrow> schedule \<Rightarrow> tickState \<Rightarrow> tickState" where
  "tickSchedule ctx snapshot st =
     (let scheduleId = sd_scheduleId snapshot
      in case sd_pendingTick snapshot of
           Some pending \<Rightarrow> runPending ctx scheduleId pending st
         | None \<Rightarrow>
             (case tickDue snapshot (cx_now ctx) of
                None \<Rightarrow>
                  tickMutate scheduleId (disableInvalid (cx_now ctx) (revisionOf snapshot))
                    (\<lambda>changed st'. if changed \<noteq> None then reportDisabled scheduleId st' else st') st
              | Some (_, None) \<Rightarrow> st
              | Some (spec, Some slot) \<Rightarrow>
                  tickMutate scheduleId
                    (admitTick (revisionOf snapshot) slot (slotItemId (cx_sha256 ctx) scheduleId slot) spec)
                    (\<lambda>admitted st'. case Option.bind admitted sd_pendingTick of
                       None \<Rightarrow> st'
                     | Some pending \<Rightarrow> runPending ctx scheduleId pending st') st))"

definition emptyReport :: tickReport where
  "emptyReport = \<lparr>tr_minted = [], tr_disabled = [], tr_errors = []\<rparr>"

definition tick ::
  "workContext \<Rightarrow> scheduleStore \<Rightarrow> memStore \<Rightarrow> (scheduleStore \<times> memStore) \<times> (apiError + nat \<times> tickReport)"
where
  "tick ctx ss s =
     (case requireScope ctx ''work.cron'' of
        Inl e \<Rightarrow> ((ss, s), Inl e)
      | Inr _ \<Rightarrow>
          (let schedules = listTickSchedules ss;
               st = fold (tickSchedule ctx) schedules
                      \<lparr>ts_schedules = ss, ts_store = s, ts_report = emptyReport\<rparr>
           in ((ts_schedules st, ts_store st), Inr (length schedules, ts_report st))))"

end
