(* ===== verification/Schedule_Protocol.thy ===== *)
theory Schedule_Protocol
  imports Schedule_Router Cron_Guarantees
begin

text \<open>
  The schedule document as a concurrent object. Every write to a schedule is one of eight
  callbacks, applied atomically; ticks and operators interleave between them. A run of the
  document is any sequence of callbacks with any arguments, so it covers every interleaving of
  handlers, stale snapshots and retried ticks included; it records the slots that were admitted.
  The invariant and the way a document evolves are proved per callback, and the handlers are
  shown to act on each document as such a run.
\<close>

subsection \<open>Callbacks, runs\<close>

inductive docChange :: "(string \<Rightarrow> nat list) \<Rightarrow> string \<Rightarrow> timestamp option \<Rightarrow> scheduleChange \<Rightarrow> bool"
  for sha256 :: "string \<Rightarrow> nat list" and scheduleId :: string
where
  create: "si_id input = scheduleId \<Longrightarrow> docChange sha256 scheduleId None (createChange ctx p input)"
| update: "docChange sha256 scheduleId None (guardedChange ctx p rv (updatedSchedule ctx p cron spec enabled))"
| delete: "docChange sha256 scheduleId None (guardedChange ctx p rv (deletedSchedule ctx))"
| toggle: "docChange sha256 scheduleId None (guardedChange ctx p rv (toggledSchedule ctx p enabled))"
| disable: "docChange sha256 scheduleId None (disableInvalid now rv)"
| admit: "docChange sha256 scheduleId (Some slot) (admitTick rv slot (slotItemId sha256 scheduleId slot) spec)"
| close: "docChange sha256 scheduleId None (closePending admitted why now)"
| settle: "docChange sha256 scheduleId None (settleTick admitted now)"

definition applyChange :: "scheduleChange \<Rightarrow> schedule option \<Rightarrow> schedule option" where
  "applyChange change d =
     (case change d of
        Inr (Some s) \<Rightarrow> if scheduleSchema s then Some s else d
      | _ \<Rightarrow> d)"

definition admittedSlots :: "timestamp option \<Rightarrow> bool \<Rightarrow> timestamp list" where
  "admittedSlots label wrote = (case label of Some slot \<Rightarrow> if wrote then [slot] else [] | None \<Rightarrow> [])"

inductive docRun :: "(string \<Rightarrow> nat list) \<Rightarrow> string \<Rightarrow> schedule option \<Rightarrow> timestamp list \<Rightarrow> schedule option \<Rightarrow> bool"
  for sha256 :: "string \<Rightarrow> nat list" and scheduleId :: string
where
  refl: "docRun sha256 scheduleId d [] d"
| step: "docRun sha256 scheduleId d slots d' \<Longrightarrow> docChange sha256 scheduleId label change \<Longrightarrow>
    docRun sha256 scheduleId d (slots @ admittedSlots label (applyChange change d' \<noteq> d')) (applyChange change d')"

lemma mutateSchedule_applyChange:
  "map_of (fst (mutateSchedule ss scheduleId change)) k =
     (if k = scheduleId then applyChange change (map_of ss k) else map_of ss k)"
  by (auto simp: mutateSchedule_same mutateSchedule_other applyChange_def split: sum.splits option.splits)

subsection \<open>Invariant and evolution\<close>

definition docInv :: "(string \<Rightarrow> nat list) \<Rightarrow> string \<Rightarrow> schedule \<Rightarrow> bool" where
  "docInv sha256 scheduleId s \<longleftrightarrow>
     sd_scheduleId s = scheduleId \<and>
     (sd_deletedAt s \<noteq> None \<longrightarrow> \<not> sd_enabled s) \<and>
     (\<forall>p. sd_pendingTick s = Some p \<longrightarrow>
        aboveBound (admissionWatermark s) (pt_slotAt p) \<and>
        pt_itemId p = slotItemId sha256 scheduleId (pt_slotAt p) \<and> pt_revision p \<le> revisionOf s)"

text \<open>The last slot the document has taken responsibility for.\<close>

definition slotMark :: "schedule \<Rightarrow> timestamp option" where
  "slotMark s =
     (case sd_pendingTick s of Some p \<Rightarrow> Some (pt_slotAt p) | None \<Rightarrow> admissionWatermark s)"

text \<open>What no callback undoes: identity, the tombstone, the order of configuration revisions, the
  watermark, and an admitted occurrence.\<close>

definition docEvolves :: "schedule \<Rightarrow> schedule \<Rightarrow> bool" where
  "docEvolves s s' \<longleftrightarrow>
     sd_scheduleId s' = sd_scheduleId s \<and> sd_createdBy s' = sd_createdBy s \<and> sd_createdAt s' = sd_createdAt s \<and>
     (sd_deletedAt s \<noteq> None \<longrightarrow> sd_deletedAt s' = sd_deletedAt s \<and> \<not> sd_enabled s') \<and>
     revisionOf s \<le> revisionOf s' \<and>
     (revisionOf s' = revisionOf s \<longrightarrow>
        sd_cron s' = sd_cron s \<and> sd_spec s' = sd_spec s \<and> sd_enabled s' = sd_enabled s \<and>
        sd_deletedAt s' = sd_deletedAt s) \<and>
     (\<forall>t. aboveBound (admissionWatermark s') t \<longrightarrow> aboveBound (admissionWatermark s) t) \<and>
     (\<forall>t. aboveBound (slotMark s') t \<longrightarrow> aboveBound (slotMark s) t) \<and>
     (\<forall>p. sd_pendingTick s = Some p \<longrightarrow>
        sd_pendingTick s' = Some p \<or> \<not> aboveBound (admissionWatermark s') (pt_slotAt p))"

lemma docEvolves_refl: "docInv sha256 scheduleId s \<Longrightarrow> docEvolves s s"
  by (simp add: docEvolves_def docInv_def)

lemma docEvolves_trans: "docEvolves a b \<Longrightarrow> docEvolves b c \<Longrightarrow> docEvolves a c"
  unfolding docEvolves_def by (metis le_antisym le_trans)

lemma aboveBound_simps [simp]: "aboveBound None t" "aboveBound (Some b) t \<longleftrightarrow> b < t"
  by (simp_all add: aboveBound_def)

lemma watermark_cong:
  "sd_lastSlotAt s' = sd_lastSlotAt s \<Longrightarrow> sd_lastClosedSlotAt s' = sd_lastClosedSlotAt s \<Longrightarrow>
    admissionWatermark s' = admissionWatermark s"
  by (simp add: admissionWatermark_def)

text \<open>A configuration change touches neither the pending record nor the watermark.\<close>

lemma config_change:
  assumes inv: "docInv sha256 scheduleId s"
    and same: "sd_scheduleId s' = sd_scheduleId s" "sd_createdBy s' = sd_createdBy s" "sd_createdAt s' = sd_createdAt s"
      "sd_pendingTick s' = sd_pendingTick s" "sd_lastSlotAt s' = sd_lastSlotAt s"
      "sd_lastClosedSlotAt s' = sd_lastClosedSlotAt s"
    and rv: "revisionOf s' = revisionOf s + 1"
    and live: "sd_deletedAt s = None" and del: "sd_deletedAt s' \<noteq> None \<longrightarrow> \<not> sd_enabled s'"
  shows "docInv sha256 scheduleId s' \<and> docEvolves s s'"
proof -
  have w: "admissionWatermark s' = admissionWatermark s" using same(5,6) by (rule watermark_cong)
  then have m: "slotMark s' = slotMark s" using same(4) by (simp only: slotMark_def)
  have "docInv sha256 scheduleId s'"
    using inv del unfolding docInv_def w same rv by auto
  moreover have "docEvolves s s'"
    unfolding docEvolves_def w m same rv live by simp
  ultimately show ?thesis ..
qed

lemma guardedChange_Some:
  assumes "guardedChange ctx p rv change d = Inr (Some s')"
  obtains s where "d = Some s" "sd_deletedAt s = None" "revisionOf s = rv" "change s = Inr s'"
proof -
  from assms obtain s where "currentSchedule d (Some rv) = Inr s" "change s = Inr s'"
    by (cases "currentSchedule d (Some rv)") (auto simp: guardedChange_def map_sum_def split: option.splits sum.splits)
  then show thesis using that by (auto simp: currentSchedule_def split: option.splits if_splits)
qed

lemma operator_changes:
  assumes inv: "\<And>s. d = Some s \<Longrightarrow> docInv sha256 scheduleId s"
    and c: "change \<in> {guardedChange ctx p rv (updatedSchedule ctx p cron spec enabled),
      guardedChange ctx p rv (deletedSchedule ctx), guardedChange ctx p rv (toggledSchedule ctx p enabled)}"
    and w: "change d = Inr (Some s')"
  shows "docInv sha256 scheduleId s' \<and> (\<exists>s. d = Some s \<and> docEvolves s s')"
proof -
  from c w obtain f where "guardedChange ctx p rv f d = Inr (Some s')"
    and f: "f \<in> {updatedSchedule ctx p cron spec enabled, deletedSchedule ctx, toggledSchedule ctx p enabled}"
    by auto
  then obtain s where s: "d = Some s" "sd_deletedAt s = None" "f s = Inr s'" by (elim guardedChange_Some)
  have "docInv sha256 scheduleId s' \<and> docEvolves s s'"
    by (rule config_change [OF inv [OF s(1)]])
      (use f s in \<open>auto simp: updatedSchedule_def deletedSchedule_def toggledSchedule_def revisionOf_def split: option.splits\<close>)
  with s(1) show ?thesis by blast
qed

lemma disable_change:
  assumes "docInv sha256 scheduleId s" and "disableInvalid now rv (Some s) = Inr (Some s')"
  shows "docInv sha256 scheduleId s' \<and> docEvolves s s'"
  by (rule config_change [OF assms(1)])
    (use assms(2) in \<open>auto simp: disableInvalid_def revisionOf_def split: if_splits\<close>)

lemma create_change:
  assumes "\<And>s. d = Some s \<Longrightarrow> docInv sha256 scheduleId s" and "si_id input = scheduleId"
    and "createChange ctx p input d = Inr (Some s')"
  shows "docInv sha256 scheduleId s' \<and> (d = None \<or> d = Some s')"
  using assms by (cases d) (auto simp: createChange_def docInv_def split: if_splits)

lemma admit_change:
  assumes inv: "docInv sha256 scheduleId s"
    and w: "admitTick rv slot (slotItemId sha256 scheduleId slot) spec (Some s) = Inr (Some s')"
  shows "docInv sha256 scheduleId s' \<and> docEvolves s s' \<and> aboveBound (slotMark s) slot \<and>
    slotMark s' = Some slot \<and> sd_deletedAt s = None"
proof -
  from w have c: "sd_pendingTick s = None" "sd_deletedAt s = None" "aboveBound (admissionWatermark s) slot"
    and s': "s' = s\<lparr>sd_pendingTick := Some \<lparr>pt_slotAt = slot, pt_itemId = slotItemId sha256 scheduleId slot,
      pt_revision = revisionOf s, pt_spec = workSpecJson spec, pt_createdBy = sd_createdBy s\<rparr>\<rparr>"
    by (auto simp: admitTick_def aboveBound_def not_le split: if_splits option.splits)
  have f: "admissionWatermark s' = admissionWatermark s" "revisionOf s' = revisionOf s" "slotMark s' = Some slot"
    "slotMark s = admissionWatermark s"
    using c(1) by (simp_all add: s' admissionWatermark_def revisionOf_def slotMark_def)
  have up: "slot < t \<Longrightarrow> aboveBound (admissionWatermark s) t" for t
    using aboveBound_mono [OF c(3), of t] by simp
  have "docInv sha256 scheduleId s'" using inv c(3) unfolding docInv_def f by (simp add: s' c(2))
  moreover have "docEvolves s s'" unfolding docEvolves_def f using up c(1,2) by (simp add: s')
  ultimately show ?thesis using c(2,3) f by simp
qed

text \<open>Settling and closing move the watermark up to the admitted slot.\<close>

lemma watermark_after:
  assumes "aboveBound (admissionWatermark s) slot"
  shows "sd_lastSlotAt s' = Some (laterSlot (sd_lastSlotAt s) slot) \<Longrightarrow>
      sd_lastClosedSlotAt s' = sd_lastClosedSlotAt s \<Longrightarrow> admissionWatermark s' = Some slot"
    and "sd_lastClosedSlotAt s' = Some (laterSlot (sd_lastClosedSlotAt s) slot) \<Longrightarrow>
      sd_lastSlotAt s' = sd_lastSlotAt s \<Longrightarrow> admissionWatermark s' = Some slot"
  using assms
  by (auto simp: admissionWatermark_def laterSlot_def max_def split: option.splits)

lemma finish_change:
  assumes inv: "docInv sha256 scheduleId s" and p: "sd_pendingTick s = Some p"
    and same: "sd_scheduleId s' = sd_scheduleId s" "sd_createdBy s' = sd_createdBy s" "sd_createdAt s' = sd_createdAt s"
      "sd_pendingTick s' = None" "admissionWatermark s' = Some (pt_slotAt p)" "sd_deletedAt s' = sd_deletedAt s"
      "sd_cron s' = sd_cron s" "sd_spec s' = sd_spec s"
    and conf: "revisionOf s' = revisionOf s \<and> sd_enabled s' = sd_enabled s \<or>
      revisionOf s' = revisionOf s + 1 \<and> \<not> sd_enabled s'"
  shows "docInv sha256 scheduleId s' \<and> docEvolves s s'"
proof -
  from inv p have ab: "aboveBound (admissionWatermark s) (pt_slotAt p)" by (simp add: docInv_def)
  have m: "slotMark s' = Some (pt_slotAt p)" "slotMark s = Some (pt_slotAt p)" by (simp_all add: slotMark_def p same)
  have up: "pt_slotAt p < t \<Longrightarrow> aboveBound (admissionWatermark s) t" for t
    using aboveBound_mono [OF ab, of t] by simp
  have "docInv sha256 scheduleId s'" using inv conf unfolding docInv_def same by auto
  moreover have "docEvolves s s'"
    using inv conf up unfolding docEvolves_def docInv_def same m p by auto
  ultimately show ?thesis ..
qed

lemma settle_change:
  assumes inv: "docInv sha256 scheduleId s" and w: "settleTick admitted now (Some s) = Inr (Some s')"
  shows "docInv sha256 scheduleId s' \<and> docEvolves s s'"
proof -
  from w obtain p where p: "sd_pendingTick s = Some p" "pt_slotAt p = pt_slotAt admitted"
    and s': "s' = s\<lparr>sd_pendingTick := None, sd_lastSlotAt := Some (laterSlot (sd_lastSlotAt s) (pt_slotAt admitted)),
      sd_lastItemId := Some (pt_itemId admitted), sd_updatedAt := now\<rparr>"
    by (auto simp: settleTick_def samePending_def split: if_splits option.splits)
  from inv p have "aboveBound (admissionWatermark s) (pt_slotAt p)" by (simp add: docInv_def)
  then have "admissionWatermark s' = Some (pt_slotAt p)" by (rule watermark_after(1)) (simp_all add: s' p)
  then show ?thesis by (intro finish_change [OF inv p(1)]) (simp_all add: s' revisionOf_def)
qed

lemma close_change:
  assumes inv: "docInv sha256 scheduleId s" and w: "closePending admitted why now (Some s) = Inr (Some s')"
  shows "docInv sha256 scheduleId s' \<and> docEvolves s s'"
proof -
  from w obtain p where p: "sd_pendingTick s = Some p" "pt_slotAt p = pt_slotAt admitted"
    and s': "sd_scheduleId s' = sd_scheduleId s" "sd_createdBy s' = sd_createdBy s" "sd_createdAt s' = sd_createdAt s"
      "sd_pendingTick s' = None" "sd_lastSlotAt s' = sd_lastSlotAt s"
      "sd_lastClosedSlotAt s' = Some (laterSlot (sd_lastClosedSlotAt s) (pt_slotAt admitted))"
      "sd_deletedAt s' = sd_deletedAt s" "sd_cron s' = sd_cron s" "sd_spec s' = sd_spec s"
    and conf: "revisionOf s' = revisionOf s \<and> sd_enabled s' = sd_enabled s \<or>
      revisionOf s' = revisionOf s + 1 \<and> \<not> sd_enabled s'"
    by (auto simp: closePending_def samePending_def revisionOf_def Let_def split: if_splits option.splits)
  from inv p have "aboveBound (admissionWatermark s) (pt_slotAt p)" by (simp add: docInv_def)
  then have "admissionWatermark s' = Some (pt_slotAt p)" by (rule watermark_after(2)) (simp_all add: s' p)
  then show ?thesis by (intro finish_change [OF inv p(1)]) (use conf in \<open>simp_all add: s'\<close>)
qed

subsection \<open>Runs\<close>

lemma tick_callbacks_None:
  "disableInvalid now rv None = Inr None" "admitTick rv slot itemId spec None = Inr None"
  "closePending admitted why now None = Inr None" "settleTick admitted now None = Inr None"
  by (simp_all add: disableInvalid_def admitTick_def closePending_def settleTick_def)

lemma docChange_sound:
  assumes c: "docChange sha256 scheduleId label change" and inv: "\<And>s. d = Some s \<Longrightarrow> docInv sha256 scheduleId s"
    and w: "change d = Inr (Some s')"
  shows "docInv sha256 scheduleId s' \<and> (\<forall>s. d = Some s \<longrightarrow> docEvolves s s') \<and>
    (\<forall>slot. label = Some slot \<longrightarrow>
       (\<exists>s. d = Some s \<and> aboveBound (slotMark s) slot \<and> slotMark s' = Some slot \<and> sd_deletedAt s = None))"
  using c
proof cases
  case (create input ctx p)
  with create_change [of d sha256 scheduleId input ctx p s'] inv w docEvolves_refl show ?thesis by auto
next
  case (update ctx p rv cron spec enabled)
  with operator_changes [of d sha256 scheduleId change ctx p rv cron spec enabled s'] inv w show ?thesis by auto
next
  case (delete ctx p rv)
  with operator_changes [of d sha256 scheduleId change ctx p rv _ _ _ s'] inv w show ?thesis by auto
next
  case (toggle ctx p rv enabled)
  with operator_changes [of d sha256 scheduleId change ctx p rv _ _ enabled s'] inv w show ?thesis by auto
next
  case (disable now rv)
  with w obtain s where s: "d = Some s" by (cases d) (simp_all add: tick_callbacks_None)
  from disable_change [OF inv [OF s] w [unfolded disable(2) s]] show ?thesis by (simp add: s disable(1))
next
  case (admit slot rv spec)
  with w obtain s where s: "d = Some s" by (cases d) (simp_all add: tick_callbacks_None)
  from admit_change [OF inv [OF s] w [unfolded admit(2) s]] show ?thesis by (simp add: s admit(1))
next
  case (close admitted why now)
  with w obtain s where s: "d = Some s" by (cases d) (simp_all add: tick_callbacks_None)
  from close_change [OF inv [OF s] w [unfolded close(2) s]] show ?thesis by (simp add: s close(1))
next
  case (settle admitted now)
  with w obtain s where s: "d = Some s" by (cases d) (simp_all add: tick_callbacks_None)
  from settle_change [OF inv [OF s] w [unfolded settle(2) s]] show ?thesis by (simp add: s settle(1))
qed

text \<open>One callback, whether it writes or not.\<close>

lemma applyChange_cases:
  assumes "docChange sha256 scheduleId label change" and "\<And>s. d = Some s \<Longrightarrow> docInv sha256 scheduleId s"
  shows "applyChange change d = d \<or>
    (\<exists>s'. applyChange change d = Some s' \<and> docInv sha256 scheduleId s' \<and> (\<forall>s. d = Some s \<longrightarrow> docEvolves s s') \<and>
      (\<forall>slot. label = Some slot \<longrightarrow>
       (\<exists>s. d = Some s \<and> aboveBound (slotMark s) slot \<and> slotMark s' = Some slot \<and> sd_deletedAt s = None)))"
proof (cases "\<exists>s'. change d = Inr (Some s') \<and> scheduleSchema s'")
  case True
  then obtain s' where s': "change d = Inr (Some s')" "scheduleSchema s'" by blast
  with docChange_sound [of sha256 scheduleId label change d s'] assms show ?thesis
    by (simp add: applyChange_def)
next
  case False
  then have "applyChange change d = d" by (auto simp: applyChange_def split: sum.splits option.splits)
  then show ?thesis ..
qed

text \<open>What a run does to a document that satisfies the invariant: it ends in one that does, which
  evolved from it, and the slots it admits increase strictly, start above the document's mark and
  end at or below the new one.\<close>

definition docRunOk :: "(string \<Rightarrow> nat list) \<Rightarrow> string \<Rightarrow> schedule option \<Rightarrow> timestamp list \<Rightarrow> schedule option \<Rightarrow> bool" where
  "docRunOk sha256 scheduleId d slots d' \<longleftrightarrow>
     (\<forall>s'. d' = Some s' \<longrightarrow> docInv sha256 scheduleId s') \<and>
     (\<forall>s. d = Some s \<longrightarrow> (\<exists>s'. d' = Some s' \<and> docEvolves s s')) \<and>
     sorted_wrt (<) slots \<and>
     (\<forall>x \<in> set slots. \<forall>s. d = Some s \<longrightarrow> aboveBound (slotMark s) x \<and> sd_deletedAt s = None) \<and>
     (\<forall>x \<in> set slots. \<exists>s'. d' = Some s' \<and> \<not> aboveBound (slotMark s') x)"

lemma docRunOkD:
  assumes "docRunOk sha256 scheduleId d slots d'"
  shows "d' = Some s' \<Longrightarrow> docInv sha256 scheduleId s'" "d = Some s \<Longrightarrow> \<exists>s'. d' = Some s' \<and> docEvolves s s'"
    "sorted_wrt (<) slots" "x \<in> set slots \<Longrightarrow> d = Some s \<Longrightarrow> aboveBound (slotMark s) x \<and> sd_deletedAt s = None"
    "x \<in> set slots \<Longrightarrow> \<exists>s'. d' = Some s' \<and> \<not> aboveBound (slotMark s') x"
  using assms by (simp_all add: docRunOk_def)

lemma evolves_mark: "docEvolves s s' \<Longrightarrow> aboveBound (slotMark s') t \<Longrightarrow> aboveBound (slotMark s) t"
  "docEvolves s s' \<Longrightarrow> sd_deletedAt s \<noteq> None \<Longrightarrow> sd_deletedAt s' \<noteq> None"
  by (simp_all add: docEvolves_def)

lemma docRunOk_step:
  assumes run: "docRunOk sha256 scheduleId d slots d'" and c: "docChange sha256 scheduleId label change"
  shows "docRunOk sha256 scheduleId d (slots @ admittedSlots label (applyChange change d' \<noteq> d')) (applyChange change d')"
proof (cases "applyChange change d' = d'")
  case True
  then show ?thesis using run by (simp add: admittedSlots_def split: option.splits)
next
  case False
  with applyChange_cases [OF c docRunOkD(1) [OF run]] obtain s'' where
    w: "applyChange change d' = Some s''" and inv: "docInv sha256 scheduleId s''"
    and ev: "\<forall>s. d' = Some s \<longrightarrow> docEvolves s s''"
    and adm: "\<forall>slot. label = Some slot \<longrightarrow>
       (\<exists>s. d' = Some s \<and> aboveBound (slotMark s) slot \<and> slotMark s'' = Some slot \<and> sd_deletedAt s = None)"
    by blast
  let ?new = "admittedSlots label (applyChange change d' \<noteq> d')"
  have new: "set ?new \<subseteq> {x. label = Some x}" "length ?new \<le> 1" by (auto simp: admittedSlots_def split: option.splits)
  have below: "\<not> aboveBound (slotMark s'') x" if "x \<in> set slots" for x
    using docRunOkD(5) [OF run that] ev evolves_mark(1) by blast
  have "y < x" if "y \<in> set slots" "x \<in> set ?new" for x y
    using that(2) new(1) adm docRunOkD(5) [OF run that(1)] by (force simp: aboveBound_def split: option.splits)
  moreover have "sorted_wrt (<) ?new" using new(2) by (cases ?new) (auto simp: le_Suc_eq)
  ultimately have "sorted_wrt (<) (slots @ ?new)" using docRunOkD(3) [OF run] by (simp add: sorted_wrt_append)
  moreover have "\<exists>s'. Some s'' = Some s' \<and> docEvolves s s'" if "d = Some s" for s
    using docRunOkD(2) [OF run that] ev docEvolves_trans by blast
  moreover have "aboveBound (slotMark s) x \<and> sd_deletedAt s = None" if "x \<in> set ?new" "d = Some s" for x s
    using that(1) new(1) adm docRunOkD(2) [OF run that(2)] evolves_mark by fastforce
  moreover have "\<not> aboveBound (slotMark s'') x" if "x \<in> set ?new" for x
    using that new(1) adm by auto
  ultimately show ?thesis using inv below docRunOkD(4) [OF run] unfolding docRunOk_def w by auto
qed

lemma docRun_ok:
  assumes "docRun sha256 scheduleId d slots d'" and "\<And>s. d = Some s \<Longrightarrow> docInv sha256 scheduleId s"
  shows "docRunOk sha256 scheduleId d slots d'"
  using assms
proof induction
  case (refl d)
  then show ?case using docEvolves_refl by (auto simp: docRunOk_def)
next
  case (step d slots d' label change)
  then show ?case using docRunOk_step by blast
qed

lemma docRun_append:
  assumes "docRun sha256 scheduleId b xs c" and "docRun sha256 scheduleId a ys b"
  shows "docRun sha256 scheduleId a (ys @ xs) c"
  using assms
proof induction
  case (step d slots d' label change)
  then show ?case using docRun.step by (metis append.assoc)
qed simp

lemma docRun_change:
  "docChange sha256 scheduleId label change \<Longrightarrow>
    docRun sha256 scheduleId d (admittedSlots label (applyChange change d \<noteq> d)) (applyChange change d)"
  using docRun.step [OF docRun.refl] by (metis append_Nil)

subsection \<open>The handlers are runs\<close>

definition storeRun :: "(string \<Rightarrow> nat list) \<Rightarrow> scheduleStore \<Rightarrow> scheduleStore \<Rightarrow> bool" where
  "storeRun sha256 ss ss' \<longleftrightarrow> (\<forall>k. \<exists>slots. docRun sha256 k (map_of ss k) slots (map_of ss' k))"

lemma storeRun_refl: "storeRun sha256 ss ss"
  using docRun.refl by (auto simp: storeRun_def)

lemma storeRun_trans: "storeRun sha256 a b \<Longrightarrow> storeRun sha256 b c \<Longrightarrow> storeRun sha256 a c"
  unfolding storeRun_def using docRun_append by meson

lemma mutate_run:
  assumes "docChange sha256 scheduleId label change"
  shows "storeRun sha256 ss (fst (mutateSchedule ss scheduleId change))"
  unfolding storeRun_def mutateSchedule_applyChange
  using docRun_change [OF assms] docRun.refl by fastforce

lemma withOperator_run:
  assumes "\<And>p. storeRun sha256 ss (fst (handler p))"
  shows "storeRun sha256 ss (fst (withOperator ctx ss handler))"
  using assms storeRun_refl by (auto simp: withOperator_def split: sum.splits)

lemma tickMutate_run:
  assumes "docChange sha256 scheduleId label change"
    and "\<And>next st'. storeRun sha256 (ts_schedules st') (ts_schedules (continue next st'))"
  shows "storeRun sha256 (ts_schedules st) (ts_schedules (tickMutate scheduleId change continue st))"
proof (cases "mutateSchedule (ts_schedules st) scheduleId change")
  case (Pair ss r)
  with mutate_run [OF assms(1), of "ts_schedules st"] have "storeRun sha256 (ts_schedules st) ss" by simp
  moreover have "storeRun sha256 ss (ts_schedules (continue next (st\<lparr>ts_schedules := ss\<rparr>)))" for "next"
    using assms(2) [of "st\<lparr>ts_schedules := ss\<rparr>" "next"] by simp
  ultimately show ?thesis
    using storeRun_trans by (cases r) (fastforce simp: tickMutate_def Pair reportError_def)+
qed

lemma report_frames [simp]:
  "ts_schedules (reportMinted i j st) = ts_schedules st" "ts_schedules (reportDisabled i st) = ts_schedules st"
  "ts_schedules (reportError i st) = ts_schedules st"
  by (simp_all add: reportMinted_def reportDisabled_def reportError_def)

lemma occurrence_runs:
  "storeRun sha256 (ts_schedules st) (ts_schedules (closeOccurrence i admitted why now st))"
  "storeRun sha256 (ts_schedules st) (ts_schedules (settleOccurrence i admitted now st))"
  unfolding closeOccurrence_def settleOccurrence_def
  by (rule tickMutate_run [OF docChange.close], simp add: storeRun_refl)
    (rule tickMutate_run [OF docChange.settle], simp add: storeRun_refl)

lemma runPending_run:
  "storeRun sha256 (ts_schedules st) (ts_schedules (runPending ctx i admitted st))"
proof (cases "workSpecSchema (pt_spec admitted)")
  case None
  then show ?thesis unfolding runPending_def
    by simp (rule tickMutate_run [OF docChange.close], simp add: storeRun_refl)
next
  case (Some spec)
  obtain s' r where m: "mintItem (cx_admitted ctx) (cx_formats ctx) (cx_now ctx) (cx_between ctx) (cx_drain ctx)
      (ts_store st) (tickMintInput ctx i admitted spec) = (s', r)" by fastforce
  have run: "storeRun sha256 (ts_schedules st) (ts_schedules (closeOccurrence i admitted w n (st\<lparr>ts_store := s'\<rparr>)))"
    "storeRun sha256 (ts_schedules st) (ts_schedules (settleOccurrence i admitted n (st\<lparr>ts_store := s'\<rparr>)))" for w n
    using occurrence_runs [of sha256 "st\<lparr>ts_store := s'\<rparr>"] by simp_all
  show ?thesis unfolding runPending_def
    by (simp add: Some m Let_def run storeRun_refl split: sum.splits mintOutcome.splits)
qed

lemma tickSchedule_run:
  "storeRun (cx_sha256 ctx) (ts_schedules st) (ts_schedules (tickSchedule ctx snapshot st))"
proof (cases "sd_pendingTick snapshot")
  case (Some pending)
  then show ?thesis by (simp add: tickSchedule_def runPending_run)
next
  case None
  let ?i = "sd_scheduleId snapshot"
  show ?thesis
  proof (cases "tickDue snapshot (cx_now ctx)")
    case none: None
    then show ?thesis unfolding tickSchedule_def
      by (simp add: None Let_def) (rule tickMutate_run [OF docChange.disable], simp add: storeRun_refl)
  next
    case (Some due)
    obtain spec slot where due: "due = (spec, slot)" by (cases due)
    show ?thesis
    proof (cases slot)
      case None
      then show ?thesis by (simp add: tickSchedule_def \<open>sd_pendingTick snapshot = None\<close> Some due storeRun_refl)
    next
      case slot: (Some t)
      show ?thesis unfolding tickSchedule_def
        by (simp add: None Some due slot Let_def)
          (rule tickMutate_run [OF docChange.admit], simp add: storeRun_refl runPending_run split: option.splits)
    qed
  qed
qed

lemma tick_run: "storeRun (cx_sha256 ctx) ss (fst (fst (tick ctx ss s)))"
proof -
  have "storeRun (cx_sha256 ctx) (ts_schedules st) (ts_schedules (fold (tickSchedule ctx) l st))" for l st
    by (induction l arbitrary: st) (auto simp: storeRun_refl intro: storeRun_trans tickSchedule_run)
  from this [of "\<lparr>ts_schedules = ss, ts_store = s, ts_report = emptyReport\<rparr>"] show ?thesis
    by (simp add: tick_def Let_def storeRun_refl split: sum.splits)
qed

lemmas operator_runs =
  mutate_run [OF docChange.create [OF HOL.refl]] mutate_run [OF docChange.update]
  mutate_run [OF docChange.delete] mutate_run [OF docChange.toggle]

lemma api_runs:
  "storeRun sha256 ss (fst (createSchedule ctx ss input))"
  "storeRun sha256 ss (fst (updateSchedule ctx ss scheduleId rv cron spec enabled))"
  "storeRun sha256 ss (fst (deleteSchedule ctx ss scheduleId rv))"
  "storeRun sha256 ss (fst (toggleSchedule ctx ss scheduleId rv enabled))"
  unfolding createSchedule_def updateSchedule_def deleteSchedule_def toggleSchedule_def
  by (rule withOperator_run, simp add: storeRun_refl operator_runs split: option.splits)+

end
