(* ===== verification/Schedule_Guarantees.thy ===== *)
theory Schedule_Guarantees
  imports Schedule_Protocol Scenario
begin

text \<open>
  What the schedules promise: an occurrence is admitted at most once however ticks and operators
  interleave, an admitted occurrence is never lost, a deleted schedule never fires again, every
  handler is such an interleaving step, and a due occurrence of a sound schedule becomes a work item
  with a run.
\<close>

subsection \<open>Minting\<close>

lemma no_task_no_request:
  assumes "storeInv s" and "readTask s tid = None"
  shows "Option.bind (map_of (ms_requestRuns s) (taskKey tid, hk)) (readRun s) = None"
proof (rule ccontr)
  assume "\<not> ?thesis"
  then obtain i r where i: "map_of (ms_requestRuns s) (taskKey tid, hk) = Some i" and r: "readRun s i = Some r"
    by (auto simp: Option.bind_eq_None_conv)
  from storeInvD(3) [OF assms(1) i] r have "taskKey (r_task r) = taskKey tid"
    by (auto simp: indexOk_def requestKeyOf_def)
  moreover from assms(1) r obtain v where "readTask s (r_task r) = Some v" by (rule storeInv_run)
  ultimately show False using assms(2) by (simp add: readTask_def)
qed

lemma mintRequest_fields [simp]:
  "rq_taskId (mintRequest input fallback) = WorkAnchor (mt_id input)"
  "rq_requestId (mintRequest input fallback) = orElse (mt_requestId input) (mt_id input)"
  "rq_issue (mintRequest input fallback) = mt_issue input"
  "rq_work (mintRequest input fallback) = Some (workPayloadJson (mt_origin input) (mt_spec input))"
  "rq_sourceRevision (mintRequest input fallback) = None" "rq_requestBinding (mintRequest input fallback) = None"
  "rq_labelProviderRequest (mintRequest input fallback) = None" "rq_replaceQueuedRunId (mintRequest input fallback) = None"
  "rq_expectedEffectivePipeline (mintRequest input fallback) = None"
  "rq_isPipelineAuthorized (mintRequest input fallback) = None"
  by (simp_all add: mintRequest_def)

lemma applyDecision_fresh:
  assumes "map_of (ms_tasks s) (taskKey (t_task (d_task d))) = None"
  obtains s1 where "applyDecision s d None = Inr s1"
    "map_of (ms_tasks s1) (taskKey (t_task (d_task d))) = Some \<lparr>vt_task = d_task d, vt_revision = 1\<rparr>"
  using assms by (auto simp: applyDecision_def Let_def js.get_put)

lemma mint_request_fresh:
  assumes inv: "storeInv s" and none: "readTask s (WorkAnchor (mt_id input)) = None" and issue: "mt_issue input = None"
  obtains s' d v where "mintTransaction z now s input fallback = (s', Decided d)"
    "readTask s' (WorkAnchor (mt_id input)) = Some v" "t_work (vt_task v) = workPayloadJson (mt_origin input) (mt_spec input)"
    "t_runCount (vt_task v) = 1" "t_activeRunId (vt_task v) = Some (runIdFor (WorkAnchor (mt_id input)) 1)"
proof -
  let ?rq = "mintRequest input fallback" and ?tid = "WorkAnchor (mt_id input)"
  let ?st = "requestSnapshot s (requestTx ?rq) (orElse (mt_requestId input) (mt_id input))"
  have st: "rs_task ?st = None" "rs_activeRun ?st = None" "rs_previousRun ?st = None" "rs_previousSourceRevision ?st = None"
    using none no_task_no_request [OF inv none]
    by (simp_all add: requestSnapshot_def requestTx_def Let_def activeRunIn_def)
  have pre: "requestPrecheck ?rq ?st = None"
    unfolding requestPrecheck_def st by (simp add: Let_def)
  define args where "args = requestArgs now ?rq ?st"
  have args: "ri_task args = None" "ri_activeRun args = None" "ri_taskId args = ?tid" "ri_issueValue args = None"
    "ri_work args = Some (workPayloadJson (mt_origin input) (mt_spec input))"
    by (simp_all add: args_def requestArgs_def Let_def issue ri_issueValue_def none activeRunIn_def)
  let ?d = "mintRun (requestMintInput args (workPayloadJson (mt_origin input) (mt_spec input)))"
  have dec: "decideRequest now ?rq ?st = Decided ?d"
    by (simp add: decideRequest_def pre args_def [symmetric] Let_def requestRun_def args liveRun_def
        issueIdentityChanged_def)
  have task: "t_task (d_task ?d) = ?tid" "t_work (d_task ?d) = workPayloadJson (mt_origin input) (mt_spec input)"
    "t_runCount (d_task ?d) = 1" "t_activeRunId (d_task ?d) = Some (runIdFor ?tid 1)"
    by (simp_all add: requestMintInput_def requestBaseTask_def args mintRun_def Let_def mintedRun_def)
  obtain s1 where ap: "applyDecision s ?d None = Inr s1"
    and s1: "map_of (ms_tasks s1) (taskKey ?tid) = Some \<lparr>vt_task = d_task ?d, vt_revision = 1\<rparr>"
    using applyDecision_fresh [of s ?d] none unfolding task(1) readTask_def by blast
  have tx: "rx_requestBinding (requestTx ?rq) = None" "rx_requestId (requestTx ?rq) = orElse (mt_requestId input) (mt_id input)"
    by (simp_all add: requestTx_def)
  have "request z now s ?rq = (recordRevision s1 (requestTx ?rq) None ?d, Decided ?d)"
    using dec ap
    by (simp add: request_def issue transactRequest_def resolveRequestBinding_def recordBinding_def
        Let_def commitOutcome_def none tx st)
  moreover have "readTask (recordRevision s1 (requestTx ?rq) None ?d) ?tid = Some \<lparr>vt_task = d_task ?d, vt_revision = 1\<rparr>"
    using s1 by (simp add: readTask_def)
  ultimately show thesis
    using that none task by (simp add: mintTransaction_def)
qed

lemma mintItem_fresh:
  assumes inv: "storeInv (between s)" and none: "readTask s (WorkAnchor (mt_id input)) = None"
    "readTask (between s) (WorkAnchor (mt_id input)) = None" and issue: "mt_issue input = None"
    and ok: "workForbiddenReason admitted (mt_grants input) (ws_pipeline (mt_spec input)) (Some (ws_repo (mt_spec input))) = None"
    and spec: "validWorkSpec (mt_spec input)" and valid: "validTaskId (WorkAnchor (mt_id input))"
  obtains s' t v where "mintItem admitted z now between drain s input =
      (fst (drain s'), case snd (drain s') of None \<Rightarrow> Inr (Minted t) | Some message \<Rightarrow> Inl (Raised (JsError message)))"
    "readTask s' (WorkAnchor (mt_id input)) = Some v" "t_runCount (vt_task v) = 1"
    "t_work (vt_task v) = workPayloadJson (mt_origin input) (mt_spec input)"
    "steps (between s) s'"
proof -
  have "\<exists>fallback. authorizeProviderFallback (mt_grants input) (ws_pipeline (mt_spec input))
      (ws_fallbackPipelines (mt_spec input)) = Inr fallback"
    using spec by (auto simp: authorizeProviderFallback_def validWorkSpec_def Let_def split: option.splits)
  then obtain fallback where f: "authorizeProviderFallback (mt_grants input) (ws_pipeline (mt_spec input))
      (ws_fallbackPipelines (mt_spec input)) = Inr fallback" ..
  from mint_request_fresh [OF inv none(2) issue] obtain s' d v where
    m: "mintTransaction z now (between s) input fallback = (s', Decided d)"
      "readTask s' (WorkAnchor (mt_id input)) = Some v" "t_runCount (vt_task v) = 1"
      "t_work (vt_task v) = workPayloadJson (mt_origin input) (mt_spec input)" by metis
  have "steps (between s) s'"
    using steps_exec [OF steps_refl, of "Request z now (mintRequest input fallback)" "between s"] valid m(1) none(2)
    by (simp add: mintTransaction_def)
  moreover have "mintItem admitted z now between drain s input = (fst (drain s'),
      case snd (drain s') of None \<Rightarrow> Inr (Minted (d_task d)) | Some message \<Rightarrow> Inl (Raised (JsError message)))"
    using m(1) by (simp add: mintItem_def ok none(1) f split: prod.split option.split)
  ultimately show thesis using m(2-4) that by blast
qed

subsection \<open>A due occurrence\<close>

lemma deepEqual_strings: "list_all (\<lambda>(x, y). deepEqual x y) (zip (map JStr ps) (map JStr ps))"
  by (induction ps) auto

lemma workSpecJson_deepEqual: "deepEqual (workSpecJson s) (workSpecJson s)"
  by (cases "ws_fallbackPipelines s"; cases "ws_deliveryRuntime s"; cases "ws_deliverable s")
    (simp_all add: workSpecJson_def optionalJson_def targetJson_def deepEqual_strings)

lemma tickMutate_Some:
  "change (map_of (ts_schedules st) i) = Inr (Some s) \<Longrightarrow> scheduleSchema s \<Longrightarrow>
    tickMutate i change continue st = continue (Some s) (st\<lparr>ts_schedules := AList.update i s (ts_schedules st)\<rparr>)"
  by (simp add: tickMutate_def mutateSchedule_def)

lemma task_kept:
  assumes "reachable s" and "steps s s'" and "readTask s tid = Some v"
  shows "\<exists>v'. readTask s' tid = Some v' \<and> t_runCount (vt_task v) \<le> t_runCount (vt_task v')"
  using reachable_keeps [OF assms(1,2)] assms(3)
  unfolding keeps_def evolves_def readTask_def taskEvolves_def by blast

lemma tickDue_slot:
  assumes "tickDue snapshot now = Some (spec, Some slot)"
  shows "aboveBound (admissionWatermark snapshot) slot" "validWorkSpec spec"
proof -
  from assms obtain cron where l: "latestDueSlot cron now (admissionWatermark snapshot) = Some slot"
    and w: "workSpecSchema (sd_spec snapshot) = Some spec"
    by (auto simp: tickDue_def split: option.splits sum.splits if_splits)
  from l show "aboveBound (admissionWatermark snapshot) slot" by (rule latest_due_slot_above)
  from w show "validWorkSpec spec" by (rule workSpecSchema_valid)
qed

lemma laterSlot_above: "aboveBound (admissionWatermark s) slot \<Longrightarrow> laterSlot (sd_lastSlotAt s) slot = slot"
  by (auto simp: admissionWatermark_def laterSlot_def aboveBound_def split: option.splits)

text \<open>A schedule a tick can act on: the stored document is the snapshot, enabled, with nothing
  pending, and its creator's grant covers its specification.\<close>

definition tickReady :: "workContext \<Rightarrow> scheduleStore \<Rightarrow> schedule \<Rightarrow> workSpec \<Rightarrow> bool" where
  "tickReady ctx ss s spec \<longleftrightarrow>
     map_of ss (sd_scheduleId s) = Some s \<and> scheduleSchema s \<and> sd_enabled s \<and> sd_deletedAt s = None \<and>
     sd_pendingTick s = None \<and> scheduleSpecSchema (workSpecJson spec) \<and>
     specForbidden ctx (grantAuthority ctx (sd_createdBy s)) spec = None"

lemma tick_admits_and_mints:
  assumes ready: "tickReady ctx (ts_schedules st) s spec"
    and due: "tickDue s (cx_now ctx) = Some (spec, Some slot)"
    and clock: "isoRange (cx_now ctx)" "isoRange slot" "0 \<le> slot"
    and digest: "\<And>m. 16 \<le> length (cx_sha256 ctx m)"
    and item: "itemId = slotItemId (cx_sha256 ctx) (sd_scheduleId s) slot"
    and p: "p = \<lparr>pt_slotAt = slot, pt_itemId = itemId, pt_revision = revisionOf s, pt_spec = workSpecJson spec,
      pt_createdBy = sd_createdBy s\<rparr>"
    and mint: "mintItem (cx_admitted ctx) (cx_formats ctx) (cx_now ctx) (cx_between ctx) (cx_drain ctx)
      (ts_store st) (tickMintInput ctx (sd_scheduleId s) p spec) =
        (ms, case failure of None \<Rightarrow> Inr (Minted t) | Some message \<Rightarrow> Inl (Raised (JsError message)))"
  shows "ts_store (tickSchedule ctx s st) = ms \<and>
    map_of (ts_schedules (tickSchedule ctx s st)) (sd_scheduleId s) =
      Some (case failure of
              None \<Rightarrow> s\<lparr>sd_pendingTick := None, sd_lastSlotAt := Some slot, sd_lastItemId := Some itemId,
                       sd_updatedAt := cx_now ctx\<rparr>
            | Some _ \<Rightarrow> s\<lparr>sd_pendingTick := Some p\<rparr>)"
proof -
  let ?i = "sd_scheduleId s"
  let ?adm = "s\<lparr>sd_pendingTick := Some p\<rparr>"
  let ?fin = "?adm\<lparr>sd_pendingTick := None, sd_lastSlotAt := Some slot, sd_lastItemId := Some itemId,
    sd_updatedAt := cx_now ctx\<rparr>"
  from ready have r: "map_of (ts_schedules st) ?i = Some s" "scheduleSchema s" "sd_enabled s" "sd_deletedAt s = None"
    "sd_pendingTick s = None" "scheduleSpecSchema (workSpecJson spec)"
    by (simp_all add: tickReady_def)
  note above = tickDue_slot(1) [OF due] and valid = tickDue_slot(2) [OF due]
  have wid: "WORK_ID_RE itemId" using digest clock(3) by (simp add: item slotItemId_def work_id_of_prefix)
  have adm: "admitTick (revisionOf s) slot itemId spec (Some s) = Inr (Some ?adm)"
    using r above by (simp add: admitTick_def p aboveBound_def not_le split: option.splits)
  have schema: "scheduleSchema ?adm" "scheduleSchema ?fin"
    using r(2,6) wid clock(1,2) by (simp_all add: scheduleSchema_def pendingScheduleTickSchema_def p)
  define st1 where "st1 = st\<lparr>ts_schedules := AList.update ?i ?adm (ts_schedules st)\<rparr>"
  define st2 where "st2 = st1\<lparr>ts_store := ms\<rparr>"
  have run: "tickSchedule ctx s st = runPending ctx ?i p st1"
    using tickMutate_Some [where change = "admitTick (revisionOf s) slot itemId spec" and st = st and i = ?i] adm r(1) schema(1)
    by (simp add: tickSchedule_def Let_def r(5) due item [symmetric] st1_def)
  have settled: "runPending ctx ?i p st1 =
      (case failure of None \<Rightarrow> settleOccurrence ?i p (cx_now ctx) st2 | Some _ \<Rightarrow> reportError ?i st2)"
    using mint by (simp add: runPending_def p workSpec_roundtrip [OF valid] st1_def st2_def Let_def split: option.splits)
  have set: "settleTick p (cx_now ctx) (map_of (ts_schedules st2) ?i) = Inr (Some ?fin)"
    using laterSlot_above [OF above]
    by (simp add: settleTick_def samePending_def st1_def st2_def js.get_put p workSpecJson_deepEqual)
  have "settleOccurrence ?i p (cx_now ctx) st2 =
      reportMinted ?i itemId (st2\<lparr>ts_schedules := AList.update ?i ?fin (ts_schedules st2)\<rparr>)"
    unfolding settleOccurrence_def by (subst tickMutate_Some [where change = "settleTick p (cx_now ctx)", OF set schema(2)]) (simp add: p)
  with run settled show ?thesis
    by (simp add: st1_def st2_def js.get_put reportMinted_def reportError_def split: option.split)
qed

text \<open>C29: a due occurrence becomes work. When a tick finds a slot due for an enabled schedule whose
  creator's grant covers it and whose item does not exist yet, then after the tick the item is a
  task of the orchestrator with at least one run, whatever other clients did around the mint. If the
  drain that follows the mint succeeds, the schedule document records the slot and the item as done;
  if it fails, the admitted occurrence stays pending in the document, its slot not yet recorded, for a
  later tick to settle.\<close>

theorem schedule_tick_mints:
  assumes "tickReady ctx (ts_schedules st) s spec"
    and "tickDue s (cx_now ctx) = Some (spec, Some slot)"
    and "isoRange (cx_now ctx)" and "isoRange slot" and "0 \<le> slot" and "\<And>m. 16 \<le> length (cx_sha256 ctx m)"
    and "itemId = slotItemId (cx_sha256 ctx) (sd_scheduleId s) slot"
    and "reachable (ts_store st)" and "\<And>x. steps x (cx_between ctx x)" and "\<And>x. steps x (fst (cx_drain ctx x))"
    and "readTask (ts_store st) (WorkAnchor itemId) = None"
    and "readTask (cx_between ctx (ts_store st)) (WorkAnchor itemId) = None"
  shows "\<exists>x v s'. steps (cx_between ctx (ts_store st)) x \<and> readTask x (WorkAnchor itemId) \<noteq> None \<and>
    ts_store (tickSchedule ctx s st) = fst (cx_drain ctx x) \<and>
    readTask (ts_store (tickSchedule ctx s st)) (WorkAnchor itemId) = Some v \<and> 1 \<le> t_runCount (vt_task v) \<and>
    map_of (ts_schedules (tickSchedule ctx s st)) (sd_scheduleId s) = Some s' \<and>
    (if snd (cx_drain ctx x) = None
     then sd_pendingTick s' = None \<and> sd_lastSlotAt s' = Some slot \<and> sd_lastItemId s' = Some itemId
     else map_option (\<lambda>p. (pt_slotAt p, pt_itemId p)) (sd_pendingTick s') = Some (slot, itemId) \<and>
       sd_lastSlotAt s' = sd_lastSlotAt s)"
proof -
  define p where "p = \<lparr>pt_slotAt = slot, pt_itemId = itemId, pt_revision = revisionOf s,
    pt_spec = workSpecJson spec, pt_createdBy = sd_createdBy s\<rparr>"
  let ?input = "tickMintInput ctx (sd_scheduleId s) p spec"
  have input: "mt_id ?input = itemId" "mt_issue ?input = None" "mt_spec ?input = spec"
    "mt_grants ?input = grantAuthority ctx (sd_createdBy s)" by (simp_all add: tickMintInput_def p_def)
  have reach: "reachable (cx_between ctx (ts_store st))" by (rule reachable_steps [OF assms(8,9)])
  have ok: "workForbiddenReason (cx_admitted ctx) (mt_grants ?input) (ws_pipeline (mt_spec ?input))
      (Some (ws_repo (mt_spec ?input))) = None"
    using assms(1) by (simp add: tickReady_def specForbidden_def input)
  have wid: "validTaskId (WorkAnchor itemId)"
    using assms(5,6) by (simp add: assms(7) slotItemId_def work_id_of_prefix)
  note fresh = mintItem_fresh [of "cx_between ctx" "ts_store st" ?input, OF reachable_inv [OF reach], unfolded input,
      OF assms(11,12) HOL.refl ok [unfolded input] tickDue_slot(2) [OF assms(2)] wid]
  obtain s1 t v where m: "mintItem (cx_admitted ctx) (cx_formats ctx) (cx_now ctx) (cx_between ctx) (cx_drain ctx)
      (ts_store st) ?input = (fst (cx_drain ctx s1),
        case snd (cx_drain ctx s1) of None \<Rightarrow> Inr (Minted t) | Some message \<Rightarrow> Inl (Raised (JsError message)))"
    "readTask s1 (WorkAnchor itemId) = Some v" "t_runCount (vt_task v) = 1"
    "t_work (vt_task v) = workPayloadJson (mt_origin ?input) spec" "steps (cx_between ctx (ts_store st)) s1"
    by (rule fresh)
  have "reachable s1" by (rule reachable_steps [OF reach m(5)])
  from task_kept [OF this assms(10) m(2)] m(3) obtain v' where
    v': "readTask (fst (cx_drain ctx s1)) (WorkAnchor itemId) = Some v'" "1 \<le> t_runCount (vt_task v')" by auto
  note ticked = tick_admits_and_mints [OF assms(1-7) p_def m(1)]
  show ?thesis
  proof (intro exI conjI)
    show "steps (cx_between ctx (ts_store st)) s1" by (rule m(5))
    show "readTask s1 (WorkAnchor itemId) \<noteq> None" using m(2) by simp
    show "ts_store (tickSchedule ctx s st) = fst (cx_drain ctx s1)" using ticked by blast
    with v'(1) show "readTask (ts_store (tickSchedule ctx s st)) (WorkAnchor itemId) = Some v'" by simp
    show "1 \<le> t_runCount (vt_task v')" by (rule v'(2))
    show "map_of (ts_schedules (tickSchedule ctx s st)) (sd_scheduleId s) = Some (case snd (cx_drain ctx s1) of
              None \<Rightarrow> s\<lparr>sd_pendingTick := None, sd_lastSlotAt := Some slot, sd_lastItemId := Some itemId,
                       sd_updatedAt := cx_now ctx\<rparr>
            | Some _ \<Rightarrow> s\<lparr>sd_pendingTick := Some p\<rparr>)" using ticked by blast
  qed (simp add: p_def split: option.split)
qed

subsection \<open>A worked schedule\<close>

text \<open>A daily schedule created on 21 September 2026, its first occurrence at 09:30 the next day, and
  the document after a tick admitted and settled it.\<close>

definition demoWorkSpec :: workSpec where
  "demoWorkSpec =
     \<lparr>ws_title = ''Nightly'', ws_description = ''Check'', ws_pipeline = ''claude'', ws_priority = Normal,
      ws_fallbackPipelines = None, ws_deliveryRuntime = None, ws_deliverable = None, ws_repo = ''o/r''\<rparr>"

definition demoWho :: workPrincipal where
  "demoWho = \<lparr>wp_principal = ''user:a'', wp_subject = ''a'', wp_scopes = [''work.operator'', ''work.cron''],
     wp_pipelines = [''claude''], wp_via = ViaSession, wp_sourceRepository = None, wp_channel = None\<rparr>"

definition demoContext :: "timestamp \<Rightarrow> workContext" where
  "demoContext now =
     \<lparr>cx_principal = Some demoWho,
      cx_grants = [\<lparr>wg_principal = ''user:a'', wg_subjects = [''a''], wg_pipelines = [''claude''],
                    wg_scopes = [''work.operator''], wg_channel = None\<rparr>],
      cx_now = now, cx_admitted = (\<lambda>_. True), cx_sha256 = (\<lambda>m. replicate 32 (length m)),
      cx_localeCompare = (\<lambda>_ _. 0), cx_formats = allFormats, cx_between = id, cx_drain = (\<lambda>x. (x, None))\<rparr>"

definition demoSchedule :: schedule where
  "demoSchedule =
     \<lparr>sd_scheduleId = ''01HZXW8K3M5N7P9Q2R4S6T8V0B'', sd_cron = ''30 9 * * *'', sd_spec = workSpecJson demoWorkSpec,
      sd_enabled = True, sd_createdBy = ''user:a'', sd_createdAt = 1790000000000, sd_updatedAt = 1790000000000,
      sd_revision = Some 1, sd_deletedAt = None, sd_pendingTick = None, sd_lastSlotAt = Some 1790000000000,
      sd_lastItemId = None, sd_lastClosedSlotAt = None, sd_disabledReason = None\<rparr>"

definition demoSlot :: timestamp where
  "demoSlot = 1790069400000"

definition demoTickAt :: timestamp where
  "demoTickAt = 1790069450000"

definition dailyCron :: cronSpec where
  "dailyCron = \<lparr>cs_minute = {30}, cs_hour = {9}, cs_dayOfMonth = {1..31}, cs_month = {1..12}, cs_dayOfWeek = {0..6}\<rparr>"

lemma demo_spec_text: "utf8Length (jsonText (workSpecJson demoWorkSpec)) \<le> 200" "jsonRecord (workSpecJson demoWorkSpec)"
  by code_simp+

lemma demo_clocks: "isoRange 1790000000000" "isoRange demoSlot" "isoRange demoTickAt" "0 \<le> demoSlot"
  by code_simp+

lemma demo_fires: "truncateToMinute demoTickAt = demoSlot" "matchesSpec dailyCron demoSlot"
  by code_simp+

lemma dailyCron_parses: "parseCron ''30 9 * * *'' = Inr dailyCron"
  by code_simp

lemma demo_work_ids: "WORK_ID_RE ''01HZXW8K3M5N7P9Q2R4S6T8V0B''"
  by code_simp

lemma demo_spec_parses: "workSpecSchema (workSpecJson demoWorkSpec) = Some demoWorkSpec"
proof (rule workSpec_roundtrip)
  have "ws_pipeline demoWorkSpec \<in> set PIPELINES" "repoNamePattern (ws_repo demoWorkSpec)" by code_simp+
  then show "validWorkSpec demoWorkSpec"
    by (simp add: validWorkSpec_def demoWorkSpec_def lengthWithin_def WORK_TITLE_MAX_def WORK_DESCRIPTION_MAX_def)
qed

lemma demo_spec_ok: "scheduleSpecSchema (workSpecJson demoWorkSpec)"
  using demo_spec_text by (simp add: scheduleSpecSchema_def SCHEDULE_SPEC_MAX_BYTES_def)

lemma demo_schedule_ok: "scheduleSchema demoSchedule"
  using demo_spec_ok demo_clocks(1) demo_work_ids
  by (simp add: scheduleSchema_def demoSchedule_def lengthWithin_def)

lemma lookBack_hit: "0 < n \<Longrightarrow> aboveBound b c \<Longrightarrow> matchesSpec cron c \<Longrightarrow> lookBack cron b n c = Some c"
  using lookBack_Suc [of cron b "n - 1" c] by simp

lemma lookAhead_hit: "0 < n \<Longrightarrow> matchesSpec cron c \<Longrightarrow> lookAhead cron n c = Some c"
  using lookAhead.simps(2) [of cron "n - 1" c] by simp

lemma demo_due: "tickDue demoSchedule demoTickAt = Some (demoWorkSpec, Some demoSlot)"
proof -
  have "latestDueSlot dailyCron demoTickAt (Some 1790000000000) = Some demoSlot"
    unfolding latestDueSlot_def demo_fires(1)
    by (rule lookBack_hit) (simp_all add: MAX_LOOKBACK_MINUTES_def demo_fires(2), simp add: demoSlot_def)
  moreover have "nextDueSlot dailyCron demoTickAt DEFAULT_HORIZON_DAYS = Some demoSlot"
    unfolding nextDueSlot_def demo_fires(1)
    by (rule lookAhead_hit) (simp_all add: DEFAULT_HORIZON_DAYS_def demo_fires(2))
  ultimately show ?thesis
    by (simp add: tickDue_def demoSchedule_def demo_spec_parses dailyCron_parses admissionWatermark_def)
qed

lemma demo_ready: "tickReady (demoContext demoTickAt) [(sd_scheduleId demoSchedule, demoSchedule)] demoSchedule demoWorkSpec"
proof -
  have "specForbidden (demoContext demoTickAt) (grantAuthority (demoContext demoTickAt) ''user:a'') demoWorkSpec = None"
    by code_simp
  with demo_schedule_ok demo_spec_ok show ?thesis by (simp add: tickReady_def demoSchedule_def)
qed

definition demoTickState :: tickState where
  "demoTickState = \<lparr>ts_schedules = [(sd_scheduleId demoSchedule, demoSchedule)], ts_store = emptyStore,
     ts_report = emptyReport\<rparr>"

theorem schedule_tick_mints_witness:
  "\<exists>s' v. map_of (ts_schedules (tickSchedule (demoContext demoTickAt) demoSchedule demoTickState))
        (sd_scheduleId demoSchedule) = Some s' \<and> sd_lastSlotAt s' = Some demoSlot \<and>
     readTask (ts_store (tickSchedule (demoContext demoTickAt) demoSchedule demoTickState))
       (WorkAnchor (slotItemId (\<lambda>m. replicate 32 (length m)) (sd_scheduleId demoSchedule) demoSlot)) = Some v"
proof -
  have "reachable emptyStore" by (simp add: reachable_def steps_refl)
  then show ?thesis
    using schedule_tick_mints [of "demoContext demoTickAt" demoTickState demoSchedule demoWorkSpec demoSlot _,
        OF _ _ _ _ _ _ HOL.refl] demo_ready demo_due demo_clocks
    by (fastforce simp: demoTickState_def demoContext_def steps_refl readTask_def emptyStore_def split: if_splits)
qed

subsection \<open>Runs of the worked schedule\<close>

abbreviation demoSha :: "string \<Rightarrow> nat list" where
  "demoSha \<equiv> \<lambda>m. replicate 32 (length m)"

abbreviation demoItem :: "timestamp \<Rightarrow> string" where
  "demoItem slot \<equiv> slotItemId demoSha ''01HZXW8K3M5N7P9Q2R4S6T8V0B'' slot"

definition demoPending :: "timestamp \<Rightarrow> pendingTick" where
  "demoPending slot = \<lparr>pt_slotAt = slot, pt_itemId = demoItem slot, pt_revision = 1,
     pt_spec = workSpecJson demoWorkSpec, pt_createdBy = ''user:a''\<rparr>"

definition demoAdmitted :: schedule where
  "demoAdmitted = demoSchedule\<lparr>sd_pendingTick := Some (demoPending demoSlot)\<rparr>"

definition demoSettled :: schedule where
  "demoSettled = demoSchedule\<lparr>sd_lastSlotAt := Some demoSlot, sd_lastItemId := Some (demoItem demoSlot),
     sd_updatedAt := demoTickAt\<rparr>"

definition demoNextSlot :: timestamp where
  "demoNextSlot = 1790155800000"

definition demoAgain :: schedule where
  "demoAgain = demoSettled\<lparr>sd_pendingTick := Some (demoPending demoNextSlot)\<rparr>"

definition demoDeleted :: schedule where
  "demoDeleted = demoSettled\<lparr>sd_enabled := False, sd_disabledReason := Some DisabledByOperator,
     sd_deletedAt := Some demoTickAt, sd_updatedAt := demoTickAt, sd_revision := Some 2\<rparr>"

lemma demo_items: "isoRange demoNextSlot" "WORK_ID_RE (demoItem demoSlot)" "WORK_ID_RE (demoItem demoNextSlot)"
  by (code_simp, simp_all add: slotItemId_def work_id_of_prefix demoSlot_def demoNextSlot_def)

lemma demo_schemas: "scheduleSchema demoAdmitted" "scheduleSchema demoSettled" "scheduleSchema demoAgain" "scheduleSchema demoDeleted"
  using demo_schedule_ok demo_items demo_clocks demo_spec_ok
  by (simp_all add: scheduleSchema_def pendingScheduleTickSchema_def demoAdmitted_def demoSettled_def demoAgain_def
      demoDeleted_def demoPending_def demoSchedule_def lengthWithin_def)

abbreviation demoRun :: "schedule option \<Rightarrow> timestamp list \<Rightarrow> schedule option \<Rightarrow> bool" where
  "demoRun \<equiv> docRun demoSha ''01HZXW8K3M5N7P9Q2R4S6T8V0B''"

lemma demoRun_step:
  assumes "demoRun d slots (Some s)" and "docChange demoSha ''01HZXW8K3M5N7P9Q2R4S6T8V0B'' label change"
    and "change (Some s) = Inr (Some s')" and "scheduleSchema s'" and "s' \<noteq> s"
  shows "demoRun d (slots @ (case label of None \<Rightarrow> [] | Some x \<Rightarrow> [x])) (Some s')"
proof -
  have "applyChange change (Some s) = Some s'" using assms(3,4) by (simp add: applyChange_def)
  with docRun.step [OF assms(1,2)] assms(5) show ?thesis by (simp add: admittedSlots_def split: option.splits)
qed

lemma demo_created: "demoRun None [] (Some demoSchedule)"
proof -
  define input where "input = \<lparr>si_id = ''01HZXW8K3M5N7P9Q2R4S6T8V0B'', si_cron = ''30 9 * * *'', si_spec = demoWorkSpec,
    si_enabled = None\<rparr>"
  have "applyChange (createChange (demoContext 1790000000000) demoWho input) None = Some demoSchedule"
    using demo_schedule_ok
    by (simp add: applyChange_def createChange_def input_def demoContext_def demoWho_def demoSchedule_def)
  moreover have "docChange demoSha ''01HZXW8K3M5N7P9Q2R4S6T8V0B'' None (createChange (demoContext 1790000000000) demoWho input)"
    by (rule docChange.create) (simp add: input_def)
  ultimately show ?thesis
    using docRun.step [OF docRun.refl [of demoSha "''01HZXW8K3M5N7P9Q2R4S6T8V0B''" None],
        of None "createChange (demoContext 1790000000000) demoWho input"]
    by (simp add: admittedSlots_def)
qed

lemma demo_admitted: "demoRun None [demoSlot] (Some demoAdmitted)"
proof -
  have "admitTick 1 demoSlot (demoItem demoSlot) demoWorkSpec (Some demoSchedule) = Inr (Some demoAdmitted)"
    by (simp add: admitTick_def demoSchedule_def demoAdmitted_def demoPending_def revisionOf_def admissionWatermark_def demoSlot_def)
  from demoRun_step [OF demo_created docChange.admit this demo_schemas(1)] show ?thesis
    by (simp add: demoAdmitted_def demoSchedule_def)
qed

lemma demo_settled: "demoRun None [demoSlot] (Some demoSettled)" "demoRun (Some demoAdmitted) [] (Some demoSettled)"
proof -
  have c: "settleTick (demoPending demoSlot) demoTickAt (Some demoAdmitted) = Inr (Some demoSettled)"
    by (simp add: settleTick_def samePending_def demoAdmitted_def demoPending_def workSpecJson_deepEqual demoSettled_def
        demoSchedule_def laterSlot_def demoSlot_def)
  have ne: "demoSettled \<noteq> demoAdmitted" by (simp add: demoSettled_def demoAdmitted_def demoSchedule_def)
  from demoRun_step [OF demo_admitted docChange.settle c demo_schemas(2) ne]
  show "demoRun None [demoSlot] (Some demoSettled)" by simp
  from demoRun_step [OF docRun.refl docChange.settle c demo_schemas(2) ne]
  show "demoRun (Some demoAdmitted) [] (Some demoSettled)" by simp
qed

lemma demo_again: "demoRun None [demoSlot, demoNextSlot] (Some demoAgain)"
proof -
  have "admitTick 1 demoNextSlot (demoItem demoNextSlot) demoWorkSpec (Some demoSettled) = Inr (Some demoAgain)"
    by (simp add: admitTick_def demoSchedule_def demoSettled_def demoAgain_def demoPending_def revisionOf_def
        admissionWatermark_def demoSlot_def demoNextSlot_def)
  from demoRun_step [OF demo_settled(1) docChange.admit this demo_schemas(3)] show ?thesis
    by (simp add: demoAgain_def demoSettled_def demoSchedule_def)
qed

lemma demo_deleted: "demoRun None [demoSlot] (Some demoDeleted)"
proof -
  have "guardedChange (demoContext demoTickAt) demoWho 1 (deletedSchedule (demoContext demoTickAt)) (Some demoSettled) =
      Inr (Some demoDeleted)"
    by (simp add: guardedChange_def currentSchedule_def demoSettled_def demoSchedule_def revisionOf_def authorizeSchedule_def
        mayAccessSchedule_def mayAccessStoredWork_def demoWho_def deletedSchedule_def demoDeleted_def demoContext_def Let_def)
  from demoRun_step [OF demo_settled(1) docChange.delete this demo_schemas(4)] show ?thesis
    by (simp add: demoDeleted_def demoSettled_def demoSchedule_def)
qed

subsection \<open>Guarantees of every interleaving\<close>

lemma docEvolves_pending:
  assumes "docEvolves s s'" and "sd_pendingTick s = Some p"
  shows "sd_pendingTick s' = Some p \<or> (\<exists>w. admissionWatermark s' = Some w \<and> pt_slotAt p \<le> w)"
proof -
  from assms have "sd_pendingTick s' = Some p \<or> \<not> aboveBound (admissionWatermark s') (pt_slotAt p)"
    unfolding docEvolves_def by blast
  then show ?thesis by (cases "admissionWatermark s'") (simp_all add: not_less)
qed

text \<open>C27: an occurrence is admitted at most once. Whatever ticks, retries, stale snapshots and
  operator changes interleave on a schedule from its creation on, the slots it admits increase
  strictly; in particular no slot is ever admitted twice, not even across edits or a deletion.\<close>

theorem schedule_slots_once:
  assumes "docRun sha256 scheduleId None slots d"
  shows "sorted_wrt (<) slots \<and> distinct slots"
proof -
  from docRun_ok [OF assms] have "sorted_wrt (<) slots" by (simp add: docRunOk_def)
  then show ?thesis using strict_sorted_iff [of slots] by simp
qed

theorem schedule_slots_once_witness:
  "demoRun None [demoSlot, demoNextSlot] (Some demoAgain) \<and> sorted_wrt (<) [demoSlot, demoNextSlot]"
  using schedule_slots_once [OF demo_again] demo_again by simp

text \<open>C28: an admitted occurrence is never lost. Once a tick has written the pending record, it stays
  in the document through every edit, disablement, deletion and crashed tick, until a settlement or
  a closure has moved the watermark to its slot.\<close>

theorem schedule_pending_kept:
  assumes "docRun sha256 scheduleId None before (Some s)" and "sd_pendingTick s = Some p"
    and "docRun sha256 scheduleId (Some s) slots d"
  shows "\<exists>s'. d = Some s' \<and>
    (sd_pendingTick s' = Some p \<or> (\<exists>w. admissionWatermark s' = Some w \<and> pt_slotAt p \<le> w))"
proof -
  have inv: "docInv sha256 scheduleId s" using docRunOkD(1) [OF docRun_ok [OF assms(1)]] by simp
  then have "docRunOk sha256 scheduleId (Some s) slots d" by (intro docRun_ok [OF assms(3)]) simp
  from docRunOkD(2) [OF this] obtain s' where "d = Some s'" "docEvolves s s'" by blast
  from docEvolves_pending [OF this(2) assms(2)] this(1) show ?thesis by blast
qed

theorem schedule_pending_kept_witness:
  "\<exists>s'. Some demoSettled = Some s' \<and>
    (sd_pendingTick s' = Some (demoPending demoSlot) \<or> (\<exists>w. admissionWatermark s' = Some w \<and> demoSlot \<le> w))"
  using schedule_pending_kept [OF demo_admitted _ demo_settled(2), of "demoPending demoSlot"]
  by (simp add: demoAdmitted_def demoPending_def)

text \<open>C30: the tombstone and the revision fence hold. Along every interleaving a deleted schedule stays
  deleted and disabled and admits nothing more, revisions never go back, and an unchanged revision
  means an unchanged configuration.\<close>

theorem schedule_tombstone:
  assumes "docRun sha256 scheduleId None before (Some s)" and "docRun sha256 scheduleId (Some s) slots d"
  shows "\<exists>s'. d = Some s' \<and>
    (sd_deletedAt s \<noteq> None \<longrightarrow> sd_deletedAt s' = sd_deletedAt s \<and> \<not> sd_enabled s' \<and> slots = []) \<and>
    revisionOf s \<le> revisionOf s' \<and>
    (revisionOf s' = revisionOf s \<longrightarrow> sd_cron s' = sd_cron s \<and> sd_spec s' = sd_spec s \<and> sd_enabled s' = sd_enabled s)"
proof -
  have inv: "docInv sha256 scheduleId s" using docRunOkD(1) [OF docRun_ok [OF assms(1)]] by simp
  then have ok: "docRunOk sha256 scheduleId (Some s) slots d" by (intro docRun_ok [OF assms(2)]) simp
  from docRunOkD(2) [OF ok] obtain s' where s': "d = Some s'" "docEvolves s s'" by blast
  have "slots = []" if "sd_deletedAt s \<noteq> None"
    using docRunOkD(4) [OF ok, of "hd slots" s] that by (metis hd_in_set)
  with s' show ?thesis by (simp add: docEvolves_def)
qed

theorem schedule_tombstone_witness:
  "\<exists>s'. Some demoDeleted = Some s' \<and>
    (sd_deletedAt demoDeleted \<noteq> None \<longrightarrow> sd_deletedAt s' = sd_deletedAt demoDeleted \<and> \<not> sd_enabled s')"
  using schedule_tombstone [OF demo_deleted docRun.refl] by blast

text \<open>C31: the handlers are nothing but such interleavings. Creating, editing, deleting, enabling or
  disabling a schedule and a whole tick act on every document of the store as a run of it, so the
  guarantees above hold for any sequence of API calls and ticks.\<close>

theorem schedule_api_refines:
  "storeRun (cx_sha256 ctx) ss (fst (createSchedule ctx ss input)) \<and>
   storeRun (cx_sha256 ctx) ss (fst (updateSchedule ctx ss i rv cron spec enabled)) \<and>
   storeRun (cx_sha256 ctx) ss (fst (deleteSchedule ctx ss i rv)) \<and>
   storeRun (cx_sha256 ctx) ss (fst (toggleSchedule ctx ss i rv enabled)) \<and>
   storeRun (cx_sha256 ctx) ss (fst (fst (tick ctx ss s)))"
  by (intro conjI api_runs tick_run)

end
