(* ===== verification/Lifecycle_Metrics.thy ===== *)
theory Lifecycle_Metrics
  imports Memory_Store
begin

text \<open>
  \<^verbatim>\<open>libs/orchestrator/src/lifecycle-metrics.ts\<close>: the rolling-hour gauges the console exports,
  and the bounded read of the reference store they are computed from. A sample is a metric name,
  its labels and a value; durations are kept exactly, in milliseconds, where the code divides them
  into fractional seconds, so how a number is printed is an argument of the text rendering. Stored
  clocks are instants, so the code's tests for unparsable dates only remain for absent ones.
\<close>

subsection \<open>Constants\<close>

definition LIFECYCLE_METRICS_READ_LIMIT :: int where
  "LIFECYCLE_METRICS_READ_LIMIT = 1000"

definition LIFECYCLE_METRICS_WINDOW_SECONDS :: int where
  "LIFECYCLE_METRICS_WINDOW_SECONDS = 3600"

definition METRIC_PIPELINES :: "string list" where
  "METRIC_PIPELINES = [''claude'', ''codex'', ''opencode'', ''agy'', ''unknown'']"

definition OUTCOMES :: "string list" where
  "OUTCOMES = [''pull-request'', ''merged-deliverable'', ''comment'', ''review'', ''park'', ''no-op'',
     ''report'', ''provider-limit'', ''provider-capacity'', ''runner-failed'', ''agent-failed'',
     ''agent-timeout'', ''no-deliverable'', ''verification-failed'', ''other'']"

definition BUCKETS :: "nat list" where
  "BUCKETS = [60, 120, 300, 900, 3600]"

definition HELP :: "(string \<times> string) list" where
  "HELP =
     [(''snapshot_complete'', ''One for untruncated durable reads, zero for incomplete reads.''),
      (''snapshot_observed_timestamp_seconds'', ''Snapshot observation time in Unix seconds.''),
      (''snapshot_records'', ''Records returned by each bounded durable feed.''),
      (''admitted_window'', ''Run identities admitted during the rolling hour.''),
      (''admitted_tasks_window'', ''Distinct task identities with at least one run admitted during the rolling hour, across pipelines and retry generations.''),
      (''intervened_tasks_window'', ''Distinct admitted-hour cohort tasks with a typed authorized API intervention on an admitted run; kinds overlap and any is their union, not human identity.''),
      (''task_intervention_unknown_window'', ''Distinct admitted-hour cohort tasks without a qualified intervention on an admitted run; absence is unknown, never untouched or human-free.''),
      (''auto_retries_window'', ''Automatic retry generations admitted during the rolling hour.''),
      (''claims_window'', ''Retained claims timestamped during the rolling hour, not all claim attempts.''),
      (''provider_starts_window'', ''Retained server-observed provider OS spawns during the rolling hour, not authentication or model execution.''),
      (''reply_interventions_window'', ''Admitted rolling-hour run identities with a typed authorized Work API reply, not unique tasks or human identity.''),
      (''redispatch_interventions_window'', ''Admitted rolling-hour run identities with a typed authorized native Work API redispatch, not unique tasks or human identity.''),
      (''operational_interventions_window'', ''Settled rolling-hour run identities with a typed server-recorded authorized API intervention, not a human-touch or unique-task rate.''),
      (''terminal_clock_unknown_window'', ''Recently updated terminal runs without a valid terminal event clock.''),
      (''settled_window'', ''Run identities whose current terminal event falls in the rolling hour.''),
      (''live_runs'', ''Currently live run identities by queue state.''),
      (''silent_loss_runs'', ''Non-queued live runs with leases overdue beyond the recovery interval.''),
      (''oldest_queued_seconds'', ''Oldest queued run age since admission in seconds.''),
      (''latency_window_samples'', ''Known rolling-hour latency samples at or below upper_bound_seconds; a gauge, not a histogram.''),
      (''latency_window_observations'', ''Known nonnegative latency observations in the rolling hour.''),
      (''latency_window_duration_seconds'', ''Sum of known rolling-hour latency durations in seconds; a decreasing gauge.''),
      (''latency_window_unknown'', ''Rolling-hour latency candidates with missing, invalid, reversed or future clocks.''),
      (''reported_outcome_window'', ''Finished rolling-hour run identities by worker-reported outcome, not verified usefulness.''),
      (''completed_pr_delivery_window'', ''Finished rolling-hour run identities with trusted completed PR delivery, not all useful outcomes or delivery-observation events.''),
      (''measurement_unknown_window'', ''Rolling-hour run identities whose named measurement is unavailable.''),
      (''outbox_entries'', ''Outstanding durable outbox entries by kind and state.''),
      (''outbox_oldest_seconds'', ''Oldest outstanding outbox entry age since creation in seconds.''),
      (''outbox_recorded_delivery_failures'', ''Persisted delivery failures summed over outstanding outbox entries; a stock gauge.'')]"

subsection \<open>Facts of one run\<close>

definition terminalEvent :: "run \<Rightarrow> runEvent option" where
  "terminalEvent r = List.find (\<lambda>e. ev_to e = r_state r) (rev (r_events r))"

definition terminalAt :: "run \<Rightarrow> timestamp option" where
  "terminalAt r = map_option ev_at (terminalEvent r)"

definition validIntervention :: "operationalIntervention \<Rightarrow> bool" where
  "validIntervention i \<longleftrightarrow> lengthWithin 1 128 (oi_principal i)"

definition intervenedBy :: "runEvent \<Rightarrow> interventionKind \<Rightarrow> bool" where
  "intervenedBy e k =
     (case ev_intervention e of None \<Rightarrow> False | Some i \<Rightarrow> oi_kind i = k \<and> validIntervention i)"

definition hasRequestIntervention :: "run \<Rightarrow> timestamp \<Rightarrow> interventionKind \<Rightarrow> bool" where
  "hasRequestIntervention r now k =
     (case r_events r of
        [] \<Rightarrow> False
      | e # _ \<Rightarrow>
          r_requestSource r = Caller \<and> ev_by e = ByRequest \<and> ev_to e = Pending \<and>
          ev_at e = r_createdAt r \<and> intervenedBy e k \<and>
          r_createdAt r \<le> r_updatedAt r \<and> r_updatedAt r \<le> now)"

definition hasCancelIntervention :: "run \<Rightarrow> timestamp \<Rightarrow> bool" where
  "hasCancelIntervention r now =
     (case terminalEvent r of
        None \<Rightarrow> False
      | Some e \<Rightarrow>
          r_state r = Canceled \<and> ev_by e = ByOperator \<and> intervenedBy e WorkApiCancel \<and>
          r_createdAt r \<le> ev_at e \<and> ev_at e \<le> r_updatedAt r \<and> r_updatedAt r \<le> now)"

definition commitHash :: "string \<Rightarrow> bool" where
  "commitHash h \<longleftrightarrow> length h = 40 \<and> list_all hexChar h"

definition validDeliveryBinding :: "deliveryBinding \<Rightarrow> bool" where
  "validDeliveryBinding b \<longleftrightarrow>
     lengthWithin 1 RUN_ID_MAX_LENGTH (dl_runId b) \<and> validTaskId (GithubAnchor (dl_repo b) (dl_number b)) \<and>
     lengthWithin 1 255 (dl_baseRef b) \<and> commitHash (dl_head b) \<and>
     optHolds (lengthWithin 1 RUN_ID_MAX_LENGTH) (dl_correctionRunId b) \<and> optHolds commitHash (dl_mergeCommit b)"

definition completedPullRequestDelivery :: "run \<Rightarrow> timestamp \<Rightarrow> bool" where
  "completedPullRequestDelivery r now =
     (case (r_delivery r, r_result r, terminalAt r) of
        (Some b, Some result, Some settlement) \<Rightarrow>
          validDeliveryBinding b \<and> r_state r = Finished \<and> rr_ok result \<and>
          orElse (rr_summary result) [] \<notin> {''park'', ''no-op'', ''review''} \<and>
          paramOf (r_params r) ''mode'' \<noteq> Some ''review'' \<and>
          dl_runId b = r_runId r \<and> dl_state b = DeliveryComplete \<and> dl_mergeCommit b \<noteq> None \<and>
          r_createdAt r \<le> settlement \<and> settlement \<le> r_updatedAt r \<and>
          r_createdAt r \<le> dl_observedAt b \<and> dl_observedAt b \<le> r_updatedAt r \<and> dl_observedAt b \<le> now
      | _ \<Rightarrow> False)"

definition queueClock :: "(runQueue \<Rightarrow> timestamp option) \<Rightarrow> run \<Rightarrow> timestamp option" where
  "queueClock field r = (case r_queue r of None \<Rightarrow> None | Some q \<Rightarrow> field q)"

definition inWindow :: "timestamp \<Rightarrow> timestamp option \<Rightarrow> bool" where
  "inWindow now at =
     (case at of
        None \<Rightarrow> False
      | Some t \<Rightarrow> now - LIFECYCLE_METRICS_WINDOW_SECONDS * 1000 \<le> t \<and> t \<le> now)"

definition pipelineFor :: "run \<Rightarrow> string" where
  "pipelineFor r = orElse (List.find (\<lambda>p. p = r_pipeline r) METRIC_PIPELINES) ''unknown''"

definition providerStarted :: "timestamp \<Rightarrow> run \<Rightarrow> bool" where
  "providerStarted now r =
     (case (queueClock q_providerProcessStartedAt r, queueClock q_claimedAt r) of
        (Some start, Some claim) \<Rightarrow> claim \<le> start \<and> r_createdAt r \<le> start \<and> start \<le> now
      | _ \<Rightarrow> False)"

subsection \<open>The bounded read\<close>

record lifecycleMetricRecords =
  lm_recentRuns :: "run list"
  lm_liveRuns :: "run list"
  lm_outstandingOutbox :: "outboxEntry list"
  lm_complete :: bool

record lifecycleMetricRead =
  lr_since :: timestamp
  lr_until :: timestamp
  lr_limit :: int

definition validateLifecycleMetricRead :: "lifecycleMetricRead \<Rightarrow> bool" where
  "validateLifecycleMetricRead input \<longleftrightarrow>
     1 \<le> lr_limit input \<and> lr_limit input \<le> LIFECYCLE_METRICS_READ_LIMIT \<and> lr_since input \<le> lr_until input"

definition readLifecycleMetricRecords ::
  "memStore \<Rightarrow> lifecycleMetricRead \<Rightarrow> lifecycleMetricRecords option" where
  "readLifecycleMetricRecords s input =
     (if \<not> validateLifecycleMetricRead input then None
      else
        (let limit = nat (lr_limit input);
             recent = take (limit + 1)
               (filter (\<lambda>r. lr_since input \<le> r_updatedAt r \<and> r_updatedAt r \<le> lr_until input) (allRuns s));
             live = take (limit + 1) (filter (\<lambda>r. isLive (r_state r)) (allRuns s));
             outbox = take (limit + 1) (filter (\<lambda>e. o_state e \<noteq> OutDone) (map snd (ms_outbox s)))
         in Some \<lparr>lm_recentRuns = take limit recent, lm_liveRuns = take limit live,
                  lm_outstandingOutbox = take limit outbox,
                  lm_complete = (length recent \<le> limit \<and> length live \<le> limit \<and> length outbox \<le> limit)\<rparr>))"

subsection \<open>Samples\<close>

datatype gaugeValue = Count int | Seconds (inMilliseconds: int)

record gauge =
  g_name :: string
  g_labels :: "(string \<times> string) list"
  g_value :: gaugeValue

definition sample :: "string \<Rightarrow> gaugeValue \<Rightarrow> (string \<times> string) list \<Rightarrow> gauge" where
  "sample name v labels = \<lparr>g_name = name, g_labels = labels, g_value = v\<rparr>"

definition countOf :: "'a list \<Rightarrow> gaugeValue" where
  "countOf xs = Count (int (length xs))"

fun byIdentity :: "run list \<Rightarrow> (string \<times> run) list \<Rightarrow> (string \<times> run) list" where
  "byIdentity [] byId = byId"
| "byIdentity (r # rs) byId =
     byIdentity rs
       (case map_of byId (r_runId r) of
          None \<Rightarrow> AList.update (r_runId r) r byId
        | Some previous \<Rightarrow>
            if r_updatedAt previous \<le> r_updatedAt r then AList.update (r_runId r) r byId else byId)"

definition snapshotRuns :: "lifecycleMetricRecords \<Rightarrow> run list" where
  "snapshotRuns records = map snd (byIdentity (lm_recentRuns records @ lm_liveRuns records) [])"

definition taskKeys :: "run list \<Rightarrow> string list" where
  "taskKeys rs = remdups (map (\<lambda>r. taskKey (r_task r)) rs)"

definition taskGauges :: "timestamp \<Rightarrow> run list \<Rightarrow> gauge list" where
  "taskGauges now rs =
     (let admittedRuns = filter (\<lambda>r. inWindow now (Some (r_createdAt r))) rs;
          admittedTasks = taskKeys admittedRuns;
          replyTasks = taskKeys (filter (\<lambda>r. hasRequestIntervention r now WorkApiReply) admittedRuns);
          cancelTasks = taskKeys (filter (\<lambda>r. hasCancelIntervention r now) admittedRuns);
          redispatchTasks = taskKeys (filter (\<lambda>r. hasRequestIntervention r now WorkApiRedispatch) admittedRuns);
          intervenedTasks = remdups (replyTasks @ cancelTasks @ redispatchTasks)
      in [sample ''admitted_tasks_window'' (countOf admittedTasks) []] @
         map (\<lambda>(k, tasks). sample ''intervened_tasks_window'' (countOf tasks) [(''kind'', k)])
           [(''work-api-reply'', replyTasks), (''work-api-cancel'', cancelTasks),
            (''work-api-redispatch'', redispatchTasks), (''any'', intervenedTasks)] @
         [sample ''task_intervention_unknown_window''
            (Count (int (length admittedTasks) - int (length intervenedTasks))) []])"

subsection \<open>Latencies\<close>

datatype stage = AdmissionToQueue | QueueToClaim | ClaimToProviderStart | AdmissionToCompletedPrDelivery

fun showStage :: "stage \<Rightarrow> string" where
  "showStage AdmissionToQueue = ''admission_to_queue''"
| "showStage QueueToClaim = ''queue_to_claim''"
| "showStage ClaimToProviderStart = ''claim_to_provider_start''"
| "showStage AdmissionToCompletedPrDelivery = ''admission_to_completed_pr_delivery''"

definition dispatchedAt :: "run \<Rightarrow> timestamp option" where
  "dispatchedAt r = map_option ev_at (List.find (\<lambda>e. ev_by e = ByDispatch) (r_events r))"

definition queueCandidate :: "timestamp \<Rightarrow> run \<Rightarrow> bool" where
  "queueCandidate now r \<longleftrightarrow>
     inWindow now (dispatchedAt r) \<or>
     dispatchedAt r = None \<and> r_queue r \<noteq> None \<and> inWindow now (Some (r_createdAt r))"

definition providerStartCandidate :: "timestamp \<Rightarrow> run \<Rightarrow> bool" where
  "providerStartCandidate now r \<longleftrightarrow>
     inWindow now (queueClock q_providerProcessStartedAt r) \<or>
     inWindow now (queueClock q_claimedAt r) \<and> \<not> providerStarted now r"

definition settledIn :: "timestamp \<Rightarrow> run \<Rightarrow> bool" where
  "settledIn now r \<longleftrightarrow> \<not> isLive (r_state r) \<and> inWindow now (terminalAt r)"

fun stageCandidate :: "timestamp \<Rightarrow> stage \<Rightarrow> run \<Rightarrow> bool" where
  "stageCandidate now AdmissionToQueue r = queueCandidate now r"
| "stageCandidate now QueueToClaim r = inWindow now (queueClock q_claimedAt r)"
| "stageCandidate now ClaimToProviderStart r = providerStartCandidate now r"
| "stageCandidate now AdmissionToCompletedPrDelivery r = (settledIn now r \<and> r_state r = Finished)"

fun stageStart :: "stage \<Rightarrow> run \<Rightarrow> timestamp option" where
  "stageStart AdmissionToQueue r = Some (r_createdAt r)"
| "stageStart QueueToClaim r = dispatchedAt r"
| "stageStart ClaimToProviderStart r = queueClock q_claimedAt r"
| "stageStart AdmissionToCompletedPrDelivery r = Some (r_createdAt r)"

fun stageEnd :: "stage \<Rightarrow> run \<Rightarrow> timestamp option" where
  "stageEnd AdmissionToQueue r = dispatchedAt r"
| "stageEnd QueueToClaim r = queueClock q_claimedAt r"
| "stageEnd ClaimToProviderStart r = queueClock q_providerProcessStartedAt r"
| "stageEnd AdmissionToCompletedPrDelivery r = map_option dl_observedAt (r_delivery r)"

definition stageDuration :: "timestamp \<Rightarrow> stage \<Rightarrow> run \<Rightarrow> int option" where
  "stageDuration now st r =
     (case (stageStart st r, stageEnd st r) of
        (Some start, Some end) \<Rightarrow>
          if 0 \<le> end - start \<and>
             (st = ClaimToProviderStart \<longrightarrow> providerStarted now r) \<and>
             (st = AdmissionToCompletedPrDelivery \<longrightarrow> completedPullRequestDelivery r now)
          then Some (end - start) else None
      | _ \<Rightarrow> None)"

definition stageGauges :: "timestamp \<Rightarrow> string \<Rightarrow> run list \<Rightarrow> stage \<Rightarrow> gauge list" where
  "stageGauges now pipeline rs st =
     (let candidates = filter (stageCandidate now st) rs;
          durations = List.map_filter (stageDuration now st) candidates;
          labels = [(''pipeline'', pipeline), (''stage'', showStage st)]
      in map (\<lambda>bound. sample ''latency_window_samples'' (countOf (filter (\<lambda>d. d \<le> int bound * 1000) durations))
                (labels @ [(''upper_bound_seconds'', showNat bound)])) BUCKETS @
         [sample ''latency_window_samples'' (countOf durations) (labels @ [(''upper_bound_seconds'', ''+Inf'')]),
          sample ''latency_window_observations'' (countOf durations) labels,
          sample ''latency_window_duration_seconds'' (Seconds (sum_list durations)) labels,
          sample ''latency_window_unknown'' (Count (int (length candidates) - int (length durations))) labels])"

subsection \<open>One pipeline\<close>

fun showRunState :: "runState \<Rightarrow> string" where
  "showRunState Pending = ''pending''"
| "showRunState Running = ''running''"
| "showRunState Finished = ''finished''"
| "showRunState Canceled = ''canceled''"
| "showRunState Lost = ''lost''"

fun showQueueState :: "queueState \<Rightarrow> string" where
  "showQueueState Queued = ''queued''"
| "showQueueState Claimed = ''claimed''"
| "showQueueState Retired = ''retired''"

definition queueLabel :: "run \<Rightarrow> string" where
  "queueLabel r = orElse (map_option showQueueState (queueStateOf r)) ''unclassified''"

definition oldest :: "timestamp \<Rightarrow> timestamp list \<Rightarrow> gaugeValue" where
  "oldest now created = Seconds (foldr max (map (\<lambda>t. now - t) created) 0)"

definition outcomeCategory :: "run \<Rightarrow> string" where
  "outcomeCategory r =
     orElse (List.find (\<lambda>v. v \<noteq> ''other'' \<and> Some v = Option.bind (r_result r) rr_summary) OUTCOMES) ''other''"

definition liveGauges :: "timestamp \<Rightarrow> string \<Rightarrow> run list \<Rightarrow> gauge list" where
  "liveGauges now pipeline live =
     map (\<lambda>state. sample ''live_runs'' (countOf (filter (\<lambda>r. queueLabel r = state) live))
            [(''pipeline'', pipeline), (''state'', state)]) [''queued'', ''claimed'', ''unclassified''] @
     [sample ''silent_loss_runs''
        (countOf (filter (\<lambda>r. queueStateOf r \<noteq> Some Queued \<and> r_leaseExpiresAt r + 300000 < now) live))
        [(''pipeline'', pipeline)],
      sample ''oldest_queued_seconds''
        (oldest now (map r_createdAt (filter (\<lambda>r. queueStateOf r = Some Queued) live)))
        [(''pipeline'', pipeline)]]"

definition windowGauges :: "timestamp \<Rightarrow> string \<Rightarrow> run list \<Rightarrow> gauge list" where
  "windowGauges now pipeline rs =
     (let admitted = filter (\<lambda>r. inWindow now (Some (r_createdAt r))) rs;
          terminal = filter (settledIn now) rs;
          label = [(''pipeline'', pipeline)]
      in [sample ''reply_interventions_window''
            (countOf (filter (\<lambda>r. hasRequestIntervention r now WorkApiReply) admitted)) label,
          sample ''redispatch_interventions_window''
            (countOf (filter (\<lambda>r. hasRequestIntervention r now WorkApiRedispatch) admitted)) label,
          sample ''operational_interventions_window''
            (countOf (filter (\<lambda>r. hasCancelIntervention r now) terminal)) (label @ [(''kind'', ''work-api-cancel'')]),
          sample ''admitted_window'' (countOf admitted) label,
          sample ''auto_retries_window'' (countOf (filter (\<lambda>r. r_requestSource r = AutoRetry) admitted)) label,
          sample ''claims_window'' (countOf (filter (\<lambda>r. inWindow now (queueClock q_claimedAt r)) rs)) label,
          sample ''provider_starts_window''
            (countOf (filter (\<lambda>r. providerStarted now r \<and> inWindow now (queueClock q_providerProcessStartedAt r)) rs)) label,
          sample ''terminal_clock_unknown_window''
            (countOf (filter (\<lambda>r. \<not> isLive (r_state r) \<and> inWindow now (Some (r_updatedAt r)) \<and> terminalAt r = None) rs)) label] @
         map (\<lambda>state. sample ''settled_window'' (countOf (filter (\<lambda>r. r_state r = state) terminal))
                (label @ [(''state'', showRunState state)]))
           (filter (\<lambda>state. \<not> isLive state) [Pending, Running, Finished, Canceled, Lost]))"

definition outcomeGauges :: "timestamp \<Rightarrow> string \<Rightarrow> run list \<Rightarrow> gauge list" where
  "outcomeGauges now pipeline rs =
     (let admitted = filter (\<lambda>r. inWindow now (Some (r_createdAt r))) rs;
          terminal = filter (settledIn now) rs;
          finished = filter (\<lambda>r. r_state r = Finished) terminal;
          completed = filter (\<lambda>r. completedPullRequestDelivery r now) finished;
          label = [(''pipeline'', pipeline)];
          lacking = (\<lambda>all some. Count (int (length all) - int (length some)))
      in sample ''completed_pr_delivery_window'' (countOf completed) label #
         map (\<lambda>outcome. sample ''reported_outcome_window''
                (countOf (filter (\<lambda>r. outcomeCategory r = outcome) finished)) (label @ [(''outcome'', outcome)])) OUTCOMES @
         map (\<lambda>(measurement, v). sample ''measurement_unknown_window'' v (label @ [(''measurement'', measurement)]))
           [(''provider_start'', countOf (filter (\<lambda>r. providerStartCandidate now r \<and> \<not> providerStarted now r) rs)),
            (''verified_evidence'', countOf finished),
            (''useful_outcome'', lacking finished completed),
            (''operational_intervention'', lacking terminal (filter (\<lambda>r. hasCancelIntervention r now) terminal)),
            (''reply_intervention'', lacking admitted (filter (\<lambda>r. hasRequestIntervention r now WorkApiReply) admitted)),
            (''redispatch_intervention'',
               lacking admitted (filter (\<lambda>r. hasRequestIntervention r now WorkApiRedispatch) admitted)),
            (''human_touch'', countOf terminal),
            (''cost'', countOf finished)])"

definition pipelineGauges :: "timestamp \<Rightarrow> run list \<Rightarrow> string \<Rightarrow> gauge list" where
  "pipelineGauges now all pipeline =
     (let rs = filter (\<lambda>r. pipelineFor r = pipeline) all
      in windowGauges now pipeline rs @
         liveGauges now pipeline (filter (\<lambda>r. isLive (r_state r)) rs) @
         concat (map (stageGauges now pipeline rs)
           [AdmissionToQueue, QueueToClaim, ClaimToProviderStart, AdmissionToCompletedPrDelivery]) @
         outcomeGauges now pipeline rs)"

subsection \<open>The outbox\<close>

definition entryIs :: "string \<Rightarrow> outboxEntry \<Rightarrow> bool" where
  "entryIs state e =
     (case o_state e of
        OutPending \<Rightarrow> state = ''pending''
      | OutLeased _ _ \<Rightarrow> state = ''leased''
      | OutDone \<Rightarrow> state = ''done''
      | OutFailed \<Rightarrow> state = ''failed'')"

definition outboxGauges :: "timestamp \<Rightarrow> outboxEntry list \<Rightarrow> string \<times> outboxKind \<Rightarrow> gauge list" where
  "outboxGauges now outbox kind =
     (let entries = filter (\<lambda>e. o_kind e = snd kind) outbox;
          label = [(''kind'', fst kind)]
      in map (\<lambda>state. sample ''outbox_entries'' (countOf (filter (entryIs state) entries)) (label @ [(''state'', state)]))
           [''pending'', ''leased'', ''failed''] @
         [sample ''outbox_oldest_seconds''
            (oldest now (map o_createdAt (filter (\<lambda>e. o_state e \<noteq> OutFailed) entries))) label,
          sample ''outbox_recorded_delivery_failures''
            (Count (\<Sum>e\<leftarrow>entries. int (orElse (o_deliveryFailures e) 0))) label])"

definition distinctEntries :: "outboxEntry list \<Rightarrow> outboxEntry list" where
  "distinctEntries es = map snd (fold (\<lambda>e m. AList.update (o_entryId e) e m) es [])"

subsection \<open>The snapshot\<close>

definition snapshotGauges :: "lifecycleMetricRecords \<Rightarrow> timestamp \<Rightarrow> gauge list" where
  "snapshotGauges records now =
     [sample ''snapshot_complete'' (Count (if lm_complete records then 1 else 0)) [],
      sample ''snapshot_observed_timestamp_seconds'' (Seconds now) [],
      sample ''snapshot_records'' (countOf (lm_recentRuns records)) [(''feed'', ''recent_runs'')],
      sample ''snapshot_records'' (countOf (lm_liveRuns records)) [(''feed'', ''live_runs'')],
      sample ''snapshot_records'' (countOf (lm_outstandingOutbox records)) [(''feed'', ''outstanding_outbox'')]] @
     (if \<not> lm_complete records then []
      else taskGauges now (snapshotRuns records) @
           concat (map (pipelineGauges now (snapshotRuns records)) METRIC_PIPELINES) @
           concat (map (outboxGauges now (distinctEntries (lm_outstandingOutbox records)))
             [(''dispatch-run'', DispatchRun), (''report-outcome'', ReportOutcome),
              (''monitor-delivery'', MonitorDelivery)]))"

fun gaugeLines :: "(gaugeValue \<Rightarrow> string) \<Rightarrow> string list \<Rightarrow> gauge list \<Rightarrow> string list" where
  "gaugeLines show_value declared [] = []"
| "gaugeLines show_value declared (g # gs) =
     (let metric = ''lcars_product_'' @ g_name g;
          suffix = joinText (map (\<lambda>(k, v). k @ ''=\"'' @ v @ ''\"'') (g_labels g))
      in (if metric \<in> set declared then []
          else [''# HELP '' @ metric @ '' '' @ orElse (map_of HELP (g_name g)) [],
                ''# TYPE '' @ metric @ '' gauge'']) @
         [metric @ (if suffix = [] then [] else ''{'' @ suffix @ ''}'') @ '' '' @ show_value (g_value g)] @
         gaugeLines show_value (metric # declared) gs)"

record metricSnapshot =
  ls_observedAt :: timestamp
  ls_windowSeconds :: int
  ls_complete :: bool
  ls_prometheus :: string

definition lifecycleMetricSnapshot ::
  "(gaugeValue \<Rightarrow> string) \<Rightarrow> lifecycleMetricRecords \<Rightarrow> timestamp \<Rightarrow> metricSnapshot" where
  "lifecycleMetricSnapshot show_value records observedAt =
     \<lparr>ls_observedAt = observedAt, ls_windowSeconds = LIFECYCLE_METRICS_WINDOW_SECONDS,
      ls_complete = lm_complete records,
      ls_prometheus = concat (map (\<lambda>line. line @ [CHR 0x0A]) (gaugeLines show_value [] (snapshotGauges records observedAt)))\<rparr>"

end
