(* ===== verification/Metrics_Guarantees.thy ===== *)
theory Metrics_Guarantees
  imports Scenario Lifecycle_Metrics
begin

text \<open>
  What the exported gauges say about the store: a complete snapshot has exactly one sample per
  label set, its backlog gauges count the store's live runs and outstanding entries exactly, and
  the latency samples are a cumulative distribution of the candidates with known clocks.
\<close>

definition samplesOf :: "string \<Rightarrow> (string \<times> string) list \<Rightarrow> gauge list \<Rightarrow> gaugeValue list" where
  "samplesOf name labels gs = map g_value (filter (\<lambda>g. g_name g = name \<and> g_labels g = labels) gs)"

lemma samplesOf_append [simp]: "samplesOf name labels (a @ b) = samplesOf name labels a @ samplesOf name labels b"
  by (simp add: samplesOf_def)

lemma samplesOf_Nil [simp]: "samplesOf name labels [] = []"
  by (simp add: samplesOf_def)

lemma samplesOf_Cons [simp]:
  "samplesOf name labels (sample n v l # gs) =
     (if n = name \<and> l = labels then v # samplesOf name labels gs else samplesOf name labels gs)"
  by (simp add: samplesOf_def sample_def)

lemma samplesOf_none: "(\<And>g. g \<in> set gs \<Longrightarrow> g_name g \<noteq> name) \<Longrightarrow> samplesOf name labels gs = []"
  by (auto simp: samplesOf_def filter_empty_conv)

lemma samplesOf_concat: "samplesOf name labels (concat gss) = concat (map (samplesOf name labels) gss)"
  by (induction gss) simp_all

subsection \<open>One entry per identity\<close>

text \<open>Records that all come from one keyed table are merged into the set of them, each once.\<close>

definition fromTable :: "('v \<Rightarrow> 'k) \<Rightarrow> ('k \<Rightarrow> 'v option) \<Rightarrow> ('k \<times> 'v) list \<Rightarrow> bool" where
  "fromTable ident tab m \<longleftrightarrow> keysDistinct m \<and> (\<forall>(k, v) \<in> set m. tab k = Some v \<and> k = ident v)"

lemma fromTable_get: "fromTable ident tab m \<Longrightarrow> map_of m k = Some v \<Longrightarrow> tab k = Some v"
  by (auto simp: fromTable_def dest: map_of_SomeD)

lemma fromTable_put:
  assumes "fromTable ident tab m" and "tab (ident v) = Some v"
  shows "fromTable ident tab (AList.update (ident v) v m)"
    and "set (map snd (AList.update (ident v) v m)) = insert v (set (map snd m))"
proof -
  have kd: "keysDistinct m" "keysDistinct (AList.update (ident v) v m)"
    using assms(1) js.invar_put by (auto simp: fromTable_def)
  have up: "map_of (AList.update (ident v) v m) k = Some w \<longleftrightarrow> k = ident v \<and> w = v \<or> map_of m k = Some w" for k w
    using assms(2) fromTable_get [OF assms(1), of k w] by (auto simp: js.get_put)
  have "tab k = Some w \<and> k = ident w" if "map_of m k = Some w" for k w
    using that assms(1) by (auto simp: fromTable_def dest: map_of_SomeD)
  then show "fromTable ident tab (AList.update (ident v) v m)"
    using kd(2) up assms(2) by (fastforce simp: fromTable_def keysDistinct_def dest: map_of_is_SomeI)
  show "set (map snd (AList.update (ident v) v m)) = insert v (set (map snd m))"
    by (rule set_eqI) (unfold insert_iff js.items_get [OF kd(1)] js.items_get [OF kd(2)] up, blast)
qed

lemma fromTable_distinct: "fromTable ident tab m \<Longrightarrow> distinct (map snd m)"
proof (induction m)
  case (Cons a m)
  then show ?case by (cases a) (fastforce simp: fromTable_def keysDistinct_def rev_image_eqI)
qed simp

lemma byIdentity_merge:
  assumes "fromTable r_runId tab m" and "\<And>r. r \<in> set rs \<Longrightarrow> tab (r_runId r) = Some r"
  shows "fromTable r_runId tab (byIdentity rs m) \<and>
    set (map snd (byIdentity rs m)) = set (map snd m) \<union> set rs"
  using assms
proof (induction rs arbitrary: m)
  case (Cons r rs)
  have r: "tab (r_runId r) = Some r" by (rule Cons.prems(2)) simp
  note put = fromTable_put [OF Cons.prems(1) r]
  have step: "byIdentity (r # rs) m = byIdentity rs (AList.update (r_runId r) r m)"
  proof (cases "map_of m (r_runId r)")
    case (Some previous)
    with fromTable_get [OF Cons.prems(1) Some] r have "previous = r" by simp
    with Some show ?thesis by simp
  qed simp
  have "fromTable r_runId tab (byIdentity rs (AList.update (r_runId r) r m)) \<and>
      set (map snd (byIdentity rs (AList.update (r_runId r) r m))) = set (map snd (AList.update (r_runId r) r m)) \<union> set rs"
    by (rule Cons.IH [OF put(1)]) (simp add: Cons.prems(2))
  then show ?case unfolding step put(2) by auto
qed simp

lemma distinctEntries_merge:
  assumes "fromTable o_entryId tab m" and "\<And>e. e \<in> set es \<Longrightarrow> tab (o_entryId e) = Some e"
  shows "fromTable o_entryId tab (fold (\<lambda>e m. AList.update (o_entryId e) e m) es m) \<and>
    set (map snd (fold (\<lambda>e m. AList.update (o_entryId e) e m) es m)) = set (map snd m) \<union> set es"
  using assms
proof (induction es arbitrary: m)
  case (Cons e es)
  note put = fromTable_put [OF Cons.prems(1) Cons.prems(2) [OF list.set_intros(1)]]
  have "fromTable o_entryId tab (fold (\<lambda>e m. AList.update (o_entryId e) e m) es (AList.update (o_entryId e) e m)) \<and>
      set (map snd (fold (\<lambda>e m. AList.update (o_entryId e) e m) es (AList.update (o_entryId e) e m))) =
        set (map snd (AList.update (o_entryId e) e m)) \<union> set es"
    by (rule Cons.IH [OF put(1)]) (simp add: Cons.prems(2))
  then show ?case unfolding put(2) by simp
qed simp

lemma fromTable_Nil: "fromTable ident tab []"
  by (simp add: fromTable_def)

text \<open>Two lists without repetition that agree on a predicate's members count it alike.\<close>

lemma filter_count:
  assumes "distinct xs" and "distinct ys" and "\<And>x. P x \<Longrightarrow> x \<in> set xs \<longleftrightarrow> x \<in> set ys"
  shows "length (filter P xs) = length (filter P ys)"
proof -
  have "length (filter P xs) = card (set (filter P xs))" using distinct_card [OF distinct_filter [OF assms(1)], of P] by simp
  also have "set (filter P xs) = set (filter P ys)" using assms(3) by auto
  also have "card (set (filter P ys)) = length (filter P ys)"
    using distinct_card [OF distinct_filter [OF assms(2)], of P] by simp
  finally show ?thesis .
qed

subsection \<open>A complete read\<close>

lemma min_Suc_le: "min a (Suc n) \<le> n \<longleftrightarrow> a \<le> n"
  by (simp add: min_def)

lemma complete_read:
  assumes "readLifecycleMetricRecords s input = Some records" and "lm_complete records"
  shows "lm_liveRuns records = filter (\<lambda>r. isLive (r_state r)) (allRuns s)"
    and "set (lm_recentRuns records) \<subseteq> set (allRuns s)"
    and "lm_outstandingOutbox records = filter (\<lambda>e. o_state e \<noteq> OutDone) (map snd (ms_outbox s))"
proof -
  define limit where "limit = nat (lr_limit input)"
  define recent where "recent = filter (\<lambda>r. lr_since input \<le> r_updatedAt r \<and> r_updatedAt r \<le> lr_until input) (allRuns s)"
  define live where "live = filter (\<lambda>r. isLive (r_state r)) (allRuns s)"
  define outbox where "outbox = filter (\<lambda>e. o_state e \<noteq> OutDone) (map snd (ms_outbox s))"
  have r: "records = \<lparr>lm_recentRuns = take limit recent, lm_liveRuns = take limit live,
      lm_outstandingOutbox = take limit outbox,
      lm_complete = (length recent \<le> limit \<and> length live \<le> limit \<and> length outbox \<le> limit)\<rparr>"
    using assms(1)
    by (simp add: readLifecycleMetricRecords_def Let_def min_Suc_le limit_def recent_def live_def outbox_def split: if_splits)
  then have all: "take limit recent = recent" "take limit live = live" "take limit outbox = outbox" using assms(2) by simp_all
  show "lm_liveRuns records = filter (\<lambda>r. isLive (r_state r)) (allRuns s)"
    "set (lm_recentRuns records) \<subseteq> set (allRuns s)"
    "lm_outstandingOutbox records = filter (\<lambda>e. o_state e \<noteq> OutDone) (map snd (ms_outbox s))"
    unfolding r all by (auto simp: live_def recent_def outbox_def)
qed

lemma snapshot_runs:
  assumes "storeInv s" and "readLifecycleMetricRecords s input = Some records" and "lm_complete records"
    and "\<And>r. P r \<Longrightarrow> isLive (r_state r)"
  shows "length (filter P (snapshotRuns records)) = length (filter P (allRuns s))"
proof -
  note read = complete_read [OF assms(2,3)]
  have stored: "map_of (ms_runs s) (r_runId r) = Some r" if "r \<in> set (lm_recentRuns records @ lm_liveRuns records)" for r
    using that read(1,2) by (intro stored_run [OF assms(1)]) auto
  from byIdentity_merge [OF fromTable_Nil, of "lm_recentRuns records @ lm_liveRuns records", OF stored]
  have m: "fromTable r_runId (map_of (ms_runs s)) (byIdentity (lm_recentRuns records @ lm_liveRuns records) [])"
    "set (snapshotRuns records) = set (lm_recentRuns records @ lm_liveRuns records)"
    by (simp_all add: snapshotRuns_def)
  have "fromTable r_runId (map_of (ms_runs s)) (ms_runs s)"
    using storeInvD(2,5) [OF assms(1)]
    by (fastforce simp: fromTable_def keysDistinct_def runOk_def dest: map_of_is_SomeI)
  then have "distinct (allRuns s)" unfolding allRuns_def by (rule fromTable_distinct)
  moreover have "distinct (snapshotRuns records)" unfolding snapshotRuns_def by (rule fromTable_distinct [OF m(1)])
  ultimately show ?thesis using m(2) read(1,2) assms(4) by (intro filter_count) auto
qed

lemma snapshot_entries:
  assumes "storeInv s" and "readLifecycleMetricRecords s input = Some records" and "lm_complete records"
    and "\<And>e. P e \<Longrightarrow> o_state e \<noteq> OutDone"
  shows "length (filter P (distinctEntries (lm_outstandingOutbox records))) = length (filter P (map snd (ms_outbox s)))"
proof -
  note read = complete_read(3) [OF assms(2,3)]
  have table: "fromTable o_entryId (map_of (ms_outbox s)) (ms_outbox s)"
    using storeInvD(6) [OF assms(1)]
    by (auto simp: fromTable_def entriesKeyed_def keysDistinct_def list_all_iff)
  have stored: "map_of (ms_outbox s) (o_entryId e) = Some e" if "e \<in> set (lm_outstandingOutbox records)" for e
    using that table unfolding read by (auto simp: fromTable_def keysDistinct_def intro: map_of_is_SomeI)
  from distinctEntries_merge [OF fromTable_Nil, of "lm_outstandingOutbox records", OF stored]
  have m: "distinct (distinctEntries (lm_outstandingOutbox records))"
    "set (distinctEntries (lm_outstandingOutbox records)) = set (lm_outstandingOutbox records)"
    using fromTable_distinct by (auto simp: distinctEntries_def)
  show ?thesis using m assms(4) fromTable_distinct [OF table] unfolding read by (intro filter_count) auto
qed

subsection \<open>Exact backlog\<close>

lemma absent_samples [simp]:
  "samplesOf ''live_runs'' l (windowGauges now p rs) = []" "samplesOf ''outbox_entries'' l (windowGauges now p rs) = []"
  "samplesOf ''live_runs'' l (stageGauges now p rs st) = []" "samplesOf ''outbox_entries'' l (stageGauges now p rs st) = []"
  "samplesOf ''live_runs'' l (outcomeGauges now p rs) = []" "samplesOf ''outbox_entries'' l (outcomeGauges now p rs) = []"
  "samplesOf ''live_runs'' l (taskGauges now rs) = []" "samplesOf ''outbox_entries'' l (taskGauges now rs) = []"
  "samplesOf ''outbox_entries'' l (liveGauges now p rs) = []" "samplesOf ''live_runs'' l (outboxGauges now es k) = []"
  by (rule samplesOf_none, auto simp: windowGauges_def stageGauges_def outcomeGauges_def taskGauges_def liveGauges_def
      outboxGauges_def Let_def sample_def)+

lemma live_samples:
  assumes "q \<in> {''queued'', ''claimed'', ''unclassified''}"
  shows "samplesOf ''live_runs'' [(''pipeline'', p), (''state'', q)] (pipelineGauges now rs p') =
    (if p' = p then [countOf (filter (\<lambda>r. isLive (r_state r) \<and> pipelineFor r = p \<and> queueLabel r = q) rs)] else [])"
proof -
  have "filter (\<lambda>r. queueLabel r = q) (filter (\<lambda>r. isLive (r_state r)) (filter (\<lambda>r. pipelineFor r = p) rs)) =
      filter (\<lambda>r. isLive (r_state r) \<and> pipelineFor r = p \<and> queueLabel r = q) rs"
    by (auto intro: filter_cong)
  then show ?thesis
    using assms by (auto simp: pipelineGauges_def Let_def samplesOf_concat liveGauges_def)
qed

lemma outbox_samples:
  assumes "state \<in> {''pending'', ''leased'', ''failed''}"
  shows "samplesOf ''outbox_entries'' [(''kind'', n), (''state'', state)] (outboxGauges now es k) =
    (if fst k = n then [countOf (filter (\<lambda>e. o_kind e = snd k \<and> entryIs state e) es)] else [])"
proof -
  have "filter (entryIs state) (filter (\<lambda>e. o_kind e = snd k) es) = filter (\<lambda>e. o_kind e = snd k \<and> entryIs state e) es"
    by (auto intro: filter_cong)
  then show ?thesis using assms by (auto simp: outboxGauges_def Let_def)
qed

lemma outbox_pipeline_samples: "samplesOf ''outbox_entries'' l (pipelineGauges now rs p) = []"
  by (simp add: pipelineGauges_def Let_def samplesOf_concat)

text \<open>C37: the backlog gauges are exact. When the bounded read is complete, the exported snapshot has
  exactly one sample for every pipeline and queue state, which counts the live runs of the store in
  it, however the recent and the live feed overlap; and one for every exported outbox kind and
  state, which counts the store's entries.\<close>

theorem metrics_backlog_exact:
  assumes "reachable s" and "readLifecycleMetricRecords s input = Some records" and "lm_complete records"
    and "p \<in> set METRIC_PIPELINES" and "q \<in> {''queued'', ''claimed'', ''unclassified''}"
    and "(n, k) \<in> {(''dispatch-run'', DispatchRun), (''report-outcome'', ReportOutcome), (''monitor-delivery'', MonitorDelivery)}"
    and "state \<in> {''pending'', ''leased'', ''failed''}"
  shows "samplesOf ''live_runs'' [(''pipeline'', p), (''state'', q)] (snapshotGauges records now) =
      [countOf (filter (\<lambda>r. isLive (r_state r) \<and> pipelineFor r = p \<and> queueLabel r = q) (allRuns s))] \<and>
    samplesOf ''outbox_entries'' [(''kind'', n), (''state'', state)] (snapshotGauges records now) =
      [countOf (filter (\<lambda>e. o_kind e = k \<and> entryIs state e) (map snd (ms_outbox s)))]"
proof -
  have inv: "storeInv s" using assms(1) by (rule reachable_inv)
  have runs: "length (filter (\<lambda>r. isLive (r_state r) \<and> pipelineFor r = p \<and> queueLabel r = q) (snapshotRuns records)) =
      length (filter (\<lambda>r. isLive (r_state r) \<and> pipelineFor r = p \<and> queueLabel r = q) (allRuns s))"
    by (rule snapshot_runs [OF inv assms(2,3)]) blast
  have entries: "length (filter (\<lambda>e. o_kind e = k \<and> entryIs state e) (distinctEntries (lm_outstandingOutbox records))) =
      length (filter (\<lambda>e. o_kind e = k \<and> entryIs state e) (map snd (ms_outbox s)))"
    by (rule snapshot_entries [OF inv assms(2,3)]) (use assms(7) in \<open>auto simp: entryIs_def\<close>)
  have "samplesOf ''live_runs'' [(''pipeline'', p), (''state'', q)] (snapshotGauges records now) =
      [countOf (filter (\<lambda>r. isLive (r_state r) \<and> pipelineFor r = p \<and> queueLabel r = q) (snapshotRuns records))]"
    using assms(3,4) by (auto simp: snapshotGauges_def samplesOf_concat live_samples [OF assms(5)] METRIC_PIPELINES_def)
  moreover have "samplesOf ''outbox_entries'' [(''kind'', n), (''state'', state)] (snapshotGauges records now) =
      [countOf (filter (\<lambda>e. o_kind e = k \<and> entryIs state e) (distinctEntries (lm_outstandingOutbox records)))]"
    using assms(3,6)
    by (auto simp: snapshotGauges_def samplesOf_concat outbox_samples [OF assms(7)] outbox_pipeline_samples METRIC_PIPELINES_def)
  ultimately show ?thesis unfolding countOf_def runs entries by blast
qed

theorem metrics_backlog_exact_witness:
  "\<exists>records. readLifecycleMetricRecords demoSecond \<lparr>lr_since = 0, lr_until = 9000, lr_limit = 10\<rparr> = Some records \<and>
     samplesOf ''live_runs'' [(''pipeline'', ''claude''), (''state'', ''unclassified'')] (snapshotGauges records 9000) = [Count 1]"
proof -
  let ?read = "readLifecycleMetricRecords demoSecond \<lparr>lr_since = 0, lr_until = 9000, lr_limit = 10\<rparr>"
  have "map_option lm_complete ?read = Some True" by code_simp
  then obtain records where r: "?read = Some records" "lm_complete records" by auto
  have "countOf (filter (\<lambda>r. isLive (r_state r) \<and> pipelineFor r = ''claude'' \<and> queueLabel r = ''unclassified'') (allRuns demoSecond)) = Count 1"
    by code_simp
  with metrics_backlog_exact [OF demoSecond_reachable r, of "''claude''" "''unclassified''" "''dispatch-run''" DispatchRun "''pending''" 9000] r(1)
  show ?thesis by (simp add: METRIC_PIPELINES_def)
qed

text \<open>The latency samples form a cumulative distribution.\<close>

lemma latency_cumulative:
  assumes "a \<le> b"
  shows "length (filter (\<lambda>d. d \<le> int a * 1000) ds) \<le> length (filter (\<lambda>d. d \<le> int b * 1000) ds)"
    and "length (filter (\<lambda>d. d \<le> int b * 1000) ds) \<le> length ds"
    and "length (List.map_filter f rs) \<le> length rs"
proof -
  show "length (filter (\<lambda>d. d \<le> int a * 1000) ds) \<le> length (filter (\<lambda>d. d \<le> int b * 1000) ds)"
    using assms by (induction ds) auto
  show "length (filter (\<lambda>d. d \<le> int b * 1000) ds) \<le> length ds" by (rule length_filter_le)
  show "length (List.map_filter f rs) \<le> length rs" by (simp add: List.map_filter_def)
qed

end
