(* ===== verification/Work_Derive.thy ===== *)
theory Work_Derive
  imports Work_Spec Memory_Store
begin

text \<open>
  \<^verbatim>\<open>libs/work/src/derive.ts\<close>: the state of an item, which is never stored but read off the task
  and its newest run, and the projections the console shows. Creation times are compared as
  instants where the code compares their ISO texts; the numeric-aware comparison of run
  identifiers that breaks ties is an argument.
\<close>

subsection \<open>Order of runs\<close>

definition compareRunOrder :: "(string \<Rightarrow> string \<Rightarrow> int) \<Rightarrow> run \<Rightarrow> run \<Rightarrow> int" where
  "compareRunOrder numericCompare a b =
     (if r_createdAt a < r_createdAt b then -1
      else if r_createdAt b < r_createdAt a then 1
      else numericCompare (r_runId a) (r_runId b))"

definition latestRun :: "(string \<Rightarrow> string \<Rightarrow> int) \<Rightarrow> run list \<Rightarrow> run option" where
  "latestRun numericCompare rs =
     (case sortBy (\<lambda>a b. compareRunOrder numericCompare b a < 0) rs of [] \<Rightarrow> None | r # _ \<Rightarrow> Some r)"

subsection \<open>Item state\<close>

datatype itemState = ItemRunning | ItemDone | ItemParked | ItemFailed | ItemCanceled

definition resultOk :: "run \<Rightarrow> bool option" where
  "resultOk r = map_option rr_ok (r_result r)"

definition resultSummary :: "run \<Rightarrow> string option" where
  "resultSummary r = Option.bind (r_result r) rr_summary"

definition lostState :: "task \<Rightarrow> run \<Rightarrow> itemState" where
  "lostState t r =
     (if r_pipeline r = ''goose'' then ItemFailed
      else if MAX_AUTO_RETRIES < t_consecutiveLost t \<or>
              r_sourceRevision r \<noteq> None \<and> MAX_AUTO_RETRIES < orElse (r_revisionAttempt r) 1
      then ItemFailed else ItemRunning)"

definition settledState :: "task \<Rightarrow> run \<Rightarrow> itemState" where
  "settledState t r =
     (let triage = map_option tr_state (r_triagePublication r)
      in if triage = Some TriageComplete then ItemDone
         else if r_sourceRevision r \<noteq> None \<and> t_desiredRevision t = None then ItemCanceled
         else if triage = Some TriagePending then ItemRunning
         else if triage = Some TriageFailed then ItemFailed
         else if triage = Some TriageSuperseded then ItemCanceled
         else if optHolds (\<lambda>b. dl_state b = DeliveryComplete \<and> dl_runId b = r_runId r) (t_delivery t) \<and> t_delivery t \<noteq> None
         then ItemDone
         else if r_state r = Finished
         then (if resultSummary r = Some ''park'' then ItemParked
               else if resultOk r = Some True then ItemDone else ItemFailed)
         else lostState t r)"

definition waitingState :: "run option \<Rightarrow> itemState" where
  "waitingState latest =
     (case latest of
        None \<Rightarrow> ItemRunning
      | Some r \<Rightarrow>
          if r_state r = Finished \<and> resultOk r = Some False then ItemFailed
          else if r_state r = Finished \<and> resultSummary r = Some ''park'' then ItemParked
          else ItemRunning)"

definition deriveItemState :: "(string \<Rightarrow> string \<Rightarrow> int) \<Rightarrow> task \<Rightarrow> run list \<Rightarrow> itemState" where
  "deriveItemState numericCompare t rs =
     (let latest = latestRun numericCompare rs
      in if t_closedAt t \<noteq> None \<or> map_option r_state latest = Some Canceled then ItemCanceled
         else if deliveryWaiting t \<and> map_option r_state latest \<noteq> Some Lost then waitingState latest
         else (case latest of
                 None \<Rightarrow> ItemRunning
               | Some r \<Rightarrow> if isLive (r_state r) then ItemRunning else settledState t r))"

subsection \<open>Views\<close>

record fallbackView =
  fv_allowedPipelines :: "string list"
  fv_attemptedPipelines :: "string list"
  fv_originalRunId :: string
  fv_fromRunId :: "string option"
  fv_trigger :: "fallbackTrigger option"

record queueView =
  qv_state :: queueState
  qv_startDeadlineAt :: "timestamp option"
  qv_placement :: "runPlacement option"
  qv_claimedAt :: "timestamp option"
  qv_firstHeartbeatAt :: "timestamp option"
  qv_providerProcessStartedAt :: "timestamp option"
  qv_claimedBy :: "string option"

record itemRunView =
  rv_issue :: "trackerIssue option"
  rv_runId :: string
  rv_state :: runState
  rv_pipeline :: string
  rv_priority :: queuePriority
  rv_createdAt :: timestamp
  rv_updatedAt :: timestamp
  rv_result :: "runResult option"
  rv_sourceRevision :: "workRevision option"
  rv_revisionAttempt :: "nat option"
  rv_delivery :: "deliveryBinding option"
  rv_triagePublication :: "triagePublication option"
  rv_providerFallback :: "fallbackView option"
  rv_queue :: "queueView option"
  rv_reply :: "string option"
  rv_replyChannel :: "string option"
  rv_replyPrincipal :: "string option"

record itemSessionView =
  sw_sessionId :: string
  sw_runId :: string
  sw_startedAt :: timestamp
  sw_lastActivityAt :: timestamp
  sw_title :: "string option"
  sw_status :: "string option"
  sw_transcriptGcsUri :: "string option"

record itemHeader =
  ih_state :: itemState
  ih_spec :: storedWorkSpec
  ih_origin :: workOrigin
  ih_issue :: "trackerIssue option"
  ih_providerRouting :: "providerRouting option"
  ih_createdAt :: timestamp
  ih_updatedAt :: timestamp
  ih_closedAt :: "timestamp option"

record itemView =
  iv_id :: string
  iv_header :: itemHeader
  iv_runs :: "itemRunView list"
  iv_sessions :: "itemSessionView list"

record workSummary =
  sm_id :: string
  sm_anchor :: taskId
  sm_header :: itemHeader
  sm_runs :: "itemRunView list"

definition workTitle :: "itemHeader \<Rightarrow> string" where
  "workTitle h =
     (case ih_issue h of
        Some issue \<Rightarrow> ti_identifier issue @ '': '' @ ti_title issue
      | None \<Rightarrow> storedTitle (ih_spec h))"

definition toFallbackView :: "providerFallback \<Rightarrow> fallbackView" where
  "toFallbackView p =
     \<lparr>fv_allowedPipelines = pf_allowedPipelines p, fv_attemptedPipelines = pf_attemptedPipelines p,
      fv_originalRunId = pf_originalRunId p, fv_fromRunId = pf_fromRunId p, fv_trigger = pf_trigger p\<rparr>"

definition toQueueView :: "runQueue \<Rightarrow> queueView" where
  "toQueueView q =
     \<lparr>qv_state = q_state q, qv_startDeadlineAt = q_startDeadlineAt q, qv_placement = q_placement q,
      qv_claimedAt = q_claimedAt q, qv_firstHeartbeatAt = q_firstHeartbeatAt q,
      qv_providerProcessStartedAt = q_providerProcessStartedAt q, qv_claimedBy = q_claimedBy q\<rparr>"

definition toItemRunView :: "run \<Rightarrow> itemRunView" where
  "toItemRunView r =
     \<lparr>rv_issue = r_issue r, rv_runId = r_runId r, rv_state = r_state r, rv_pipeline = r_pipeline r,
      rv_priority = orElse (r_priority r) Normal, rv_createdAt = r_createdAt r, rv_updatedAt = r_updatedAt r,
      rv_result = r_result r, rv_sourceRevision = r_sourceRevision r,
      rv_revisionAttempt = (if r_sourceRevision r = None then None else r_revisionAttempt r),
      rv_delivery = r_delivery r, rv_triagePublication = r_triagePublication r,
      rv_providerFallback = map_option toFallbackView (r_providerFallback r),
      rv_queue = map_option toQueueView (r_queue r),
      rv_reply = None, rv_replyChannel = None, rv_replyPrincipal = None\<rparr>"

definition withReply :: "run \<Rightarrow> itemRunView \<Rightarrow> itemRunView" where
  "withReply r v =
     v\<lparr>rv_reply := paramOf (r_params r) ''reply'', rv_replyChannel := paramOf (r_params r) ''replyChannel'',
       rv_replyPrincipal := paramOf (r_params r) ''replyPrincipal''\<rparr>"

definition orderedRuns :: "(string \<Rightarrow> string \<Rightarrow> int) \<Rightarrow> run list \<Rightarrow> run list" where
  "orderedRuns numericCompare rs = sortBy (\<lambda>a b. compareRunOrder numericCompare a b < 0) rs"

text \<open>None is the schema's exception on a task without a stored work payload.\<close>

definition toItemHeader :: "(string \<Rightarrow> string \<Rightarrow> int) \<Rightarrow> task \<Rightarrow> run list \<Rightarrow> itemHeader option" where
  "toItemHeader numericCompare t rs =
     map_option (\<lambda>(origin, spec).
       \<lparr>ih_state = deriveItemState numericCompare t rs, ih_spec = spec, ih_origin = origin,
        ih_issue = t_issue t, ih_providerRouting = t_providerRouting t,
        ih_createdAt = (case orderedRuns numericCompare rs of [] \<Rightarrow> t_updatedAt t | r # _ \<Rightarrow> r_createdAt r),
        ih_updatedAt = t_updatedAt t, ih_closedAt = t_closedAt t\<rparr>)
     (storedWorkPayloadSchema (t_work t))"

definition toItemView ::
  "(string \<Rightarrow> string \<Rightarrow> int) \<Rightarrow> string \<Rightarrow> task \<Rightarrow> run list \<Rightarrow> itemSessionView list \<Rightarrow> itemView option" where
  "toItemView numericCompare workId t rs sessions =
     map_option (\<lambda>h.
       \<lparr>iv_id = workId, iv_header = h,
        iv_runs = map (\<lambda>r. withReply r (toItemRunView r)) (orderedRuns numericCompare rs),
        iv_sessions = sessions\<rparr>) (toItemHeader numericCompare t rs)"

definition toWorkSummary :: "(string \<Rightarrow> string \<Rightarrow> int) \<Rightarrow> task \<Rightarrow> run list \<Rightarrow> workSummary option" where
  "toWorkSummary numericCompare t rs =
     map_option (\<lambda>h.
       \<lparr>sm_id = taskKey (t_task t), sm_anchor = t_task t, sm_header = h,
        sm_runs = map toItemRunView (orderedRuns numericCompare rs)\<rparr>) (toItemHeader numericCompare t rs)"

subsection \<open>Facts\<close>

text \<open>A comparator is consistent when its negative values form a strict weak order.\<close>

lemma run_order:
  assumes "strict_weak_order (\<lambda>a b. numericCompare a b < 0)"
  shows "strict_weak_order (\<lambda>a b. compareRunOrder numericCompare a b < 0)"
    and "strict_weak_order (\<lambda>a b. compareRunOrder numericCompare b a < 0)"
proof -
  note asym = strict_weak_order.lt_asym [OF assms] and trans = strict_weak_order.lt_negtrans [OF assms]
  show "strict_weak_order (\<lambda>a b. compareRunOrder numericCompare a b < 0)"
    by unfold_locales (use asym trans in \<open>auto simp: compareRunOrder_def split: if_splits\<close>)
  then show "strict_weak_order (\<lambda>a b. compareRunOrder numericCompare b a < 0)"
    unfolding strict_weak_order_def by blast
qed

lemma latestRun_newest:
  assumes "strict_weak_order (\<lambda>a b. numericCompare a b < 0)" and "latestRun numericCompare rs = Some r"
  shows "r \<in> set rs" and "x \<in> set rs \<Longrightarrow> r_createdAt x \<le> r_createdAt r"
proof -
  let ?lt = "\<lambda>a b. compareRunOrder numericCompare b a < 0"
  from assms(2) obtain ys where s: "sortBy ?lt rs = r # ys" by (auto simp: latestRun_def split: list.splits)
  then have "set (r # ys) = set rs" using set_sortBy [of ?lt rs] by simp
  then show "r \<in> set rs" by auto
  show "r_createdAt x \<le> r_createdAt r" if "x \<in> set rs"
  proof -
    from that have "rs \<noteq> []" by auto
    from strict_weak_order.hd_sortBy_minimal [OF run_order(2) [OF assms(1)] this that]
    have "\<not> compareRunOrder numericCompare r x < 0" by (simp add: s)
    then show ?thesis by (simp add: compareRunOrder_def split: if_splits)
  qed
qed

lemma latestRun_None [simp]: "latestRun numericCompare rs = None \<longleftrightarrow> rs = []"
proof -
  let ?sorted = "sortBy (\<lambda>a b. compareRunOrder numericCompare b a < 0) rs"
  have "latestRun numericCompare rs = None \<longleftrightarrow> ?sorted = []" by (auto simp: latestRun_def split: list.splits)
  then show ?thesis by simp
qed

text \<open>An item is shown as running as long as its newest run is live, whatever its delivery waits for.\<close>

lemma live_item_running:
  "latestRun numericCompare rs = Some r \<Longrightarrow> isLive (r_state r) \<Longrightarrow> t_closedAt t = None \<Longrightarrow>
    deriveItemState numericCompare t rs = ItemRunning"
  by (auto simp: deriveItemState_def waitingState_def isLive_def Let_def)

lemma view_runs:
  assumes "toItemView numericCompare workId t rs sessions = Some v"
  shows "rv_runId ` set (iv_runs v) = r_runId ` set rs"
proof -
  have "rv_runId (withReply r (toItemRunView r)) = r_runId r" for r by (simp add: withReply_def toItemRunView_def)
  moreover from assms have "iv_runs v = map (\<lambda>r. withReply r (toItemRunView r)) (orderedRuns numericCompare rs)"
    by (auto simp: toItemView_def)
  ultimately show ?thesis by (simp add: orderedRuns_def image_image)
qed

end
