(* ===== verification/Outbox_Drain.thy ===== *)
theory Outbox_Drain
  imports Console_Transactions Work_Derive Lifecycle_Metrics
begin

text \<open>
  \<^verbatim>\<open>apps/console/src/lib/orchestrator-dispatch.ts\<close>, with \<^verbatim>\<open>anchor-target.ts\<close> and the item
  states of \<^verbatim>\<open>session-expiry.ts\<close>: the drain that claims outbox entries one at a time, delivers
  each and settles it under its claim. What the drain does not own is an argument
  (\<open>drainWorld\<close>): the clock, claim identifiers, what other clients do before each store access, and
  the GitHub, Linear and webhook calls with their failures; the calls it attempts are recorded as
  effects. The emoji of the comment texts are a parameter of the rendering. Logging is left out.
\<close>

subsection \<open>Constants\<close>

definition OUTBOX_LEASE_MS :: int where
  "OUTBOX_LEASE_MS = 5 * 60000"

definition OUTBOX_RETIRE_AFTER_MS :: int where
  "OUTBOX_RETIRE_AFTER_MS = 72 * 60 * 60 * 1000"

definition OUTBOX_BACKOFF_BASE_MS :: int where
  "OUTBOX_BACKOFF_BASE_MS = 60000"

definition OUTBOX_BACKOFF_CAP_MS :: int where
  "OUTBOX_BACKOFF_CAP_MS = 30 * 60000"

definition OUTBOX_STALE_REPORT_AGE_MS :: int where
  "OUTBOX_STALE_REPORT_AGE_MS = 24 * 60 * 60 * 1000"

definition DELIVERY_MONITOR_FALLBACK_MS :: int where
  "DELIVERY_MONITOR_FALLBACK_MS = 60 * 60000"

definition PARK_OUTCOME_SUMMARY :: string where
  "PARK_OUTCOME_SUMMARY = ''park''"

subsection \<open>Anchors\<close>

record resolvedAnchor =
  at_repo :: string
  at_issue :: "nat option"

definition targetPick :: "json \<Rightarrow> string option" where
  "targetPick work =
     do { spec \<leftarrow> jsonField work ''spec''; target \<leftarrow> jsonField spec ''target'';
          repo \<leftarrow> Option.bind (jsonField target ''repo'') jsonString;
          if repo = [] then None else Some repo }"

definition anchorTarget :: "run \<Rightarrow> task option \<Rightarrow> string + resolvedAnchor" where
  "anchorTarget r t =
     (case r_task r of
        GithubAnchor repo issue \<Rightarrow> Inr \<lparr>at_repo = repo, at_issue = Some issue\<rparr>
      | WorkAnchor w \<Rightarrow>
          (case Option.bind t (\<lambda>t. targetPick (t_work t)) of
             None \<Rightarrow> Inl (''native task work:'' @ w @ '' has no spec.target.repo'')
           | Some repo \<Rightarrow> Inr \<lparr>at_repo = repo, at_issue = None\<rparr>))"

definition isClosedItemState :: "itemState \<Rightarrow> bool" where
  "isClosedItemState st \<longleftrightarrow> st \<in> {ItemDone, ItemFailed, ItemCanceled}"

subsection \<open>Later runs\<close>

definition isLaterRun :: "run \<Rightarrow> run \<Rightarrow> bool" where
  "isLaterRun candidate r =
     (case (parseRunGeneration (r_runId candidate), parseRunGeneration (r_runId r)) of
        (Some c, Some n) \<Rightarrow> n < c
      | _ \<Rightarrow> False)"

definition runNeedsHumanLabel :: "run \<Rightarrow> bool" where
  "runNeedsHumanLabel r \<longleftrightarrow> resultSummary r = Some PARK_OUTCOME_SUMMARY"

definition runResolvesNeedsHumanLabel :: "run \<Rightarrow> bool" where
  "runResolvesNeedsHumanLabel r \<longleftrightarrow>
     r_state r = Finished \<and> resultOk r = Some True \<and> resultSummary r \<noteq> Some PARK_OUTCOME_SUMMARY"

definition hasLaterRunMatching :: "(run \<Rightarrow> bool) \<Rightarrow> memStore \<Rightarrow> run \<Rightarrow> bool" where
  "hasLaterRunMatching matches s r = list_ex (\<lambda>c. isLaterRun c r \<and> matches c) (listRuns s (r_task r))"

definition fallbackSuccessorOf :: "run list \<Rightarrow> run \<Rightarrow> run option" where
  "fallbackSuccessorOf history r =
     List.find (\<lambda>c. r_requestSource c = ProviderFallbackRequested \<and>
                    Option.bind (r_providerFallback c) pf_fromRunId = Some (r_runId r)) history"

definition latestSubsequentRun :: "run list \<Rightarrow> run \<Rightarrow> run option" where
  "latestSubsequentRun history r =
     (case sortBy (\<lambda>a b. orElse (parseRunGeneration (r_runId b)) 0 < orElse (parseRunGeneration (r_runId a)) 0)
             (filter (\<lambda>c. isLaterRun c r) history) of
        [] \<Rightarrow> None
      | c # _ \<Rightarrow> Some c)"

subsection \<open>Texts\<close>

datatype glyph = WarningSign | CheckMark | Hourglass | CrossMark | StopButton

fun joinLines :: "string list \<Rightarrow> string" where
  "joinLines [] = []"
| "joinLines [l] = l"
| "joinLines (l # ls) = l @ [CHR 0x0A] @ joinLines ls"

definition showDeliveryState :: "deliveryState \<Rightarrow> string" where
  "showDeliveryState st = (case st of DeliveryWaiting \<Rightarrow> ''waiting'' | DeliveryComplete \<Rightarrow> ''complete'')"

fun fallbackReasonText :: "fallbackReason \<Rightarrow> string" where
  "fallbackReasonText ProviderLimit = ''provider-limit''"
| "fallbackReasonText ProviderCooldownReason = ''provider-cooldown''"

definition shown :: "string option \<Rightarrow> string" where
  "shown x = orElse x ''undefined''"

definition headLines :: "(glyph \<Rightarrow> string) \<Rightarrow> run \<Rightarrow> string list" where
  "headLines icon r =
     (if resultOk r = Some True
      then [case r_delivery r of
              None \<Rightarrow> icon CheckMark @ '' Run '' @ r_runId r @ '' finished.''
            | Some b \<Rightarrow> icon Hourglass @ '' Run '' @ r_runId r @
                '' released implementation execution; delivery ownership remains '' @
                showDeliveryState (dl_state b) @ ''.'']
      else [icon CrossMark @ '' Run '' @ r_runId r @ '' failed.''])"

definition refLines :: "run \<Rightarrow> string list" where
  "refLines r =
     (case r_result r of
        None \<Rightarrow> []
      | Some result \<Rightarrow>
          (case rr_ref result of
             Some ref \<Rightarrow> if rr_ok result then ref # orElse (rr_relatedRefs result) [] else []
           | None \<Rightarrow> []))"

definition summaryLines :: "run \<Rightarrow> string list" where
  "summaryLines r =
     (case resultSummary r of
        None \<Rightarrow> []
      | Some summary \<Rightarrow>
          if summary = PARK_OUTCOME_SUMMARY
          then [case Option.bind (r_result r) rr_message of
                  None \<Rightarrow> ''Parked -- see this run's own comment above for the blocker and how to resume it.''
                | Some m \<Rightarrow> ''Parked. '' @ m @ [CHR 0x0A, CHR 0x0A] @ ''Reply on this thread to continue.'']
          else [summary])"

definition followUpLines :: "run \<Rightarrow> run option \<Rightarrow> run option \<Rightarrow> string list" where
  "followUpLines r fallbackSuccessor latest =
     (case fallbackSuccessor of
        Some f \<Rightarrow>
          [''A fresh fallback attempt '' @ r_runId f @ '' on '' @ r_pipeline f @
           '' was created after this provider limit. Original intent: '' @
           shown (map_option pf_originalRunId (r_providerFallback f)) @ ''.'']
      | None \<Rightarrow>
          if resultOk r \<noteq> Some False then []
          else (case latest of
                  Some l \<Rightarrow>
                    [''A newer request already exists as run '' @ r_runId l @ '' on '' @ r_pipeline l @
                     '' (state: '' @ showRunState (r_state l) @ ''). This report records the earlier failure.'']
                | None \<Rightarrow>
                    [''Execution failed; no human decision has been established. No auto-retry will follow -- re-request manually (re-add the agent label) when ready.'']))"

definition triggerLines :: "run \<Rightarrow> string list" where
  "triggerLines r =
     (case r_providerFallback r of
        None \<Rightarrow> []
      | Some p \<Rightarrow>
          (case pf_trigger p of
             None \<Rightarrow> []
           | Some t \<Rightarrow>
               [''Fresh fallback from '' @ shown (pf_fromRunId p) @ '' on '' @ ft_limitedPipeline t @ '' ('' @
                fallbackReasonText (ft_reason t) @ ''); triggering failure: '' @ ft_failureRunId t @
                ''; original intent: '' @ pf_originalRunId p @ ''.'']))"

definition outcomeCommentBody :: "(glyph \<Rightarrow> string) \<Rightarrow> run \<Rightarrow> run option \<Rightarrow> run option \<Rightarrow> string + string" where
  "outcomeCommentBody icon r fallbackSuccessor latest =
     (case r_state r of
        Finished \<Rightarrow>
          Inr (joinLines (headLines icon r @ refLines r @ summaryLines r @
                          followUpLines r fallbackSuccessor latest @ triggerLines r))
      | Canceled \<Rightarrow> Inr (icon StopButton @ '' Run '' @ r_runId r @ '' was canceled.'')
      | Lost \<Rightarrow> Inl (''outcomeCommentBody called for a lost run: '' @ r_runId r)
      | st \<Rightarrow> Inl (''report-outcome for run '' @ r_runId r @ '' in non-terminal state '' @ showRunState st))"

definition describeLostOutcome :: "(glyph \<Rightarrow> string) \<Rightarrow> memStore \<Rightarrow> run \<Rightarrow> task option \<Rightarrow> string" where
  "describeLostOutcome icon s r t =
     (let lostPrefix = icon WarningSign @ '' Run '' @ r_runId r @ '' was lost (no report before its lease expired). ''
      in lostPrefix @
         (case Option.bind (Option.bind t t_activeRunId) (readRun s) of
            Some a \<Rightarrow>
              if r_requestSource a = AutoRetry \<and> r_requestId a = ''retry:'' @ r_runId r
              then ''Retrying automatically as run '' @ r_runId a @ '' (attempt '' @
                   showNat (orElse (map_option t_consecutiveLost t) 0 + 1) @ '' of '' @
                   showNat (MAX_AUTO_RETRIES + 1) @ '').''
              else ''Run '' @ r_runId a @ '' is already in progress.''
          | None \<Rightarrow>
              ''Auto-retry budget exhausted -- re-request manually (re-add the agent label) when ready.''))"

subsection \<open>The drain's world\<close>

datatype linearStatus = LinearStarted | LinearCompleted | LinearParked | LinearCanceled | LinearFailed

record outcomePayload =
  ow_eventId :: "string option"
  ow_deliveryComplete :: bool
  ow_itemId :: string
  ow_runId :: string
  ow_state :: runState
  ow_ok :: bool
  ow_parked :: bool
  ow_message :: "string option"
  ow_ref :: "string option"
  ow_thread :: string
  ow_consoleUrl :: string
  ow_providerFallback :: "(string \<times> string \<times> fallbackTrigger) option"
  ow_reroutedTo :: "(string \<times> string) option"

datatype drainEffect =
    ClaimAnchor string nat
  | PostComment string nat string
  | AddNeedsHuman string nat
  | RemoveNeedsHuman string nat
  | ExpireSessions string
  | DeliverOutcome string outcomePayload
  | PublishLinear string linearStatus

text \<open>Arguments named \<open>k\<close> count the claims of one drain; \<open>dw_now\<close> and \<open>dw_env\<close> also take the
  position of the clock read or store access within the handling of that claim. Calls that can
  fail answer with the error's message.\<close>

record drainWorld =
  dw_now :: "nat \<Rightarrow> nat \<Rightarrow> timestamp"
  dw_env :: "nat \<Rightarrow> nat \<Rightarrow> memStore \<Rightarrow> memStore"
  dw_uuid :: "nat \<Rightarrow> string"
  dw_publishTriage :: "nat \<Rightarrow> outboxEntry \<Rightarrow> memStore \<Rightarrow> memStore \<times> string option"
  dw_admitHandoff :: "nat \<Rightarrow> run \<Rightarrow> memStore \<Rightarrow> memStore \<times> string option"
  dw_publishLinear :: "nat \<Rightarrow> string \<Rightarrow> linearStatus \<Rightarrow> memStore \<Rightarrow> string option"
  dw_observeDelivery :: "nat \<Rightarrow> deliveryBinding \<Rightarrow> string + deliveryObservation"
  dw_authorized :: "task \<Rightarrow> run \<Rightarrow> bool"
  dw_readPermission :: "nat \<Rightarrow> task \<Rightarrow> run \<Rightarrow> string + (task \<Rightarrow> run \<Rightarrow> bool)"
  dw_anchorOpen :: "nat \<Rightarrow> string \<Rightarrow> nat \<Rightarrow> bool option"
  dw_postComment :: "nat \<Rightarrow> string \<Rightarrow> nat \<Rightarrow> string \<Rightarrow> string + nat"
  dw_webhookConfigured :: "string \<Rightarrow> bool"
  dw_deliverOutcome :: "nat \<Rightarrow> string \<Rightarrow> outcomePayload \<Rightarrow> string option"
  dw_consoleUrl :: string
  dw_glyph :: "glyph \<Rightarrow> string"
  dw_numericCompare :: "string \<Rightarrow> string \<Rightarrow> int"

record drainState =
  ds_store :: memStore
  ds_dispatched :: "string list"
  ds_reported :: "string list"
  ds_failed :: "(string \<times> string) list"
  ds_excluded :: "string list"
  ds_effects :: "drainEffect list"

definition emit :: "drainEffect list \<Rightarrow> drainState \<Rightarrow> drainState" where
  "emit es d = d\<lparr>ds_effects := ds_effects d @ es\<rparr>"

definition interfere :: "drainWorld \<Rightarrow> nat \<Rightarrow> nat \<Rightarrow> drainState \<Rightarrow> drainState" where
  "interfere w k j d = d\<lparr>ds_store := dw_env w k j (ds_store d)\<rparr>"

fun errorMessage :: "jsError \<Rightarrow> string" where
  "errorMessage (StoreConflict tid) = ''Concurrent update to task '' @ taskKey tid"
| "errorMessage (JsError message) = message"

subsection \<open>Settling\<close>

record failureState =
  fs_firstFailedAt :: "timestamp option"
  fs_nextAttemptAt :: "timestamp option"
  fs_deliveryFailures :: "nat option"
  fs_recovered :: bool

definition noFailure :: failureState where
  "noFailure = \<lparr>fs_firstFailedAt = None, fs_nextAttemptAt = None, fs_deliveryFailures = None, fs_recovered = False\<rparr>"

definition claimIdOf :: "outboxEntry \<Rightarrow> string" where
  "claimIdOf e = (case o_state e of OutLeased c _ \<Rightarrow> c | _ \<Rightarrow> [])"

definition settlementOf :: "timestamp \<Rightarrow> outboxEntry \<Rightarrow> settleState \<Rightarrow> failureState \<Rightarrow> outboxSettlement" where
  "settlementOf now e st f =
     \<lparr>os_entryId = o_entryId e, os_claimId = claimIdOf e, os_state = st, os_now = now,
      os_firstFailedAt = fs_firstFailedAt f, os_nextAttemptAt = fs_nextAttemptAt f,
      os_deliveryFailures = fs_deliveryFailures f, os_recovered = fs_recovered f\<rparr>"

definition settleClaim :: "timestamp \<Rightarrow> outboxEntry \<Rightarrow> settleState \<Rightarrow> failureState \<Rightarrow> drainState \<Rightarrow> drainState" where
  "settleClaim now e st f d = d\<lparr>ds_store := fst (settleOutbox (ds_store d) (settlementOf now e st f))\<rparr>"

definition settleDone :: "drainWorld \<Rightarrow> nat \<Rightarrow> outboxEntry \<Rightarrow> drainState \<Rightarrow> drainState" where
  "settleDone w k e d = settleClaim (dw_now w k 4) e SettleDone noFailure (interfere w k 9 d)"

definition failureSettlement :: "timestamp \<Rightarrow> outboxEntry \<Rightarrow> outboxSettlement" where
  "failureSettlement now e =
     (let firstFailedAt = orElse (o_firstFailedAt e) now
      in if OUTBOX_RETIRE_AFTER_MS \<le> now - firstFailedAt
         then settlementOf now e SettleFailed (noFailure\<lparr>fs_firstFailedAt := Some firstFailedAt\<rparr>)
         else
           (let deliveryFailures = orElse (o_deliveryFailures e) 0 + 1;
                backoffMs = min OUTBOX_BACKOFF_CAP_MS (OUTBOX_BACKOFF_BASE_MS * 2 ^ (deliveryFailures - 1))
            in settlementOf now e SettlePending
                 \<lparr>fs_firstFailedAt = Some firstFailedAt, fs_nextAttemptAt = Some (now + backoffMs),
                  fs_deliveryFailures = Some deliveryFailures, fs_recovered = False\<rparr>))"

definition retiring :: "timestamp \<Rightarrow> outboxEntry \<Rightarrow> bool" where
  "retiring now e \<longleftrightarrow> os_state (failureSettlement now e) = SettleFailed"

definition failedTriage :: "string \<Rightarrow> triagePatch" where
  "failedTriage message =
     \<lparr>tq_state = Some TriageFailed, tq_commentBody = None, tq_commentId = None, tq_sourceComment = None,
      tq_addedLabels = None, tq_dispatchRequested = None, tq_dispatchObserved = None,
      tq_error = Some (take 400 message)\<rparr>"

text \<open>A refused triage receipt is an exception before the settlement; the caller swallows it, so the
  entry keeps its lease until that expires.\<close>

definition settleRetryableFailure :: "drainWorld \<Rightarrow> nat \<Rightarrow> outboxEntry \<Rightarrow> string \<Rightarrow> drainState \<Rightarrow> drainState" where
  "settleRetryableFailure w k e message d0 =
     (let d = d0\<lparr>ds_failed := ds_failed d0 @ [(o_entryId e, message)]\<rparr>;
          now = dw_now w k 5;
          settle = (\<lambda>d. d\<lparr>ds_store := fst (settleOutbox (ds_store d) (failureSettlement now e))\<rparr>)
      in if retiring now e \<and> o_kind e = PublishTriage
         then (let d' = interfere w k 10 d
               in case recordTriagePublication (dw_now w k 6) (ds_store d') (o_runId e) (failedTriage message) of
                    (s, Decided _) \<Rightarrow> settle (interfere w k 11 (d'\<lparr>ds_store := s\<rparr>))
                  | (s, _) \<Rightarrow> d'\<lparr>ds_store := s\<rparr>)
         else settle (interfere w k 11 d))"

subsection \<open>Handlers\<close>

text \<open>A handler returns the state it leaves and, when it threw, the message.\<close>

definition handleDispatchRun ::
  "drainWorld \<Rightarrow> nat \<Rightarrow> outboxEntry \<Rightarrow> drainState \<Rightarrow> drainState \<times> string option" where
  "handleDispatchRun w k e d0 =
     (let d = interfere w k 1 d0
      in case readRun (ds_store d) (o_runId e) of
           None \<Rightarrow> (settleDone w k e d, None)
         | Some r \<Rightarrow>
             if r_state r \<noteq> Pending then (settleDone w k e d, None)
             else
               (let d1 = interfere w k 2 d;
                    d2 = interfere w k 3 (d1\<lparr>ds_store := enqueueRun (ds_store d1) (r_runId r) (dw_now w k 1)\<rparr>);
                    (s, outcome) = orchConfirmDispatch (dw_uuid w k) (dw_now w k 2) (ds_store d2) (r_runId r);
                    d3 = d2\<lparr>ds_store := s\<rparr>
                in case outcome of
                     Threw err \<Rightarrow> (d3, Some (errorMessage err))
                   | _ \<Rightarrow>
                       (let d4 = (case r_task r of
                                    GithubAnchor repo issue \<Rightarrow> emit [ClaimAnchor repo issue] d3
                                  | WorkAnchor _ \<Rightarrow> d3);
                            d5 = settleDone w k e d4
                        in (d5\<lparr>ds_dispatched := ds_dispatched d5 @ [r_runId r]\<rparr>, None))))"

definition monitorStale :: "run \<Rightarrow> task option \<Rightarrow> bool" where
  "monitorStale r t =
     (case t of
        None \<Rightarrow> True
      | Some t \<Rightarrow> t_closedAt t \<noteq> None \<or> map_option dl_runId (t_delivery t) \<noteq> Some (r_runId r) \<or>
                 \<not> deliveryWaiting t)"

fun isCorrection :: "deliveryObservation \<Rightarrow> bool" where
  "isCorrection (ObsCorrection _ _) = True"
| "isCorrection _ = False"

definition monitorSettled :: "outcome \<Rightarrow> bool" where
  "monitorSettled outcome =
     (case outcome of
        Refused why _ \<Rightarrow> why = TaskClosed
      | Decided dec \<Rightarrow> \<not> deliveryWaiting (d_task dec)
      | Threw _ \<Rightarrow> False)"

definition observeMonitored ::
  "drainWorld \<Rightarrow> nat \<Rightarrow> outboxEntry \<Rightarrow> run \<Rightarrow> deliveryObservation \<Rightarrow> (task \<Rightarrow> run \<Rightarrow> bool) \<Rightarrow> drainState \<Rightarrow>
   drainState \<times> string option" where
  "observeMonitored w k e r observed authorize d0 =
     (let d = interfere w k 3 d0;
          (s, outcome) = observeDelivery (dw_uuid w k) (dw_now w k 2) (ds_store d) (r_runId r) observed authorize;
          d' = d\<lparr>ds_store := s\<rparr>
      in case outcome of
           Threw err \<Rightarrow> (d', Some (errorMessage err))
         | _ \<Rightarrow>
             if monitorSettled outcome then (settleDone w k e d', None)
             else (settleClaim (dw_now w k 4) e SettlePending
                     (noFailure\<lparr>fs_nextAttemptAt := Some (dw_now w k 3 + DELIVERY_MONITOR_FALLBACK_MS),
                                fs_recovered := True\<rparr>) (interfere w k 9 d'), None))"

definition handleMonitorDelivery ::
  "drainWorld \<Rightarrow> nat \<Rightarrow> outboxEntry \<Rightarrow> drainState \<Rightarrow> drainState \<times> string option" where
  "handleMonitorDelivery w k e d0 =
     (let d = interfere w k 1 d0
      in case readRun (ds_store d) (o_runId e) of
           None \<Rightarrow> (settleDone w k e d, None)
         | Some r \<Rightarrow>
             (let d1 = interfere w k 2 d;
                  found = map_option vt_task (readTask (ds_store d1) (r_task r))
              in if monitorStale r found then (settleDone w k e d1, None)
                 else
                   (case (found, Option.bind found t_delivery) of
                      (Some t, Some binding) \<Rightarrow>
                        (case dw_observeDelivery w k binding of
                           Inl message \<Rightarrow> (d1, Some message)
                         | Inr observed \<Rightarrow>
                             if isCorrection observed \<and> \<not> dw_authorized w t r
                             then (case dw_readPermission w k t r of
                                     Inl message \<Rightarrow> (d1, Some message)
                                   | Inr permitted \<Rightarrow> observeMonitored w k e r observed permitted d1)
                             else observeMonitored w k e r observed (dw_authorized w) d1)
                    | _ \<Rightarrow> (settleDone w k e d1, None))))"

definition wakeDeliveryMonitor :: "timestamp \<Rightarrow> string \<Rightarrow> nat \<Rightarrow> memStore \<Rightarrow> memStore \<times> string list" where
  "wakeDeliveryMonitor at repo number s0 =
     foldl (\<lambda>(s, woken) v.
        (case t_delivery (vt_task v) of
           None \<Rightarrow> (s, woken)
         | Some b \<Rightarrow>
             (let entryId = ''delivery/'' @ dl_runId b
              in case wakeOutbox s entryId at of (s', ok) \<Rightarrow> (s', if ok then woken @ [entryId] else woken))))
       (s0, []) (readWaitingDeliveryTasks s0 repo number)"

subsection \<open>Native outcomes\<close>

definition finalDeliveryStale :: "run \<Rightarrow> task \<Rightarrow> bool" where
  "finalDeliveryStale r t =
     (t_closedAt t \<noteq> None \<or> r_state r \<noteq> Finished \<or> resultOk r \<noteq> Some True \<or>
      (case r_delivery r of
         None \<Rightarrow> True
       | Some b \<Rightarrow> \<not> validDeliveryBinding b \<or> dl_runId b \<noteq> r_runId r \<or> dl_state b \<noteq> DeliveryComplete \<or>
                   dl_mergeCommit b = None))"

definition outcomePayloadOf ::
  "drainWorld \<Rightarrow> outboxEntry \<Rightarrow> run \<Rightarrow> string \<Rightarrow> string \<Rightarrow> bool \<Rightarrow> run option \<Rightarrow> outcomePayload" where
  "outcomePayloadOf w e r workId thread final fallbackSuccessor =
     \<lparr>ow_eventId = (if final then Some (o_entryId e) else None), ow_deliveryComplete = final,
      ow_itemId = workId, ow_runId = r_runId r,
      ow_state = r_state r, ow_ok = orElse (resultOk r) False,
      ow_parked = (r_state r = Finished \<and> resultSummary r = Some PARK_OUTCOME_SUMMARY),
      ow_message =
        (if final
         then Some (''Delivery complete: protected merge '' @
                    shown (Option.bind (r_delivery r) dl_mergeCommit) @ ''.'')
         else Option.bind (r_result r) rr_message),
      ow_ref = Option.bind (r_result r) rr_ref, ow_thread = thread,
      ow_consoleUrl = dw_consoleUrl w @ ''/work/'' @ workId,
      ow_providerFallback =
        (case r_providerFallback r of
           None \<Rightarrow> None
         | Some p \<Rightarrow> (case (pf_trigger p, pf_fromRunId p) of
                        (Some t, Some from) \<Rightarrow> Some (pf_originalRunId p, from, t)
                      | _ \<Rightarrow> None)),
      ow_reroutedTo = map_option (\<lambda>f. (r_runId f, r_pipeline f)) fallbackSuccessor\<rparr>"

definition linearStatusOf :: "outcomePayload \<Rightarrow> bool \<Rightarrow> linearStatus option" where
  "linearStatusOf p final =
     (if final then Some LinearCompleted
      else if ow_parked p then Some LinearParked
      else if ow_state p = Canceled then Some LinearCanceled
      else if \<not> ow_ok p then Some LinearFailed
      else None)"

definition sendNativeOutcome ::
  "drainWorld \<Rightarrow> nat \<Rightarrow> string \<Rightarrow> outcomePayload \<Rightarrow> bool \<Rightarrow> bool \<Rightarrow> drainState \<Rightarrow> drainState \<times> string option" where
  "sendNativeOutcome w k channel p final rerouted d0 =
     (let d = emit [DeliverOutcome channel p] d0
      in case dw_deliverOutcome w k channel p of
           Some message \<Rightarrow> (d, Some message)
         | None \<Rightarrow>
             (case (if channel = ''linear'' \<and> \<not> rerouted then linearStatusOf p final else None) of
                None \<Rightarrow> (d, None)
              | Some status \<Rightarrow>
                  (let d' = interfere w k 6 (emit [PublishLinear (ow_runId p) status] d)
                   in (d', dw_publishLinear w k (ow_runId p) status (ds_store d')))))"

definition expireSessions :: "drainWorld \<Rightarrow> nat \<Rightarrow> run \<Rightarrow> string \<Rightarrow> task \<Rightarrow> bool \<Rightarrow> drainState \<Rightarrow> drainState" where
  "expireSessions w k r workId t final d0 =
     (let d = interfere w k 5 d0;
          itemState = deriveItemState (dw_numericCompare w) t (listRuns (ds_store d) (r_task r));
          boundCompleteExecution =
            (\<not> final \<and> (case r_delivery r of
               None \<Rightarrow> False
             | Some b \<Rightarrow> dl_runId b = r_runId r \<and> dl_state b = DeliveryComplete))
      in if isClosedItemState itemState \<and> \<not> boundCompleteExecution
         then emit [ExpireSessions workId] d else d)"

definition answerOrigin ::
  "drainWorld \<Rightarrow> nat \<Rightarrow> outboxEntry \<Rightarrow> run \<Rightarrow> string \<Rightarrow> string \<Rightarrow> string \<Rightarrow> bool \<Rightarrow> run option \<Rightarrow> drainState \<Rightarrow>
   drainState" where
  "answerOrigin w k e r workId channel thread final fallbackSuccessor d =
     (case sendNativeOutcome w k channel (outcomePayloadOf w e r workId thread final fallbackSuccessor)
             final (fallbackSuccessor \<noteq> None) d of
        (d', Some message) \<Rightarrow> settleRetryableFailure w k e message d'
      | (d', None) \<Rightarrow>
          (let d'' = settleDone w k e d' in d''\<lparr>ds_reported := ds_reported d'' @ [r_runId r]\<rparr>))"

definition deliverNativeOutcome ::
  "drainWorld \<Rightarrow> nat \<Rightarrow> outboxEntry \<Rightarrow> run \<Rightarrow> string \<Rightarrow> task \<Rightarrow> run option \<Rightarrow> drainState \<Rightarrow>
   drainState \<times> string option" where
  "deliverNativeOutcome w k e r workId t fallbackSuccessor d0 =
     (let final = (o_entryId e = ''delivery-outcome/'' @ r_runId r)
      in if final \<and> finalDeliveryStale r t then (settleDone w k e d0, None)
         else
           (let d = expireSessions w k r workId t final d0
            in case storedWorkPayloadSchema (t_work t) of
                 None \<Rightarrow> (d, Some ''ZodError'')
               | Some (origin, _) \<Rightarrow>
                   (case wo_thread origin of
                      None \<Rightarrow> (settleDone w k e d, None)
                    | Some thread \<Rightarrow>
                        if wo_channel origin \<noteq> ''linear'' \<and> \<not> dw_webhookConfigured w (wo_channel origin)
                        then (settleDone w k e d, None)
                        else if isLive (r_state r)
                        then (d, Some (''report-outcome for run '' @ r_runId r @ '' in non-terminal state '' @
                                       showRunState (r_state r)))
                        else (answerOrigin w k e r workId (wo_channel origin) thread final fallbackSuccessor d, None))))"

subsection \<open>Outcome comments\<close>

definition isStaleReport :: "drainWorld \<Rightarrow> nat \<Rightarrow> outboxEntry \<Rightarrow> bool" where
  "isStaleReport w k e \<longleftrightarrow> OUTBOX_STALE_REPORT_AGE_MS \<le> dw_now w k 2 - o_createdAt e"

definition projectLabel :: "drainWorld \<Rightarrow> nat \<Rightarrow> run \<Rightarrow> string \<Rightarrow> nat \<Rightarrow> drainState \<Rightarrow> drainState" where
  "projectLabel w k r repo issue d0 =
     (if r_state r = Finished \<and> runNeedsHumanLabel r
      then (let d = interfere w k 7 d0
            in if hasLaterRunMatching runResolvesNeedsHumanLabel (ds_store d) r then d
               else emit [AddNeedsHuman repo issue] d)
      else if runResolvesNeedsHumanLabel r
      then (let d = interfere w k 7 d0
            in if hasLaterRunMatching runNeedsHumanLabel (ds_store d) r then d
               else emit [RemoveNeedsHuman repo issue] d)
      else d0)"

definition commentOutcome ::
  "drainWorld \<Rightarrow> nat \<Rightarrow> outboxEntry \<Rightarrow> run \<Rightarrow> string \<Rightarrow> nat \<Rightarrow> string \<Rightarrow> drainState \<Rightarrow> drainState" where
  "commentOutcome w k e r repo issue body d0 =
     (let d = emit [PostComment repo issue body] d0
      in case dw_postComment w k repo issue body of
           Inl message \<Rightarrow> settleRetryableFailure w k e message d
         | Inr status \<Rightarrow>
             if status \<noteq> 201
             then settleRetryableFailure w k e (''issue comment returned '' @ showNat status) d
             else
               (let d' = settleDone w k e (projectLabel w k r repo issue d)
                in d'\<lparr>ds_reported := ds_reported d' @ [r_runId r]\<rparr>))"

definition reportToIssue ::
  "drainWorld \<Rightarrow> nat \<Rightarrow> outboxEntry \<Rightarrow> run \<Rightarrow> task option \<Rightarrow> string \<Rightarrow> nat \<Rightarrow> run option \<Rightarrow> run option \<Rightarrow> drainState \<Rightarrow>
   drainState \<times> string option" where
  "reportToIssue w k e r t repo issue fallbackSuccessor latest d =
     (if isStaleReport w k e \<and> dw_anchorOpen w k repo issue = Some False
      then (let d' = settleClaim (dw_now w k 4) e SettleFailed noFailure (interfere w k 9 d)
            in (d'\<lparr>ds_failed := ds_failed d' @ [(o_entryId e, ''anchor '' @ repo @ ''#'' @ showNat issue @
                    '' is closed; retiring stale outcome report'')]\<rparr>, None))
      else if r_state r = Lost
      then (let d' = interfere w k 4 d
            in (commentOutcome w k e r repo issue (describeLostOutcome (dw_glyph w) (ds_store d') r t) d', None))
      else (case outcomeCommentBody (dw_glyph w) r fallbackSuccessor latest of
              Inl message \<Rightarrow> (d, Some message)
            | Inr body \<Rightarrow> (commentOutcome w k e r repo issue body d, None)))"

definition deliverReport ::
  "drainWorld \<Rightarrow> nat \<Rightarrow> outboxEntry \<Rightarrow> run \<Rightarrow> task option \<Rightarrow> run option \<Rightarrow> run option \<Rightarrow> drainState \<Rightarrow>
   drainState \<times> string option" where
  "deliverReport w k e r t fallbackSuccessor latest d =
     (if (case t of None \<Rightarrow> False | Some t \<Rightarrow> isSourceManagedWork (t_work t))
      then (let d' = settleDone w k e d in (d'\<lparr>ds_reported := ds_reported d' @ [r_runId r]\<rparr>, None))
      else
        (case anchorTarget r t of
           Inl message \<Rightarrow>
             (let d' = settleDone w k e d in (d'\<lparr>ds_failed := ds_failed d' @ [(o_entryId e, message)]\<rparr>, None))
         | Inr target \<Rightarrow>
             (case (at_issue target, r_task r, t) of
                (Some issue, _, _) \<Rightarrow> reportToIssue w k e r t (at_repo target) issue fallbackSuccessor latest d
              | (None, WorkAnchor workId, Some t) \<Rightarrow> deliverNativeOutcome w k e r workId t fallbackSuccessor d
              | _ \<Rightarrow> (settleDone w k e d, None))))"

definition handleReportOutcome ::
  "drainWorld \<Rightarrow> nat \<Rightarrow> outboxEntry \<Rightarrow> drainState \<Rightarrow> drainState \<times> string option" where
  "handleReportOutcome w k e d0 =
     (let d = interfere w k 1 d0
      in case readRun (ds_store d) (o_runId e) of
           None \<Rightarrow> (settleRetryableFailure w k e (''no such run: '' @ o_runId e) d, None)
         | Some r \<Rightarrow>
             (let needsHistory = (r_providerFallback r \<noteq> None \<or> r_state r = Finished \<and> resultOk r = Some False);
                  d1 = (if needsHistory then interfere w k 2 d else d);
                  history = (if needsHistory then listRuns (ds_store d1) (r_task r) else []);
                  needsTask = (isWorkAnchor (r_task r) \<or> r_state r = Lost);
                  d2 = (if needsTask then interfere w k 3 d1 else d1);
                  t = (if needsTask then map_option vt_task (readTask (ds_store d2) (r_task r)) else None)
              in deliverReport w k e r t (fallbackSuccessorOf history r) (latestSubsequentRun history r) d2))"

subsection \<open>The loop\<close>

definition publishing :: "drainWorld \<Rightarrow> nat \<Rightarrow> outboxEntry \<Rightarrow> drainState \<times> string option \<Rightarrow> drainState \<times> string option" where
  "publishing w k e published =
     (case published of
        (d, Some message) \<Rightarrow> (d, Some message)
      | (d, None) \<Rightarrow> (settleDone w k e d, None))"

definition storeEffect :: "memStore \<times> string option \<Rightarrow> drainState \<Rightarrow> drainState \<times> string option" where
  "storeEffect result d = (d\<lparr>ds_store := fst result\<rparr>, snd result)"

definition handleEntry ::
  "drainWorld \<Rightarrow> nat \<Rightarrow> outboxEntry \<Rightarrow> drainState \<Rightarrow> drainState \<times> string option" where
  "handleEntry w k e d0 =
     (case o_kind e of
        PublishIssueStart \<Rightarrow>
          (let d = interfere w k 1 (emit [PublishLinear (o_runId e) LinearStarted] d0)
           in publishing w k e (d, dw_publishLinear w k (o_runId e) LinearStarted (ds_store d)))
      | PublishTriage \<Rightarrow>
          (let d = interfere w k 1 d0
           in publishing w k e (storeEffect (dw_publishTriage w k e (ds_store d)) d))
      | AdmitHandoffSummary \<Rightarrow>
          (let d = interfere w k 1 d0
           in case readRun (ds_store d) (o_runId e) of
                None \<Rightarrow> (d, Some (''Missing handoff source: '' @ o_runId e))
              | Some source \<Rightarrow>
                  (let d' = interfere w k 2 d
                   in publishing w k e (storeEffect (dw_admitHandoff w k source (ds_store d')) d')))
      | DispatchRun \<Rightarrow> handleDispatchRun w k e d0
      | MonitorDelivery \<Rightarrow> handleMonitorDelivery w k e d0
      | ReportOutcome \<Rightarrow> handleReportOutcome w k e d0)"

definition deliverEntry :: "drainWorld \<Rightarrow> nat \<Rightarrow> outboxEntry \<Rightarrow> drainState \<Rightarrow> drainState" where
  "deliverEntry w k e d0 =
     (let d = (case handleEntry w k e d0 of
                 (d, None) \<Rightarrow> d
               | (d, Some message) \<Rightarrow> settleRetryableFailure w k e message d)
      in if length (ds_failed d0) < length (ds_failed d) \<or> o_kind e = MonitorDelivery
         then d\<lparr>ds_excluded := ds_excluded d @ [o_entryId e]\<rparr> else d)"

definition claimOne :: "drainWorld \<Rightarrow> nat \<Rightarrow> drainState \<Rightarrow> drainState \<times> outboxEntry option" where
  "claimOne w k d0 =
     (let d = interfere w k 0 d0;
          claimedAt = dw_now w k 0;
          (s, claimed) = claimPendingOutbox (\<lambda>_. dw_uuid w k) (ds_store d) 1 claimedAt
            (claimedAt + OUTBOX_LEASE_MS) (ds_excluded d)
      in (d\<lparr>ds_store := s\<rparr>, case claimed of [] \<Rightarrow> None | e # _ \<Rightarrow> Some e))"

fun drainLoop :: "drainWorld \<Rightarrow> nat \<Rightarrow> nat \<Rightarrow> drainState \<Rightarrow> drainState" where
  "drainLoop w k 0 d = d"
| "drainLoop w k (Suc n) d =
     (case claimOne w k d of
        (d', None) \<Rightarrow> d'
      | (d', Some e) \<Rightarrow> drainLoop w (Suc k) n (deliverEntry w k e d'))"

definition drainOutbox :: "drainWorld \<Rightarrow> memStore \<Rightarrow> nat option \<Rightarrow> drainState" where
  "drainOutbox w s limit =
     drainLoop w 0 (orElse limit 10)
       \<lparr>ds_store = s, ds_dispatched = [], ds_reported = [], ds_failed = [], ds_excluded = [], ds_effects = []\<rparr>"

end
