(* ===== verification/Ready_Delivery.thy ===== *)
theory Ready_Delivery
  imports Outbox_Drain Work_Authorization
begin

text \<open>
  \<^verbatim>\<open>apps/console/src/lib/ready-delivery.ts\<close>: the evidence behind a delivery. Completing a run binds it
  to the pull request that carries its attempt marker (\<open>readyDeliveryBinding\<close>); the delivery monitor
  then reads that pull request, its reviews, the branch rules and the checks, and answers with an
  observation (\<open>observeGithubDelivery\<close>). The GitHub reads are arguments: \<open>githubRead\<close> answers a REST
  path of a repository, \<open>reviewRead\<close> the review query, each with the body or the exception's message.
  Numbers of the bodies are integers, as GitHub sends them.
\<close>

type_synonym githubRead = "string \<Rightarrow> string \<Rightarrow> string + json"
type_synonym reviewRead = "string \<Rightarrow> nat \<Rightarrow> string + json"

subsection \<open>Reading bodies\<close>

definition zodParse :: "(json \<Rightarrow> 'a option) \<Rightarrow> string + json \<Rightarrow> string + 'a" where
  "zodParse schema body =
     (case body of
        Inl message \<Rightarrow> Inl message
      | Inr j \<Rightarrow> (case schema j of None \<Rightarrow> Inl ''ZodError'' | Some v \<Rightarrow> Inr v))"

fun jsonBool :: "json \<Rightarrow> bool option" where
  "jsonBool (JBool b) = Some b"
| "jsonBool _ = None"

fun jsonInt :: "json \<Rightarrow> int option" where
  "jsonInt (JNum n) = Some n"
| "jsonInt _ = None"

fun jsonArray :: "json \<Rightarrow> json list option" where
  "jsonArray (JArr xs) = Some xs"
| "jsonArray _ = None"

definition arrayOf :: "(json \<Rightarrow> 'a option) \<Rightarrow> json \<Rightarrow> 'a list option" where
  "arrayOf read j = Option.bind (jsonArray j) (\<lambda>xs. those (map read xs))"

text \<open>\<^verbatim>\<open>z.number().int()\<close> accepts the safe integers.\<close>

definition nonnegativeInt :: "json \<Rightarrow> nat option" where
  "nonnegativeInt j = map_option nat (checked (\<lambda>n. 0 \<le> n \<and> n \<le> 9007199254740991) (jsonInt j))"

definition positiveInt :: "json \<Rightarrow> nat option" where
  "positiveInt j = checked (\<lambda>n. 0 < n) (nonnegativeInt j)"

definition nullable :: "(json \<Rightarrow> 'a option) \<Rightarrow> json \<Rightarrow> 'a option option" where
  "nullable read j = (case j of JNull \<Rightarrow> Some None | _ \<Rightarrow> map_option Some (read j))"

definition nullish :: "json \<Rightarrow> string \<Rightarrow> (json \<Rightarrow> 'a option) \<Rightarrow> 'a option option" where
  "nullish j k read = map_option (\<lambda>v. Option.bind v id) (optionalField j k (nullable read))"

definition commitSha :: "json \<Rightarrow> string option" where
  "commitSha j = checked sha1Hex (jsonString j)"

fun hasSubstring :: "string \<Rightarrow> string \<Rightarrow> bool" where
  "hasSubstring [] part \<longleftrightarrow> part = []"
| "hasSubstring (c # cs) part \<longleftrightarrow> take (length part) (c # cs) = part \<or> hasSubstring cs part"

subsection \<open>Pull requests and checks\<close>

record pullRequest =
  pull_number :: nat
  pull_body :: "string option"
  pull_open :: bool
  pull_draft :: bool
  pull_head :: string
  pull_base :: string
  pull_merged :: bool
  pull_mergeCommit :: "string option"
  pull_autoMerge :: "string option"

definition prSchema :: "json \<Rightarrow> pullRequest option" where
  "prSchema j = do {
     number \<leftarrow> requiredField j ''number'' positiveInt;
     body \<leftarrow> requiredField j ''body'' (nullable jsonString);
     st \<leftarrow> requiredField j ''state'' (enumerated [''open'', ''closed'']);
     draft \<leftarrow> requiredField j ''draft'' jsonBool;
     head \<leftarrow> requiredField j ''head'' (\<lambda>h. requiredField h ''sha'' commitSha);
     base \<leftarrow> requiredField j ''base'' (\<lambda>b. requiredField b ''ref'' jsonString);
     _ \<leftarrow> requiredField j ''user'' (\<lambda>u. requiredField u ''login'' jsonString);
     merged \<leftarrow> requiredField j ''merged'' jsonBool;
     mergeCommit \<leftarrow> requiredField j ''merge_commit_sha'' (nullable commitSha);
     autoMerge \<leftarrow> requiredField j ''auto_merge'' (nullable (\<lambda>a. requiredField a ''merge_method'' jsonString));
     Some \<lparr>pull_number = number, pull_body = body, pull_open = (st = ''open''), pull_draft = draft,
           pull_head = head, pull_base = base, pull_merged = merged, pull_mergeCommit = mergeCommit,
           pull_autoMerge = autoMerge\<rparr>
   }"

record observedCheck =
  ck_id :: "nat option"
  ck_suite :: "nat option"
  ck_app :: "(nat \<times> string option) option"
  ck_name :: string
  ck_head :: string
  ck_status :: string
  ck_conclusion :: "string option"

definition appSchema :: "json \<Rightarrow> (nat \<times> string option) option" where
  "appSchema a = do {
     appId \<leftarrow> requiredField a ''id'' positiveInt;
     slug \<leftarrow> nullish a ''slug'' jsonString;
     Some (appId, slug)
   }"

definition checkRunSchema :: "json \<Rightarrow> observedCheck option" where
  "checkRunSchema j = do {
     checkId \<leftarrow> optionalField j ''id'' positiveInt;
     suite \<leftarrow> optionalField j ''check_suite'' (\<lambda>s. requiredField s ''id'' positiveInt);
     app \<leftarrow> nullish j ''app'' appSchema;
     name \<leftarrow> requiredField j ''name'' jsonString;
     head \<leftarrow> requiredField j ''head_sha'' commitSha;
     status \<leftarrow> requiredField j ''status'' jsonString;
     conclusion \<leftarrow> requiredField j ''conclusion'' (nullable jsonString);
     Some \<lparr>ck_id = checkId, ck_suite = suite, ck_app = app, ck_name = name, ck_head = head,
           ck_status = status, ck_conclusion = conclusion\<rparr>
   }"

definition isBlockingCheckConclusion :: "string option \<Rightarrow> bool" where
  "isBlockingCheckConclusion conclusion \<longleftrightarrow>
     orElse conclusion [] \<in> {''failure'', ''timed_out'', ''action_required'', ''cancelled'', ''startup_failure'', ''stale''}"

text \<open>\<^verbatim>\<open>app?.slug\<close>, where the empty slug counts as none.\<close>

definition appSlug :: "observedCheck \<Rightarrow> string option" where
  "appSlug c = checked (\<lambda>s. s \<noteq> []) (Option.bind (ck_app c) snd)"

subsection \<open>Branch rules\<close>

record requiredCheck =
  rc_context :: string
  rc_integration :: "nat option"

type_synonym branchRule = "string \<times> json option"

definition rulesSchema :: "json \<Rightarrow> branchRule list option" where
  "rulesSchema j =
     checked (\<lambda>rules. length rules \<le> 100)
       (arrayOf (\<lambda>r. map_option (\<lambda>kind. (kind, jsonField r ''parameters'')) (requiredField r ''type'' jsonString)) j)"

definition requiredCheckSchema :: "json \<Rightarrow> requiredCheck option" where
  "requiredCheckSchema j = do {
     name \<leftarrow> requiredField j ''context'' jsonString;
     integration \<leftarrow> nullish j ''integration_id'' nonnegativeInt;
     Some \<lparr>rc_context = name, rc_integration = integration\<rparr>
   }"

definition checkParameters :: "branchRule \<Rightarrow> requiredCheck list option" where
  "checkParameters rule =
     Option.bind (snd rule) (\<lambda>p. requiredField p ''required_status_checks'' (arrayOf requiredCheckSchema))"

definition policyUnknown :: string where
  "policyUnknown = ''Protected delivery policy could not be established''"

text \<open>The map that removes duplicates is keyed by the text of context and integration, which determines
  both; a later duplicate takes the place of the earlier one.\<close>

definition uniqueChecks :: "requiredCheck list \<Rightarrow> requiredCheck list" where
  "uniqueChecks required =
     map snd (foldl (\<lambda>m c. AList.update (rc_context c, orElse (rc_integration c) 0) c m) [] required)"

definition establishedChecks :: "branchRule list \<Rightarrow> string + requiredCheck list" where
  "establishedChecks rules =
     (let checkRules = filter (\<lambda>(kind, _). kind = ''required_status_checks'') rules
      in if \<not> list_ex (\<lambda>(kind, _). kind = ''pull_request'') rules \<or> checkRules = [] then Inl policyUnknown
         else (case those (map checkParameters checkRules) of
                 None \<Rightarrow> Inl ''ZodError''
               | Some groups \<Rightarrow>
                   if concat groups = [] then Inl policyUnknown else Inr (uniqueChecks (concat groups))))"

fun rulePages :: "nat \<Rightarrow> githubRead \<Rightarrow> string \<Rightarrow> string \<Rightarrow> nat \<Rightarrow> branchRule list \<Rightarrow> string + requiredCheck list" where
  "rulePages 0 gh repo base page rules = Inl ''Protected delivery policy read was truncated''"
| "rulePages (Suc n) gh repo base page rules =
     (case zodParse rulesSchema (gh repo (''rules/branches/'' @ encodeURIComponent base @
             ''?per_page=100&page='' @ showNat page)) of
        Inl message \<Rightarrow> Inl message
      | Inr batch \<Rightarrow>
          if length batch = 100 then rulePages n gh repo base (page + 1) (rules @ batch)
          else establishedChecks (rules @ batch))"

definition protectedChecks :: "githubRead \<Rightarrow> string \<Rightarrow> string \<Rightarrow> string + requiredCheck list" where
  "protectedChecks gh repo base = rulePages 10 gh repo base 1 []"

subsection \<open>Reviews\<close>

record review =
  rv_state :: string
  rv_author :: "string option"
  rv_commit :: "string option"

record reviewEvidence =
  re_errors :: nat
  re_head :: string
  re_reviews :: "review list"
  re_threads :: "bool list"

definition reviewSchema :: "json \<Rightarrow> review option" where
  "reviewSchema j = do {
     st \<leftarrow> requiredField j ''state'' jsonString;
     author \<leftarrow> requiredField j ''author'' (nullable (\<lambda>a. requiredField a ''login'' jsonString));
     commit \<leftarrow> requiredField j ''commit'' (nullable (\<lambda>c. requiredField c ''oid'' commitSha));
     Some \<lparr>rv_state = st, rv_author = author, rv_commit = commit\<rparr>
   }"

text \<open>A connection whose page information says that there is more is refused.\<close>

definition wholeConnection :: "string \<Rightarrow> (json \<Rightarrow> 'a option) \<Rightarrow> json \<Rightarrow> 'a list option" where
  "wholeConnection flag read j = do {
     _ \<leftarrow> requiredField j ''pageInfo'' (\<lambda>p. requiredField p flag (checked Not \<circ> jsonBool));
     requiredField j ''nodes'' (arrayOf read)
   }"

definition reviewsSchema :: "json \<Rightarrow> reviewEvidence option" where
  "reviewsSchema j = do {
     errors \<leftarrow> optionalField j ''errors'' jsonArray;
     pull \<leftarrow> requiredField j ''data'' (\<lambda>d. requiredField d ''repository'' (\<lambda>r. jsonField r ''pullRequest''));
     head \<leftarrow> requiredField pull ''headRefOid'' commitSha;
     rs \<leftarrow> requiredField pull ''reviews'' (wholeConnection ''hasPreviousPage'' reviewSchema);
     threads \<leftarrow> requiredField pull ''reviewThreads''
       (wholeConnection ''hasNextPage'' (\<lambda>t. requiredField t ''isResolved'' jsonBool));
     Some \<lparr>re_errors = length (orElse errors []), re_head = head, re_reviews = rs, re_threads = threads\<rparr>
   }"

definition latestReviews :: "string \<Rightarrow> review list \<Rightarrow> (string \<times> review) list" where
  "latestReviews head rs =
     foldl (\<lambda>m r. case (rv_author r, rv_commit r) of
                    (Some who, Some commit) \<Rightarrow>
                      if commit = head \<and> rv_state r \<in> {''APPROVED'', ''CHANGES_REQUESTED'', ''DISMISSED''}
                      then AList.update who r m else m
                  | _ \<Rightarrow> m) [] rs"

text \<open>Whether changes are requested, and whether a thread is unresolved.\<close>

definition reviews :: "reviewRead \<Rightarrow> string \<Rightarrow> nat \<Rightarrow> string \<Rightarrow> string + bool \<times> bool" where
  "reviews gql repo number head =
     (case zodParse reviewsSchema (gql repo number) of
        Inl message \<Rightarrow> Inl message
      | Inr d \<Rightarrow>
          if 0 < re_errors d \<or> re_head d \<noteq> head then Inl ''Delivery revision or review evidence changed''
          else Inr (list_ex (\<lambda>(_, r). rv_state r = ''CHANGES_REQUESTED'') (latestReviews head (re_reviews d)),
                    list_ex Not (re_threads d)))"

subsection \<open>Complete bounded reads\<close>

text \<open>The three paged reads of the file differ in the page they read and in their messages. A page
  states the total; the read ends when it has collected that many, and refuses a changed total, a
  repeated element, more elements than stated, and a short page before the end. It answers with the
  elements and the number of pages read.\<close>

datatype pageError =
    PageUnread string
  | PagesChanged
  | PagesRepeated
  | PagesInconsistent
  | PagesTruncated
  | PagesExceeded

fun collectPages ::
  "nat \<Rightarrow> (nat \<Rightarrow> string + nat \<times> 'a list) \<Rightarrow> ('a \<Rightarrow> 'k option) \<Rightarrow> nat \<Rightarrow> nat option \<Rightarrow> 'a list \<Rightarrow>
   pageError + 'a list \<times> nat" where
  "collectPages 0 read key page stated acc = Inl PagesExceeded"
| "collectPages (Suc n) read key page stated acc =
     (case read page of
        Inl message \<Rightarrow> Inl (PageUnread message)
      | Inr (count, batch) \<Rightarrow>
          if stated \<noteq> None \<and> stated \<noteq> Some count then Inl PagesChanged
          else if \<not> distinct (List.map_filter key (acc @ batch)) then Inl PagesRepeated
          else if count < length (acc @ batch) then Inl PagesInconsistent
          else if length (acc @ batch) = count then Inr (acc @ batch, page)
          else if length batch < 100 then Inl PagesTruncated
          else collectPages n read key (page + 1) (Some count) (acc @ batch))"

fun checksMessage :: "pageError \<Rightarrow> string" where
  "checksMessage (PageUnread message) = message"
| "checksMessage PagesChanged = ''Checks changed during pagination''"
| "checksMessage PagesRepeated = ''Checks pagination repeated evidence''"
| "checksMessage PagesInconsistent = ''Checks count inconsistent''"
| "checksMessage PagesTruncated = ''Checks truncated''"
| "checksMessage PagesExceeded = ''Checks exceed bounded read''"

definition pageSchema :: "string \<Rightarrow> (json \<Rightarrow> 'a option) \<Rightarrow> json \<Rightarrow> (nat \<times> 'a list) option" where
  "pageSchema field read j = do {
     count \<leftarrow> requiredField j ''total_count'' nonnegativeInt;
     xs \<leftarrow> requiredField j field (arrayOf read);
     Some (count, xs)
   }"

definition checksPath :: "deliveryBinding \<Rightarrow> string" where
  "checksPath binding = ''commits/'' @ dl_head binding @ ''/check-runs?per_page=100&filter=latest''"

definition checkPage :: "githubRead \<Rightarrow> deliveryBinding \<Rightarrow> nat \<Rightarrow> string + nat \<times> observedCheck list" where
  "checkPage gh binding page =
     zodParse (checked (\<lambda>(_, cs). length cs \<le> 100) \<circ> pageSchema ''check_runs'' checkRunSchema)
       (gh (dl_repo binding) (checksPath binding @ ''&page='' @ showNat page))"

definition currentCheckRuns :: "githubRead \<Rightarrow> deliveryBinding \<Rightarrow> string + observedCheck list" where
  "currentCheckRuns gh binding =
     (case collectPages 10 (checkPage gh binding) ck_id 1 None [] of
        Inl err \<Rightarrow> Inl (checksMessage err)
      | Inr (cs, _) \<Rightarrow> Inr cs)"

subsection \<open>Checks of other apps\<close>

definition suiteSchema :: "json \<Rightarrow> (nat \<times> string \<times> nat \<times> string \<times> string \<times> string option) option" where
  "suiteSchema j = do {
     suiteId \<leftarrow> requiredField j ''id'' positiveInt;
     head \<leftarrow> requiredField j ''head_sha'' commitSha;
     appId \<leftarrow> requiredField j ''app'' (\<lambda>a. requiredField a ''id'' positiveInt);
     slug \<leftarrow> requiredField j ''app'' (\<lambda>a. requiredField a ''slug'' jsonString);
     status \<leftarrow> requiredField j ''status'' jsonString;
     conclusion \<leftarrow> requiredField j ''conclusion'' (nullable jsonString);
     Some (suiteId, head, appId, slug, status, conclusion)
   }"

definition suiteBlocks :: "githubRead \<Rightarrow> deliveryBinding \<Rightarrow> nat \<Rightarrow> nat \<Rightarrow> string \<Rightarrow> bool" where
  "suiteBlocks gh binding suite appId slug =
     (case zodParse suiteSchema (gh (dl_repo binding) (''check-suites/'' @ showNat suite)) of
        Inl _ \<Rightarrow> False
      | Inr (suiteId, head, app, name, status, conclusion) \<Rightarrow>
          suiteId = suite \<and> head = dl_head binding \<and> app = appId \<and> name = slug \<and> status = ''completed'' \<and>
          isBlockingCheckConclusion conclusion)"

definition checkStillBlocks :: "githubRead \<Rightarrow> deliveryBinding \<Rightarrow> nat \<Rightarrow> nat \<Rightarrow> nat \<Rightarrow> string \<Rightarrow> string \<Rightarrow> bool" where
  "checkStillBlocks gh binding checkId suite appId slug name =
     (case zodParse (pageSchema ''check_runs'' checkRunSchema)
             (gh (dl_repo binding) (checksPath binding @ ''&app_id='' @ showNat appId @ ''&check_name='' @
                encodeURIComponent name)) of
        Inl _ \<Rightarrow> False
      | Inr (count, cs) \<Rightarrow>
          (case cs of
             [c] \<Rightarrow>
               count = 1 \<and> ck_id c = Some checkId \<and> ck_name c = name \<and> ck_head c = dl_head binding \<and>
               ck_suite c = Some suite \<and> ck_app c = Some (appId, Some slug) \<and> ck_status c = ''completed'' \<and>
               isBlockingCheckConclusion (ck_conclusion c)
           | _ \<Rightarrow> False))"

definition qualifiesApp :: "githubRead \<Rightarrow> deliveryBinding \<Rightarrow> observedCheck \<Rightarrow> nat option" where
  "qualifiesApp gh binding c =
     (case (ck_id c, ck_suite c, ck_app c, appSlug c) of
        (Some checkId, Some suite, Some (appId, _), Some slug) \<Rightarrow>
          if suiteBlocks gh binding suite appId slug \<and>
             checkStillBlocks gh binding checkId suite appId slug (ck_name c)
          then Some checkId else None
      | _ \<Rightarrow> None)"

definition currentNonActionCheckIds :: "githubRead \<Rightarrow> deliveryBinding \<Rightarrow> observedCheck list \<Rightarrow> nat list" where
  "currentNonActionCheckIds gh binding checks =
     (if 10 < length checks then [] else List.map_filter (qualifiesApp gh binding) checks)"

subsection \<open>Checks of workflow runs\<close>

record workflowRun =
  wr_id :: nat
  wr_workflow :: nat
  wr_number :: nat
  wr_attempt :: nat
  wr_head :: string
  wr_suite :: nat
  wr_conclusion :: "string option"

definition workflowRunSchema :: "json \<Rightarrow> workflowRun option" where
  "workflowRunSchema j = do {
     runId \<leftarrow> requiredField j ''id'' positiveInt;
     workflow \<leftarrow> requiredField j ''workflow_id'' positiveInt;
     number \<leftarrow> requiredField j ''run_number'' positiveInt;
     attempt \<leftarrow> requiredField j ''run_attempt'' positiveInt;
     head \<leftarrow> requiredField j ''head_sha'' commitSha;
     suite \<leftarrow> requiredField j ''check_suite_id'' positiveInt;
     _ \<leftarrow> requiredField j ''event'' jsonString;
     conclusion \<leftarrow> requiredField j ''conclusion'' (nullable jsonString);
     Some \<lparr>wr_id = runId, wr_workflow = workflow, wr_number = number, wr_attempt = attempt, wr_head = head,
           wr_suite = suite, wr_conclusion = conclusion\<rparr>
   }"

record workflowJob =
  wj_run :: int
  wj_attempt :: "int option"
  wj_head :: string
  wj_checkUrl :: string
  wj_status :: string
  wj_conclusion :: "string option"

definition workflowJobSchema :: "json \<Rightarrow> workflowJob option" where
  "workflowJobSchema j = do {
     runId \<leftarrow> requiredField j ''run_id'' jsonInt;
     attempt \<leftarrow> optionalField j ''run_attempt'' jsonInt;
     head \<leftarrow> requiredField j ''head_sha'' commitSha;
     url \<leftarrow> requiredField j ''check_run_url'' jsonString;
     status \<leftarrow> requiredField j ''status'' jsonString;
     conclusion \<leftarrow> requiredField j ''conclusion'' (nullable jsonString);
     Some \<lparr>wj_run = runId, wj_attempt = attempt, wj_head = head, wj_checkUrl = url, wj_status = status,
           wj_conclusion = conclusion\<rparr>
   }"

text \<open>Here a page of more than a hundred elements is refused after parsing.\<close>

definition actionsPage :: "string \<Rightarrow> string + nat \<times> 'a list \<Rightarrow> string + nat \<times> 'a list" where
  "actionsPage message page =
     (case page of
        Inl m \<Rightarrow> Inl m
      | Inr (count, xs) \<Rightarrow> if 100 < length xs then Inl message else Inr (count, xs))"

definition workflowPage :: "githubRead \<Rightarrow> deliveryBinding \<Rightarrow> nat \<Rightarrow> string + nat \<times> workflowRun list" where
  "workflowPage gh binding page =
     actionsPage ''Actions workflow evidence changed''
       (zodParse (pageSchema ''workflow_runs'' workflowRunSchema)
          (gh (dl_repo binding) (''actions/runs?head_sha='' @ dl_head binding @ ''&per_page=100&page='' @ showNat page)))"

text \<open>All pages of jobs together with those of the workflow runs are at most twenty reads.\<close>

definition jobPage :: "githubRead \<Rightarrow> deliveryBinding \<Rightarrow> workflowRun \<Rightarrow> nat \<Rightarrow> nat \<Rightarrow> string + nat \<times> workflowJob list" where
  "jobPage gh binding w reads page =
     (if 20 < reads + page then Inl ''Actions evidence exceeds bounded read''
      else actionsPage ''Actions job evidence changed''
        (zodParse (pageSchema ''jobs'' workflowJobSchema)
           (gh (dl_repo binding) (''actions/runs/'' @ showNat (wr_id w) @ ''/attempts/'' @ showNat (wr_attempt w) @
              ''/jobs?per_page=100&page='' @ showNat page))))"

text \<open>The newest run of each workflow at the bound head; two runs of a workflow with one number are
  ambiguous.\<close>

fun currentRuns :: "string \<Rightarrow> workflowRun list \<Rightarrow> (nat \<times> workflowRun) list \<Rightarrow> (nat \<times> workflowRun) list option" where
  "currentRuns head [] m = Some m"
| "currentRuns head (w # ws) m =
     (if wr_head w \<noteq> head then currentRuns head ws m
      else (case map_of m (wr_workflow w) of
              None \<Rightarrow> currentRuns head ws (AList.update (wr_workflow w) w m)
            | Some previous \<Rightarrow>
                if wr_number previous = wr_number w \<and> wr_id previous \<noteq> wr_id w then None
                else if wr_number previous < wr_number w \<or>
                        wr_number w = wr_number previous \<and> wr_attempt previous < wr_attempt w
                then currentRuns head ws (AList.update (wr_workflow w) w m)
                else currentRuns head ws m))"

definition parentRuns :: "observedCheck list \<Rightarrow> (nat \<times> workflowRun) list \<Rightarrow> workflowRun list" where
  "parentRuns checks current =
     filter (\<lambda>w. wr_conclusion w \<noteq> Some ''cancelled'' \<and> list_ex (\<lambda>c. ck_suite c = Some (wr_suite w)) checks)
       (map snd current)"

definition jobCheckId :: "deliveryBinding \<Rightarrow> workflowJob \<Rightarrow> nat option" where
  "jobCheckId binding job =
     Option.bind (stripPrefix (''https://api.github.com/repos/'' @ dl_repo binding @ ''/check-runs/'') (wj_checkUrl job))
       (\<lambda>suffix. if suffix \<noteq> [] \<and> list_all isDigit suffix then Some (readNat suffix) else None)"

definition qualifiesJob :: "deliveryBinding \<Rightarrow> observedCheck list \<Rightarrow> workflowRun \<Rightarrow> workflowJob \<Rightarrow> nat option" where
  "qualifiesJob binding checks w job =
     (if wj_run job \<noteq> int (wr_id w) \<or> (wj_attempt job \<noteq> None \<and> wj_attempt job \<noteq> Some (int (wr_attempt w))) \<or>
         wj_head job \<noteq> dl_head binding \<or> wj_status job \<noteq> ''completed'' \<or>
         \<not> isBlockingCheckConclusion (wj_conclusion job)
      then None
      else checked (\<lambda>i. list_ex (\<lambda>c. ck_id c = Some i \<and> ck_suite c = Some (wr_suite w)) checks)
             (jobCheckId binding job))"

text \<open>An unreadable list of jobs ends the search and keeps what earlier runs established.\<close>

fun qualifyRuns ::
  "githubRead \<Rightarrow> deliveryBinding \<Rightarrow> observedCheck list \<Rightarrow> workflowRun list \<Rightarrow> nat \<Rightarrow> nat list \<Rightarrow> nat list" where
  "qualifyRuns gh binding checks [] reads qualified = qualified"
| "qualifyRuns gh binding checks (w # ws) reads qualified =
     (case collectPages 10 (jobPage gh binding w reads) (Some \<circ> wj_checkUrl) 1 None [] of
        Inl _ \<Rightarrow> qualified
      | Inr (jobs, pages) \<Rightarrow>
          qualifyRuns gh binding checks ws (reads + pages)
            (qualified @ List.map_filter (qualifiesJob binding checks w) jobs))"

definition currentActionCheckIds :: "githubRead \<Rightarrow> deliveryBinding \<Rightarrow> observedCheck list \<Rightarrow> nat list" where
  "currentActionCheckIds gh binding checks =
     (if checks = [] then []
      else
        (case collectPages 10 (workflowPage gh binding) (Some \<circ> wr_id) 1 None [] of
           Inl _ \<Rightarrow> []
         | Inr (runs, pages) \<Rightarrow>
             (case currentRuns (dl_head binding) runs [] of
                None \<Rightarrow> []
              | Some current \<Rightarrow>
                  (let parents = parentRuns checks current
                   in if 10 < length parents then [] else qualifyRuns gh binding checks parents pages []))))"

subsection \<open>Observing a delivery\<close>

definition attemptMarker :: "string \<Rightarrow> nat \<Rightarrow> string" where
  "attemptMarker runId generation = ''<!-- attempt-claim:'' @ formatAttemptId generation runId @ '' -->''"

definition carriesMarker :: "string \<Rightarrow> nat \<Rightarrow> pullRequest \<Rightarrow> bool" where
  "carriesMarker runId generation pull =
     (case pull_body pull of None \<Rightarrow> False | Some body \<Rightarrow> hasSubstring body (attemptMarker runId generation))"

definition readPull :: "githubRead \<Rightarrow> string \<Rightarrow> nat \<Rightarrow> string + pullRequest" where
  "readPull gh repo number = zodParse prSchema (gh repo (''pulls/'' @ showNat number))"

definition requires :: "requiredCheck \<Rightarrow> observedCheck \<Rightarrow> bool" where
  "requires rule c \<longleftrightarrow>
     rc_context rule = ck_name c \<and>
     (orElse (rc_integration rule) 0 = 0 \<or> rc_integration rule = map_option fst (ck_app c))"

definition candidateFailures :: "deliveryBinding \<Rightarrow> requiredCheck list \<Rightarrow> observedCheck list \<Rightarrow> observedCheck list" where
  "candidateFailures binding required cs =
     filter (\<lambda>c. ck_head c = dl_head binding \<and> list_ex (\<lambda>rule. requires rule c) required \<and>
                 ck_status c = ''completed'' \<and> isBlockingCheckConclusion (ck_conclusion c)) cs"

definition fromActions :: "observedCheck \<Rightarrow> bool" where
  "fromActions c \<longleftrightarrow> appSlug c = None \<or> appSlug c = Some ''github-actions''"

definition qualifiedFailures :: "githubRead \<Rightarrow> deliveryBinding \<Rightarrow> observedCheck list \<Rightarrow> observedCheck list" where
  "qualifiedFailures gh binding candidates =
     (let currentCheckIds = currentActionCheckIds gh binding (filter fromActions candidates);
          currentAppCheckIds = currentNonActionCheckIds gh binding (filter (Not \<circ> fromActions) candidates)
      in filter (\<lambda>c. case ck_id c of
                       None \<Rightarrow> False
                     | Some i \<Rightarrow> i \<in> set currentCheckIds \<or> i \<in> set currentAppCheckIds) candidates)"

fun joinNames :: "string list \<Rightarrow> string" where
  "joinNames [] = []"
| "joinNames [n] = n"
| "joinNames (n # ns) = n @ '', '' @ joinNames ns"

definition observeChecks :: "githubRead \<Rightarrow> deliveryBinding \<Rightarrow> pullRequest \<Rightarrow> string + deliveryObservation" where
  "observeChecks gh binding pull =
     (case protectedChecks gh (dl_repo binding) (pull_base pull) of
        Inl message \<Rightarrow> Inl message
      | Inr required \<Rightarrow>
          (case currentCheckRuns gh binding of
             Inl message \<Rightarrow> Inl message
           | Inr cs \<Rightarrow>
               (case qualifiedFailures gh binding (candidateFailures binding required cs) of
                  [] \<Rightarrow> Inr (ObsWaiting (dl_head binding))
                | failed \<Rightarrow>
                    Inr (ObsCorrection (dl_head binding)
                           (''Required checks failed: '' @ joinNames (map ck_name failed))))))"

definition observeOpen :: "githubRead \<Rightarrow> reviewRead \<Rightarrow> deliveryBinding \<Rightarrow> pullRequest \<Rightarrow> string + deliveryObservation" where
  "observeOpen gh gql binding pull =
     (case parseRunGeneration (dl_runId binding) of
        None \<Rightarrow> Inl ''Delivery generation invalid''
      | Some generation \<Rightarrow>
          if pull_base pull \<noteq> dl_baseRef binding \<or> \<not> carriesMarker (dl_runId binding) generation pull
          then Inl ''Delivery artifact identity changed''
          else if pull_draft pull \<or> pull_autoMerge pull \<noteq> Some ''squash''
          then Inr (ObsWaiting (dl_head binding))
          else if pull_head pull \<noteq> dl_head binding
          then Inr (ObsRevision (dl_head binding) (pull_head pull))
          else (case reviews gql (dl_repo binding) (dl_number binding) (pull_head pull) of
                  Inl message \<Rightarrow> Inl message
                | Inr (changesRequested, unresolved) \<Rightarrow>
                    if changesRequested \<or> unresolved
                    then Inr (ObsCorrection (dl_head binding) ''Review feedback requires correction'')
                    else observeChecks gh binding pull))"

definition observeGithubDelivery :: "githubRead \<Rightarrow> reviewRead \<Rightarrow> deliveryBinding \<Rightarrow> string + deliveryObservation" where
  "observeGithubDelivery gh gql binding =
     (case readPull gh (dl_repo binding) (dl_number binding) of
        Inl message \<Rightarrow> Inl message
      | Inr pull \<Rightarrow>
          if pull_number pull \<noteq> dl_number binding then Inl ''Delivery artifact identity changed''
          else if \<not> pull_open pull \<and> \<not> pull_merged pull \<or> pull_merged pull \<and> pull_base pull \<noteq> dl_baseRef binding
          then Inr (ObsWithdrawn (dl_head binding))
          else (case (pull_merged pull, pull_mergeCommit pull) of
                  (True, Some commit) \<Rightarrow> Inr (ObsMerged (dl_head binding) commit)
                | _ \<Rightarrow> observeOpen gh gql binding pull))"

subsection \<open>Binding a delivery\<close>

datatype bindingError = UnqualifiedDelivery string | DeliveryRefused string

definition readyDeliveryBinding ::
  "githubRead \<Rightarrow> run \<Rightarrow> task \<Rightarrow> string \<Rightarrow> nat \<Rightarrow> timestamp \<Rightarrow> bindingError + deliveryBinding" where
  "readyDeliveryBinding gh r t repo number now =
     (case readPull gh repo number of
        Inl message \<Rightarrow> Inl (DeliveryRefused message)
      | Inr pull \<Rightarrow>
          (case (parseRunGeneration (r_runId r), workPayloadSchema (t_work t)) of
             (None, _) \<Rightarrow> Inl (DeliveryRefused ''Delivery generation invalid'')
           | (_, None) \<Rightarrow> Inl (DeliveryRefused ''Delivery requires coding Work'')
           | (Some generation, Some (_, spec)) \<Rightarrow>
               if ws_repo spec \<noteq> repo then Inl (DeliveryRefused ''Delivery target changed'')
               else if pull_number pull \<noteq> number \<or> (\<not> pull_merged pull \<and> \<not> pull_open pull) \<or> pull_draft pull \<or>
                       \<not> carriesMarker (r_runId r) generation pull
               then Inl (DeliveryRefused ''Deliverable is not ready and armed'')
               else if \<not> pull_merged pull \<and> pull_autoMerge pull \<noteq> None \<and> pull_autoMerge pull \<noteq> Some ''squash''
               then Inl (DeliveryRefused ''Deliverable is armed with a non-squash method'')
               else (case protectedChecks gh repo (pull_base pull) of
                       Inl message \<Rightarrow> Inl (DeliveryRefused message)
                     | Inr _ \<Rightarrow>
                         if \<not> pull_merged pull \<and> pull_autoMerge pull = None
                         then Inl (UnqualifiedDelivery ''Deliverable is not armed yet'')
                         else
                           (let binding =
                              \<lparr>dl_runId = r_runId r, dl_repo = repo, dl_number = number, dl_baseRef = pull_base pull,
                               dl_head = pull_head pull, dl_state = DeliveryWaiting, dl_correctionRunId = None,
                               dl_observedAt = now, dl_mergeCommit = None\<rparr>
                            in if \<not> pull_merged pull then Inr binding
                               else (case pull_mergeCommit pull of
                                       None \<Rightarrow> Inl (DeliveryRefused ''Merge commit not established'')
                                     | Some commit \<Rightarrow>
                                         Inr (binding\<lparr>dl_mergeCommit := Some commit, dl_state := DeliveryComplete\<rparr>))))))"

subsection \<open>Authority of a correction\<close>

definition deliveryIntentPipeline :: "task \<Rightarrow> string option" where
  "deliveryIntentPipeline t =
     (case workPayloadSchema (t_work t) of
        None \<Rightarrow> None
      | Some (_, spec) \<Rightarrow>
          Some (orElse (Option.bind (t_providerRouting t) (\<lambda>p. map_option ag_pipeline (pr_acceptedGeneration p)))
                  (orElse (map_option pr_effectivePipeline (t_providerRouting t)) (ws_pipeline spec))))"

definition intentRunId :: "task \<Rightarrow> string option" where
  "intentRunId t = Option.bind (t_providerRouting t) (\<lambda>p. map_option ag_runId (pr_acceptedGeneration p))"

record intakePermission =
  ip_runId :: string
  ip_head :: string
  ip_repo :: string
  ip_principal :: string
  ip_pipeline :: string
  ip_observedAt :: timestamp
  ip_intentRunId :: "string option"

text \<open>\<^verbatim>\<open>/^github:([\w.-]+(?:\[bot\])?)$/\<close>, the captured login.\<close>

definition loginChar :: "char \<Rightarrow> bool" where
  "loginChar c \<longleftrightarrow> isDigit c \<or> isLower c \<or> isUpper c \<or> c \<in> {CHR ''_'', CHR ''.'', CHR ''-''}"

definition githubActor :: "string \<Rightarrow> string option" where
  "githubActor who =
     Option.bind (stripPrefix ''github:'' who)
       (\<lambda>actor.
          let name = (case stripPrefix (rev ''[bot]'') (rev actor) of None \<Rightarrow> actor | Some n \<Rightarrow> rev n)
          in if name \<noteq> [] \<and> list_all loginChar name then Some actor else None)"

definition permissionSchema :: "json \<Rightarrow> (string \<times> string \<times> string) option" where
  "permissionSchema j = do {
     permission \<leftarrow> requiredField j ''permission'' jsonString;
     role \<leftarrow> requiredField j ''role_name'' jsonString;
     login \<leftarrow> requiredField j ''user'' (\<lambda>u. requiredField u ''login'' jsonString);
     Some (permission, role, login)
   }"

definition intakeActor :: "(string \<Rightarrow> bool) \<Rightarrow> task \<Rightarrow> run \<Rightarrow> (deliveryBinding \<times> string \<times> string) option" where
  "intakeActor admitted t r =
     (case (workPayloadSchema (t_work t), t_delivery t) of
        (Some (origin, spec), Some binding) \<Rightarrow>
          if wo_channel origin \<noteq> ''github'' \<or> deliveryIntentPipeline t \<noteq> Some (r_pipeline r) \<or>
             dl_repo binding \<noteq> ws_repo spec \<or> \<not> admitted (dl_repo binding)
          then None
          else map_option (\<lambda>actor. (binding, wo_principal origin, actor)) (githubActor (wo_principal origin))
      | _ \<Rightarrow> None)"

definition readGithubIntakePermission ::
  "githubRead \<Rightarrow> (string \<Rightarrow> bool) \<Rightarrow> timestamp \<Rightarrow> task \<Rightarrow> run \<Rightarrow> string + intakePermission option" where
  "readGithubIntakePermission gh admitted now t r =
     (case intakeActor admitted t r of
        None \<Rightarrow> Inr None
      | Some (binding, who, actor) \<Rightarrow>
          (case zodParse permissionSchema
                  (gh (dl_repo binding) (''collaborators/'' @ encodeURIComponent actor @ ''/permission'')) of
             Inl message \<Rightarrow> Inl message
           | Inr (permission, role, login) \<Rightarrow>
               if toLowerCase login \<noteq> toLowerCase actor \<or>
                  permission \<notin> {''admin'', ''write'', ''maintain'', ''triage''} \<and> role \<notin> {''triage'', ''triage_plus''}
               then Inr None
               else Inr (Some \<lparr>ip_runId = r_runId r, ip_head = dl_head binding, ip_repo = dl_repo binding,
                               ip_principal = who, ip_pipeline = r_pipeline r, ip_observedAt = now,
                               ip_intentRunId = intentRunId t\<rparr>)))"

definition permits :: "timestamp \<Rightarrow> task \<Rightarrow> run \<Rightarrow> workOrigin \<Rightarrow> deliveryBinding \<Rightarrow> intakePermission \<Rightarrow> bool" where
  "permits now t r origin binding p \<longleftrightarrow>
     ip_runId p = r_runId r \<and> ip_head p = dl_head binding \<and> ip_repo p = dl_repo binding \<and>
     ip_pipeline p = r_pipeline r \<and> ip_principal p = wo_principal origin \<and> ip_intentRunId p = intentRunId t \<and>
     now - ip_observedAt p \<le> 30000"

definition operatorGrant :: "workGrant list \<Rightarrow> string \<Rightarrow> string \<Rightarrow> bool" where
  "operatorGrant grants who pipeline =
     (case orOpt (grantForPrincipal who grants) (resolvePrincipal who grants) of
        None \<Rightarrow> False
      | Some g \<Rightarrow> ''work.operator'' \<in> set (wg_scopes g) \<and> pipeline \<in> set (wg_pipelines g))"

definition deliveryCorrectionAuthorized ::
  "workGrant list \<Rightarrow> (string \<Rightarrow> bool) \<Rightarrow> timestamp \<Rightarrow> intakePermission option \<Rightarrow> task \<Rightarrow> run \<Rightarrow> bool" where
  "deliveryCorrectionAuthorized grants admitted now permission t r =
     (case (workPayloadSchema (t_work t), t_delivery t) of
        (Some (origin, spec), Some binding) \<Rightarrow>
          if \<not> admitted (ws_repo spec) \<or> dl_repo binding \<noteq> ws_repo spec \<or>
             (case t_task t of GithubAnchor repo _ \<Rightarrow> repo \<noteq> ws_repo spec | WorkAnchor _ \<Rightarrow> False)
          then False
          else if Some (r_pipeline r) \<noteq> deliveryIntentPipeline t
          then (case r_providerFallback r of
                  None \<Rightarrow> False
                | Some f \<Rightarrow> pf_fromRunId f \<noteq> None \<and> r_pipeline r \<in> set (pf_attemptedPipelines f) \<and>
                            r_pipeline r \<in> set (currentFallbackPipelines t r grants admitted))
          else operatorGrant grants (wo_principal origin) (r_pipeline r) \<or>
               (wo_channel origin = ''github'' \<and>
                (case permission of None \<Rightarrow> False | Some p \<Rightarrow> permits now t r origin binding p))
      | _ \<Rightarrow> False)"

subsection \<open>The delivery monitor\<close>

text \<open>The drain with this file in place of its parameters. The authority is asked for again inside the
  transaction; without a permission it reads no clock.\<close>

definition monitorWorld ::
  "(nat \<Rightarrow> githubRead) \<Rightarrow> (nat \<Rightarrow> reviewRead) \<Rightarrow> workGrant list \<Rightarrow> (string \<Rightarrow> bool) \<Rightarrow> (nat \<Rightarrow> timestamp) \<Rightarrow>
   (nat \<Rightarrow> timestamp) \<Rightarrow> drainWorld \<Rightarrow> drainWorld" where
  "monitorWorld gh gql grants admitted readAt decidedAt w =
     w\<lparr>dw_observeDelivery := (\<lambda>k. observeGithubDelivery (gh k) (gql k)),
       dw_authorized := deliveryCorrectionAuthorized grants admitted 0 None,
       dw_readPermission := (\<lambda>k t r.
         case readGithubIntakePermission (gh k) admitted (readAt k) t r of
           Inl message \<Rightarrow> Inl message
         | Inr permission \<Rightarrow> Inr (deliveryCorrectionAuthorized grants admitted (decidedAt k) permission))\<rparr>"

end
