(* ===== verification/Drain_Guarantees.thy ===== *)
theory Drain_Guarantees
  imports Scenario Outbox_Drain
begin

text \<open>
  What the drain guarantees: it leaves no entry it handled under its own lease, an outcome entry is
  done only when the outcome was delivered, a delivery that keeps failing is retired after a bounded
  number of attempts, and the human-attention label ends up the same whatever the order in which
  delayed outcomes are delivered. Where its publishers act through the store's operations, a drain is an
  execution of the control plane like any other client's, which is what the handlers that await a drain
  rely on.
\<close>

subsection \<open>Every step of a drain is a step of the control plane\<close>

definition worldSteps :: "drainWorld \<Rightarrow> bool" where
  "worldSteps w \<longleftrightarrow>
     (\<forall>k j x. steps x (dw_env w k j x)) \<and> (\<forall>k e x. steps x (fst (dw_publishTriage w k e x))) \<and>
     (\<forall>k r x. steps x (fst (dw_admitHandoff w k r x)))"

abbreviation drains :: "drainState \<Rightarrow> drainState \<Rightarrow> bool" where
  "drains d d' \<equiv> steps (ds_store d) (ds_store d')"

lemma steps_command: "steps s s1 \<Longrightarrow> admissible c \<Longrightarrow> s2 = exec c s1 \<Longrightarrow> steps s s2"
  by (simp add: steps_exec)

lemma settleOutbox_steps: "steps s x \<Longrightarrow> steps s (fst (settleOutbox x i))"
  by (rule steps_command [of s x "SettleOutbox i"]) simp_all

lemma emit_store [simp]: "ds_store (emit es d) = ds_store d"
  by (simp add: emit_def)

lemma interfere_steps: "worldSteps w \<Longrightarrow> steps s (ds_store d) \<Longrightarrow> steps s (ds_store (interfere w k j d))"
  by (simp add: interfere_def worldSteps_def) (blast intro: steps_trans)

lemma settleClaim_steps: "steps s (ds_store d) \<Longrightarrow> steps s (ds_store (settleClaim now e st f d))"
  by (simp add: settleClaim_def settleOutbox_steps)

lemma settleDone_steps: "worldSteps w \<Longrightarrow> steps s (ds_store d) \<Longrightarrow> steps s (ds_store (settleDone w k e d))"
  unfolding settleDone_def by (intro settleClaim_steps interfere_steps)

lemma settleRetryable_steps:
  assumes w: "worldSteps w" and d: "steps s (ds_store d)"
  shows "steps s (ds_store (settleRetryableFailure w k e message d))"
proof -
  let ?d = "d\<lparr>ds_failed := ds_failed d @ [(o_entryId e, message)]\<rparr>"
  have d': "steps s (ds_store (interfere w k j ?d))" for j using w d by (intro interfere_steps) simp_all
  have t: "steps s (fst (recordTriagePublication (dw_now w k 6) (ds_store (interfere w k 10 ?d)) (o_runId e) (failedTriage message)))"
    by (rule steps_command [OF d', of "RecordTriage (dw_now w k 6) (o_runId e) (failedTriage message)"]) simp_all
  show ?thesis
    using t by (auto simp: settleRetryableFailure_def Let_def intro!: settleOutbox_steps d' interfere_steps [OF w]
        split: prod.splits outcome.splits)
qed

lemmas drain_steps = settleClaim_steps settleDone_steps settleRetryable_steps interfere_steps

lemma dispatch_steps:
  assumes w: "worldSteps w" and d: "steps s (ds_store d)"
  shows "steps s (ds_store (fst (handleDispatchRun w k e d)))"
proof -
  let ?d1 = "interfere w k 2 (interfere w k 1 d)"
  let ?d2 = "\<lambda>r. interfere w k 3 (?d1\<lparr>ds_store := enqueueRun (ds_store ?d1) (r_runId r) (dw_now w k 1)\<rparr>)"
  have "steps s (enqueueRun (ds_store ?d1) (r_runId r) (dw_now w k 1))" for r
    by (rule steps_command [of s "ds_store ?d1" "Enqueue (r_runId r) (dw_now w k 1)"])
      (simp_all add: interfere_steps w d)
  then have e: "steps s (ds_store (?d2 r))" for r by (intro interfere_steps [OF w]) simp
  have c: "steps s x" if "orchConfirmDispatch (dw_uuid w k) (dw_now w k 2) (ds_store (?d2 r)) (r_runId r) = (x, out)" for r x out
    by (rule steps_command [OF e [of r], of "ConfirmDispatch (dw_uuid w k) (dw_now w k 2) (r_runId r)"])
      (use that in simp_all)
  show ?thesis
    by (auto simp: handleDispatchRun_def Let_def intro!: settleDone_steps [OF w] interfere_steps [OF w] d dest!: c [simplified]
        split: prod.splits option.splits outcome.splits taskId.splits)
qed

lemma observeMonitored_steps:
  assumes w: "worldSteps w" and d: "steps s (ds_store d)"
  shows "steps s (ds_store (fst (observeMonitored w k e r observed authorize d)))"
proof -
  let ?d = "interfere w k 3 d"
  have "steps s (fst (observeDelivery (dw_uuid w k) (dw_now w k 2) (ds_store ?d) (r_runId r) observed authorize))"
    by (rule steps_command [of s "ds_store ?d" "ObserveDelivery (dw_uuid w k) (dw_now w k 2) (r_runId r) observed authorize"])
      (simp_all add: interfere_steps w d)
  then show ?thesis
    by (auto simp: observeMonitored_def Let_def intro!: settleDone_steps [OF w] interfere_steps [OF w] settleClaim_steps split: prod.splits outcome.splits)
qed

lemma monitor_steps:
  assumes "worldSteps w" and "steps s (ds_store d)"
  shows "steps s (ds_store (fst (handleMonitorDelivery w k e d)))"
  using assms
  by (auto simp: handleMonitorDelivery_def Let_def intro!: settleDone_steps interfere_steps observeMonitored_steps
      split: option.splits sum.splits)


lemma native_steps:
  assumes w: "worldSteps w" and d: "steps s (ds_store d)"
  shows "steps s (ds_store (fst (deliverNativeOutcome w k e r workId t f d)))"
proof -
  have send: "steps s (ds_store (fst (sendNativeOutcome w k c p final rerouted x)))" if "steps s (ds_store x)" for c p final rerouted x
    using that by (auto simp: sendNativeOutcome_def Let_def intro!: interfere_steps [OF w] split: option.splits)
  have send': "steps s (ds_store y)"
    if "sendNativeOutcome w k c p final rerouted x = (y, out)" "steps s (ds_store x)" for c p final rerouted x y out
    using send [OF that(2), of c p final rerouted] that(1) by simp
  have answer: "steps s (ds_store (answerOrigin w k e r workId c th final f x))" if "steps s (ds_store x)" for c th final x
    using that
    by (auto simp: answerOrigin_def Let_def intro!: settleDone_steps [OF w] settleRetryable_steps [OF w]
        elim!: send' split: option.splits prod.splits)
  have expire: "steps s (ds_store (expireSessions w k r workId t final d))" for final
    using d by (simp add: expireSessions_def Let_def interfere_steps w)
  show ?thesis
    using d expire
    by (auto simp: deliverNativeOutcome_def Let_def intro!: settleDone_steps [OF w] answer
        split: option.splits prod.splits)
qed

lemma projectLabel_steps:
  "worldSteps w \<Longrightarrow> steps s (ds_store d) \<Longrightarrow> steps s (ds_store (projectLabel w k r repo issue d))"
  by (auto simp: projectLabel_def Let_def intro!: interfere_steps)

lemma comment_steps:
  assumes "worldSteps w" and "steps s (ds_store d)"
  shows "steps s (ds_store (commentOutcome w k e r repo issue body d))"
  using assms
  by (auto simp: commentOutcome_def Let_def intro!: settleDone_steps settleRetryable_steps projectLabel_steps
      split: sum.splits)

lemma issue_steps:
  assumes "worldSteps w" and "steps s (ds_store d)"
  shows "steps s (ds_store (fst (reportToIssue w k e r t repo issue f l d)))"
  using assms
  by (auto simp: reportToIssue_def Let_def intro!: settleClaim_steps interfere_steps comment_steps split: sum.splits)

lemma deliverReport_steps:
  assumes "worldSteps w" and "steps s (ds_store d)"
  shows "steps s (ds_store (fst (deliverReport w k e r t f l d)))"
  using assms
  by (auto simp: deliverReport_def Let_def intro!: settleDone_steps issue_steps native_steps
      split: option.splits sum.splits taskId.splits)

lemma report_steps:
  assumes w: "worldSteps w" and d: "steps s (ds_store d)"
  shows "steps s (ds_store (fst (handleReportOutcome w k e d)))"
  by (auto simp: handleReportOutcome_def Let_def interfere_steps w d intro!: settleRetryable_steps deliverReport_steps
      split: option.splits)

lemma entry_steps:
  assumes w: "worldSteps w" and d: "steps s (ds_store d)"
  shows "steps s (ds_store (fst (handleEntry w k e d)))"
proof -
  have i: "steps s (ds_store (interfere w k j d))" "steps s (ds_store (interfere w k j (interfere w k j' d)))" for j j'
    using interfere_steps [OF w] d by blast+
  have t: "steps s (fst (dw_publishTriage w k e x))" "steps s (fst (dw_admitHandoff w k r x))" if "steps s x" for x r
    using w by (auto simp: worldSteps_def intro!: steps_trans [OF _ that])
  have p: "steps s (ds_store (fst (publishing w k e x)))" if "steps s (ds_store (fst x))" for x
    using that by (auto simp: publishing_def intro!: settleDone_steps [OF w] split: option.splits prod.splits)
  show ?thesis
    using dispatch_steps [OF assms] monitor_steps [OF assms] report_steps [OF assms]
    by (cases "o_kind e") (auto simp: handleEntry_def Let_def storeEffect_def intro!: p t i interfere_steps [OF w] d split: option.splits)
qed

lemma deliver_steps:
  assumes w: "worldSteps w" and d: "steps s (ds_store d)"
  shows "steps s (ds_store (deliverEntry w k e d))"
  using entry_steps [OF assms, of k e]
  by (auto simp: deliverEntry_def Let_def settleRetryable_steps [OF w] split: prod.splits option.splits)

lemma claimOne_steps:
  assumes w: "worldSteps w" and d: "steps s (ds_store d)"
  shows "steps s (ds_store (fst (claimOne w k d)))"
proof -
  let ?d = "interfere w k 0 d"
  have "steps s (fst (claimPendingOutbox (\<lambda>_. dw_uuid w k) (ds_store ?d) 1 (dw_now w k 0) (dw_now w k 0 + OUTBOX_LEASE_MS) (ds_excluded ?d)))"
    by (rule steps_command [of s "ds_store ?d"
          "ClaimOutbox (\<lambda>_. dw_uuid w k) 1 (dw_now w k 0) (dw_now w k 0 + OUTBOX_LEASE_MS) (ds_excluded ?d)"])
      (simp_all add: interfere_steps w d)
  then show ?thesis by (auto simp: claimOne_def Let_def split: prod.splits)
qed

lemma loop_steps:
  assumes "worldSteps w"
  shows "steps s (ds_store d) \<Longrightarrow> steps s (ds_store (drainLoop w k n d))"
proof (induction n arbitrary: k d)
  case (Suc n)
  obtain d' oe where c: "claimOne w k d = (d', oe)" by (cases "claimOne w k d")
  with claimOne_steps [OF assms Suc.prems, of k] have "steps s (ds_store d')" by simp
  with c Suc.IH deliver_steps [OF assms] show ?case by (auto split: option.split)
qed simp


text \<open>A drain is a client like any other: where the publishers it calls act through the store's operations,
  the store it leaves is reached from the one it found by operations of the control plane.\<close>

lemma drain_execution:
  assumes "worldSteps w" and "reachable s"
  shows "steps s (ds_store (drainOutbox w s limit)) \<and> reachable (ds_store (drainOutbox w s limit))"
proof -
  have "steps s (ds_store (drainOutbox w s limit))"
    unfolding drainOutbox_def by (rule loop_steps [OF assms(1)]) (simp add: steps_refl)
  with reachable_steps [OF assms(2)] show ?thesis by blast
qed

text \<open>A quiet world in which every call succeeds.\<close>

definition demoWorld :: drainWorld where
  "demoWorld =
     \<lparr>dw_now = (\<lambda>k j. 8000 + int (10 * k + j)), dw_env = (\<lambda>_ _ x. x), dw_uuid = (\<lambda>k. ''drain-'' @ showNat k),
      dw_publishTriage = (\<lambda>_ _ x. (x, None)), dw_admitHandoff = (\<lambda>_ _ x. (x, None)),
      dw_publishLinear = (\<lambda>_ _ _ _. None), dw_observeDelivery = (\<lambda>_ b. Inr (ObsWaiting (dl_head b))),
      dw_authorized = (\<lambda>_ _. True), dw_readPermission = (\<lambda>_ _ _. Inr (\<lambda>_ _. True)),
      dw_anchorOpen = (\<lambda>_ _ _. None), dw_postComment = (\<lambda>_ _ _ _. Inr 201),
      dw_webhookConfigured = (\<lambda>_. True), dw_deliverOutcome = (\<lambda>_ _ _. None), dw_consoleUrl = [],
      dw_glyph = (\<lambda>_. []), dw_numericCompare = (\<lambda>_ _. 0)\<rparr>"

lemma demoWorld_steps: "worldSteps demoWorld"
  by (simp add: worldSteps_def demoWorld_def steps_refl)

definition demoAdmission :: memStore where
  "demoAdmission = execAll [Request allFormats 1000 (demoRequest ''a'' ''claude'')] emptyStore"

subsection \<open>No lease is left behind\<close>

definition released :: "outboxEntry \<Rightarrow> drainState \<Rightarrow> bool" where
  "released e d \<longleftrightarrow>
     (\<forall>u. map_option o_state (map_of (ms_outbox (ds_store d)) (o_entryId e)) \<noteq> Some (OutLeased (claimIdOf e) u))"

lemma toOutboxState_not_leased: "toOutboxState st \<noteq> OutLeased c u"
  by (cases st) simp_all

lemma settled_released:
  assumes "os_entryId i = o_entryId e" and "os_claimId i = claimIdOf e"
  shows "released e (d\<lparr>ds_store := fst (settleOutbox x i)\<rparr>)"
proof (cases "map_of (ms_outbox x) (o_entryId e)")
  case (Some f)
  show ?thesis
  proof (cases "o_state f")
    case (OutLeased c u)
    with Some assms show ?thesis
      by (auto simp: released_def settleOutbox_def settleOutboxEntry_def js.get_put toOutboxState_not_leased Let_def
          split: if_splits)
  qed (use Some assms in \<open>simp_all add: released_def settleOutbox_def settleOutboxEntry_def\<close>)
qed (use assms in \<open>simp add: released_def settleOutbox_def settleOutboxEntry_def\<close>)

lemma released_store: "ds_store d = ds_store d' \<Longrightarrow> released e d = released e d'"
  by (simp add: released_def)

lemma settleClaim_released [simp]: "released e (settleClaim now e st f d)"
  unfolding settleClaim_def by (rule settled_released) (simp_all add: settlementOf_def)

lemma settleDone_released [simp]: "released e (settleDone w k e d)"
  by (simp add: settleDone_def)

lemma released_update [simp]:
  "released e (d\<lparr>ds_dispatched := a\<rparr>) = released e d" "released e (d\<lparr>ds_reported := b\<rparr>) = released e d"
  "released e (d\<lparr>ds_failed := c\<rparr>) = released e d" "released e (d\<lparr>ds_excluded := x\<rparr>) = released e d"
  by (simp_all add: released_def)

lemma failureSettlement_names:
  "os_entryId (failureSettlement now e) = o_entryId e" "os_claimId (failureSettlement now e) = claimIdOf e"
  by (simp_all add: failureSettlement_def settlementOf_def Let_def)

lemma settleRetryable_released:
  "o_kind e \<noteq> PublishTriage \<Longrightarrow> released e (settleRetryableFailure w k e message d)"
  by (simp add: settleRetryableFailure_def Let_def settled_released failureSettlement_names)

lemma commentOutcome_released:
  "o_kind e \<noteq> PublishTriage \<Longrightarrow> released e (commentOutcome w k e r repo issue body d)"
  by (simp add: commentOutcome_def Let_def settleRetryable_released split: sum.split)

lemma native_released:
  "o_kind e \<noteq> PublishTriage \<Longrightarrow> deliverNativeOutcome w k e r workId t f d = (d', None) \<Longrightarrow> released e d'"
  by (auto simp: deliverNativeOutcome_def answerOrigin_def Let_def settleRetryable_released
      split: if_splits option.splits prod.splits)

lemma report_released:
  "o_kind e \<noteq> PublishTriage \<Longrightarrow> handleReportOutcome w k e d = (d', None) \<Longrightarrow> released e d'"
  by (auto simp: handleReportOutcome_def deliverReport_def reportToIssue_def Let_def settleRetryable_released
      commentOutcome_released dest: native_released split: if_splits option.splits sum.splits taskId.splits)

lemma handler_released:
  assumes "o_kind e \<noteq> PublishTriage" and "handleEntry w k e d = (d', None)"
  shows "released e d'"
  using assms report_released [OF assms(1), of w k d d']
  by (cases "o_kind e")
    (auto simp: handleEntry_def publishing_def handleDispatchRun_def handleMonitorDelivery_def observeMonitored_def Let_def
      split: if_splits option.splits prod.splits outcome.splits sum.splits)

text \<open>C9: the drain lets go of what it claims. Whatever the delivery of an entry answers and whatever
  else happens meanwhile, once the entry has been handled it is no longer leased under this claim:
  it is settled, released for a later attempt, or another client has taken it over. (Publishing a
  triage report, whose failed receipt may keep the lease until it expires, is the exception.)\<close>

theorem drain_releases:
  assumes "claimOne w k d = (d', Some e)" and "o_kind e \<noteq> PublishTriage"
  shows "map_option o_state (map_of (ms_outbox (ds_store (deliverEntry w k e d'))) (o_entryId e)) \<noteq>
    Some (OutLeased (dw_uuid w k) u)"
proof -
  have "claimIdOf e = dw_uuid w k"
    using assms(1)
    by (auto simp: claimOne_def claimPendingOutbox_def leaseEntry_def claimIdOf_def Let_def enumerate_eq_zip
        split: list.splits prod.splits)
  moreover have "released e (deliverEntry w k e d')"
  proof (cases "handleEntry w k e d'")
    case (Pair x m)
    then show ?thesis
      using handler_released [OF assms(2)] settleRetryable_released [OF assms(2)]
      by (cases m) (auto simp: deliverEntry_def Let_def)
  qed
  ultimately show ?thesis by (simp add: released_def)
qed

theorem drain_releases_witness:
  "\<exists>d e. claimOne demoWorld 0 (drainOutbox demoWorld demoAdmission (Some 0)) = (d, Some e) \<and>
     map_option o_state (map_of (ms_outbox (ds_store (deliverEntry demoWorld 0 e d))) (o_entryId e)) \<noteq>
       Some (OutLeased ''drain-0'' 308000)"
proof -
  let ?claim = "claimOne demoWorld 0 (drainOutbox demoWorld demoAdmission (Some 0))"
  have "map_option o_kind (snd ?claim) = Some DispatchRun" by code_simp
  then obtain d e where c: "?claim = (d, Some e)" "o_kind e = DispatchRun" by (cases ?claim) auto
  have "dw_uuid demoWorld 0 = ''drain-0''" by code_simp
  with drain_releases [OF c(1), of 308000] c show ?thesis by auto
qed

subsection \<open>Done means delivered\<close>




definition notDone :: "outboxEntry \<Rightarrow> drainState \<Rightarrow> bool" where
  "notDone e d \<longleftrightarrow> map_option o_state (map_of (ms_outbox (ds_store d)) (o_entryId e)) \<noteq> Some OutDone"




lemma effects_updates [simp]:
  "ds_effects (settleClaim now e st f d) = ds_effects d" "ds_effects (settleDone w k e d) = ds_effects d"
  "ds_effects (interfere w k j d) = ds_effects d" "ds_effects (emit es d) = ds_effects d @ es"
  by (simp_all add: settleClaim_def settleDone_def interfere_def emit_def)

lemma notDone_updates [simp]:
  "notDone e (emit es d) = notDone e d" "notDone e (d\<lparr>ds_reported := a\<rparr>) = notDone e d"
  "notDone e (d\<lparr>ds_failed := b\<rparr>) = notDone e d" "notDone e (d\<lparr>ds_excluded := x\<rparr>) = notDone e d"
  by (simp_all add: notDone_def emit_def)






















subsection \<open>The retry budget\<close>

text \<open>The life of one entry while it is delivered again and again: it is leased when it is due, or once
  more when a lease has run out; a delivery under the lease fails, at an instant not before its
  claim, without retiring the entry; a monitor's visit succeeds and re-releases the entry as
  recovered; a webhook wakes the entry out of its backoff, at an instant not before its last write.
  The list holds the instants of the failures since the entry last recovered, the number counts the
  wakes since then.\<close>

inductive failing :: "outboxEntry \<Rightarrow> nat \<Rightarrow> timestamp list \<Rightarrow> outboxEntry \<Rightarrow> bool" for e0 where
  failing_none: "failing e0 0 [] e0"
| failing_claim: "failing e0 n ts e \<Longrightarrow> outboxDue c excluded e \<Longrightarrow> failing e0 n ts (leaseEntry c (c + OUTBOX_LEASE_MS) cid e)"
| failing_reclaim: "failing e0 n ts e \<Longrightarrow> leaseExpired c e \<Longrightarrow> failing e0 n ts (leaseEntry c (c + OUTBOX_LEASE_MS) cid e)"
| failing_attempt: "failing e0 n ts e \<Longrightarrow> o_state e = OutLeased cid until \<Longrightarrow> until - OUTBOX_LEASE_MS \<le> t \<Longrightarrow>
    settleOutboxEntry (Some e) (failureSettlement t e) = Some e' \<Longrightarrow> o_state e' = OutPending \<Longrightarrow>
    failing e0 n (ts @ [t]) e'"
| failing_recovered: "failing e0 n ts e \<Longrightarrow>
    settleOutboxEntry (Some e) (settlementOf t e SettlePending
      (noFailure\<lparr>fs_nextAttemptAt := Some (t' + DELIVERY_MONITOR_FALLBACK_MS), fs_recovered := True\<rparr>)) = Some e' \<Longrightarrow>
    failing e0 0 [] e'"
| failing_wake: "failing e0 n ts e \<Longrightarrow> wakeOutboxEntry (Some e) t = Some e' \<Longrightarrow> o_updatedAt e \<le> t \<Longrightarrow>
    failing e0 (n + 1) ts e'"

definition backoff :: "nat \<Rightarrow> int" where
  "backoff i = min OUTBOX_BACKOFF_CAP_MS (OUTBOX_BACKOFF_BASE_MS * 2 ^ i)"

definition backoffs :: "nat \<Rightarrow> int" where
  "backoffs n = (\<Sum>i<n. backoff i)"

text \<open>The earliest instant, after the first failure, at which the entry can be attempted again.\<close>

definition notBefore :: "outboxEntry \<Rightarrow> timestamp \<Rightarrow> bool" where
  "notBefore e at =
     (case o_state e of
        OutPending \<Rightarrow> (\<exists>next. o_nextAttemptAt e = Some next \<and> at \<le> next)
      | OutLeased _ until \<Rightarrow> at \<le> until - OUTBOX_LEASE_MS
      | _ \<Rightarrow> False)"

definition retryInv :: "nat \<Rightarrow> timestamp list \<Rightarrow> outboxEntry \<Rightarrow> bool" where
  "retryInv n ts e \<longleftrightarrow>
     (case ts of
        [] \<Rightarrow> o_firstFailedAt e = None \<and> o_deliveryFailures e = None
      | first # _ \<Rightarrow>
          o_firstFailedAt e = Some first \<and> o_deliveryFailures e = Some (length ts) \<and>
          notBefore e (first + backoffs (length ts - n)) \<and>
          first + backoffs (length ts - 1 - n) \<le> last ts \<and> last ts - first < OUTBOX_RETIRE_AFTER_MS \<and>
          (o_state e = OutPending \<longrightarrow> last ts \<le> o_updatedAt e))"

lemma backoffs_Suc [simp]: "backoffs (Suc n) = backoffs n + backoff n" "backoffs 0 = 0"
  by (simp_all add: backoffs_def)

lemma lease_fields [simp]:
  "o_firstFailedAt (leaseEntry c u cid e) = o_firstFailedAt e" "o_deliveryFailures (leaseEntry c u cid e) = o_deliveryFailures e"
  "o_state (leaseEntry c u cid e) = OutLeased cid u"
  by (simp_all add: leaseEntry_def)

lemma failed_attempt:
  assumes "o_state e = OutLeased cid until" and "settleOutboxEntry (Some e) (failureSettlement t e) = Some e'"
    and "o_state e' = OutPending"
  shows "o_firstFailedAt e' = Some (orElse (o_firstFailedAt e) t)"
    and "o_deliveryFailures e' = Some (orElse (o_deliveryFailures e) 0 + 1)"
    and "o_nextAttemptAt e' = Some (t + backoff (orElse (o_deliveryFailures e) 0))" and "o_updatedAt e' = t"
    and "t - orElse (o_firstFailedAt e) t < OUTBOX_RETIRE_AFTER_MS"
proof -
  define first where "first = orElse (o_firstFailedAt e) t"
  define failures where "failures = orElse (o_deliveryFailures e) 0"
  have settled: "settleOutboxEntry (Some e) (settlementOf t e st f) = Some e' \<Longrightarrow> o_state e' = toOutboxState st" for st f
    using assms(1) by (auto simp: settleOutboxEntry_def settlementOf_def claimIdOf_def Let_def)
  show live: "t - orElse (o_firstFailedAt e) t < OUTBOX_RETIRE_AFTER_MS"
  proof (rule ccontr)
    assume "\<not> t - orElse (o_firstFailedAt e) t < OUTBOX_RETIRE_AFTER_MS"
    then have "failureSettlement t e = settlementOf t e SettleFailed (noFailure\<lparr>fs_firstFailedAt := Some first\<rparr>)"
      by (simp add: failureSettlement_def first_def Let_def)
    with settled [of SettleFailed "noFailure\<lparr>fs_firstFailedAt := Some first\<rparr>"] assms(2,3) show False by simp
  qed
  have "failureSettlement t e = settlementOf t e SettlePending
      \<lparr>fs_firstFailedAt = Some first, fs_nextAttemptAt = Some (t + backoff failures),
       fs_deliveryFailures = Some (failures + 1), fs_recovered = False\<rparr>"
    using live by (simp add: failureSettlement_def first_def failures_def backoff_def Let_def)
  with assms(1,2) have "o_firstFailedAt e' = Some first" "o_deliveryFailures e' = Some (failures + 1)"
    "o_nextAttemptAt e' = Some (t + backoff failures)" "o_updatedAt e' = t"
    by (auto simp: settleOutboxEntry_def settlementOf_def claimIdOf_def Let_def)
  then show "o_firstFailedAt e' = Some (orElse (o_firstFailedAt e) t)"
    "o_deliveryFailures e' = Some (orElse (o_deliveryFailures e) 0 + 1)"
    "o_nextAttemptAt e' = Some (t + backoff (orElse (o_deliveryFailures e) 0))" "o_updatedAt e' = t"
    by (simp_all add: first_def failures_def)
qed

lemma backoff_mono: "i \<le> j \<Longrightarrow> backoff i \<le> backoff j"
proof -
  assume "i \<le> j"
  then have "(2::int) ^ i \<le> 2 ^ j" by (rule power_increasing) simp
  then show ?thesis unfolding backoff_def OUTBOX_BACKOFF_BASE_MS_def by (intro min.mono) simp_all
qed

lemma backoffs_waived: "backoffs (m + 1 - n) \<le> backoffs (m - n) + backoff m"
proof (cases "n \<le> m")
  case True
  then have "backoffs (m + 1 - n) = backoffs (m - n) + backoff (m - n)" by (simp add: Suc_diff_le)
  with backoff_mono [of "m - n" m] show ?thesis by simp
next
  case False
  then show ?thesis by (simp add: backoff_def OUTBOX_BACKOFF_CAP_MS_def OUTBOX_BACKOFF_BASE_MS_def)
qed

lemma backoffs_shorter: "m \<le> n \<Longrightarrow> backoffs m \<le> backoffs n"
  unfolding backoffs_def by (rule sum_mono2) (auto simp: backoff_def OUTBOX_BACKOFF_CAP_MS_def OUTBOX_BACKOFF_BASE_MS_def)

lemma woken_fields:
  assumes "wakeOutboxEntry (Some e) t = Some e'"
  shows "o_state e = OutPending" and "e' = e\<lparr>o_nextAttemptAt := Some t, o_updatedAt := t\<rparr>"
  using assms by (auto simp: wakeOutboxEntry_def split: if_splits option.splits)

lemma failing_inv:
  assumes "failing e0 n ts e" and "o_firstFailedAt e0 = None" and "o_deliveryFailures e0 = None"
  shows "retryInv n ts e"
  using assms
proof (induction rule: failing.induct)
  case failing_none
  then show ?case by (simp add: retryInv_def)
next
  case (failing_claim n ts e c excluded cid)
  then have inv: "retryInv n ts e" and due: "outboxDue c excluded e" by simp_all
  then show ?case
    by (auto simp: retryInv_def notBefore_def outboxDue_def split: list.splits option.splits)
next
  case (failing_reclaim n ts e c cid)
  then have inv: "retryInv n ts e" and due: "leaseExpired c e" by simp_all
  then show ?case
    by (auto simp: retryInv_def notBefore_def leaseExpired_def OUTBOX_LEASE_MS_def split: list.splits outboxState.splits)
next
  case (failing_attempt n ts e cid until t e')
  then have inv: "retryInv n ts e" by simp
  note new = failed_attempt [OF failing_attempt.hyps(2,4,5)]
  show ?case
  proof (cases ts)
    case Nil
    with inv new failing_attempt.hyps(5) backoffs_waived [of 0 n] show ?thesis
      by (simp add: retryInv_def notBefore_def OUTBOX_RETIRE_AFTER_MS_def)
  next
    case (Cons first rest)
    with inv have e: "o_firstFailedAt e = Some first" "o_deliveryFailures e = Some (length ts)"
      "notBefore e (first + backoffs (length ts - n))" by (simp_all add: retryInv_def)
    with failing_attempt.hyps(2,3) have "first + backoffs (length ts - n) \<le> t" by (simp add: notBefore_def)
    moreover have "first + backoffs (length ts + 1 - n) \<le> t + backoff (length ts)"
      using calculation backoffs_waived [of "length ts" n] by simp
    ultimately show ?thesis using Cons new e failing_attempt.hyps(5) by (simp add: retryInv_def notBefore_def)
  qed
next
  case (failing_recovered n ts e t t' e')
  then show ?case
    by (auto simp: retryInv_def settleOutboxEntry_def settlementOf_def noFailure_def Let_def split: outboxState.splits if_splits)
next
  case (failing_wake n ts e t e')
  then have inv: "retryInv n ts e" by simp
  note woken = woken_fields [OF failing_wake.hyps(2)]
  show ?case
  proof (cases ts)
    case (Cons first rest)
    with inv woken(1) failing_wake.hyps(3) have "first + backoffs (length ts - 1 - n) \<le> t" "last ts \<le> t"
      by (simp_all add: retryInv_def)
    moreover have "first + backoffs (length ts - 1 - (n + 1)) \<le> last ts"
      using inv Cons order_trans [OF add_left_mono [OF backoffs_shorter [OF diff_le_mono2 [of n "n + 1"]]]]
      by (simp add: retryInv_def)
    ultimately show ?thesis using inv Cons woken by (simp add: retryInv_def notBefore_def)
  qed (use inv woken in \<open>simp add: retryInv_def\<close>)
qed

lemma backoff_capped: "5 \<le> i \<Longrightarrow> backoff i = OUTBOX_BACKOFF_CAP_MS"
proof -
  assume "5 \<le> i"
  then have "(2::int) ^ 5 \<le> 2 ^ i" by (rule power_increasing) simp
  then show ?thesis by (simp add: backoff_def OUTBOX_BACKOFF_CAP_MS_def OUTBOX_BACKOFF_BASE_MS_def)
qed

lemma backoffs_late: "backoffs (5 + n) = 31 * 60000 + int n * (30 * 60000)"
proof (induction n)
  case 0
  show ?case by (simp add: backoffs_def backoff_def OUTBOX_BACKOFF_CAP_MS_def OUTBOX_BACKOFF_BASE_MS_def
        lessThan_nat_numeral lessThan_Suc)
next
  case (Suc n)
  have "backoffs (5 + Suc n) = backoffs (5 + n) + backoff (5 + n)" unfolding add_Suc_right by (rule backoffs_Suc)
  with Suc show ?case by (simp add: backoff_capped OUTBOX_BACKOFF_CAP_MS_def)
qed

text \<open>C10: a delivery that keeps failing is retired. However drains, crashes, lease recoveries,
  successful monitor visits and webhook wakes interleave, at most 148 attempts since the entry last
  recovered can fail and leave it pending, plus one for every wake that cut a backoff short since
  then; the next failure retires it. So the budget of 72 hours with the capped doubling backoff is
  also a bound on the calls made for one entry.\<close>

theorem drain_retry_budget:
  assumes "failing e0 wakes ts e" and "o_firstFailedAt e0 = None" and "o_deliveryFailures e0 = None"
  shows "length ts \<le> 148 + wakes"
proof (rule ccontr)
  assume "\<not> length ts \<le> 148 + wakes"
  then have "149 + wakes \<le> length ts" by simp
  then obtain n where n: "length ts = 149 + wakes + n" using le_Suc_ex by blast
  then obtain first rest where ts: "ts = first # rest" by (cases ts) auto
  from failing_inv [OF assms] ts have "backoffs (length ts - 1 - wakes) < OUTBOX_RETIRE_AFTER_MS" by (simp add: retryInv_def)
  moreover have "length ts - 1 - wakes = 5 + (143 + n)" using n by simp
  ultimately show False unfolding OUTBOX_RETIRE_AFTER_MS_def using backoffs_late [of "143 + n"] by simp
qed

definition demoFresh :: outboxEntry where
  "demoFresh = \<lparr>o_entryId = ''outcome/r1'', o_kind = ReportOutcome, o_task = demoTask, o_runId = demoRunId 1,
     o_state = OutPending, o_attempts = 0, o_firstFailedAt = None, o_nextAttemptAt = None,
     o_deliveryFailures = None, o_createdAt = 0, o_updatedAt = 0\<rparr>"

theorem drain_retry_budget_witness:
  "\<exists>e. failing demoFresh 1 [6000] e \<and> o_nextAttemptAt e = Some 7000 \<and> length [6000::timestamp] \<le> 148 + 1"
proof -
  let ?leased = "leaseEntry 5000 (5000 + OUTBOX_LEASE_MS) ''c'' demoFresh"
  let ?failed = "?leased\<lparr>o_state := OutPending, o_updatedAt := 6000, o_firstFailedAt := Some 6000,
    o_nextAttemptAt := Some 66000, o_deliveryFailures := Some 1\<rparr>"
  let ?woken = "?failed\<lparr>o_nextAttemptAt := Some 7000, o_updatedAt := 7000\<rparr>"
  have "failing demoFresh 0 [] ?leased"
    by (rule failing_claim [OF failing_none, of _ "[]"]) (simp add: outboxDue_def demoFresh_def)
  then have "failing demoFresh 0 ([] @ [6000]) ?failed"
    by (rule failing_attempt [where cid = "''c''" and until = "5000 + OUTBOX_LEASE_MS"])
      (simp_all add: demoFresh_def leaseEntry_def settleOutboxEntry_def failureSettlement_def settlementOf_def claimIdOf_def
        OUTBOX_RETIRE_AFTER_MS_def OUTBOX_BACKOFF_CAP_MS_def OUTBOX_BACKOFF_BASE_MS_def Let_def)
  then have "failing demoFresh (0 + 1) ([] @ [6000]) ?woken"
    by (rule failing_wake [where t = 7000]) (simp_all add: wakeOutboxEntry_def)
  with drain_retry_budget [of demoFresh 1 "[6000]" ?woken] show ?thesis by (auto simp: demoFresh_def)
qed

subsection \<open>Delayed outcomes and the human-attention label\<close>

fun applyLabel :: "string \<Rightarrow> nat \<Rightarrow> bool \<Rightarrow> drainEffect \<Rightarrow> bool" where
  "applyLabel repo issue labelled (AddNeedsHuman r i) = (labelled \<or> r = repo \<and> i = issue)"
| "applyLabel repo issue labelled (RemoveNeedsHuman r i) = (labelled \<and> \<not> (r = repo \<and> i = issue))"
| "applyLabel repo issue labelled _ = labelled"

definition decisive :: "run \<Rightarrow> bool" where
  "decisive r \<longleftrightarrow> r_state r = Finished \<and> runNeedsHumanLabel r \<or> runResolvesNeedsHumanLabel r"

definition labelEffects :: "memStore \<Rightarrow> string \<Rightarrow> nat \<Rightarrow> run \<Rightarrow> drainEffect list" where
  "labelEffects s repo issue r =
     (if r_state r = Finished \<and> runNeedsHumanLabel r
      then if hasLaterRunMatching runResolvesNeedsHumanLabel s r then [] else [AddNeedsHuman repo issue]
      else if runResolvesNeedsHumanLabel r
      then if hasLaterRunMatching runNeedsHumanLabel s r then [] else [RemoveNeedsHuman repo issue]
      else [])"

lemma projectLabel_quiet:
  assumes "\<And>k j x. dw_env w k j x = x"
  shows "projectLabel w k r repo issue d = emit (labelEffects (ds_store d) repo issue r) d"
proof -
  have "interfere w k j x = x" for j x by (simp add: interfere_def assms)
  then show ?thesis by (simp add: projectLabel_def labelEffects_def emit_def Let_def)
qed

lemma projectLabels_quiet:
  assumes "\<And>k j x. dw_env w k j x = x"
  shows "foldl (\<lambda>d r. projectLabel w k r repo issue d) d order =
    emit (concat (map (labelEffects (ds_store d) repo issue) order)) d"
  by (induction order arbitrary: d) (simp_all add: projectLabel_quiet [OF assms], simp_all add: emit_def)

lemma later_runs: "r \<in> set (listRuns s tid) \<Longrightarrow> listRuns s (r_task r) = listRuns s tid"
  by (simp add: listRuns_def)

lemma park_not_resolved: "runNeedsHumanLabel r \<Longrightarrow> \<not> runResolvesNeedsHumanLabel r"
  by (simp add: runNeedsHumanLabel_def runResolvesNeedsHumanLabel_def)

lemma newest_label:
  assumes "newest \<in> set (listRuns s tid)" and "decisive newest"
    and "\<And>c. c \<in> set (listRuns s tid) \<Longrightarrow> isLaterRun c newest \<Longrightarrow> \<not> runNeedsHumanLabel c \<and> \<not> runResolvesNeedsHumanLabel c"
  shows "labelEffects s repo issue newest =
    [if runNeedsHumanLabel newest then AddNeedsHuman repo issue else RemoveNeedsHuman repo issue]"
  using assms park_not_resolved
  by (auto simp: labelEffects_def decisive_def hasLaterRunMatching_def list_ex_iff later_runs)

lemma older_label:
  assumes "r \<in> set (listRuns s tid)" and "newest \<in> set (listRuns s tid)" and "decisive newest"
    and "decisive r \<Longrightarrow> isLaterRun newest r"
  shows "set (labelEffects s repo issue r) \<subseteq>
    {if runNeedsHumanLabel newest then AddNeedsHuman repo issue else RemoveNeedsHuman repo issue}"
  using assms park_not_resolved
  by (auto simp: labelEffects_def decisive_def hasLaterRunMatching_def list_ex_iff later_runs)

lemma same_labels:
  assumes "es \<noteq> []" and "set es \<subseteq> {if b then AddNeedsHuman repo issue else RemoveNeedsHuman repo issue}"
  shows "foldl (applyLabel repo issue) labelled es = b"
  using assms
proof (induction es rule: rev_induct)
  case (snoc e es)
  then show ?case by (cases b) auto
qed simp

text \<open>C11: delayed outcomes do not confuse the human-attention label. Deliveries are fair, not ordered;
  yet in whatever order, and however often, the outcomes of a task's runs are delivered, as soon as
  that of its newest deciding run is among them the label stands exactly when that run is parked.\<close>

theorem labels_converge:
  assumes "\<And>k j x. dw_env w k j x = x" and "set order \<subseteq> set (listRuns (ds_store d) tid)"
    and "newest \<in> set order" and "decisive newest"
    and "\<And>c. c \<in> set (listRuns (ds_store d) tid) \<Longrightarrow> isLaterRun c newest \<Longrightarrow>
           \<not> runNeedsHumanLabel c \<and> \<not> runResolvesNeedsHumanLabel c"
    and "\<And>c. c \<in> set (listRuns (ds_store d) tid) \<Longrightarrow> decisive c \<Longrightarrow> c = newest \<or> isLaterRun newest c"
  shows "foldl (applyLabel repo issue) labelled
      (ds_effects (foldl (\<lambda>d r. projectLabel w k r repo issue d) d order)) = runNeedsHumanLabel newest"
proof -
  let ?x = "if runNeedsHumanLabel newest then AddNeedsHuman repo issue else RemoveNeedsHuman repo issue"
  let ?es = "concat (map (labelEffects (ds_store d) repo issue) order)"
  have n: "newest \<in> set (listRuns (ds_store d) tid)" using assms(2,3) by blast
  have new: "labelEffects (ds_store d) repo issue newest = [?x]" by (rule newest_label [OF n assms(4,5)])
  have "set (labelEffects (ds_store d) repo issue r) \<subseteq> {?x}" if "r \<in> set order" for r
  proof (cases "r = newest")
    case False
    have r: "r \<in> set (listRuns (ds_store d) tid)" using that assms(2) by blast
    show ?thesis by (rule older_label [OF r n assms(4)]) (use assms(6) [OF r] False in blast)
  qed (simp add: new)
  then have "(\<Union>r\<in>set order. set (labelEffects (ds_store d) repo issue r)) \<subseteq> {?x}" by (rule UN_least)
  then have "set ?es \<subseteq> {?x}" by simp
  moreover have "?x \<in> set (labelEffects (ds_store d) repo issue newest)" unfolding new by simp
  then have "?x \<in> set ?es" using assms(3) by auto
  then have "?es \<noteq> []" by (rule contrapos_pn) (simp only: empty_iff list.set simp_thms)
  ultimately have "foldl (applyLabel repo issue) b ?es = runNeedsHumanLabel newest" for b by (rule same_labels [rotated])
  then show ?thesis by (simp add: projectLabels_quiet [OF assms(1)] emit_def)
qed

definition demoSettledRun :: "nat \<Rightarrow> string \<Rightarrow> run" where
  "demoSettledRun n summary = (demoStored demoSecond 1)
     \<lparr>r_runId := demoRunId n, r_task := demoTask, r_state := Finished,
      r_result := Some (demoResult\<lparr>rr_ok := True, rr_summary := Some summary\<rparr>)\<rparr>"

definition demoHistory :: drainState where
  "demoHistory =
     \<lparr>ds_store = emptyStore\<lparr>ms_runs := [(demoRunId 1, demoSettledRun 1 ''park''), (demoRunId 2, demoSettledRun 2 ''comment'')]\<rparr>,
      ds_dispatched = [], ds_reported = [], ds_failed = [], ds_excluded = [], ds_effects = []\<rparr>"

theorem labels_converge_witness:
  "foldl (applyLabel ''o/r'' 7) True (ds_effects (foldl (\<lambda>d r. projectLabel demoWorld 0 r ''o/r'' 7 d) demoHistory
      [demoSettledRun 2 ''comment'', demoSettledRun 1 ''park''])) = False"
proof -
  let ?runs = "[demoSettledRun 1 ''park'', demoSettledRun 2 ''comment'']"
  have runs: "listRuns (ds_store demoHistory) demoTask = ?runs"
    by (simp add: listRuns_def allRuns_def demoHistory_def demoSettledRun_def)
  have gen: "parseRunGeneration (r_runId (demoSettledRun n x)) = Some n" if "n \<le> 2" for n x
    using that parseRunGeneration_run_id [of n "taskKey demoTask"]
    by (simp add: demoSettledRun_def demoRunId_def runIdFor_def MAX_SAFE_INTEGER_def)
  have later: "isLaterRun (demoSettledRun m x) (demoSettledRun n y) \<longleftrightarrow> n < m" if "m \<le> 2" "n \<le> 2" for m n x y
    using that by (simp add: isLaterRun_def gen)
  have kinds: "runNeedsHumanLabel (demoSettledRun n x) \<longleftrightarrow> x = ''park''"
    "runResolvesNeedsHumanLabel (demoSettledRun n x) \<longleftrightarrow> x \<noteq> ''park''" "r_state (demoSettledRun n x) = Finished" for n x
    by (simp_all add: demoSettledRun_def runNeedsHumanLabel_def runResolvesNeedsHumanLabel_def resultSummary_def resultOk_def
        PARK_OUTCOME_SUMMARY_def)
  show ?thesis
    by (subst labels_converge [of demoWorld _ demoHistory demoTask "demoSettledRun 2 ''comment''"])
      (auto simp: runs later kinds decisive_def demoWorld_def)
qed

end
