(* ===== verification/Delivery_Guarantees.thy ===== *)
theory Delivery_Guarantees
  imports Ready_Delivery Drain_Guarantees
begin

text \<open>
  What the delivery monitor may conclude from GitHub. The bounded reads are exact: they answer a
  list only if every page up to its end was served consistently. A correction, which costs another
  run, needs current evidence: feedback on the bound revision, or a required check whose failure
  belongs to the newest attempt of its workflow or is confirmed by its own app.
\<close>

subsection \<open>Complete bounded reads\<close>

text \<open>A reader serves a list when each of its pages, up to the one that ends it, states the length of
  the whole and holds the next hundred elements.\<close>

definition served :: "(nat \<Rightarrow> string + nat \<times> 'a list) \<Rightarrow> 'a list \<Rightarrow> bool" where
  "served read xs \<longleftrightarrow>
     (\<forall>p. 1 \<le> p \<and> (p = 1 \<or> 100 * (p - 1) < length xs) \<longrightarrow>
        read p = Inr (length xs, take 100 (drop (100 * (p - 1)) xs)))"

locale paged_read =
  fixes read :: "nat \<Rightarrow> string + nat \<times> 'a list"
    and key :: "'a \<Rightarrow> 'k option"
  assumes page_bound: "read p = Inr (count, xs) \<Longrightarrow> length xs \<le> 100"
begin

lemma collect_sound:
  assumes "collectPages n read key (Suc q) stated acc = Inr (xs, final)" and "length acc = 100 * q"
  shows "(\<exists>ys. xs = acc @ ys) \<and> distinct (List.map_filter key xs) \<and> length xs \<le> 100 * (q + n) \<and>
    (stated = None \<or> stated = Some (length xs)) \<and>
    (\<forall>p. q \<le> p \<and> (p = q \<or> 100 * p < length xs) \<longrightarrow>
       read (Suc p) = Inr (length xs, take 100 (drop (100 * p) xs)))"
  using assms
proof (induction n arbitrary: q stated acc)
  case (Suc n)
  obtain count batch where page: "read (Suc q) = Inr (count, batch)"
    using Suc.prems(1) by (auto split: sum.splits)
  have bound: "length batch \<le> 100" by (rule page_bound [OF page])
  have stated: "stated = None \<or> stated = Some count" and fresh: "distinct (List.map_filter key (acc @ batch))"
    using Suc.prems(1) page by (auto split: if_splits)
  show ?case
  proof (cases "length (acc @ batch) = count")
    case True
    with Suc.prems(1) page stated fresh have xs: "xs = acc @ batch" by (auto split: if_splits)
    have "read (Suc p) = Inr (length xs, take 100 (drop (100 * p) xs))"
      if "q \<le> p" "p = q \<or> 100 * p < length xs" for p
    proof -
      have "p = q" using that xs bound Suc.prems(2) by auto
      then show ?thesis using page xs True bound Suc.prems(2) by simp
    qed
    then show ?thesis using xs True stated fresh bound Suc.prems(2) by auto
  next
    case False
    with Suc.prems(1) page stated fresh
    have more: "collectPages n read key (Suc (Suc q)) (Some count) (acc @ batch) = Inr (xs, final)"
      and full: "length batch = 100" using bound by (auto split: if_splits)
    have len: "length (acc @ batch) = 100 * Suc q" using full Suc.prems(2) by simp
    note IH = Suc.IH [OF more len]
    then obtain ys where ys: "xs = (acc @ batch) @ ys" by blast
    have count: "count = length xs" using IH by simp
    have here: "take 100 (drop (100 * q) xs) = batch" using ys full Suc.prems(2) by simp
    have "read (Suc p) = Inr (length xs, take 100 (drop (100 * p) xs))"
      if "q \<le> p" "p = q \<or> 100 * p < length xs" for p
    proof (cases "p = q")
      case True
      then show ?thesis using page count here by simp
    next
      case False
      then show ?thesis using IH that by auto
    qed
    then show ?thesis using IH ys stated count by auto
  qed
qed simp

lemma collect_complete:
  assumes "\<And>p. q \<le> p \<Longrightarrow> p = q \<or> 100 * p < length xs \<Longrightarrow>
      read (Suc p) = Inr (length xs, take 100 (drop (100 * p) xs))"
    and "distinct (List.map_filter key xs)" and "length xs \<le> 100 * (q + n)" and "0 < n"
    and "stated = None \<or> stated = Some (length xs)" and "100 * q \<le> length xs"
  shows "\<exists>final. collectPages n read key (Suc q) stated (take (100 * q) xs) = Inr (xs, final)"
  using assms
proof (induction n arbitrary: q stated)
  case (Suc n)
  have page: "read (Suc q) = Inr (length xs, take 100 (drop (100 * q) xs))" by (rule Suc.prems(1)) simp_all
  have acc: "take (100 * q) xs @ take 100 (drop (100 * q) xs) = take (100 * Suc q) xs"
    by (simp add: take_add [symmetric] add.commute)
  have split: "xs = take (100 * Suc q) xs @ drop (100 * Suc q) xs" by simp
  have fresh: "distinct (List.map_filter key (take (100 * Suc q) xs))"
  proof -
    have "List.map_filter key xs =
        List.map_filter key (take (100 * Suc q) xs) @ List.map_filter key (drop (100 * Suc q) xs)"
      by (subst (1) split) (simp add: List.map_filter_def del: append_take_drop_id)
    with Suc.prems(2) show ?thesis by simp
  qed
  show ?case
  proof (cases "length xs \<le> 100 * Suc q")
    case True
    with Suc.prems(5) fresh page acc show ?thesis by (auto simp del: mult_Suc_right)
  next
    case False
    then have "0 < n" using Suc.prems(3) by (cases n) auto
    have next_page: "\<exists>final. collectPages n read key (Suc (Suc q)) (Some (length xs)) (take (100 * Suc q) xs) = Inr (xs, final)"
    proof (rule Suc.IH)
      fix p assume "Suc q \<le> p" "p = Suc q \<or> 100 * p < length xs"
      then show "read (Suc p) = Inr (length xs, take 100 (drop (100 * p) xs))"
        using False by (intro Suc.prems(1)) auto
    qed (use Suc.prems False \<open>0 < n\<close> in auto)
    have "length (take 100 (drop (100 * q) xs)) = 100" using False by simp
    with next_page show ?thesis using Suc.prems(5) fresh page acc False by (auto simp del: mult_Suc_right)
  qed
qed simp

lemma collect_iff:
  "(\<exists>final. collectPages 10 read key 1 None [] = Inr (xs, final)) \<longleftrightarrow>
     served read xs \<and> distinct (List.map_filter key xs) \<and> length xs \<le> 1000"
proof
  assume "\<exists>final. collectPages 10 read key 1 None [] = Inr (xs, final)"
  then obtain final where "collectPages 10 read key (Suc 0) None [] = Inr (xs, final)" by auto
  note sound = collect_sound [OF this]
  have "read p = Inr (length xs, take 100 (drop (100 * (p - 1)) xs))"
    if "1 \<le> p" "p = 1 \<or> 100 * (p - 1) < length xs" for p
    using that sound by (cases p) auto
  then show "served read xs \<and> distinct (List.map_filter key xs) \<and> length xs \<le> 1000"
    using sound by (simp add: served_def)
next
  assume r: "served read xs \<and> distinct (List.map_filter key xs) \<and> length xs \<le> 1000"
  have "\<exists>final. collectPages 10 read key (Suc 0) None (take (100 * 0) xs) = Inr (xs, final)"
  proof (rule collect_complete)
    fix p :: nat assume "0 \<le> p" "p = 0 \<or> 100 * p < length xs"
    then show "read (Suc p) = Inr (length xs, take 100 (drop (100 * p) xs))"
      using r unfolding served_def by (metis diff_Suc_1 le_add1 plus_1_eq_Suc One_nat_def)
  qed (use r in auto)
  then show "\<exists>final. collectPages 10 read key 1 None [] = Inr (xs, final)" by simp
qed

end

lemma zodParse_Inr: "zodParse schema body = Inr v \<longleftrightarrow> (\<exists>j. body = Inr j \<and> schema j = Some v)"
  by (auto simp: zodParse_def split: sum.splits option.splits)

lemma actionsPage_Inr: "actionsPage m page = Inr (count, xs) \<longleftrightarrow> page = Inr (count, xs) \<and> length xs \<le> 100"
  by (auto simp: actionsPage_def split: sum.splits if_splits)

interpretation checkPages: paged_read "checkPage gh b" ck_id
  by unfold_locales (auto simp: checkPage_def zodParse_Inr)

interpretation workflowPages: paged_read "workflowPage gh b" "Some \<circ> wr_id"
  by unfold_locales (simp add: workflowPage_def actionsPage_Inr)

interpretation jobPages: paged_read "jobPage gh b w reads" "Some \<circ> wj_checkUrl"
  by unfold_locales (simp add: jobPage_def actionsPage_Inr split: if_splits)

text \<open>C40: the read of the checks is exact. It answers a list of checks if and only if GitHub served
  exactly that list, page after page with one total, no check identifier repeats, and it has at most
  a thousand elements; a changed total, a repetition, an excess or a truncated page is refused.\<close>

theorem check_read_exact:
  "currentCheckRuns gh b = Inr cs \<longleftrightarrow>
     served (checkPage gh b) cs \<and> distinct (List.map_filter ck_id cs) \<and> length cs \<le> 1000"
  unfolding checkPages.collect_iff [symmetric] by (auto simp: currentCheckRuns_def split: sum.splits)

subsection \<open>Reviews\<close>

definition decisiveReview :: "string \<Rightarrow> string \<Rightarrow> review \<Rightarrow> bool" where
  "decisiveReview head who r \<longleftrightarrow>
     rv_author r = Some who \<and> rv_commit r = Some head \<and>
     rv_state r \<in> {''APPROVED'', ''CHANGES_REQUESTED'', ''DISMISSED''}"

lemma latestReviews_last:
  "map_of (latestReviews head rs) who =
     (case filter (decisiveReview head who) rs of [] \<Rightarrow> None | ds \<Rightarrow> Some (last ds))"
proof (induction rs rule: rev_induct)
  case (snoc r rs)
  then show ?case
    by (cases "rv_author r"; cases "rv_commit r")
      (auto simp: latestReviews_def decisiveReview_def js.get_put split: list.splits)
qed (simp add: latestReviews_def)

lemma latestReviews_distinct: "keysDistinct (latestReviews head rs)"
proof (induction rs rule: rev_induct)
  case (snoc r rs)
  then show ?case by (simp add: latestReviews_def js.invar_put split: option.splits)
qed (simp add: latestReviews_def)

text \<open>Feedback on a revision: the last decisive review of somebody at it requests changes, or a
  thread is unresolved, in evidence that is complete and about that revision.\<close>

definition feedback :: "reviewRead \<Rightarrow> deliveryBinding \<Rightarrow> bool" where
  "feedback gql b \<longleftrightarrow>
     (\<exists>d. zodParse reviewsSchema (gql (dl_repo b) (dl_number b)) = Inr d \<and> re_head d = dl_head b \<and>
        (False \<in> set (re_threads d) \<or>
         (\<exists>who ds r. filter (decisiveReview (dl_head b) who) (re_reviews d) = ds @ [r] \<and>
            rv_state r = ''CHANGES_REQUESTED'')))"

lemma latest_last:
  assumes "(who, r) \<in> set (latestReviews head rs)"
  shows "\<exists>ds. filter (decisiveReview head who) rs = ds @ [r]"
proof -
  have "map_of (latestReviews head rs) who = Some r"
    using assms latestReviews_distinct by (simp add: keysDistinct_def)
  then have "filter (decisiveReview head who) rs \<noteq> [] \<and> last (filter (decisiveReview head who) rs) = r"
    by (auto simp: latestReviews_last split: list.splits)
  then show ?thesis by (metis append_butlast_last_id)
qed

lemma reviews_feedback:
  assumes "reviews gql (dl_repo b) (dl_number b) (dl_head b) = Inr (changes, unresolved)"
    and "changes \<or> unresolved"
  shows "feedback gql b"
proof -
  obtain d where d: "zodParse reviewsSchema (gql (dl_repo b) (dl_number b)) = Inr d" "re_head d = dl_head b"
    "changes = list_ex (\<lambda>(_, r). rv_state r = ''CHANGES_REQUESTED'') (latestReviews (dl_head b) (re_reviews d))"
    "unresolved = list_ex Not (re_threads d)"
    using assms(1) by (auto simp: reviews_def split: sum.splits if_splits)
  from assms(2) show ?thesis
  proof
    assume changes
    with d(3) obtain who r where "(who, r) \<in> set (latestReviews (dl_head b) (re_reviews d))"
      "rv_state r = ''CHANGES_REQUESTED''" by (auto simp: list_ex_iff)
    with latest_last d(1,2) show ?thesis unfolding feedback_def by blast
  next
    assume unresolved
    with d show ?thesis by (auto simp: feedback_def list_ex_iff)
  qed
qed

subsection \<open>Workflow runs\<close>

definition newestRun :: "string \<Rightarrow> workflowRun list \<Rightarrow> workflowRun \<Rightarrow> bool" where
  "newestRun head runs w \<longleftrightarrow>
     w \<in> set runs \<and> wr_head w = head \<and>
     (\<forall>w' \<in> set runs. wr_head w' = head \<and> wr_workflow w' = wr_workflow w \<longrightarrow> w' = w \<or> wr_number w' < wr_number w)"

definition newestMap :: "string \<Rightarrow> workflowRun list \<Rightarrow> (nat \<times> workflowRun) list \<Rightarrow> bool" where
  "newestMap head runs m \<longleftrightarrow>
     (\<forall>k w. map_of m k = Some w \<longrightarrow> wr_workflow w = k \<and> newestRun head runs w) \<and>
     (\<forall>w \<in> set runs. wr_head w = head \<longrightarrow> map_of m (wr_workflow w) \<noteq> None) \<and> keysDistinct m"

lemma newestMap_other: "newestMap head seen m \<Longrightarrow> wr_head w \<noteq> head \<Longrightarrow> newestMap head (seen @ [w]) m"
  by (auto simp: newestMap_def newestRun_def)

lemma newestMap_fresh:
  assumes "newestMap head seen m" and "wr_head w = head"
    and "case map_of m (wr_workflow w) of None \<Rightarrow> True | Some previous \<Rightarrow> wr_number previous < wr_number w"
  shows "newestMap head (seen @ [w]) (AList.update (wr_workflow w) w m)"
proof -
  have older: "wr_number w' < wr_number w"
    if "w' \<in> set seen" "wr_head w' = head" "wr_workflow w' = wr_workflow w" for w'
  proof -
    have "map_of m (wr_workflow w) \<noteq> None" using assms(1) that unfolding newestMap_def by metis
    then obtain previous where p: "map_of m (wr_workflow w) = Some previous" by blast
    with assms(1) have "wr_workflow previous = wr_workflow w" "newestRun head seen previous"
      by (simp_all add: newestMap_def)
    with that have "w' = previous \<or> wr_number w' < wr_number previous" by (simp add: newestRun_def)
    with assms(3) p show ?thesis by auto
  qed
  then have "newestRun head (seen @ [w]) w" using assms(2) by (auto simp: newestRun_def)
  moreover have "newestRun head (seen @ [w]) v \<and> wr_workflow v = k"
    if "map_of m k = Some v" "k \<noteq> wr_workflow w" for k v
    using assms(1) that unfolding newestMap_def newestRun_def by auto
  ultimately show ?thesis
    using assms(1) by (auto simp: newestMap_def js.get_put js.invar_put)
qed

lemma newestMap_stale:
  assumes "newestMap head seen m" and "map_of m (wr_workflow w) = Some previous"
    and "wr_number w < wr_number previous"
  shows "newestMap head (seen @ [w]) m"
proof -
  have "newestRun head (seen @ [w]) v" if "map_of m k = Some v" for k v
  proof (cases "k = wr_workflow w")
    case True
    with that assms have "v = previous" "newestRun head seen v" by (simp_all add: newestMap_def)
    with assms(3) show ?thesis by (auto simp: newestRun_def)
  next
    case False
    with that assms(1) show ?thesis by (auto simp: newestMap_def newestRun_def)
  qed
  then show ?thesis using assms(1,2) by (auto simp: newestMap_def)
qed

lemma currentRuns_newest:
  assumes "currentRuns head ws m = Some m'" and "newestMap head seen m"
    and "distinct (map wr_id (seen @ ws))"
  shows "newestMap head (seen @ ws) m'"
  using assms
proof (induction head ws m arbitrary: seen rule: currentRuns.induct)
  case (2 head w ws m)
  have ids: "distinct (map wr_id ((seen @ [w]) @ ws))" using "2.prems"(3) by simp
  show ?case
  proof (cases "wr_head w = head")
    case False
    then show ?thesis using "2.IH"(1) [OF False _ newestMap_other ids] "2.prems" by simp
  next
    case True
    show ?thesis
    proof (cases "map_of m (wr_workflow w)")
      case None
      then have "newestMap head (seen @ [w]) (AList.update (wr_workflow w) w m)"
        using True "2.prems"(2) by (intro newestMap_fresh) simp_all
      then show ?thesis using "2.IH"(2) [OF _ None _ _ ids] "2.prems"(1) True None by simp
    next
      case (Some previous)
      have "newestRun head seen previous" using Some "2.prems"(2) by (simp add: newestMap_def)
      then have "wr_id previous \<in> wr_id ` set seen" by (simp add: newestRun_def)
      moreover have "wr_id w \<notin> wr_id ` set seen" using "2.prems"(3) by simp
      ultimately have "wr_id previous \<noteq> wr_id w" by auto
      with "2.prems"(1) True Some have differ: "wr_number previous \<noteq> wr_number w" by auto
      show ?thesis
      proof (cases "wr_number previous < wr_number w")
        case newer: True
        then have "newestMap head (seen @ [w]) (AList.update (wr_workflow w) w m)"
          using True Some "2.prems"(2) by (intro newestMap_fresh) simp_all
        then show ?thesis using "2.IH"(3) [OF _ Some _ _ _ _ ids] "2.prems"(1) True Some newer by simp
      next
        case False
        with differ have "wr_number w < wr_number previous" by simp
        then have "newestMap head (seen @ [w]) m" by (rule newestMap_stale [OF "2.prems"(2) Some])
        then show ?thesis using "2.IH"(4) [OF _ Some _ _ _ _ ids] "2.prems"(1) True Some False differ by simp
      qed
    qed
  qed
qed simp

subsection \<open>Evidence of a failure\<close>

text \<open>A failure of a check is current by Actions when, in complete listings, the newest run of a
  workflow at the bound revision was not cancelled, belongs to the suite of the check, and a job of its
  newest attempt completed with a blocking conclusion under the identifier of the check.\<close>

definition failedJob :: "deliveryBinding \<Rightarrow> workflowRun \<Rightarrow> nat \<Rightarrow> workflowJob \<Rightarrow> bool" where
  "failedJob b w i job \<longleftrightarrow>
     wj_run job = int (wr_id w) \<and> (wj_attempt job = None \<or> wj_attempt job = Some (int (wr_attempt w))) \<and>
     wj_head job = dl_head b \<and> wj_status job = ''completed'' \<and> isBlockingCheckConclusion (wj_conclusion job) \<and>
     jobCheckId b job = Some i"

definition currentByActions :: "githubRead \<Rightarrow> deliveryBinding \<Rightarrow> nat \<Rightarrow> nat \<Rightarrow> bool" where
  "currentByActions gh b i suite \<longleftrightarrow>
     (\<exists>runs w reads jobs job.
        served (workflowPage gh b) runs \<and> newestRun (dl_head b) runs w \<and>
        wr_conclusion w \<noteq> Some ''cancelled'' \<and> wr_suite w = suite \<and>
        served (jobPage gh b w reads) jobs \<and> job \<in> set jobs \<and> failedJob b w i job)"

lemma map_filter_iff: "y \<in> set (List.map_filter f xs) \<longleftrightarrow> (\<exists>x \<in> set xs. f x = Some y)"
  by (force simp: List.map_filter_def)

lemma qualifyRuns_sound:
  assumes "i \<in> set (qualifyRuns gh b checks ws reads known)"
  shows "i \<in> set known \<or>
    (\<exists>w \<in> set ws. \<exists>reads' jobs. served (jobPage gh b w reads') jobs \<and>
       (\<exists>job \<in> set jobs. qualifiesJob b checks w job = Some i))"
  using assms
proof (induction gh b checks ws reads known rule: qualifyRuns.induct)
  case (2 gh b checks w ws reads known)
  show ?case
  proof (cases "collectPages 10 (jobPage gh b w reads) (Some \<circ> wj_checkUrl) 1 None []")
    case (Inl err)
    then show ?thesis using "2.prems" by simp
  next
    case (Inr result)
    then obtain jobs pages where jobs: "collectPages 10 (jobPage gh b w reads) (Some \<circ> wj_checkUrl) 1 None [] = Inr (jobs, pages)"
      by (cases result) simp
    then have "served (jobPage gh b w reads) jobs" using jobPages.collect_iff by blast
    moreover have "i \<in> set (known @ List.map_filter (qualifiesJob b checks w) jobs) \<or>
        (\<exists>w \<in> set ws. \<exists>reads' jobs. served (jobPage gh b w reads') jobs \<and>
           (\<exists>job \<in> set jobs. qualifiesJob b checks w job = Some i))"
      using "2.IH" [OF jobs refl] "2.prems" jobs by simp
    ultimately show ?thesis by (auto simp: map_filter_iff)
  qed
qed simp

lemma qualifiesJob_failed:
  "qualifiesJob b checks w job = Some i \<Longrightarrow>
     failedJob b w i job \<and> (\<exists>c \<in> set checks. ck_id c = Some i \<and> ck_suite c = Some (wr_suite w))"
  by (auto simp: qualifiesJob_def failedJob_def list_ex_iff split: if_splits)

lemma workflow_ids: "List.map_filter (Some \<circ> wr_id) ws = map wr_id ws"
  by (simp add: List.map_filter_def)

lemma actions_sound:
  assumes "i \<in> set (currentActionCheckIds gh b checks)"
  shows "\<exists>c \<in> set checks. \<exists>suite. ck_id c = Some i \<and> ck_suite c = Some suite \<and> currentByActions gh b i suite"
proof -
  obtain runs pages where collected: "collectPages 10 (workflowPage gh b) (Some \<circ> wr_id) 1 None [] = Inr (runs, pages)"
    using assms by (cases "collectPages 10 (workflowPage gh b) (Some \<circ> wr_id) 1 None []")
      (auto simp: currentActionCheckIds_def split: if_splits)
  then obtain current where r: "currentRuns (dl_head b) runs [] = Some current"
    "i \<in> set (qualifyRuns gh b checks (parentRuns checks current) pages [])"
    using assms by (cases "currentRuns (dl_head b) runs []")
      (auto simp: currentActionCheckIds_def Let_def split: if_splits)
  have runs: "served (workflowPage gh b) runs" "distinct (map wr_id runs)"
    using collected workflowPages.collect_iff [of gh b runs] unfolding workflow_ids by blast+
  have newest: "newestMap (dl_head b) runs current"
    using currentRuns_newest [OF r(1), of "[]"] runs(2) by (simp add: newestMap_def newestRun_def)
  from qualifyRuns_sound [OF r(2)] obtain w reads jobs job where w: "w \<in> set (parentRuns checks current)"
    "served (jobPage gh b w reads) jobs" "job \<in> set jobs" "qualifiesJob b checks w job = Some i" by auto
  from w(1) newest have "newestRun (dl_head b) runs w" "wr_conclusion w \<noteq> Some ''cancelled''"
    by (auto simp: parentRuns_def newestMap_def keysDistinct_def)
  moreover from qualifiesJob_failed [OF w(4)] obtain c where "c \<in> set checks" "ck_id c = Some i"
    "ck_suite c = Some (wr_suite w)" "failedJob b w i job" by blast
  ultimately show ?thesis using runs(1) w(2,3) unfolding currentByActions_def by blast
qed

text \<open>A failure is confirmed by its app when the suite of the check at the bound revision completed
  with a blocking conclusion under that app, and the only check of that name of the app is this one,
  still blocking.\<close>

definition confirmedByApp :: "githubRead \<Rightarrow> deliveryBinding \<Rightarrow> observedCheck \<Rightarrow> bool" where
  "confirmedByApp gh b c \<longleftrightarrow>
     (\<exists>i suite appId slug. ck_id c = Some i \<and> ck_suite c = Some suite \<and> ck_app c = Some (appId, Some slug) \<and>
        suiteBlocks gh b suite appId slug \<and> checkStillBlocks gh b i suite appId slug (ck_name c))"

lemma qualifiesApp_confirmed: "qualifiesApp gh b c = Some i \<Longrightarrow> ck_id c = Some i \<and> confirmedByApp gh b c"
  by (auto simp: qualifiesApp_def confirmedByApp_def appSlug_def split: option.splits prod.splits if_splits)

lemma apps_sound:
  "i \<in> set (currentNonActionCheckIds gh b checks) \<Longrightarrow> \<exists>c \<in> set checks. ck_id c = Some i \<and> confirmedByApp gh b c"
  using qualifiesApp_confirmed by (fastforce simp: currentNonActionCheckIds_def map_filter_iff split: if_splits)

text \<open>A required check that failed at the bound revision, and currently so.\<close>

definition failedRequirement :: "githubRead \<Rightarrow> deliveryBinding \<Rightarrow> observedCheck list \<Rightarrow> requiredCheck list \<Rightarrow> observedCheck \<Rightarrow> bool" where
  "failedRequirement gh b cs required c \<longleftrightarrow>
     c \<in> set cs \<and> ck_head c = dl_head b \<and> (\<exists>rule \<in> set required. requires rule c) \<and> ck_status c = ''completed'' \<and>
     isBlockingCheckConclusion (ck_conclusion c) \<and>
     (confirmedByApp gh b c \<or> (\<exists>i suite. ck_id c = Some i \<and> ck_suite c = Some suite \<and> currentByActions gh b i suite))"

lemma same_id:
  assumes "distinct (List.map_filter ck_id cs)" and "c \<in> set cs" and "c' \<in> set cs" and "ck_id c = Some i" and "ck_id c' = Some i"
  shows "c = c'"
  using assms
proof (induction cs)
  case (Cons x cs)
  have "i \<in> set (List.map_filter ck_id cs)" if "y \<in> set cs" "ck_id y = Some i" for y
    using that by (auto simp: map_filter_iff)
  with Cons show ?case by (auto simp: List.map_filter_simps split: option.splits)
qed simp

lemma qualified_failed:
  assumes "distinct (List.map_filter ck_id cs)"
    and "c \<in> set (qualifiedFailures gh b (candidateFailures b required cs))"
  shows "failedRequirement gh b cs required c"
proof -
  let ?candidates = "candidateFailures b required cs"
  have c: "c \<in> set ?candidates" using assms(2) by (simp add: qualifiedFailures_def Let_def)
  then have blocking: "c \<in> set cs" "ck_head c = dl_head b" "\<exists>rule \<in> set required. requires rule c"
    "ck_status c = ''completed''" "isBlockingCheckConclusion (ck_conclusion c)"
    by (auto simp: candidateFailures_def list_ex_iff)
  from assms(2) obtain i where i: "ck_id c = Some i"
    "i \<in> set (currentActionCheckIds gh b (filter fromActions ?candidates)) \<or>
     i \<in> set (currentNonActionCheckIds gh b (filter (Not \<circ> fromActions) ?candidates))"
    by (auto simp: qualifiedFailures_def Let_def split: option.splits)
  have same: "c' = c" if "c' \<in> set ?candidates" "ck_id c' = Some i" for c'
    using that i(1) blocking(1) by (intro same_id [OF assms(1)]) (simp_all add: candidateFailures_def)
  from i(2) have "confirmedByApp gh b c \<or> (\<exists>suite. ck_suite c = Some suite \<and> currentByActions gh b i suite)"
  proof
    assume "i \<in> set (currentActionCheckIds gh b (filter fromActions ?candidates))"
    from actions_sound [OF this] same show ?thesis by auto
  next
    assume "i \<in> set (currentNonActionCheckIds gh b (filter (Not \<circ> fromActions) ?candidates))"
    from apps_sound [OF this] same show ?thesis by auto
  qed
  with blocking i(1) show ?thesis by (auto simp: failedRequirement_def)
qed

text \<open>C38: a correction rests on current evidence. The monitor asks for a correction of a delivery
  only of an undrafted pull request that still carries the attempt's marker, targets the bound branch,
  is armed to squash and is at the bound revision, and only if that revision has review feedback, or
  a required check of it failed in the newest attempt of its workflow or as confirmed by its app, read
  from complete listings.\<close>

theorem correction_evidence:
  assumes "observeGithubDelivery gh gql b = Inr (ObsCorrection h why)"
  shows "h = dl_head b \<and>
    (\<exists>pull generation.
       readPull gh (dl_repo b) (dl_number b) = Inr pull \<and> parseRunGeneration (dl_runId b) = Some generation \<and>
       carriesMarker (dl_runId b) generation pull \<and> pull_number pull = dl_number b \<and>
       pull_base pull = dl_baseRef b \<and> pull_head pull = dl_head b \<and> \<not> pull_draft pull \<and>
       pull_autoMerge pull = Some ''squash'') \<and>
    (feedback gql b \<or>
     (\<exists>cs required c. served (checkPage gh b) cs \<and> protectedChecks gh (dl_repo b) (dl_baseRef b) = Inr required \<and>
        failedRequirement gh b cs required c))"
proof -
  obtain pull where pull: "readPull gh (dl_repo b) (dl_number b) = Inr pull" "pull_number pull = dl_number b"
    "observeOpen gh gql b pull = Inr (ObsCorrection h why)"
    using assms by (auto simp: observeGithubDelivery_def split: sum.splits if_splits option.splits bool.splits)
  obtain generation changes unresolved where g: "parseRunGeneration (dl_runId b) = Some generation"
    "carriesMarker (dl_runId b) generation pull" "pull_base pull = dl_baseRef b" "pull_head pull = dl_head b"
    "\<not> pull_draft pull" "pull_autoMerge pull = Some ''squash''"
    "reviews gql (dl_repo b) (dl_number b) (dl_head b) = Inr (changes, unresolved)"
    using pull(3) by (auto simp: observeOpen_def split: option.splits if_splits sum.splits)
  have found: "h = dl_head b \<and> (feedback gql b \<or>
     (\<exists>cs required c. served (checkPage gh b) cs \<and> protectedChecks gh (dl_repo b) (dl_baseRef b) = Inr required \<and>
        failedRequirement gh b cs required c))"
  proof (cases "changes \<or> unresolved")
    case True
    then show ?thesis using pull(3) g reviews_feedback [OF g(7)] by (auto simp: observeOpen_def)
  next
    case False
    then have "observeChecks gh b pull = Inr (ObsCorrection h why)" using pull(3) g by (simp add: observeOpen_def)
    then obtain required cs c rest where r: "protectedChecks gh (dl_repo b) (dl_baseRef b) = Inr required"
      "currentCheckRuns gh b = Inr cs" "h = dl_head b"
      "qualifiedFailures gh b (candidateFailures b required cs) = c # rest"
      using g(3) by (auto simp: observeChecks_def split: sum.splits list.splits)
    have c: "c \<in> set (qualifiedFailures gh b (candidateFailures b required cs))" by (simp add: r(4))
    have "served (checkPage gh b) cs" "distinct (List.map_filter ck_id cs)"
      using r(2) checkPages.collect_iff [of gh b cs] by (auto simp: currentCheckRuns_def split: sum.splits)
    with qualified_failed [OF _ c] r(1,3) show ?thesis by blast
  qed
  with pull g show ?thesis by blast
qed

text \<open>A pull request at the bound revision whose required check failed in the newest run of its
  workflow.\<close>

definition demoHead :: string where
  "demoHead = replicate 40 CHR ''a''"

definition demoDelivery :: deliveryBinding where
  "demoDelivery =
     \<lparr>dl_runId = demoRunId 1, dl_repo = ''octo/widgets'', dl_number = 9, dl_baseRef = ''main'',
      dl_head = demoHead, dl_state = DeliveryWaiting, dl_correctionRunId = None, dl_observedAt = 0,
      dl_mergeCommit = None\<rparr>"

definition demoGithub :: githubRead where
  "demoGithub repo path =
     (case map_of
        [(''pulls/9'', JObj [(''number'', JNum 9),
            (''body'', JStr (''Fixes it. '' @ attemptMarker (demoRunId 1) 1)), (''state'', JStr ''open''),
            (''draft'', JBool False), (''head'', JObj [(''sha'', JStr demoHead)]), (''base'', JObj [(''ref'', JStr ''main'')]),
            (''user'', JObj [(''login'', JStr ''bot'')]), (''merged'', JBool False), (''merge_commit_sha'', JNull),
            (''auto_merge'', JObj [(''merge_method'', JStr ''squash'')])]),
         (''rules/branches/main?per_page=100&page=1'', JArr [JObj [(''type'', JStr ''pull_request'')],
            JObj [(''type'', JStr ''required_status_checks''), (''parameters'',
              JObj [(''required_status_checks'', JArr [JObj [(''context'', JStr ''build'')]])])]]),
         (checksPath demoDelivery @ ''&page=1'', JObj [(''total_count'', JNum 1), (''check_runs'', JArr [JObj
            [(''id'', JNum 5), (''check_suite'', JObj [(''id'', JNum 3)]), (''name'', JStr ''build''),
             (''head_sha'', JStr demoHead), (''status'', JStr ''completed''), (''conclusion'', JStr ''failure'')]])]),
         (''actions/runs?head_sha='' @ demoHead @ ''&per_page=100&page=1'', JObj [(''total_count'', JNum 1),
            (''workflow_runs'', JArr [JObj [(''id'', JNum 21), (''workflow_id'', JNum 2), (''run_number'', JNum 4),
              (''run_attempt'', JNum 1), (''head_sha'', JStr demoHead), (''check_suite_id'', JNum 3),
              (''event'', JStr ''pull_request''), (''conclusion'', JStr ''failure'')]])]),
         (''actions/runs/21/attempts/1/jobs?per_page=100&page=1'', JObj [(''total_count'', JNum 1), (''jobs'', JArr [JObj
            [(''run_id'', JNum 21), (''head_sha'', JStr demoHead),
             (''check_run_url'', JStr ''https://api.github.com/repos/octo/widgets/check-runs/5''),
             (''status'', JStr ''completed''), (''conclusion'', JStr ''failure'')]])])] path of
      None \<Rightarrow> Inl ''Delivery read refused (404)''
    | Some body \<Rightarrow> Inr body)"

definition demoReviews :: reviewRead where
  "demoReviews repo number =
     Inr (JObj [(''data'', JObj [(''repository'', JObj [(''pullRequest'', JObj
       [(''headRefOid'', JStr demoHead),
        (''reviews'', JObj [(''pageInfo'', JObj [(''hasPreviousPage'', JBool False)]), (''nodes'', JArr [])]),
        (''reviewThreads'', JObj [(''pageInfo'', JObj [(''hasNextPage'', JBool False)]), (''nodes'', JArr [])])])])])])"

lemma demo_generation: "parseRunGeneration (dl_runId demoDelivery) = Some 1"
  using parseRunGeneration_run_id [of 1 "taskKey demoTask"]
  by (simp add: demoDelivery_def demoRunId_def runIdFor_def MAX_SAFE_INTEGER_def)

lemma demo_correction:
  "observeGithubDelivery demoGithub demoReviews demoDelivery =
     Inr (ObsCorrection demoHead ''Required checks failed: build'')"
proof -
  have pull: "case readPull demoGithub (dl_repo demoDelivery) (dl_number demoDelivery) of Inl _ \<Rightarrow> False
     | Inr pull \<Rightarrow> pull_number pull = 9 \<and> pull_open pull \<and> \<not> pull_merged pull \<and> pull_base pull = ''main'' \<and>
         pull_head pull = demoHead \<and> \<not> pull_draft pull \<and> pull_autoMerge pull = Some ''squash'' \<and>
         carriesMarker (dl_runId demoDelivery) 1 pull \<and>
         observeChecks demoGithub demoDelivery pull = Inr (ObsCorrection demoHead ''Required checks failed: build'')"
    by code_simp
  have "reviews demoReviews (dl_repo demoDelivery) (dl_number demoDelivery) demoHead = Inr (False, False)"
    by code_simp
  then show ?thesis
    using pull demo_generation
    by (auto simp: observeGithubDelivery_def observeOpen_def demoDelivery_def split: sum.splits)
qed

theorem correction_evidence_witness:
  "feedback demoReviews demoDelivery \<or>
   (\<exists>cs required c. served (checkPage demoGithub demoDelivery) cs \<and>
      protectedChecks demoGithub (dl_repo demoDelivery) (dl_baseRef demoDelivery) = Inr required \<and>
      failedRequirement demoGithub demoDelivery cs required c)"
  using correction_evidence [OF demo_correction] by blast

subsection \<open>What the monitor mints\<close>

lemma advance_finished:
  "advanceDelivery now t r ob authorized = Decided d \<Longrightarrow> r_state r = Finished"
  by (auto simp: advanceDelivery_def deliveryStale_def refused_def split: if_splits option.splits)

text \<open>What a correction needs of the task and run the transaction decides on: the task is open and idle and
  still waits for the delivery of this finished run at the observed revision, not corrected before.\<close>

definition awaitsCorrection :: "task \<Rightarrow> run \<Rightarrow> string \<Rightarrow> bool" where
  "awaitsCorrection t r head \<longleftrightarrow>
     t_closedAt t = None \<and> t_activeRunId t = None \<and> r_state r = Finished \<and>
     (case t_delivery t of
        None \<Rightarrow> False
      | Some b \<Rightarrow> dl_runId b = r_runId r \<and> dl_head b = head \<and> dl_state b = DeliveryWaiting \<and>
                  dl_correctionRunId b = None)"

lemma advance_writes:
  "advanceDelivery now t r ob authorized = Decided d \<Longrightarrow>
     \<not> (isCorrection ob \<and> authorized \<and> awaitsCorrection t r (ob_head ob)) \<Longrightarrow>
     \<exists>r'. writtenRuns d = [r'] \<and> r_runId r' = r_runId r"
  by (cases ob)
    (auto simp: advanceDelivery_def deliveryStale_def awaitsCorrection_def refused_def taskAndRun_def rebind_def
      writtenRuns_def Let_def split: if_splits option.splits)

lemma finished_no_cleanup: "r_state r = Finished \<Longrightarrow> withCleanup cid r out = out"
  by (cases out) (auto simp: withCleanup_def needsCleanup_def isLive_def split: option.splits)

lemma applyDecision_one_run:
  assumes "applyDecision s d revn = Inr s'" and "writtenRuns d = [r']" and "r_runId r' \<noteq> i"
  shows "readRun s' i = readRun s i"
  using assms by (auto simp: applyDecision_def Let_def readRun_def writeRun_def js.get_put split: if_splits)

lemma observe_mints:
  assumes inv: "storeInv s" and absent: "readRun s i = None"
    and minted: "readRun (fst (observeDelivery uuid now s runId ob authorize)) i \<noteq> None"
  obtains r v where "readRun s runId = Some r" "readTask s (r_task r) = Some v" "isCorrection ob"
    "authorize (vt_task v) r" "awaitsCorrection (vt_task v) r (ob_head ob)"
proof -
  let ?decide = "onRun uuid (\<lambda>t r _. advanceDelivery now t r ob (authorize t r)) (runSnapshot s runId None None)"
  have "fst (observeDelivery uuid now s runId ob authorize) \<noteq> s" using absent minted by metis
  then obtain d s' revn where d: "?decide = Decided d" "applyDecision s d revn = Inr s'"
    "fst (observeDelivery uuid now s runId ob authorize) = s'"
    by (cases "?decide")
      (auto simp: observeDelivery_def transactOnRun_def transactRun_def commitOutcome_def Let_def split: sum.splits)
  from d(1) obtain r v where r: "readRun s runId = Some r" "readTask s (r_task r) = Some v"
    and "withCleanup uuid r (advanceDelivery now (vt_task v) r ob (authorize (vt_task v) r)) = Decided d"
    by (auto simp: onRun_def refused_def split: option.splits)
  then obtain d0 where d0: "advanceDelivery now (vt_task v) r ob (authorize (vt_task v) r) = Decided d0"
    by (metis withCleanup_Decided)
  then have same: "advanceDelivery now (vt_task v) r ob (authorize (vt_task v) r) = Decided d"
    using \<open>withCleanup _ _ _ = _\<close> finished_no_cleanup [OF advance_finished] by metis
  have "isCorrection ob \<and> authorize (vt_task v) r \<and> awaitsCorrection (vt_task v) r (ob_head ob)"
  proof (rule ccontr)
    assume "\<not> ?thesis"
    from advance_writes [OF same this] obtain r' where r': "writtenRuns d = [r']" "r_runId r' = r_runId r" by blast
    have "r_runId r = runId" using storeInv_run [OF inv r(1)] by metis
    with r(1) absent r'(2) have "r_runId r' \<noteq> i" by auto
    from applyDecision_one_run [OF d(2) r'(1) this] absent minted d(3) show False by simp
  qed
  with r that show thesis by blast
qed

lemma settle_runs [simp]: "ms_runs (fst (settleOutbox s input)) = ms_runs s"
  by (auto simp: settleOutbox_def settleOutboxEntry_def Let_def split: option.splits outboxState.splits)

lemma interfere_store [simp]: "ds_store (interfere w k j d) = dw_env w k j (ds_store d)"
  by (simp add: interfere_def)

text \<open>A run the rest of the world does not mint is not minted by a settlement either.\<close>

lemma settleClaim_absent:
  "readRun (ds_store d) i = None \<Longrightarrow> readRun (ds_store (settleClaim now e st f d)) i = None"
  by (simp add: settleClaim_def readRun_def)

lemma settleDone_absent:
  assumes "\<And>j x. readRun x i = None \<Longrightarrow> readRun (dw_env w k j x) i = None" and "readRun (ds_store d) i = None"
  shows "readRun (ds_store (settleDone w k e d)) i = None"
  using assms by (simp add: settleDone_def settleClaim_absent)

lemma observeMonitored_absent:
  assumes "\<And>j x. readRun x i = None \<Longrightarrow> readRun (dw_env w k j x) i = None"
    and "observeMonitored w k e r ob authorize d = (d', m)" and "readRun (ds_store d') i \<noteq> None"
  shows "readRun (fst (observeDelivery (dw_uuid w k) (dw_now w k 2) (dw_env w k 3 (ds_store d)) (r_runId r) ob authorize)) i
    \<noteq> None"
proof (cases "observeDelivery (dw_uuid w k) (dw_now w k 2) (dw_env w k 3 (ds_store d)) (r_runId r) ob authorize")
  case (Pair s outcome)
  show ?thesis
  proof
    assume "readRun (fst (observeDelivery (dw_uuid w k) (dw_now w k 2) (dw_env w k 3 (ds_store d)) (r_runId r) ob authorize)) i = None"
    with Pair have "readRun s i = None" by simp
    then have "readRun (ds_store (settleDone w k e (d0\<lparr>ds_store := s\<rparr>))) i = None"
      "readRun (ds_store (settleClaim now e st f (interfere w k 9 (d0\<lparr>ds_store := s\<rparr>)))) i = None" for d0 now st f
      using settleDone_absent [OF assms(1)] settleClaim_absent assms(1) by simp_all
    with assms(2,3) Pair \<open>readRun s i = None\<close> show False
      by (cases outcome) (auto simp: observeMonitored_def Let_def split: if_splits)
  qed
qed

text \<open>A visit that mints a run read the run and its task, found the task waiting for that run, observed its
  delivery, and went on to the transaction.\<close>

lemma handleMonitor_changed:
  assumes env: "\<And>j x. readRun x i = None \<Longrightarrow> readRun (dw_env w k j x) i = None"
    and absent: "readRun (ds_store d) i = None"
    and visit: "handleMonitorDelivery w k e d = (d', m)" and minted: "readRun (ds_store d') i \<noteq> None"
  obtains r v b ob authorize where "readRun (dw_env w k 1 (ds_store d)) (o_runId e) = Some r"
    "readTask (dw_env w k 2 (dw_env w k 1 (ds_store d))) (r_task r) = Some v"
    "t_delivery (vt_task v) = Some b" "dl_runId b = r_runId r" "dw_observeDelivery w k b = Inr ob"
    "observeMonitored w k e r ob authorize (interfere w k 2 (interfere w k 1 d)) = (d', m)"
    "authorize = dw_authorized w \<or> dw_readPermission w k (vt_task v) r = Inr authorize"
proof -
  let ?d1 = "interfere w k 1 d" and ?d2 = "interfere w k 2 (interfere w k 1 d)"
  have gone: "readRun (ds_store ?d1) i = None" "readRun (ds_store ?d2) i = None" using env absent by simp_all
  have left: "d' \<noteq> ?d2" "d' \<noteq> settleDone w k e ?d1" "d' \<noteq> settleDone w k e ?d2"
    using minted gone settleDone_absent [OF env] by metis+
  obtain r where r: "readRun (ds_store ?d1) (o_runId e) = Some r"
    using visit left by (auto simp: handleMonitorDelivery_def Let_def split: option.splits)
  let ?found = "map_option vt_task (readTask (ds_store ?d2) (r_task r))"
  have stale: "\<not> monitorStale r ?found" using visit left r by (auto simp: handleMonitorDelivery_def Let_def)
  then obtain v b where v: "readTask (ds_store ?d2) (r_task r) = Some v" "t_delivery (vt_task v) = Some b"
    "dl_runId b = r_runId r" by (auto simp: monitorStale_def split: option.splits)
  obtain ob where ob: "dw_observeDelivery w k b = Inr ob"
    using visit left r stale v by (cases "dw_observeDelivery w k b") (auto simp: handleMonitorDelivery_def Let_def)
  have "observeMonitored w k e r ob (dw_authorized w) ?d2 = (d', m) \<or>
      (\<exists>a. dw_readPermission w k (vt_task v) r = Inr a \<and> observeMonitored w k e r ob a ?d2 = (d', m))"
    using visit left r stale v ob
    by (cases "dw_readPermission w k (vt_task v) r") (auto simp: handleMonitorDelivery_def Let_def split: if_splits)
  with that r v ob show thesis by (simp only: interfere_store) blast
qed

lemma monitorWorld_simps [simp]:
  "dw_env (monitorWorld gh gql grants admitted readAt decidedAt w) = dw_env w"
  "dw_uuid (monitorWorld gh gql grants admitted readAt decidedAt w) = dw_uuid w"
  "dw_now (monitorWorld gh gql grants admitted readAt decidedAt w) = dw_now w"
  "dw_observeDelivery (monitorWorld gh gql grants admitted readAt decidedAt w) k = observeGithubDelivery (gh k) (gql k)"
  "dw_authorized (monitorWorld gh gql grants admitted readAt decidedAt w) =
     deliveryCorrectionAuthorized grants admitted 0 None"
  "dw_readPermission (monitorWorld gh gql grants admitted readAt decidedAt w) k t r =
     (case readGithubIntakePermission (gh k) admitted (readAt k) t r of
        Inl message \<Rightarrow> Inl message
      | Inr permission \<Rightarrow> Inr (deliveryCorrectionAuthorized grants admitted (decidedAt k) permission))"
  by (simp_all add: monitorWorld_def)

lemma authorized_no_permission:
  "deliveryCorrectionAuthorized grants admitted now None t r =
     deliveryCorrectionAuthorized grants admitted now' None t r"
  unfolding deliveryCorrectionAuthorized_def option.case by (rule refl)

lemma authorized_admitted:
  "deliveryCorrectionAuthorized grants admitted now p t r \<Longrightarrow> t_delivery t = Some b \<Longrightarrow> admitted (dl_repo b)"
  by (auto simp: deliveryCorrectionAuthorized_def split: option.splits if_splits)

lemma observe_head: "observeGithubDelivery gh gql b = Inr (ObsCorrection h why) \<Longrightarrow> h = dl_head b"
  by (auto simp: observeGithubDelivery_def observeOpen_def observeChecks_def
      split: sum.splits option.splits bool.splits if_splits list.splits)

text \<open>C39: another run is never spent on a delivery without cause and authority. However other clients
  act during a visit of the monitor, if it leaves a run that was not there before and that they did not
  mint, then GitHub answered for the delivery the task was read waiting for with a correction of exactly
  its bound revision, and in the store the transaction decided on the task was still open and idle,
  waiting for the delivery of the same run at that revision and not corrected before, in an admitted
  repository, with the correction authorized for it: by the standing grants, or by a permission of
  the original requester read during the visit.\<close>

theorem monitor_correction_justified:
  assumes "reachable (ds_store d)" and "\<And>j x. steps x (dw_env w k j x)"
    and "\<And>j x. readRun x i = None \<Longrightarrow> readRun (dw_env w k j x) i = None"
    and "handleMonitorDelivery (monitorWorld gh gql grants admitted readAt decidedAt w) k e d = (d', m)"
    and "readRun (ds_store d) i = None" and "readRun (ds_store d') i \<noteq> None"
  shows "let s1 = dw_env w k 1 (ds_store d); s2 = dw_env w k 2 s1; s3 = dw_env w k 3 s2 in
    \<exists>r v b why r' v' b'.
    readRun s1 (o_runId e) = Some r \<and> readTask s2 (r_task r) = Some v \<and> t_delivery (vt_task v) = Some b \<and>
    dl_runId b = o_runId e \<and> observeGithubDelivery (gh k) (gql k) b = Inr (ObsCorrection (dl_head b) why) \<and>
    readRun s3 (o_runId e) = Some r' \<and> readTask s3 (r_task r') = Some v' \<and>
    awaitsCorrection (vt_task v') r' (dl_head b) \<and> t_delivery (vt_task v') = Some b' \<and> admitted (dl_repo b') \<and>
    (deliveryCorrectionAuthorized grants admitted 0 None (vt_task v') r' \<or>
     (\<exists>p. readGithubIntakePermission (gh k) admitted (readAt k) (vt_task v) r = Inr (Some p) \<and>
        deliveryCorrectionAuthorized grants admitted (decidedAt k) (Some p) (vt_task v') r'))"
proof -
  define s1 where "s1 = dw_env w k 1 (ds_store d)"
  define s2 where "s2 = dw_env w k 2 s1"
  define s3 where "s3 = dw_env w k 3 s2"
  let ?w = "monitorWorld gh gql grants admitted readAt decidedAt w"
  have env: "\<And>j x. readRun x i = None \<Longrightarrow> readRun (dw_env ?w k j x) i = None" using assms(3) by simp
  obtain r v b ob authorize where r: "readRun (dw_env ?w k 1 (ds_store d)) (o_runId e) = Some r"
    "readTask (dw_env ?w k 2 (dw_env ?w k 1 (ds_store d))) (r_task r) = Some v" "t_delivery (vt_task v) = Some b"
    "dl_runId b = r_runId r" "dw_observeDelivery ?w k b = Inr ob"
    "observeMonitored ?w k e r ob authorize (interfere ?w k 2 (interfere ?w k 1 d)) = (d', m)"
    "authorize = dw_authorized ?w \<or> dw_readPermission ?w k (vt_task v) r = Inr authorize"
    by (rule handleMonitor_changed [OF env assms(5,4,6)])
  have reach: "reachable s1" "reachable s2" "reachable s3"
    unfolding s1_def s2_def s3_def using assms(1,2) by (blast intro: reachable_steps)+
  have runId: "r_runId r = o_runId e" using storeInv_run [OF reachable_inv [OF reach(1)], of "o_runId e" r] r(1) by (simp add: s1_def)
  have "readRun (fst (observeDelivery (dw_uuid ?w k) (dw_now ?w k 2) s3 (r_runId r) ob authorize)) i \<noteq> None"
    using observeMonitored_absent [OF env r(6) assms(6)] by (simp add: s1_def s2_def s3_def)
  moreover have "readRun s3 i = None" using assms(3,5) by (simp add: s1_def s2_def s3_def)
  ultimately obtain r' v' where m: "readRun s3 (r_runId r) = Some r'" "readTask s3 (r_task r') = Some v'"
    "isCorrection ob" "authorize (vt_task v') r'" "awaitsCorrection (vt_task v') r' (ob_head ob)"
    using observe_mints [OF reachable_inv [OF reach(3)]] by blast
  obtain h why where ob: "ob = ObsCorrection h why" using m(3) by (cases ob) auto
  with r(5) have observed: "observeGithubDelivery (gh k) (gql k) b = Inr (ObsCorrection (dl_head b) why)" and h: "h = dl_head b"
    using observe_head [of "gh k" "gql k" b h why] by simp_all
  have "deliveryCorrectionAuthorized grants admitted 0 None (vt_task v') r' \<or>
     (\<exists>p. readGithubIntakePermission (gh k) admitted (readAt k) (vt_task v) r = Inr (Some p) \<and>
        deliveryCorrectionAuthorized grants admitted (decidedAt k) (Some p) (vt_task v') r')" (is ?authority)
  proof (cases "readGithubIntakePermission (gh k) admitted (readAt k) (vt_task v) r")
    case (Inr p)
    then show ?thesis
      using r(7) m(4) authorized_no_permission [of grants admitted "decidedAt k" "vt_task v'" r' 0] by (cases p) auto
  qed (use r(7) m(4) in auto)
  moreover obtain b' where b': "t_delivery (vt_task v') = Some b'"
    using m(5) by (auto simp: awaitsCorrection_def split: option.splits)
  moreover have "admitted (dl_repo b')" using \<open>?authority\<close> authorized_admitted [OF _ b'] by blast
  moreover have "awaitsCorrection (vt_task v') r' (dl_head b)" using m(5) ob h by simp
  ultimately show ?thesis
    using r(1-4) m(1,2) runId observed unfolding Let_def s1_def [symmetric] s2_def [symmetric] s3_def [symmetric]
    by (intro exI conjI) (simp_all add: s1_def s2_def)
qed

text \<open>A run that finished with an armed pull request, whose required check then fails.\<close>

definition demoCoding :: workSpec where
  "demoCoding =
     \<lparr>ws_title = ''Fix'', ws_description = ''Fix it'', ws_pipeline = ''claude'', ws_priority = Normal,
      ws_fallbackPipelines = None, ws_deliveryRuntime = None, ws_deliverable = None, ws_repo = ''octo/widgets''\<rparr>"

definition demoOrigin :: workOrigin where
  "demoOrigin = \<lparr>wo_principal = ''ops'', wo_channel = ''github'', wo_thread = None\<rparr>"

lemma demo_payload: "workPayloadSchema (workPayloadJson demoOrigin demoCoding) = Some (demoOrigin, demoCoding)"
proof -
  have "repoNamePattern ''octo/widgets''" "''claude'' \<in> set PIPELINES" by code_simp+
  then have "validWorkSpec demoCoding"
    by (simp add: validWorkSpec_def demoCoding_def lengthWithin_def WORK_TITLE_MAX_def WORK_DESCRIPTION_MAX_def)
  moreover have "workOriginSchema (workOriginJson demoOrigin) = Some demoOrigin" by code_simp
  ultimately show ?thesis
    by (simp add: workPayloadSchema_def payloadSchema_def workPayloadJson_def strictKeys_def requiredField_def
        jsonField_def workSpec_roundtrip)
qed

definition demoDelivered :: "command list" where
  "demoDelivered =
     Request allFormats 1000 ((demoRequest ''a'' ''claude'')\<lparr>rq_work := Some (workPayloadJson demoOrigin demoCoding)\<rparr>) # tl demoStart @
     [Report None 6000 6000 (demoRunId 1) (demoResult\<lparr>rr_ok := True, rr_summary := Some ''pull-request''\<rparr>)
        (Some ''hash'') ''u3'' (Some demoDelivery) False]"

definition demoAwaiting :: drainState where
  "demoAwaiting = \<lparr>ds_store = execAll demoDelivered emptyStore, ds_dispatched = [], ds_reported = [], ds_failed = [],
     ds_excluded = [], ds_effects = []\<rparr>"

definition demoGrants :: "workGrant list" where
  "demoGrants = [\<lparr>wg_principal = ''ops'', wg_subjects = [], wg_pipelines = [''claude''], wg_scopes = [''work.operator''],
     wg_channel = None\<rparr>]"

lemma demoAwaiting_reachable: "reachable (ds_store demoAwaiting)"
proof -
  have "list_all admissible demoDelivered" by code_simp
  then show ?thesis using execAll_steps by (simp add: demoAwaiting_def reachable_def)
qed

definition demoMonitor :: outboxEntry where
  "demoMonitor = \<lparr>o_entryId = ''delivery/'' @ demoRunId 1, o_kind = MonitorDelivery, o_task = demoTask, o_runId = demoRunId 1,
     o_state = OutLeased ''drain-0'' 9000, o_attempts = 1, o_firstFailedAt = None, o_nextAttemptAt = None,
     o_deliveryFailures = None, o_createdAt = 6000, o_updatedAt = 7000\<rparr>"

abbreviation demoMonitorWorld :: drainWorld where
  "demoMonitorWorld \<equiv> monitorWorld (\<lambda>_. demoGithub) (\<lambda>_. demoReviews) demoGrants (\<lambda>_. True) (\<lambda>_. 0) (\<lambda>_. 0) demoWorld"

text \<open>What the witness needs of that store, evaluated at once.\<close>

definition demoAwaited :: "memStore \<Rightarrow> bool" where
  "demoAwaited s =
     (case readRun s (demoRunId 1) of None \<Rightarrow> False
      | Some r \<Rightarrow> (case readTask s (r_task r) of None \<Rightarrow> False
          | Some v \<Rightarrow>
              \<not> monitorStale r (Some (vt_task v)) \<and> t_delivery (vt_task v) = Some demoDelivery \<and>
              t_work (vt_task v) = workPayloadJson demoOrigin demoCoding \<and> t_task (vt_task v) = demoTask \<and>
              t_providerRouting (vt_task v) = None \<and> r_pipeline r = ''claude'' \<and> r_runId r = demoRunId 1 \<and>
              readRun s (demoRunId 2) = None \<and>
              readRun (fst (observeDelivery ''drain-0'' 8002 s (demoRunId 1)
                (ObsCorrection demoHead ''Required checks failed: build'') (\<lambda>_ _. True))) (demoRunId 2) \<noteq> None))"

declare correctionContext_def [code del]

lemma demo_awaited: "demoAwaited (ds_store demoAwaiting)"
  by code_simp

lemma observe_cong:
  "readRun s i = Some r \<Longrightarrow> readTask s (r_task r) = Some v \<Longrightarrow> a (vt_task v) r = b (vt_task v) r \<Longrightarrow>
     observeDelivery uuid now s i ob a = observeDelivery uuid now s i ob b"
  by (simp add: observeDelivery_def transactOnRun_def transactRun_def onRun_def Let_def)

lemma demo_waits:
  obtains r v where "readRun (ds_store demoAwaiting) (demoRunId 1) = Some r" "readTask (ds_store demoAwaiting) (r_task r) = Some v"
    "\<not> monitorStale r (Some (vt_task v))" "t_delivery (vt_task v) = Some demoDelivery"
    "deliveryCorrectionAuthorized demoGrants (\<lambda>_. True) 0 None (vt_task v) r" "r_runId r = demoRunId 1"
proof -
  obtain r v where r: "readRun (ds_store demoAwaiting) (demoRunId 1) = Some r" "readTask (ds_store demoAwaiting) (r_task r) = Some v"
    "\<not> monitorStale r (Some (vt_task v))" "t_delivery (vt_task v) = Some demoDelivery"
    "t_work (vt_task v) = workPayloadJson demoOrigin demoCoding" "t_task (vt_task v) = demoTask"
    "t_providerRouting (vt_task v) = None" "r_pipeline r = ''claude''" "r_runId r = demoRunId 1"
    using demo_awaited unfolding demoAwaited_def by (auto split: option.splits)
  have "operatorGrant demoGrants ''ops'' ''claude''" by code_simp
  then have "deliveryCorrectionAuthorized demoGrants (\<lambda>_. True) 0 None (vt_task v) r"
    unfolding deliveryCorrectionAuthorized_def deliveryIntentPipeline_def r(4-8) demo_payload
    by (simp add: demoOrigin_def demoCoding_def demoDelivery_def demoTask_def)
  with that r show thesis by blast
qed

lemma demo_minted:
  "readRun (ds_store demoAwaiting) (demoRunId 2) = None"
  "readRun (fst (observeDelivery ''drain-0'' 8002 (ds_store demoAwaiting) (demoRunId 1)
     (ObsCorrection demoHead ''Required checks failed: build'')
     (deliveryCorrectionAuthorized demoGrants (\<lambda>_. True) 0 None))) (demoRunId 2) \<noteq> None"
proof -
  obtain r v where r: "readRun (ds_store demoAwaiting) (demoRunId 1) = Some r" "readTask (ds_store demoAwaiting) (r_task r) = Some v"
    "deliveryCorrectionAuthorized demoGrants (\<lambda>_. True) 0 None (vt_task v) r" by (rule demo_waits)
  let ?auth = "deliveryCorrectionAuthorized demoGrants (\<lambda>_. True) 0 None"
  have "?auth (vt_task v) r = True" using r(3) by simp
  note same = observe_cong [OF r(1,2), of ?auth "\<lambda>_ _. True", OF this]
  show "readRun (ds_store demoAwaiting) (demoRunId 2) = None"
    using demo_awaited unfolding demoAwaited_def by (auto split: option.splits)
  show "readRun (fst (observeDelivery ''drain-0'' 8002 (ds_store demoAwaiting) (demoRunId 1)
     (ObsCorrection demoHead ''Required checks failed: build'')
     (deliveryCorrectionAuthorized demoGrants (\<lambda>_. True) 0 None))) (demoRunId 2) \<noteq> None"
    unfolding same using demo_awaited unfolding demoAwaited_def by (auto split: option.splits)
qed

lemma observeMonitored_runs:
  assumes still: "\<And>j x. interfere w k j x = x" and "observeMonitored w k e r ob authorize d = (d', m)"
  shows "ms_runs (ds_store d') =
    ms_runs (fst (observeDelivery (dw_uuid w k) (dw_now w k 2) (ds_store d) (r_runId r) ob authorize))"
proof (cases "observeDelivery (dw_uuid w k) (dw_now w k 2) (ds_store d) (r_runId r) ob authorize")
  case (Pair s outcome)
  then show ?thesis
    using assms(2) unfolding observeMonitored_def Let_def
    by (cases outcome) (auto simp: still settleDone_def settleClaim_def split: if_splits)
qed

lemma demoMonitor_run: "o_runId demoMonitor = demoRunId 1"
  by (simp add: demoMonitor_def)

theorem monitor_correction_justified_witness:
  "\<exists>b why r v. observeGithubDelivery demoGithub demoReviews b = Inr (ObsCorrection (dl_head b) why) \<and>
     readRun (ds_store demoAwaiting) (demoRunId 1) = Some r \<and> readTask (ds_store demoAwaiting) (r_task r) = Some v \<and>
     awaitsCorrection (vt_task v) r (dl_head b)"
proof -
  have quiet: "\<And>j x. dw_env demoWorld 0 j x = x" by (simp add: demoWorld_def)
  have still: "interfere demoMonitorWorld 0 j x = x" for j x by (simp add: interfere_def quiet)
  obtain r v where r: "readRun (ds_store demoAwaiting) (demoRunId 1) = Some r"
    "readTask (ds_store demoAwaiting) (r_task r) = Some v" "\<not> monitorStale r (Some (vt_task v))"
    "t_delivery (vt_task v) = Some demoDelivery"
    "deliveryCorrectionAuthorized demoGrants (\<lambda>_. True) 0 None (vt_task v) r" "r_runId r = demoRunId 1"
    by (rule demo_waits)
  let ?ob = "ObsCorrection demoHead ''Required checks failed: build''"
  let ?seen = "observeMonitored demoMonitorWorld 0 demoMonitor r ?ob (deliveryCorrectionAuthorized demoGrants (\<lambda>_. True) 0 None) demoAwaiting"
  have visit: "handleMonitorDelivery demoMonitorWorld 0 demoMonitor demoAwaiting = (fst ?seen, snd ?seen)"
    using r demo_correction by (simp add: handleMonitorDelivery_def still demoMonitor_run)
  have "dw_uuid demoWorld 0 = ''drain-0''" "dw_now demoWorld 0 2 = 8002" by code_simp+
  then have minted: "readRun (ds_store (fst ?seen)) (demoRunId 2) \<noteq> None"
    using demo_minted(2) observeMonitored_runs [OF still surjective_pairing, of demoMonitor r ?ob _ demoAwaiting]
    by (simp only: readRun_def r(6) monitorWorld_simps simp_thms)
  have "\<And>j x. steps x (dw_env demoWorld 0 j x)" by (simp add: quiet steps_refl)
  from monitor_correction_justified [OF demoAwaiting_reachable this _ visit demo_minted(1) minted] show ?thesis
    unfolding Let_def demoMonitor_run quiet by blast
qed

end
