(* ===== verification/Runs_Router.thy ===== *)
theory Runs_Router
  imports Ready_Delivery Work_Mint
begin

text \<open>
  \<^verbatim>\<open>apps/console/src/lib/runs-router.ts\<close> with \<^verbatim>\<open>run-token.ts\<close>, \<^verbatim>\<open>run-result.ts\<close> and the issue
  references of \<^verbatim>\<open>issue-trackers.ts\<close>: the API executors and workers call. An executor claims with its
  own identity and gets a run token; the worker presents that token on every later call. What a
  handler does not own is an argument (\<open>runsWorld\<close>): clock reads, random tokens and SHA-256, what other
  clients do before each store access, the drain, the issue lifecycle read, the credential broker,
  recipe occurrences and the triage report parser. Recipes, job secrets, briefs, issue pages and
  credential downloads are not modelled.
\<close>

subsection \<open>Run tokens\<close>

text \<open>\<^verbatim>\<open>Buffer.from(text, 'hex')\<close>: pairs of hexadecimal digits up to the first that is none.\<close>

definition anyHex :: "char \<Rightarrow> nat option" where
  "anyHex c =
     (let n = (of_char c :: nat)
      in if 48 \<le> n \<and> n \<le> 57 then Some (n - 48)
         else if 97 \<le> n \<and> n \<le> 102 then Some (n - 87)
         else if 65 \<le> n \<and> n \<le> 70 then Some (n - 55) else None)"

fun bufferFromHex :: "string \<Rightarrow> nat list" where
  "bufferFromHex (a # b # rest) =
     (case (anyHex a, anyHex b) of
        (Some x, Some y) \<Rightarrow> (16 * x + y) # bufferFromHex rest
      | _ \<Rightarrow> [])"
| "bufferFromHex _ = []"

definition runTokenMatches :: "(string \<Rightarrow> string) \<Rightarrow> string \<Rightarrow> string \<Rightarrow> bool" where
  "runTokenMatches hashRunToken token storedHash \<longleftrightarrow>
     bufferFromHex (hashRunToken token) = bufferFromHex storedHash"

subsection \<open>Results\<close>

datatype artifactReference =
    PullRequestRef nat
  | CommentRef nat nat string
  | ReviewRef nat nat string

definition githubArtifactReferenceSchema :: "string list \<Rightarrow> json \<Rightarrow> artifactReference option" where
  "githubArtifactReferenceSchema extra j =
     (case requiredField j ''kind'' jsonString of
        None \<Rightarrow> None
      | Some k \<Rightarrow>
          if k = ''pull-request''
          then (if strictKeys ([''kind'', ''number''] @ extra) j
                then map_option PullRequestRef (requiredField j ''number'' positiveInt) else None)
          else if k \<in> {''comment'', ''review''} \<and> strictKeys ([''kind'', ''number'', ''id'', ''url''] @ extra) j
          then do {
            number \<leftarrow> requiredField j ''number'' positiveInt;
            artifact \<leftarrow> requiredField j ''id'' positiveInt;
            url \<leftarrow> requiredField j ''url'' (bounded 0 1024);
            Some (if k = ''comment'' then CommentRef number artifact url else ReviewRef number artifact url)
          }
          else None)"

definition outcomeReferenceSchema :: "json \<Rightarrow> (artifactReference \<times> artifactReference list option) option" where
  "outcomeReferenceSchema j = do {
     reference \<leftarrow> githubArtifactReferenceSchema [''related''] j;
     related \<leftarrow> optionalField j ''related''
       (checked (\<lambda>rs. length rs \<le> 1) \<circ> arrayOf (githubArtifactReferenceSchema []));
     Some (reference, related)
   }"

record referenceContext =
  rf_issue :: "nat option"
  rf_mode :: "string option"
  rf_report :: bool

definition repoSlug :: "string \<Rightarrow> bool" where
  "repoSlug repo =
     (let name = dropWhile loginChar repo
      in takeWhile loginChar repo \<noteq> [] \<and> take 1 name = ''/'' \<and> drop 1 name \<noteq> [] \<and> list_all loginChar (drop 1 name))"

definition commentUrls :: "string \<Rightarrow> string list \<Rightarrow> string \<Rightarrow> nat \<Rightarrow> nat \<Rightarrow> string list" where
  "commentUrls repo bases fragment number artifact =
     map (\<lambda>base. ''https://github.com/'' @ repo @ ''/'' @ base @ ''/'' @ showNat number @ ''#'' @ fragment @ ''-'' @
        showNat artifact) bases"

definition artifactUrl :: "string \<Rightarrow> artifactReference \<Rightarrow> referenceContext \<Rightarrow> string option" where
  "artifactUrl repo reference c =
     (if \<not> repoSlug repo then None
      else (case reference of
        PullRequestRef number \<Rightarrow> Some (''https://github.com/'' @ repo @ ''/pull/'' @ showNat number)
      | CommentRef number artifact url \<Rightarrow>
          if rf_issue c = Some number \<and> url \<in> set (commentUrls repo [''issues'', ''pull''] ''issuecomment'' number artifact)
          then Some url else None
      | ReviewRef number artifact url \<Rightarrow>
          if rf_issue c = Some number \<and> rf_mode c = Some ''review'' \<and>
             url \<in> set (commentUrls repo [''pull''] ''pullrequestreview'' number artifact)
          then Some url else None))"

definition OK_OUTCOMES :: "string list" where
  "OK_OUTCOMES = [''pull-request'', ''merged-deliverable'', ''comment'', ''review'', ''no-op'', ''park'', ''report'']"

definition REPORT_ITEM_OUTCOMES :: "string list" where
  "REPORT_ITEM_OUTCOMES = [''report'', ''park'', ''no-op'']"

definition toRunResult :: "string \<Rightarrow> json \<Rightarrow> json option \<Rightarrow> string option \<Rightarrow> referenceContext \<Rightarrow> runResult" where
  "toRunResult repo outcome outcomeReference message c =
     (let summary = jsonString outcome;
          okOutcome = (case summary of None \<Rightarrow> False | Some o' \<Rightarrow> o' \<in> set OK_OUTCOMES);
          parsedRef = Option.bind outcomeReference outcomeReferenceSchema;
          ref = (if okOutcome \<and> summary \<noteq> Some ''report''
                 then Option.bind parsedRef (\<lambda>(reference, _). artifactUrl repo reference c) else None);
          relatedRefs = (case (parsedRef, ref) of
              (Some (_, Some related), Some url) \<Rightarrow>
                filter (\<lambda>u. u \<noteq> url) (List.map_filter (\<lambda>r. artifactUrl repo r c) related)
            | _ \<Rightarrow> []);
          finalMessage = map_option (take 16384) (checked (\<lambda>m. m \<noteq> []) message)
      in \<lparr>rr_ok = okOutcome \<and>
            (if rf_report c
             then (case summary of None \<Rightarrow> False
                   | Some o' \<Rightarrow> o' \<in> set REPORT_ITEM_OUTCOMES \<and>
                       (o' \<noteq> ''report'' \<or> jsTrim (orElse finalMessage []) \<noteq> []))
             else summary \<noteq> Some ''report''),
          rr_summary = summary, rr_ref = ref,
          rr_relatedRefs = (if relatedRefs = [] then None else Some relatedRefs),
          rr_message = finalMessage, rr_humanNeededActions = None\<rparr>)"

text \<open>\<^verbatim>\<open>/\/pull\/(\d+)$/\<close>\<close>

definition pullNumber :: "string \<Rightarrow> nat option" where
  "pullNumber ref =
     (let ds = takeWhile isDigit (rev ref)
      in if ds \<noteq> [] \<and> take 6 (dropWhile isDigit (rev ref)) = rev ''/pull/'' then Some (readNat (rev ds)) else None)"

subsection \<open>The world of a handler\<close>

text \<open>\<open>rw_now n\<close> is the n-th clock read of the handler, \<open>rw_env n\<close> what other clients do before its n-th
  store access; in the claim loop both also count attempts. The broker's renewal takes the
  orchestrator's renewal as an argument.\<close>

record runsWorld =
  rw_bearer :: "string option"
  rw_principal :: "workPrincipal option"
  rw_hash :: "string \<Rightarrow> string"
  rw_token :: "nat \<Rightarrow> string"
  rw_uuid :: string
  rw_now :: "nat \<Rightarrow> timestamp"
  rw_env :: "nat \<Rightarrow> memStore \<Rightarrow> memStore"
  rw_drain :: "memStore \<Rightarrow> memStore \<times> string option"
  rw_lifecycle :: "(nat \<Rightarrow> issueReference \<Rightarrow> string option \<Rightarrow> (bool \<times> string) option) option"
  rw_linearThread :: "string \<Rightarrow> issueReference option"
  rw_github :: githubRead
  rw_triage :: "run \<Rightarrow> bool"
  rw_triageReport :: "run \<Rightarrow> string option \<Rightarrow> bool"
  rw_recipeCodex :: "run \<Rightarrow> string \<Rightarrow> bool"
  rw_codexRenew :: "run \<Rightarrow> (memStore \<Rightarrow> memStore \<times> (apiError + run)) \<Rightarrow> memStore \<Rightarrow> memStore \<times> (apiError + run)"
  rw_codexRelease :: "run \<Rightarrow> memStore \<Rightarrow> memStore \<times> apiError option"
  rw_authority :: "fallbackAuthority option"

definition unauthorized :: "string \<Rightarrow> apiError" where
  "unauthorized message = ORPCError ''UNAUTHORIZED'' message"

definition conflict :: "string \<Rightarrow> apiError" where
  "conflict message = ORPCError ''CONFLICT'' message"

definition tokenHashOf :: "run \<Rightarrow> string" where
  "tokenHashOf r = orElse (Option.bind (r_queue r) q_tokenHash) []"

definition requireRunToken :: "runsWorld \<Rightarrow> timestamp \<Rightarrow> memStore \<Rightarrow> string \<Rightarrow> apiError + run" where
  "requireRunToken w now s runId =
     (case readRun s runId of
        None \<Rightarrow> Inl (unauthorized ''Invalid run token'')
      | Some r \<Rightarrow>
          (case (Option.bind (r_queue r) q_tokenHash, rw_bearer w) of
             (Some storedHash, Some token) \<Rightarrow>
               if \<not> runTokenMatches (rw_hash w) token storedHash then Inl (unauthorized ''Invalid run token'')
               else if \<not> isLive (r_state r) then Inl (unauthorized ''Run is no longer live'')
               else if orElse (runRecoveryDeadline r) (r_leaseExpiresAt r) \<le> now
               then Inl (unauthorized ''Run token expired'')
               else Inr r
           | _ \<Rightarrow> Inl (unauthorized ''Invalid run token'')))"

definition claimantSubject :: "workPrincipal \<Rightarrow> string" where
  "claimantSubject p = toLowerCase (wp_subject p)"

definition executor :: "runsWorld \<Rightarrow> apiError + workPrincipal" where
  "executor w =
     (case rw_principal w of
        None \<Rightarrow> Inl (unauthorized ''work.executor scope required'')
      | Some p \<Rightarrow>
          if ''work.executor'' \<in> set (wp_scopes p) then Inr p
          else Inl (unauthorized ''work.executor scope required''))"

subsection \<open>Claiming\<close>

definition MAX_CLAIM_ATTEMPTS :: nat where
  "MAX_CLAIM_ATTEMPTS = 5"

definition issueReferenceForTask :: "(string \<Rightarrow> issueReference option) \<Rightarrow> task \<Rightarrow> issueReference option" where
  "issueReferenceForTask parseLinearIssueThread t =
     (case (t_issue t, t_task t) of
        (Some issue, _) \<Rightarrow> Some (ti_reference issue)
      | (None, GithubAnchor repo issue) \<Rightarrow> Some (GithubIssue repo issue)
      | (None, WorkAnchor _) \<Rightarrow>
          (case jsonField (t_work t) ''origin'' of
             None \<Rightarrow> None
           | Some origin \<Rightarrow>
               if jsonField origin ''channel'' \<noteq> Some (JStr ''linear'') then None
               else (case jsonField origin ''thread'' of
                       Some (JStr thread) \<Rightarrow> if thread = [] then None else parseLinearIssueThread thread
                     | _ \<Rightarrow> None)))"

record runClaim =
  rc_runId :: string
  rc_workId :: "string option"
  rc_pipeline :: string
  rc_token :: string
  rc_expiresAt :: timestamp
  rc_placementAware :: bool

definition claimResponse :: "string \<Rightarrow> run \<Rightarrow> runClaim" where
  "claimResponse token r =
     \<lparr>rc_runId = r_runId r, rc_workId = (case r_task r of WorkAnchor i \<Rightarrow> Some i | GithubAnchor _ _ \<Rightarrow> None),
      rc_pipeline = r_pipeline r, rc_token = token, rc_expiresAt = r_leaseExpiresAt r,
      rc_placementAware = (Option.bind (r_queue r) q_startupPlacement \<noteq> None)\<rparr>"

text \<open>The lifecycle of the claimed run's issue: not asked for, or the answer.\<close>

datatype claimCheck = NotChecked | Checked "string" "(bool \<times> string) option"

definition trackerName :: "issueReference \<Rightarrow> string" where
  "trackerName i = (case i of GithubIssue _ _ \<Rightarrow> ''github'' | LinearIssue _ _ \<Rightarrow> ''linear'')"

definition checkIssue :: "runsWorld \<Rightarrow> nat \<Rightarrow> memStore \<Rightarrow> run \<Rightarrow> apiError + claimCheck" where
  "checkIssue w a s r =
     (let storedTask = (if isWorkAnchor (r_task r) then map_option vt_task (readTask s (r_task r)) else None);
          source = (case r_task r of
              GithubAnchor repo issue \<Rightarrow> Some (GithubIssue repo issue)
            | WorkAnchor _ \<Rightarrow> Option.bind storedTask (issueReferenceForTask (rw_linearThread w)))
      in case (source, rw_lifecycle w) of
           (Some i, Some load) \<Rightarrow>
             if paramOf (r_params r) ''mode'' \<noteq> Some ''implement'' then Inr NotChecked
             else
               (case storedTask of
                  None \<Rightarrow> Inr (Checked (trackerName i) (load a i None))
                | Some t \<Rightarrow>
                    (case storedWorkPayloadSchema (t_work t) of
                       None \<Rightarrow> Inl zodError
                     | Some (_, spec) \<Rightarrow>
                         Inr (Checked (trackerName i)
                           (load a i (if trackerName i = ''linear'' then storedRepo spec else None)))))
         | _ \<Rightarrow> Inr NotChecked)"

text \<open>What to do with a freshly claimed run: hand it out, answer that there is nothing, fail, or claim
  again.\<close>

datatype claimStep = ClaimAnswer "apiError + runClaim option" | ClaimAgain

definition stillLive :: "memStore \<Rightarrow> string \<Rightarrow> bool" where
  "stillLive s runId = (case readRun s runId of None \<Rightarrow> False | Some r \<Rightarrow> isLive (r_state r))"

definition releaseUnverifiable :: "runsWorld \<Rightarrow> nat \<Rightarrow> string \<Rightarrow> memStore \<Rightarrow> run \<Rightarrow> memStore \<times> claimStep" where
  "releaseUnverifiable w a runner s0 r =
     (let (s, released) = releaseQueuedRunClaim (rw_env w (10 * a + 3) s0) (r_runId r) runner
            (rw_hash w (rw_token w a)) (rw_now w (10 * a + 1)) (Some (rw_now w (10 * a + 2) + 5 * 60000))
      in if released then (s, ClaimAnswer (Inr None))
         else
           (let s' = rw_env w (10 * a + 4) s
            in (s', ClaimAnswer (if stillLive s' (r_runId r)
                                 then Inl (Raised (JsError ''could not safely release unverifiable queue claim''))
                                 else Inr None))))"

definition cancelClosed :: "runsWorld \<Rightarrow> nat \<Rightarrow> memStore \<Rightarrow> run \<Rightarrow> string \<Rightarrow> memStore \<times> claimStep" where
  "cancelClosed w a s0 r remark =
     (case orchCancel (rw_uuid w) (rw_now w (10 * a + 3)) (rw_env w (10 * a + 3) s0) (r_runId r) (Some remark) None None of
        (s, Threw err) \<Rightarrow> (s, ClaimAnswer (Inl (Raised err)))
      | (s, Decided _) \<Rightarrow>
          (let (s', failure) = rw_drain w (rw_env w (10 * a + 4) s)
           in (s', ClaimAnswer (case failure of Some m \<Rightarrow> Inl (Raised (JsError m)) | None \<Rightarrow> Inr None)))
      | (s, Refused _ _) \<Rightarrow>
          (let s' = rw_env w (10 * a + 4) s
           in (s', if stillLive s' (r_runId r) then ClaimAnswer (Inr (Some (claimResponse (rw_token w a) r)))
                   else ClaimAgain)))"

definition settleClaimed :: "runsWorld \<Rightarrow> nat \<Rightarrow> string \<Rightarrow> memStore \<Rightarrow> run \<Rightarrow> memStore \<times> claimStep" where
  "settleClaimed w a runner s0 r =
     (let s = (if isWorkAnchor (r_task r) then rw_env w (10 * a + 2) s0 else s0)
      in case checkIssue w a s r of
           Inl err \<Rightarrow> (s, ClaimAnswer (Inl err))
         | Inr NotChecked \<Rightarrow> (s, ClaimAnswer (Inr (Some (claimResponse (rw_token w a) r))))
         | Inr (Checked tracker None) \<Rightarrow> releaseUnverifiable w a runner s r
         | Inr (Checked tracker (Some (isOpen, sourceUpdatedAt))) \<Rightarrow>
             if isOpen then (s, ClaimAnswer (Inr (Some (claimResponse (rw_token w a) r))))
             else cancelClosed w a s r (tracker @ '' issue confirmed closed at '' @ sourceUpdatedAt))"

definition claimInputOf :: "runsWorld \<Rightarrow> nat \<Rightarrow> workPrincipal \<Rightarrow> string \<Rightarrow> bool \<Rightarrow> claimInput" where
  "claimInputOf w a p runner placementAware =
     \<lparr>ci_now = rw_now w (10 * a), ci_claimedBy = runner, ci_claimedBySubject = claimantSubject p,
      ci_tokenHash = rw_hash w (rw_token w a), ci_placementAware = placementAware\<rparr>"

fun claimLoop ::
  "runsWorld \<Rightarrow> workPrincipal \<Rightarrow> string \<Rightarrow> bool \<Rightarrow> nat \<Rightarrow> nat \<Rightarrow> memStore \<Rightarrow> memStore \<times> (apiError + runClaim option)" where
  "claimLoop w p runner placementAware a 0 s = (s, Inr None)"
| "claimLoop w p runner placementAware a (Suc n) s =
     (case storeClaimQueuedRun (rw_env w (10 * a + 1) s) (wp_pipelines p) (claimInputOf w a p runner placementAware) of
        (s1, Inl err) \<Rightarrow> (s1, Inl (Raised err))
      | (s1, Inr None) \<Rightarrow> (s1, Inr None)
      | (s1, Inr (Some r)) \<Rightarrow>
          (case settleClaimed w a runner s1 r of
             (s2, ClaimAnswer answer) \<Rightarrow> (s2, answer)
           | (s2, ClaimAgain) \<Rightarrow> claimLoop w p runner placementAware (Suc a) n s2))"

definition claimRun :: "runsWorld \<Rightarrow> string \<Rightarrow> bool \<Rightarrow> memStore \<Rightarrow> memStore \<times> (apiError + runClaim option)" where
  "claimRun w runner placementAware s =
     (case executor w of
        Inl err \<Rightarrow> (s, Inl err)
      | Inr p \<Rightarrow>
          if wp_pipelines p = [] then (s, Inr None)
          else claimLoop w p runner placementAware 0 MAX_CLAIM_ATTEMPTS s)"

subsection \<open>Callbacks of the worker\<close>

record introspection =
  in_runId :: string
  in_repository :: string
  in_anchor :: taskId
  in_issueUrl :: "string option"
  in_verifiedAt :: timestamp
  in_validUntil :: timestamp

definition introspectRun :: "runsWorld \<Rightarrow> string \<Rightarrow> memStore \<Rightarrow> memStore \<times> (apiError + introspection)" where
  "introspectRun w runId s0 =
     (let s1 = rw_env w 0 s0
      in case requireRunToken w (rw_now w 0) s1 runId of
           Inl err \<Rightarrow> (s1, Inl err)
         | Inr r0 \<Rightarrow>
             (let native = isWorkAnchor (r_task r0);
                  s2 = (if native then rw_env w 1 s1 else s1);
                  t = (if native then map_option vt_task (readTask s2 (r_task r0)) else None);
                  s3 = (if native then rw_env w 2 s2 else s2)
              in case (if native then requireRunToken w (rw_now w 1) s3 runId else Inr r0) of
                   Inl err \<Rightarrow> (s3, Inl err)
                 | Inr r \<Rightarrow>
                     (case anchorTarget r t of
                        Inl message \<Rightarrow> (s3, Inl (Raised (JsError message)))
                      | Inr target \<Rightarrow>
                          (let validUntil = orElse (runRecoveryDeadline r) (r_leaseExpiresAt r)
                           in if validUntil \<le> rw_now w 3 then (s3, Inl (unauthorized ''Run token expired''))
                              else (s3, Inr \<lparr>in_runId = r_runId r, in_repository = at_repo target, in_anchor = r_task r,
                                       in_issueUrl = map_option (\<lambda>i. ''https://github.com/'' @ at_repo target @
                                          ''/issues/'' @ showNat i) (at_issue target),
                                       in_verifiedAt = rw_now w 2, in_validUntil = validUntil\<rparr>)))))"

definition renewOnce :: "runsWorld \<Rightarrow> run \<Rightarrow> bool \<Rightarrow> memStore \<Rightarrow> memStore \<times> (apiError + run)" where
  "renewOnce w r started s =
     (case renew (rw_uuid w) (rw_now w 1) (rw_env w 1 s) (r_runId r) (Some (tokenHashOf r)) started of
        (s', Threw err) \<Rightarrow> (s', Inl (Raised err))
      | (s', Refused _ _) \<Rightarrow> (s', Inl (unauthorized ''Run heartbeat refused''))
      | (s', Decided d) \<Rightarrow> (s', Inr (orElse (d_run d) r)))"

definition requireCodexRun :: "runsWorld \<Rightarrow> string \<Rightarrow> memStore \<Rightarrow> memStore \<times> (apiError + run)" where
  "requireCodexRun w runId s0 =
     (let s1 = rw_env w 2 s0
      in case requireRunToken w (rw_now w 2) s1 runId of
           Inl err \<Rightarrow> (s1, Inl err)
         | Inr r \<Rightarrow>
             if \<not> usesCodexCredentials r
             then (s1, Inl (unauthorized ''Codex authentication is only available to Codex runs''))
             else
               (let native = isWorkAnchor (r_task r);
                    s2 = (if native then rw_env w 3 s1 else s1);
                    t = (if native then map_option vt_task (readTask s2 (r_task r)) else None)
                in case anchorTarget r t of
                     Inl message \<Rightarrow> (s2, Inl (Raised (JsError message)))
                   | Inr target \<Rightarrow>
                       if r_pipeline r = ''goose'' \<and> \<not> rw_recipeCodex w r (at_repo target)
                       then (s2, Inl (ORPCError ''FORBIDDEN'' ''Codex provider not authorized for this recipe occurrence''))
                       else (s2, Inr r)))"

definition heartbeatRun :: "runsWorld \<Rightarrow> string \<Rightarrow> bool \<Rightarrow> memStore \<Rightarrow> memStore \<times> (apiError + timestamp)" where
  "heartbeatRun w runId started s0 =
     (let s1 = rw_env w 0 s0
      in case requireRunToken w (rw_now w 0) s1 runId of
           Inl err \<Rightarrow> (s1, Inl err)
         | Inr r \<Rightarrow>
             (case (if usesCodexCredentials r
                    then (case requireCodexRun w runId s1 of
                            (s2, Inl err) \<Rightarrow> (s2, Inl err)
                          | (s2, Inr r') \<Rightarrow> rw_codexRenew w r' (renewOnce w r started) s2)
                    else renewOnce w r started s1) of
                (s', Inl err) \<Rightarrow> (s', Inl err)
              | (s', Inr renewed) \<Rightarrow> (s', Inr (r_leaseExpiresAt renewed))))"

subsection \<open>Reports of the executor\<close>

definition forbidden :: "string \<Rightarrow> apiError" where
  "forbidden message = ORPCError ''FORBIDDEN'' message"

text \<open>The run an executor names, if the pipeline is one of its grants.\<close>

definition grantedRun :: "runsWorld \<Rightarrow> string \<Rightarrow> memStore \<Rightarrow> string \<Rightarrow> apiError + workPrincipal \<times> run" where
  "grantedRun w refusal s runId =
     (case executor w of
        Inl err \<Rightarrow> Inl err
      | Inr p \<Rightarrow>
          (case readRun s runId of
             None \<Rightarrow> Inl (ORPCError ''NOT_FOUND'' ''unknown run'')
           | Some r \<Rightarrow> if r_pipeline r \<in> set (wp_pipelines p) then Inr (p, r) else Inl (forbidden refusal)))"

definition executorClaimant :: "workPrincipal \<Rightarrow> string \<Rightarrow> string option \<Rightarrow> exitClaimant" where
  "executorClaimant p runner claimFingerprint =
     \<lparr>ec_subject = claimantSubject p, ec_runner = runner, ec_claimFingerprint = claimFingerprint\<rparr>"

definition placementRun ::
  "runsWorld \<Rightarrow> string \<Rightarrow> string \<Rightarrow> string \<Rightarrow> runPlacement \<Rightarrow> memStore \<Rightarrow> memStore \<times> (apiError + string)" where
  "placementRun w runId runner claimFingerprint placement s0 =
     (let s1 = rw_env w 0 s0; refusal = ''executor may not observe this claim''
      in case grantedRun w refusal s1 runId of
           Inl err \<Rightarrow> (s1, Inl err)
         | Inr (p, r) \<Rightarrow>
             (case orchObservePlacement (rw_uuid w) (rw_now w 0) (rw_env w 1 s1) runId
                     (executorClaimant p runner (Some claimFingerprint)) placement of
                (s2, Threw err) \<Rightarrow> (s2, Inl (Raised err))
              | (s2, Refused _ _) \<Rightarrow> (s2, Inl (forbidden refusal))
              | (s2, Decided _) \<Rightarrow> (s2, Inr runId)))"

definition startupPlacementRun ::
  "runsWorld \<Rightarrow> string \<Rightarrow> string \<Rightarrow> string \<Rightarrow> string \<Rightarrow> timestamp \<Rightarrow> bool \<Rightarrow> memStore \<Rightarrow> memStore \<times> (apiError + timestamp)"
where
  "startupPlacementRun w runId runner claimFingerprint jobUid observedAt placed s0 =
     (let s1 = rw_env w 0 s0; refusal = ''executor does not own this placement-aware claim''
      in case grantedRun w refusal s1 runId of
           Inl err \<Rightarrow> (s1, Inl err)
         | Inr (p, r) \<Rightarrow>
             (case orchObserveStartupPlacement (rw_uuid w) (rw_now w 0) (rw_env w 1 s1) runId
                     (executorClaimant p runner (Some claimFingerprint)) jobUid observedAt placed of
                (s2, Threw err) \<Rightarrow> (s2, Inl (Raised err))
              | (s2, Refused why _) \<Rightarrow>
                  (s2, Inl (if why = NotClaimant then forbidden refusal else conflict ''Placement observation refused''))
              | (s2, Decided d) \<Rightarrow> (s2, Inr (orElse (runRecoveryDeadline (orElse (d_run d) r)) (r_leaseExpiresAt r)))))"

text \<open>The answer of \<^verbatim>\<open>claimStatus\<close>: whether the claim's run is live.\<close>

definition claimStatusRun ::
  "runsWorld \<Rightarrow> string \<Rightarrow> string \<Rightarrow> string \<Rightarrow> memStore \<Rightarrow> memStore \<times> (apiError + bool)" where
  "claimStatusRun w runId runner claimFingerprint s0 =
     (let s1 = rw_env w 0 s0; refusal = ''executor may not inspect this claim''
      in (s1, case grantedRun w refusal s1 runId of
                Inl err \<Rightarrow> Inl err
              | Inr (p, r) \<Rightarrow>
                  (case r_queue r of
                     None \<Rightarrow> Inl (forbidden refusal)
                   | Some q \<Rightarrow>
                       if q_claimedBySubject q \<noteq> Some (claimantSubject p) \<or> q_claimedBy q \<noteq> Some runner \<or>
                          q_tokenHash q \<noteq> Some claimFingerprint
                       then Inl (forbidden refusal)
                       else Inr (isLive (r_state r)))))"

text \<open>The drain after a settlement and the release of the credential lease: the drain's failure is
  logged, the release's is returned.\<close>

definition drainAfterCompletion :: "runsWorld \<Rightarrow> nat \<Rightarrow> memStore \<Rightarrow> memStore" where
  "drainAfterCompletion w n s = fst (rw_drain w (rw_env w n s))"

definition releaseLease :: "runsWorld \<Rightarrow> nat \<Rightarrow> run \<Rightarrow> memStore \<Rightarrow> memStore \<times> apiError option" where
  "releaseLease w n r s = (if usesCodexCredentials r then rw_codexRelease w r (rw_env w n s) else (s, None))"

definition EXIT_PIPELINE_NOT_GRANTED :: string where
  "EXIT_PIPELINE_NOT_GRANTED = ''pipeline not granted to this executor''"

definition exitRun ::
  "runsWorld \<Rightarrow> string \<Rightarrow> string \<Rightarrow> string option \<Rightarrow> memStore \<Rightarrow> memStore \<times> (apiError + runState)" where
  "exitRun w runId runner claimFingerprint s0 =
     (let s1 = rw_env w 0 s0
      in case grantedRun w EXIT_PIPELINE_NOT_GRANTED s1 runId of
           Inl err \<Rightarrow> (s1, Inl err)
         | Inr (p, r) \<Rightarrow>
             (let unchanged = (\<lambda>s. (rw_env w 2 s, Inr (case readRun (rw_env w 2 s) runId of
                    None \<Rightarrow> r_state r | Some current \<Rightarrow> r_state current)))
              in case orchExecutorExited (rw_uuid w) (rw_now w 0) (rw_env w 1 s1) runId
                       (executorClaimant p runner claimFingerprint) of
                   (s2, Threw err) \<Rightarrow> (s2, Inl (Raised err))
                 | (s2, Refused why _) \<Rightarrow>
                     if why = CredentialOperationPending
                     then (s2, Inl (conflict ''Credential operation pending recovery''))
                     else if why = NotClaimant then (s2, Inl (forbidden ''executor may not report this run''))
                     else unchanged s2
                 | (s2, Decided d) \<Rightarrow>
                     if d_outbox d = [] then unchanged s2
                     else (drainAfterCompletion w 4 (fst (releaseLease w 3 r s2)), Inr Lost)))"

subsection \<open>Completion\<close>

definition reportItem :: "run \<Rightarrow> task option \<Rightarrow> bool" where
  "reportItem r t \<longleftrightarrow>
     isWorkAnchor (r_task r) \<and>
     (case Option.bind t (\<lambda>t. workPayloadSchema (t_work t)) of
        None \<Rightarrow> False
      | Some (_, spec) \<Rightarrow> ws_deliverable spec = Some ''report'')"

text \<open>A triage run that claims success must carry a report the parser accepts.\<close>

definition triageResult :: "runsWorld \<Rightarrow> run \<Rightarrow> runResult \<Rightarrow> runResult \<times> bool" where
  "triageResult w r result =
     (if \<not> (rw_triage w r \<and> rr_ok result) then (result, False)
      else if rr_summary result = Some ''report'' \<and> rw_triageReport w r (rr_message result) then (result, True)
      else (result\<lparr>rr_ok := False, rr_summary := Some ''invalid-triage-report''\<rparr>, False))"

definition deliveryCorrection :: "run \<Rightarrow> task option \<Rightarrow> bool" where
  "deliveryCorrection r t \<longleftrightarrow>
     paramOf (r_params r) ''deliveryPredecessor'' \<noteq> None \<or>
     (case t of None \<Rightarrow> False
      | Some t \<Rightarrow> deliveryWaiting t \<and> map_option dl_runId (t_delivery t) \<noteq> Some (r_runId r))"

definition pullOf :: "runResult \<Rightarrow> nat option" where
  "pullOf result = Option.bind (rr_ref result) pullNumber"

definition correctionUnpublished :: "runResult \<Rightarrow> bool" where
  "correctionUnpublished result \<longleftrightarrow>
     rr_ok result \<and> rr_summary result \<noteq> Some ''park'' \<and>
     (rr_summary result \<notin> {Some ''pull-request'', Some ''merged-deliverable''} \<or> pullOf result = None)"

definition deliveryHandoff ::
  "runsWorld \<Rightarrow> run \<Rightarrow> task option \<Rightarrow> string \<Rightarrow> runResult \<Rightarrow> apiError + deliveryBinding option" where
  "deliveryHandoff w r t repo result =
     (case (if rr_ok result \<and> rr_summary result \<noteq> Some ''park'' \<and> paramOf (r_params r) ''mode'' \<noteq> Some ''review''
            then pullOf result else None) of
        None \<Rightarrow> Inr None
      | Some number \<Rightarrow>
          (case t of
             None \<Rightarrow> Inl (conflict ''Ready delivery evidence missing'')
           | Some t' \<Rightarrow>
               (case readyDeliveryBinding (rw_github w) r t' repo number (rw_now w 1) of
                  Inr binding \<Rightarrow> Inr (Some binding)
                | Inl err \<Rightarrow>
                    if (case err of UnqualifiedDelivery _ \<Rightarrow> True | DeliveryRefused _ \<Rightarrow> False) \<and>
                       \<not> deliveryCorrection r t \<and> rr_summary result = Some ''pull-request''
                    then Inr None
                    else Inl (conflict ''Ready delivery handoff refused; exact review and protected delivery evidence required''))))"

text \<open>What the request asks to record, or why it is refused.\<close>

definition completionResult ::
  "runsWorld \<Rightarrow> run \<Rightarrow> task option \<Rightarrow> json \<Rightarrow> json option \<Rightarrow> string option \<Rightarrow>
   apiError + runResult \<times> deliveryBinding option \<times> bool" where
  "completionResult w r t outcome outcomeReference message =
     (case anchorTarget r t of
        Inl err \<Rightarrow> Inl (Raised (JsError err))
      | Inr target \<Rightarrow>
          (let (result, publishTriage) = triageResult w r (toRunResult (at_repo target) outcome outcomeReference message
                 \<lparr>rf_issue = at_issue target, rf_mode = paramOf (r_params r) ''mode'', rf_report = reportItem r t\<rparr>)
           in if deliveryCorrection r t \<and> correctionUnpublished result
              then Inl (conflict ''A delivery correction must publish its freshly marked PR or explicitly park'')
              else (case deliveryHandoff w r t (at_repo target) result of
                      Inl err \<Rightarrow> Inl err
                    | Inr delivery \<Rightarrow> Inr (result, delivery, publishTriage))))"

definition afterCompletion ::
  "runsWorld \<Rightarrow> run \<Rightarrow> string \<Rightarrow> memStore \<Rightarrow> memStore \<times> (apiError + string)" where
  "afterCompletion w r answer s =
     (case releaseLease w 4 r s of
        (s', Some err) \<Rightarrow> (s', Inl err)
      | (s', None) \<Rightarrow> (s', Inr answer))"

definition completeSettled :: "runsWorld \<Rightarrow> run \<Rightarrow> memStore \<Rightarrow> outcome \<Rightarrow> memStore \<times> (apiError + string)" where
  "completeSettled w r s settled =
     (case settled of
        Threw err \<Rightarrow> (s, Inl (Raised err))
      | Refused why existingRun \<Rightarrow>
          if why = CredentialOperationPending then (s, Inl (conflict ''Credential operation pending recovery''))
          else if why = NotClaimant then (s, Inl (unauthorized ''Run claim changed''))
          else if (case existingRun of None \<Rightarrow> False
                   | Some e \<Rightarrow> \<not> isLive (r_state e) \<and>
                       Option.bind (r_queue e) q_tokenHash = Option.bind (r_queue r) q_tokenHash)
          then afterCompletion w r (showReason why) s
          else (s, Inr (showReason why))
      | Decided d \<Rightarrow>
          if (case d_run d of None \<Rightarrow> False | Some settledRun \<Rightarrow> r_credentialPendingResult settledRun \<noteq> None)
          then (s, Inr ''completion-pending'')
          else afterCompletion w r ''finished'' (drainAfterCompletion w 3 s))"

definition completeRun ::
  "runsWorld \<Rightarrow> string \<Rightarrow> json \<Rightarrow> json option \<Rightarrow> string option \<Rightarrow> memStore \<Rightarrow> memStore \<times> (apiError + string)" where
  "completeRun w runId outcome outcomeReference message s0 =
     (let s1 = rw_env w 0 s0
      in case requireRunToken w (rw_now w 0) s1 runId of
           Inl err \<Rightarrow> (s1, Inl err)
         | Inr r \<Rightarrow>
             (let s2 = rw_env w 1 s1
              in case completionResult w r (map_option vt_task (readTask s2 (r_task r))) outcome outcomeReference message of
                   Inl err \<Rightarrow> (s2, Inl err)
                 | Inr (result, delivery, publishTriage) \<Rightarrow>
                     (let (s3, settled) = report (rw_authority w) (rw_now w 2) (rw_now w 3) (rw_env w 2 s2) runId result
                            (Some (tokenHashOf r)) (rw_uuid w) delivery publishTriage
                      in completeSettled w r s3 settled)))"

subsection \<open>The router\<close>

text \<open>The calls, and what each leaves in the store.\<close>

datatype runsCall =
    ClaimCall string bool
  | IntrospectCall string
  | HeartbeatCall string bool
  | PlacementCall string string string runPlacement
  | StartupPlacementCall string string string string timestamp bool
  | ClaimStatusCall string string string
  | ExitCall string string "string option"
  | CompleteCall string json "json option" "string option"

fun runsRouter :: "runsWorld \<Rightarrow> runsCall \<Rightarrow> memStore \<Rightarrow> memStore" where
  "runsRouter w (ClaimCall runner placementAware) s = fst (claimRun w runner placementAware s)"
| "runsRouter w (IntrospectCall runId) s = fst (introspectRun w runId s)"
| "runsRouter w (HeartbeatCall runId started) s = fst (heartbeatRun w runId started s)"
| "runsRouter w (PlacementCall runId runner fp placement) s = fst (placementRun w runId runner fp placement s)"
| "runsRouter w (StartupPlacementCall runId runner fp jobUid observedAt placed) s =
     fst (startupPlacementRun w runId runner fp jobUid observedAt placed s)"
| "runsRouter w (ClaimStatusCall runId runner fp) s = fst (claimStatusRun w runId runner fp s)"
| "runsRouter w (ExitCall runId runner fp) s = fst (exitRun w runId runner fp s)"
| "runsRouter w (CompleteCall runId outcome reference message) s = fst (completeRun w runId outcome reference message s)"

end
