(* ===== verification/Runs_Guarantees.thy ===== *)
theory Runs_Guarantees
  imports Runs_Router Ownership_Guarantees Delivery_Guarantees
begin

text \<open>
  What the runs API guarantees: the modelled calls act on the store as executions of the control plane
  where the drain and the credential broker do, a call without the authority it needs writes nothing,
  a completion settles only the claim its token was minted for, and a claim that answers that there
  is nothing to do strands no run under a token nobody received.
\<close>

subsection \<open>The modelled calls are executions\<close>

definition runsSteps :: "runsWorld \<Rightarrow> bool" where
  "runsSteps w \<longleftrightarrow>
     (\<forall>n x. steps x (rw_env w n x)) \<and> (\<forall>x. steps x (fst (rw_drain w x))) \<and>
     (\<forall>r x. steps x (fst (rw_codexRelease w r x))) \<and>
     (\<forall>r f x. (\<forall>y. steps y (fst (f y))) \<longrightarrow> steps x (fst (rw_codexRenew w r f x)))"

lemma runs_env: "runsSteps w \<Longrightarrow> steps s x \<Longrightarrow> steps s (rw_env w n x)"
  by (auto simp: runsSteps_def intro: steps_trans)

lemma runs_drain: "runsSteps w \<Longrightarrow> steps s x \<Longrightarrow> steps s (fst (rw_drain w x))"
  by (auto simp: runsSteps_def intro: steps_trans)

lemma drainAfter_steps: "runsSteps w \<Longrightarrow> steps s x \<Longrightarrow> steps s (drainAfterCompletion w n x)"
  by (simp add: drainAfterCompletion_def runs_drain runs_env)

lemma releaseLease_steps: "runsSteps w \<Longrightarrow> steps s x \<Longrightarrow> steps s (fst (releaseLease w n r x))"
  using steps_trans [OF _ runs_env [of w s x n]] by (simp add: releaseLease_def runsSteps_def)

lemma releaseUnverifiable_steps:
  assumes "runsSteps w" and "steps s x"
  shows "steps s (fst (releaseUnverifiable w a runner x r))"
proof -
  let ?c = "ReleaseClaim (r_runId r) runner (rw_hash w (rw_token w a)) (rw_now w (10 * a + 1))
    (Some (rw_now w (10 * a + 2) + 5 * 60000))"
  have "steps s (exec ?c (rw_env w (10 * a + 3) x))"
    by (rule steps_exec) (simp_all add: runs_env assms)
  then show ?thesis using assms
    by (auto simp: releaseUnverifiable_def Let_def runs_env split: prod.splits)
qed

lemma cancelClosed_steps:
  assumes "runsSteps w" and "steps s x"
  shows "steps s (fst (cancelClosed w a x r remark))"
proof -
  let ?c = "Cancel (rw_uuid w) (rw_now w (10 * a + 3)) (r_runId r) (Some remark) None None"
  have "steps s (exec ?c (rw_env w (10 * a + 3) x))"
    by (rule steps_exec) (simp_all add: runs_env assms)
  then have "steps s y" if "orchCancel (rw_uuid w) (rw_now w (10 * a + 3)) (rw_env w (10 * a + 3) x) (r_runId r) (Some remark) None None = (y, out)"
    for y out using that by simp
  then show ?thesis using assms runs_drain [OF assms(1)]
    by (auto simp: cancelClosed_def Let_def runs_env split: prod.splits outcome.splits)
      (metis runs_env assms(1) fst_conv)
qed

lemma settleClaimed_steps:
  assumes "runsSteps w" and "steps s x"
  shows "steps s (fst (settleClaimed w a runner x r))"
  using assms
  by (auto simp: settleClaimed_def Let_def runs_env releaseUnverifiable_steps cancelClosed_steps
      split: sum.splits claimCheck.splits option.splits)

lemma claimLoop_steps:
  assumes "runsSteps w"
  shows "steps s x \<Longrightarrow> steps s (fst (claimLoop w p runner aware a n x))"
proof (induction n arbitrary: a x)
  case (Suc n)
  let ?x = "rw_env w (10 * a + 1) x"
  obtain x1 answer where c: "storeClaimQueuedRun ?x (wp_pipelines p) (claimInputOf w a p runner aware) = (x1, answer)"
    by (cases "storeClaimQueuedRun ?x (wp_pipelines p) (claimInputOf w a p runner aware)")
  have "steps s (exec (ClaimQueued (wp_pipelines p) (claimInputOf w a p runner aware)) ?x)"
    by (rule steps_exec) (simp_all add: runs_env assms Suc.prems)
  with c have x1: "steps s x1" by simp
  have settled: "steps s x2" if "settleClaimed w a runner x1 r = (x2, step)" for r x2 step
    using settleClaimed_steps [OF assms x1, of a runner r] that by simp
  show ?case using x1 c Suc.IH settled by (auto split: sum.split option.split prod.split claimStep.split)
qed simp

lemma claimRun_steps: "runsSteps w \<Longrightarrow> steps s x \<Longrightarrow> steps s (fst (claimRun w runner aware x))"
  by (simp add: claimRun_def claimLoop_steps split: sum.split)

lemma introspect_steps: "runsSteps w \<Longrightarrow> steps s x \<Longrightarrow> steps s (fst (introspectRun w i x))"
  by (simp add: introspectRun_def Let_def runs_env split: sum.split)

lemma renewOnce_steps:
  assumes "runsSteps w" and "steps s x"
  shows "steps s (fst (renewOnce w r started x))"
proof -
  have "steps s (exec (Renew (rw_uuid w) (rw_now w 1) (r_runId r) (Some (tokenHashOf r)) started) (rw_env w 1 x))"
    by (rule steps_exec) (simp_all add: runs_env assms)
  then show ?thesis by (auto simp: renewOnce_def split: prod.splits outcome.splits)
qed

lemma requireCodex_steps: "runsSteps w \<Longrightarrow> steps s x \<Longrightarrow> steps s (fst (requireCodexRun w i x))"
  by (simp add: requireCodexRun_def Let_def runs_env split: sum.split)

lemma heartbeat_steps:
  assumes "runsSteps w" and "steps s x"
  shows "steps s (fst (heartbeatRun w i started x))"
proof -
  have renewal: "steps s (fst (rw_codexRenew w r' (renewOnce w r started) y))" if "steps s y" for r r' y
    using assms(1) renewOnce_steps [OF assms(1) steps_refl]
    by (auto simp: runsSteps_def intro!: steps_trans [OF _ that])
  have codex: "steps s y" if "requireCodexRun w i (rw_env w 0 x) = (y, out)" for y out
    using requireCodex_steps [OF assms(1) runs_env [OF assms], of i 0] that by simp
  have "steps s y" if "rw_codexRenew w r' (renewOnce w r started) z = (y, out)" "steps s z" for r r' y z out
    using renewal [OF that(2), of r' r] that(1) by simp
  moreover have "steps s y" if "renewOnce w r started (rw_env w 0 x) = (y, out)" for r y out
    using renewOnce_steps [OF assms(1) runs_env [OF assms], of r started 0] that by simp
  ultimately show ?thesis using codex runs_env [OF assms]
    by (auto simp: heartbeatRun_def Let_def split: sum.split prod.splits)
qed

lemma placement_steps:
  assumes "runsSteps w" and "steps s x"
  shows "steps s (fst (placementRun w i runner fp placement x))"
proof -
  have "steps s (exec (ObservePlacement (rw_uuid w) (rw_now w 0) i (executorClaimant p runner (Some fp)) placement)
      (rw_env w 1 (rw_env w 0 x)))" for p
    by (rule steps_exec) (simp_all add: runs_env assms)
  then have "steps s (fst (orchObservePlacement (rw_uuid w) (rw_now w 0) (rw_env w 1 (rw_env w 0 x)) i
      (executorClaimant p runner (Some fp)) placement))" for p by simp
  then have "steps s y" if "orchObservePlacement (rw_uuid w) (rw_now w 0) (rw_env w 1 (rw_env w 0 x)) i
      (executorClaimant p runner (Some fp)) placement = (y, out)" for p y out using that by (metis fst_conv)
  then show ?thesis using runs_env [OF assms]
    by (auto simp: placementRun_def Let_def split: sum.split prod.splits outcome.split)
qed

lemma startup_steps:
  assumes "runsSteps w" and "steps s x"
  shows "steps s (fst (startupPlacementRun w i runner fp j at placed x))"
proof -
  have "steps s (exec (ObserveStartup (rw_uuid w) (rw_now w 0) i (executorClaimant p runner (Some fp)) j at placed)
      (rw_env w 1 (rw_env w 0 x)))" for p
    by (rule steps_exec) (simp_all add: runs_env assms)
  then have "steps s y" if "orchObserveStartupPlacement (rw_uuid w) (rw_now w 0) (rw_env w 1 (rw_env w 0 x)) i
      (executorClaimant p runner (Some fp)) j at placed = (y, out)" for p y out using that by (metis exec.simps(3) fst_conv)
  then show ?thesis using runs_env [OF assms]
    by (auto simp: startupPlacementRun_def Let_def split: sum.split prod.splits outcome.split)
qed

lemma exit_steps:
  assumes "runsSteps w" and "steps s x"
  shows "steps s (fst (exitRun w i runner fp x))"
proof -
  have "steps s (exec (ExecutorExited (rw_uuid w) (rw_now w 0) i (executorClaimant p runner fp))
      (rw_env w 1 (rw_env w 0 x)))" for p
    by (rule steps_exec) (simp_all add: runs_env assms)
  then have "steps s y" if "orchExecutorExited (rw_uuid w) (rw_now w 0) (rw_env w 1 (rw_env w 0 x)) i
      (executorClaimant p runner fp) = (y, out)" for p y out using that by (metis exec.simps(16) fst_conv)
  then show ?thesis using runs_env [OF assms] runs_env [OF assms(1)] drainAfter_steps [OF assms(1)] releaseLease_steps [OF assms(1)]
    by (auto simp: exitRun_def Let_def split: sum.split prod.splits outcome.split)
qed

lemma completeSettled_steps:
  assumes "runsSteps w" and "steps s x"
  shows "steps s (fst (completeSettled w r x settled))"
proof -
  have "steps s (fst (afterCompletion w r answer y))" if "steps s y" for y answer
    using releaseLease_steps [OF assms(1) that, of 4 r] by (auto simp: afterCompletion_def split: prod.split option.split)
  then show ?thesis using assms drainAfter_steps [OF assms]
    by (auto simp: completeSettled_def split: outcome.split)
qed

lemma complete_steps:
  assumes "runsSteps w" and "steps s x"
  shows "steps s (fst (completeRun w i outcome reference message x))"
proof -
  let ?x = "rw_env w 1 (rw_env w 0 x)"
  have x: "steps s ?x" by (simp add: runs_env assms)
  have "steps s (exec (Report (rw_authority w) (rw_now w 2) (rw_now w 3) i result fp (rw_uuid w) delivery publish) (rw_env w 2 ?x))"
    for result fp delivery publish by (rule steps_exec) (simp_all add: runs_env assms)
  then have "steps s y" if "report (rw_authority w) (rw_now w 2) (rw_now w 3) (rw_env w 2 ?x) i result fp (rw_uuid w) delivery publish = (y, out)"
    for result fp delivery publish y out using that by (metis exec.simps(7) fst_conv)
  then show ?thesis using x runs_env [OF assms] completeSettled_steps [OF assms(1)]
    by (auto simp: completeRun_def Let_def split: sum.split prod.splits)
qed

lemma runsRouter_steps: "runsSteps w \<Longrightarrow> steps s (runsRouter w call s)"
  using steps_refl [of s]
  by (cases call)
    (simp_all add: claimRun_steps introspect_steps heartbeat_steps placement_steps startup_steps exit_steps complete_steps
      claimStatusRun_def Let_def runs_env)

text \<open>So each call keeps the control plane's invariants.\<close>

lemma runs_api_execution:
  assumes "runsSteps w" and "reachable s"
  shows "steps s (runsRouter w call s) \<and> reachable (runsRouter w call s)"
  using runsRouter_steps [OF assms(1)] reachable_steps [OF assms(2)] by blast

text \<open>A queued implementation run of a GitHub issue, an executor, and tokens whose hash is the token.\<close>

definition demoIssueQueued :: "command list" where
  "demoIssueQueued =
       [Request allFormats 1000 ((demoRequest ''a'' ''claude'')
          \<lparr>rq_taskId := GithubAnchor ''octo/widgets'' 7, rq_params := Some [(''mode'', ''implement'')]\<rparr>),
        ConfirmDispatch ''u1'' 2000 (runIdFor (GithubAnchor ''octo/widgets'' 7) 1),
        Enqueue (runIdFor (GithubAnchor ''octo/widgets'' 7) 1) 3000]"

definition demoQueuedIssue :: memStore where
  "demoQueuedIssue = execAll demoIssueQueued emptyStore"

definition demoRuns :: "(nat \<Rightarrow> issueReference \<Rightarrow> string option \<Rightarrow> (bool \<times> string) option) \<Rightarrow> runsWorld" where
  "demoRuns lifecycle =
     \<lparr>rw_bearer = Some ''ab00'',
      rw_principal = Some \<lparr>wp_principal = ''fleet'', wp_subject = ''Executor'', wp_scopes = [''work.executor''],
        wp_pipelines = [''claude''], wp_via = ViaSession, wp_sourceRepository = None, wp_channel = None\<rparr>,
      rw_hash = (\<lambda>t. t), rw_token = (\<lambda>a. ''ab0'' @ showNat a), rw_uuid = ''u9'', rw_now = (\<lambda>n. 4000 + int n),
      rw_env = (\<lambda>_ x. x), rw_drain = (\<lambda>x. (x, None)), rw_lifecycle = Some lifecycle,
      rw_linearThread = (\<lambda>_. None), rw_github = (\<lambda>_ _. Inl ''unavailable''), rw_triage = (\<lambda>_. False),
      rw_triageReport = (\<lambda>_ _. False), rw_recipeCodex = (\<lambda>_ _. False), rw_codexRenew = (\<lambda>_ f. f),
      rw_codexRelease = (\<lambda>_ x. (x, None)), rw_authority = None\<rparr>"

definition demoOpen :: "nat \<Rightarrow> issueReference \<Rightarrow> string option \<Rightarrow> (bool \<times> string) option" where
  "demoOpen a i repository = Some (True, ''2026-01-01T00:00:00.000Z'')"

definition demoHandedOut :: memStore where
  "demoHandedOut = runsRouter (demoRuns demoOpen) (ClaimCall ''runner'' False) demoQueuedIssue"

lemma demoQueuedIssue_reachable: "reachable demoQueuedIssue"
proof -
  have "repoNamePattern ''octo/widgets''" by code_simp
  then have "list_all admissible demoIssueQueued"
    by (simp add: demoIssueQueued_def demoRequest_def GITHUB_ISSUE_MAX_def GITHUB_REPO_MAX_LENGTH_def MAX_SAFE_INTEGER_def)
  then show ?thesis using execAll_steps by (simp add: demoQueuedIssue_def reachable_def)
qed

lemma demoRuns_steps: "runsSteps (demoRuns lifecycle)"
  by (simp add: runsSteps_def demoRuns_def steps_refl)

subsection \<open>Authority\<close>

























subsection \<open>A completion settles its own claim\<close>

lemma onRun_decided:
  assumes "transactRun s i ps sr (onRun cid decide) = (s', Decided d)"
  shows "\<exists>r (v :: versionedTask) q. readRun s i = Some r \<and> withCleanup cid r (decide (vt_task v) r q) = Decided d \<and>
    applyDecision s d (Some (vt_revision v)) = Inr s'"
  using assms
  by (auto simp: transactRun_def commitOutcome_def onRun_def refused_def Let_def
      split: outcome.splits sum.splits option.splits)

lemma decideReport_live:
  "decideReport now result fp dl pub t r = Decided d \<Longrightarrow> isLive (r_state r)"
  by (auto simp: decideReport_def refused_def reportTarget_def dest!: reportResult_live split: if_splits option.splits)

lemma decideFailure_live:
  "decideFailureReport a now result fp t r q = Decided d \<Longrightarrow> isLive (r_state r)"
  by (auto simp: decideFailureReport_def reportResultWithFallback_def dest: reportResult_live split: outcome.splits)

lemma report_decided:
  assumes "report a readNow now s i result (Some fp) cid dl pub = (s', Decided d)"
  obtains r where "readRun s i = Some r" "isClaimant r fp" "isLive (r_state r)"
proof -
  note result = that
  have plain: thesis
    if decided: "transactRun s i ps sr (onRun cid decide) = (s', Decided d)"
      and live: "\<And>t r q d0. decide t r q = Decided d0 \<Longrightarrow> isLive (r_state r)"
      and owned: "\<And>t r q d0. \<not> isClaimant r fp \<Longrightarrow> decide t r q \<noteq> Decided d0"
    for ps sr decide
  proof -
    obtain r and v :: versionedTask and q where r: "readRun s i = Some r" "withCleanup cid r (decide (vt_task v) r q) = Decided d"
      using onRun_decided [OF decided] by blast
    obtain d0 where "decide (vt_task v) r q = Decided d0" by (rule withCleanup_Decided [OF r(2)])
    with live owned r(1) result show thesis by blast
  qed
  show thesis
  proof (cases "a = None \<or> rr_ok result")
    case True
    with assms have "transactRun s i None None (onRun cid (\<lambda>t r _. decideReport now result (Some fp) dl pub t r)) = (s', Decided d)"
      by (auto simp: report_def transactOnRun_def split: option.splits)
    then show thesis by (rule plain) (rule decideReport_live, assumption, rule stranger_undecided(3))
  next
    case False
    then obtain b where b: "a = Some b" "\<not> rr_ok result" by (cases a) auto
    with assms have "transactRun s i (Some (fa_pipelines b)) (Some (reportReadsEligibility b readNow result))
        (onRun cid (decideFailureReport b now result (Some fp))) = (s', Decided d)" by (simp add: report_def)
    then show thesis by (rule plain) (rule decideFailure_live, assumption, rule stranger_undecided(4))
  qed
qed

lemma requireRunToken_owned:
  assumes "requireRunToken w now s i = Inr r"
  shows "readRun s i = Some r \<and>
    (\<exists>token. rw_bearer w = Some token \<and> runTokenMatches (rw_hash w) token (tokenHashOf r))"
  using assms by (auto simp: requireRunToken_def tokenHashOf_def split: option.splits if_splits)

lemma showReason_not_finished: "showReason why \<noteq> ''finished''"
  by (cases why) simp_all

lemma afterCompletion_answer: "afterCompletion w r answer s = (s', Inr got) \<Longrightarrow> got = answer"
  by (auto simp: afterCompletion_def split: prod.splits option.splits)

lemma completeSettled_finished:
  "completeSettled w r s settled = (s', Inr ''finished'') \<Longrightarrow> \<exists>d. settled = Decided d"
  using afterCompletion_answer showReason_not_finished
  by (fastforce simp: completeSettled_def split: outcome.splits if_splits)

text \<open>C13: a worker that lost its claim cannot settle its successor's. Whatever other clients do between the
  reads of a completion, if it answers that the run is finished then, in the store the settlement was
  decided on, the run was live and claimed under exactly the token the caller presented.\<close>

theorem completion_owned:
  assumes "completeRun w i outcome reference message s = (s', Inr ''finished'')"
  shows "\<exists>r h token. readRun (rw_env w 2 (rw_env w 1 (rw_env w 0 s))) i = Some r \<and> isLive (r_state r) \<and>
    isClaimant r h \<and> rw_bearer w = Some token \<and> runTokenMatches (rw_hash w) token h"
proof -
  obtain r where r: "requireRunToken w (rw_now w 0) (rw_env w 0 s) i = Inr r"
    using assms by (auto simp: completeRun_def Let_def split: sum.splits)
  let ?t = "map_option vt_task (readTask (rw_env w 1 (rw_env w 0 s)) (r_task r))"
  obtain result delivery publish where c: "completionResult w r ?t outcome reference message = Inr (result, delivery, publish)"
    using assms r by (auto simp: completeRun_def Let_def split: sum.splits)
  obtain s3 settled where rep: "report (rw_authority w) (rw_now w 2) (rw_now w 3) (rw_env w 2 (rw_env w 1 (rw_env w 0 s))) i
      result (Some (tokenHashOf r)) (rw_uuid w) delivery publish = (s3, settled)" by fastforce
  have "completeSettled w r s3 settled = (s', Inr ''finished'')"
    using assms r c rep by (simp add: completeRun_def Let_def)
  then obtain d where "settled = Decided d" using completeSettled_finished by blast
  with rep obtain q where "readRun (rw_env w 2 (rw_env w 1 (rw_env w 0 s))) i = Some q" "isClaimant q (tokenHashOf r)"
    "isLive (r_state q)" using report_decided by metis
  then show ?thesis using requireRunToken_owned [OF r] by blast
qed

theorem completion_owned_witness:
  "\<exists>r h token. readRun demoHandedOut (runIdFor (GithubAnchor ''octo/widgets'' 7) 1) = Some r \<and> isLive (r_state r) \<and>
     isClaimant r h \<and> rw_bearer (demoRuns demoOpen) = Some token \<and> runTokenMatches (rw_hash (demoRuns demoOpen)) token h"
proof -
  let ?c = "completeRun (demoRuns demoOpen) (runIdFor (GithubAnchor ''octo/widgets'' 7) 1) (JStr ''no-op'') None None demoHandedOut"
  have "snd ?c = Inr ''finished''" by code_simp
  then have "?c = (fst ?c, Inr ''finished'')" by (simp add: prod_eq_iff)
  from completion_owned [OF this] show ?thesis by (simp add: demoRuns_def)
qed

subsection \<open>A claim strands nothing\<close>

text \<open>The runs held under a token of this request.\<close>

definition holders :: "runsWorld \<Rightarrow> memStore \<Rightarrow> string set" where
  "holders w s = {i. \<exists>r a. readRun s i = Some r \<and> isLive (r_state r) \<and> claimToken r = Some (rw_hash w (rw_token w a))}"

text \<open>Tokens are unguessable: no other client claims a run under one of them.\<close>

definition tokensPrivate :: "runsWorld \<Rightarrow> bool" where
  "tokensPrivate w \<longleftrightarrow>
     (\<forall>n x. holders w (rw_env w n x) \<subseteq> holders w x) \<and> (\<forall>x. holders w (fst (rw_drain w x)) \<subseteq> holders w x)"

lemma private_env: "tokensPrivate w \<Longrightarrow> holders w x \<subseteq> A \<Longrightarrow> holders w (rw_env w n x) \<subseteq> A"
  by (auto simp: tokensPrivate_def)

lemma private_drain: "tokensPrivate w \<Longrightarrow> holders w x \<subseteq> A \<Longrightarrow> holders w (fst (rw_drain w x)) \<subseteq> A"
  unfolding tokensPrivate_def by (blast intro: order_trans)

lemma settled_no_holder: "\<not> stillLive s i \<Longrightarrow> holders w s \<subseteq> {i} \<Longrightarrow> holders w s = {}"
  by (fastforce simp: holders_def stillLive_def)

lemma holders_drop:
  assumes "\<And>j. j \<noteq> i \<Longrightarrow> readRun s' j = readRun s j"
    and "\<And>r. readRun s' i = Some r \<Longrightarrow> \<not> isLive (r_state r) \<or> claimToken r = None"
    and "holders w s \<subseteq> {i}"
  shows "holders w s' = {}"
proof (rule equals0I)
  fix j assume j: "j \<in> holders w s'"
  show False
  proof (cases "j = i")
    case True
    with j assms(2) show False by (auto simp: holders_def)
  next
    case False
    with j assms(1) have "j \<in> holders w s" by (simp add: holders_def)
    with assms(3) False show False by blast
  qed
qed

lemma claim_holders:
  assumes "storeClaimQueuedRun s ps input = (s', Inr answer)"
  shows "case answer of None \<Rightarrow> s' = s | Some r \<Rightarrow> holders w s' \<subseteq> insert (r_runId r) (holders w s)"
  using assms
  by (auto simp: storeClaimQueuedRun_def Let_def holders_def readRun_def js.get_put claimQueuedRun_def
      split: option.splits if_splits)

lemma release_holders:
  assumes "storeInv s" and "releaseQueuedRunClaim s i who tok now du = (s', freed)" and "holders w s \<subseteq> {i}"
  shows "if freed then holders w s' = {} else s' = s"
proof (cases freed)
  case True
  then obtain r where r: "readRun s i = Some r" "s' = putRun s (r\<lparr>r_queue := Some (queuedQueue du), r_updatedAt := now\<rparr>)"
    using assms(2) by (auto simp: releaseQueuedRunClaim_def readRun_def split: option.splits if_splits)
  then have "r_runId r = i" by (meson assms(1) storeInv_run)
  with r(2) have reads: "readRun s' j = (if j = i then Some (r\<lparr>r_queue := Some (queuedQueue du), r_updatedAt := now\<rparr>) else readRun s j)" for j
    by (simp add: putRun_def readRun_def js.get_put)
  have "holders w s' = {}"
    by (rule holders_drop [of i s' s]) (use reads assms(3) in \<open>auto simp: claimToken_def queuedQueue_def\<close>)
  with True show ?thesis by simp
next
  case False
  then show ?thesis using assms(2) by (auto simp: releaseQueuedRunClaim_def split: option.splits if_splits)
qed

lemma cancel_written:
  assumes "withCleanup cid r (cancelRun now t r remark intervention None) = Decided d"
  obtains q where "writtenRuns d = [q]" "r_runId q = r_runId r" "\<not> isLive (r_state q)"
  using assms
  by (auto simp: withCleanup_def cancelRun_def settle_def canceledRun_def refused_def Let_def writtenRuns_def isLive_def
      reserveCredentialOperation_def taskAndRun_def split: if_splits option.splits)

lemma applyDecision_written_run:
  assumes "applyDecision s d revn = Inr s'" and "writtenRuns d = [q]"
  shows "readRun s' (r_runId q) = Some q"
  using assms by (auto simp: applyDecision_def Let_def readRun_def writeRun_def js.get_put split: if_splits)

lemma cancel_holders:
  assumes "storeInv s" and "orchCancel uuid now s i remark None intervention = (s', Decided d)" and "holders w s \<subseteq> {i}"
  shows "holders w s' = {}"
proof -
  obtain r and v :: versionedTask where r: "readRun s i = Some r"
    "withCleanup uuid r (cancelRun now (vt_task v) r remark intervention None) = Decided d"
    "applyDecision s d (Some (vt_revision v)) = Inr s'"
    using onRun_decided assms(2) unfolding orchCancel_def transactOnRun_def by blast
  obtain q where q: "writtenRuns d = [q]" "r_runId q = r_runId r" "\<not> isLive (r_state q)"
    by (rule cancel_written [OF r(2)])
  have i: "r_runId r = i" by (meson assms(1) r(1) storeInv_run)
  show ?thesis
    by (rule holders_drop [of i s' s])
      (use applyDecision_one_run [OF r(3) q(1)] applyDecision_written_run [OF r(3) q(1)] q i assms(3) in auto)
qed

text \<open>What each way out of an attempt leaves held.\<close>

definition leavesHeld :: "runsWorld \<Rightarrow> memStore \<Rightarrow> claimStep \<Rightarrow> bool" where
  "leavesHeld w s step \<longleftrightarrow>
     (case step of
        ClaimAnswer (Inl _) \<Rightarrow> True
      | ClaimAnswer (Inr answer) \<Rightarrow> holders w s \<subseteq> set_option (map_option rc_runId answer)
      | ClaimAgain \<Rightarrow> holders w s = {})"

lemma leavesHeld_error: "leavesHeld w s (ClaimAnswer (Inl err))"
  by (simp add: leavesHeld_def)

lemma leavesHeld_handed: "holders w s \<subseteq> {r_runId r} \<Longrightarrow> leavesHeld w s (ClaimAnswer (Inr (Some (claimResponse token r))))"
  by (simp add: leavesHeld_def claimResponse_def)

lemma releaseUnverifiable_held:
  assumes w: "tokensPrivate w" and inv: "storeInv (rw_env w (10 * a + 3) s)" and held: "holders w s \<subseteq> {r_runId r}"
    and e: "releaseUnverifiable w a runner s r = (s', step)"
  shows "leavesHeld w s' step"
proof -
  let ?s = "rw_env w (10 * a + 3) s"
  obtain s1 freed where rel: "releaseQueuedRunClaim ?s (r_runId r) runner (rw_hash w (rw_token w a))
      (rw_now w (10 * a + 1)) (Some (rw_now w (10 * a + 2) + 5 * 60000)) = (s1, freed)" by fastforce
  have after: "if freed then holders w s1 = {} else s1 = ?s"
    by (rule release_holders [OF inv rel private_env [OF w held]])
  show ?thesis
  proof (cases freed)
    case True
    with e rel after show ?thesis by (auto simp: releaseUnverifiable_def leavesHeld_def)
  next
    case False
    let ?s2 = "rw_env w (10 * a + 4) ?s"
    have "holders w ?s2 \<subseteq> {r_runId r}" by (intro private_env w held)
    with settled_no_holder [of ?s2 "r_runId r" w] False e rel after show ?thesis
      by (auto simp: releaseUnverifiable_def leavesHeld_def Let_def split: if_splits)
  qed
qed

lemma cancelClosed_held:
  assumes w: "tokensPrivate w" and inv: "storeInv (rw_env w (10 * a + 3) s)" and held: "holders w s \<subseteq> {r_runId r}"
    and e: "cancelClosed w a s r remark = (s', step)"
  shows "leavesHeld w s' step"
proof -
  let ?s = "rw_env w (10 * a + 3) s"
  obtain s1 out where c: "orchCancel (rw_uuid w) (rw_now w (10 * a + 3)) ?s (r_runId r) (Some remark) None None = (s1, out)"
    by fastforce
  show ?thesis
  proof (cases out)
    case (Decided d)
    with c have "holders w s1 = {}" using cancel_holders [OF inv _ private_env [OF w held]] by blast
    then have "holders w (fst (rw_drain w (rw_env w (10 * a + 4) s1))) \<subseteq> {}" by (intro private_drain private_env w) simp
    with e c Decided show ?thesis by (auto simp: cancelClosed_def leavesHeld_def Let_def split: prod.splits option.splits)
  next
    case (Refused why existing)
    with c have "s1 = ?s" by (auto simp: orchCancel_def transactOnRun_def transactRun_def commitOutcome_def Let_def
          split: outcome.splits sum.splits)
    then have held': "holders w (rw_env w (10 * a + 4) s1) \<subseteq> {r_runId r}" by (simp add: private_env w held)
    with settled_no_holder [OF _ held'] leavesHeld_handed [OF held'] e c Refused show ?thesis
      by (auto simp: cancelClosed_def Let_def leavesHeld_def split: if_splits)
  next
    case (Threw err)
    with e c show ?thesis by (auto simp: cancelClosed_def leavesHeld_def)
  qed
qed

lemma settleClaimed_held:
  assumes w: "tokensPrivate w" "runsSteps w" and s: "reachable s" and held: "holders w s \<subseteq> {r_runId r}"
    and e: "settleClaimed w a runner s r = (s', step)"
  shows "leavesHeld w s' step"
proof -
  define x where "x = (if isWorkAnchor (r_task r) then rw_env w (10 * a + 2) s else s)"
  have held': "holders w x \<subseteq> {r_runId r}" by (simp add: x_def held private_env [OF w(1)])
  have "steps s (rw_env w (10 * a + 3) x)" by (simp add: x_def runs_env [OF w(2)] steps_refl)
  then have inv: "storeInv (rw_env w (10 * a + 3) x)" using s reachable_steps reachable_inv by blast
  note ways = releaseUnverifiable_held [OF w(1) inv held'] cancelClosed_held [OF w(1) inv held']
    leavesHeld_handed [OF held'] leavesHeld_error
  have e': "(case checkIssue w a x r of
       Inl err \<Rightarrow> (x, ClaimAnswer (Inl err))
     | Inr NotChecked \<Rightarrow> (x, ClaimAnswer (Inr (Some (claimResponse (rw_token w a) r))))
     | Inr (Checked tracker None) \<Rightarrow> releaseUnverifiable w a runner x r
     | Inr (Checked tracker (Some (isOpen, at))) \<Rightarrow>
         if isOpen then (x, ClaimAnswer (Inr (Some (claimResponse (rw_token w a) r))))
         else cancelClosed w a x r (tracker @ '' issue confirmed closed at '' @ at)) = (s', step)"
    using e by (simp only: settleClaimed_def x_def Let_def)
  then show ?thesis using ways by (auto split: sum.splits claimCheck.splits option.splits if_splits)
qed

lemma claimLoop_held:
  assumes w: "tokensPrivate w" "runsSteps w"
  shows "reachable s \<Longrightarrow> holders w s = {} \<Longrightarrow> claimLoop w p runner aware a n s = (s', Inr answer) \<Longrightarrow>
    holders w s' \<subseteq> set_option (map_option rc_runId answer)"
proof (induction n arbitrary: a s)
  case (Suc n)
  let ?s = "rw_env w (10 * a + 1) s" and ?input = "claimInputOf w a p runner aware"
  have none: "holders w ?s = {}" using private_env [OF w(1), of s "{}"] Suc.prems(2) by simp
  obtain s1 got where c: "storeClaimQueuedRun ?s (wp_pipelines p) ?input = (s1, Inr got)"
    using Suc.prems(3) by (auto split: prod.splits sum.splits)
  have "steps s (exec (ClaimQueued (wp_pipelines p) ?input) ?s)"
    by (rule steps_exec) (simp_all add: runs_env [OF w(2)] steps_refl)
  with c have s1: "reachable s1" using Suc.prems(1) reachable_steps by simp
  show ?case
  proof (cases got)
    case None
    with c claim_holders [OF c, of w] Suc.prems(3) none show ?thesis by simp
  next
    case (Some r)
    obtain s2 step where e: "settleClaimed w a runner s1 r = (s2, step)" by fastforce
    have "holders w s1 \<subseteq> {r_runId r}" using claim_holders [OF c, of w] Some none by simp
    then have held: "leavesHeld w s2 step" using settleClaimed_held [OF w s1 _ e] by blast
    have "steps s1 s2" using settleClaimed_steps [OF w(2) steps_refl, of s1 a runner r] e by simp
    then have s2: "reachable s2" by (rule reachable_steps [OF s1])
    show ?thesis
      using Suc.IH [OF s2] held Suc.prems(3) c Some e by (cases step) (auto simp: leavesHeld_def)
  qed
qed simp

text \<open>C14: a claim strands no run. Where the tokens of a request are its own, a claim that answers leaves
  held under one of them at most the run it hands out: a run it claimed and then found closed or
  unverifiable is cancelled, released or settled by another before the executor is told there is
  nothing, so none waits for its lease to expire under a token nobody received.\<close>

theorem claim_strands_nothing:
  assumes "reachable s" and "runsSteps w" and "tokensPrivate w" and "holders w s = {}"
    and "claimRun w runner placementAware s = (s', Inr answer)"
  shows "holders w s' \<subseteq> set_option (map_option rc_runId answer)"
  using assms claimLoop_held [OF assms(3,2,1,4)]
  by (auto simp: claimRun_def split: sum.splits if_splits)

definition demoUnknown :: "nat \<Rightarrow> issueReference \<Rightarrow> string option \<Rightarrow> (bool \<times> string) option" where
  "demoUnknown a i repository = None"

theorem claim_strands_nothing_witness:
  "holders (demoRuns demoUnknown) (fst (claimRun (demoRuns demoUnknown) ''runner'' False demoQueuedIssue)) = {}"
proof -
  let ?w = "demoRuns demoUnknown" and ?c = "claimRun (demoRuns demoUnknown) ''runner'' False demoQueuedIssue"
  have fresh: "holders ?w demoQueuedIssue = {}"
  proof (rule equals0I)
    fix i assume "i \<in> holders ?w demoQueuedIssue"
    then obtain r where "r \<in> set (allRuns demoQueuedIssue)" "claimToken r \<noteq> None"
      by (auto simp: holders_def dest: readRun_in_allRuns)
    moreover have "list_all (\<lambda>r. claimToken r = None) (allRuns demoQueuedIssue)" by code_simp
    ultimately show False by (auto simp: list_all_iff)
  qed
  have unguessed: "tokensPrivate ?w" by (simp add: tokensPrivate_def demoRuns_def)
  have "snd ?c = Inr None" by code_simp
  then have "?c = (fst ?c, Inr None)" by (simp add: prod_eq_iff)
  from claim_strands_nothing [OF demoQueuedIssue_reachable demoRuns_steps unguessed fresh this] show ?thesis by simp
qed

end
