(* ===== verification/Spec2Isabelle.thy ===== *)
theory Spec2Isabelle
  imports Scenario Outbox_Guarantees Queue_Guarantees Ownership_Guarantees Concurrency_Guarantees
    Feed_Guarantees Policy_Guarantees Cron_Guarantees Schedule_Guarantees Metrics_Guarantees Delivery_Guarantees
    Runs_Guarantees
begin

text \<open>
  A verification of the control plane of agent-lcars: the orchestrator that admits coding tasks,
  runs them one at a time per task on a queue of provider workers, and publishes what happened.
  Paths below are relative to \<^verbatim>\<open>src/\<close>.

  \<^bold>\<open>The program.\<close> A task is a GitHub or Linear anchor or a native work item. A request
  mints a run, which takes the task's lock, is dispatched through a transactional outbox, waits in
  a claim queue until an executor of its provider claims it, is kept alive by heartbeats, and
  settles by a report, a cancellation, an expired lease or an exited executor; a settlement may
  mint a successor (a retry, a provider fallback, a follow-up revision) in the same transaction.
  Every state change is a pure decision on the task and the run, applied by a store transaction;
  the console, executors, sweeps and brokers run concurrently against that store. Schedules mint
  native work items at the slots of a cron expression.

  \<^bold>\<open>Correspondence.\<close>
  \<^item> \<open>Prelude\<close>, \<open>Json\<close>, \<open>JS_Date\<close>, \<open>ISO_Time\<close>: the language. Insertion-ordered maps (interface
    \<open>ordered_map\<close>), stable sorting (\<open>strict_weak_order\<close>), \<^verbatim>\<open>JSON.stringify\<close>, UTC calendar
    arithmetic and \<^verbatim>\<open>toISOString\<close>. Records hold instants in milliseconds where the code holds
    ISO strings and compares them as strings; \<open>iso_order\<close> shows the two orders agree on
    the range \<open>isoRange\<close> of four-digit years.
  \<^item> \<open>Contracts\<close>: the schemas of \<^verbatim>\<open>libs/dispatch-contracts\<close> the orchestrator reads.
  \<^item> \<open>Model\<close>: \<^verbatim>\<open>libs/orchestrator/src/model.ts\<close>; runs, tasks, queue admissions, outbox
    entries and decisions as records and datatypes, refusals as values.
  \<^item> \<open>Decide\<close>, \<open>Delivery\<close>, \<open>Credential\<close>, \<open>Provider_Cooldown\<close>, \<open>Provider_Fallback\<close>,
    \<open>Provider_Routing\<close>: the decision functions of the files of the same names.
  \<^item> \<open>Queue_Admission\<close> and \<open>Memory_Store\<close>: \<^verbatim>\<open>queue-admission-status.ts\<close>, the selection
    functions of \<^verbatim>\<open>store.ts\<close>, and \<^verbatim>\<open>memory-store.ts\<close>, the store's reference
    implementation, one definition per operation.
  \<^item> \<open>Orchestrator\<close>: \<^verbatim>\<open>orchestrator.ts\<close>, every method over that store. The methods
    with a compare-and-set loop take the other clients' steps between their reads and their write as
    an argument (\<open>env\<close>), so interleaving is part of the model. \<open>Console_Transactions\<close>: the
    transactions the console's credential broker and triage publisher issue on the store.
  \<^item> \<open>Outbox_Drain\<close>: the console's \<^verbatim>\<open>orchestrator-dispatch.ts\<close> with \<^verbatim>\<open>anchor-target.ts\<close>, the
    worker that claims outbox entries one at a time, delivers each (dispatch, delivery monitor,
    outcome report, publications) and settles it under its claim, with backoff and retirement. The
    store between any two of its accesses is changed by an arbitrary function of the world
    (\<open>drainWorld\<close>); the outward calls it attempts are recorded in order.
  \<^item> \<open>Ready_Delivery\<close>: the console's \<^verbatim>\<open>ready-delivery.ts\<close>, which binds a pull request to the run
    that delivered it and later reads whether it is merged, waiting or in need of a correction, and who
    may have one; what GitHub answers is an argument.
  \<^item> \<open>Runs_Router\<close>: the API of executors and workers, the console's \<^verbatim>\<open>runs-router.ts\<close> with
    \<^verbatim>\<open>run-result.ts\<close>, \<^verbatim>\<open>run-token.ts\<close> and the task references of \<^verbatim>\<open>issue-trackers.ts\<close>: claiming,
    introspection, heartbeats, placement, exit and completion, over the same store, with what other
    clients do before each store access as an argument (\<open>runsWorld\<close>).
  \<^item> \<open>Lifecycle_Metrics\<close>: \<^verbatim>\<open>lifecycle-metrics.ts\<close>, the accumulation of run outcomes and of the live
    backlog into bounded metric series, over the records the store pages out.
  \<^item> \<open>Work_Spec\<close>, \<open>Work_Derive\<close>, \<open>Cron\<close>: \<^verbatim>\<open>libs/work/src/spec.ts\<close>, \<^verbatim>\<open>work-repository.ts\<close>,
    \<^verbatim>\<open>derive.ts\<close>, \<^verbatim>\<open>cron.ts\<close> and \<^verbatim>\<open>ulid.ts\<close>.
  \<^item> \<open>Work_Authorization\<close>, \<open>Work_Mint\<close>, \<open>Schedule_Store\<close>, \<open>Schedule_Router\<close>: the console's
    \<^verbatim>\<open>work-authorization.ts\<close>, \<^verbatim>\<open>work-grants.ts\<close>, \<^verbatim>\<open>work-provider-fallback.ts\<close>,
    \<^verbatim>\<open>work-mint.ts\<close> and \<^verbatim>\<open>schedule-router.ts\<close> with the schedule store of
    \<^verbatim>\<open>libs/orchestrator/src\<close>.

  \<^bold>\<open>What is shown.\<close> The contract of a decision (\<open>Decision_Safety\<close>: it writes runs of its
  own task only, the lock names a written run exactly when that run is live, histories only grow,
  effects are published) is an interface, \<open>run_decider\<close>, interpreted on every decision function in
  \<open>Decision_Contract\<close>; a second contract about claims and credential operations
  (\<open>disciplined_decider\<close>) in \<open>Claim_Discipline\<close> and \<open>Request_Discipline\<close>. \<open>Lock_Invariant\<close> and
  \<open>Claim_Invariant\<close> turn them into invariants of the store that every operation keeps
  (\<open>store_op\<close>, \<open>ordered_op\<close>, interpreted on each in \<open>Store_Operations\<close> and \<open>Claim_Invariant\<close>).
  \<open>Execution\<close> defines the commands of the system and reachability; \<open>Lock_Machine\<close> the abstract
  ticket lock the store refines; \<open>Store_Frames\<close> the parts of the store only their own operations
  write. The guarantees follow:
  \<^item> here: mutual exclusion, the lock, immutable history, idempotent requests (a repeated request whose
    own conditions hold, \<open>guardsPass\<close>, is answered with the run it created) and published effects (every
    settled run has its outcome in the outbox, unless a cancelled one handed over to a later run), with
    lemmas on run numbers and revision fences;
  \<^item> \<open>Outbox_Guarantees\<close>, \<open>Queue_Guarantees\<close>, \<open>Ownership_Guarantees\<close>: leases, fairness, the
    shares of the classes over interleaved claims (\<open>handsOut\<close>), ceilings, the power of a claim token, credential operations, closed items;
  \<^item> \<open>Concurrency_Guarantees\<close>: refinement of the ticket lock, linearizability of compare-and-set;
  \<^item> \<open>Feed_Guarantees\<close>: source identities, tracker feed, anchor projections;
  \<^item> \<open>Policy_Guarantees\<close>: retry and fallback chains end;
  \<^item> \<open>Cron_Guarantees\<close>, \<open>Schedule_Protocol\<close>, \<open>Schedule_Guarantees\<close>: the searches are exact, an
    occurrence is admitted at most once and never lost, a due occurrence becomes an item, and
    is settled unless the drain after the mint fails;
  \<^item> \<open>Metrics_Guarantees\<close>: complete snapshots count the backlog exactly;
  \<^item> \<open>Drain_Guarantees\<close>: a drain marks an outcome done only when it was delivered, leaves none of its
    leases behind, retires what keeps failing within a bounded number of attempts, counting wakes
    and starting over at a success, and its labels converge whatever the order of deliveries; a lemma shows
    that a drain whose publishers act through the store's operations is an execution of the system;
  \<^item> \<open>Delivery_Guarantees\<close>: the paged reads are exact, a correction rests on current evidence, and a
    visit of the monitor mints a run only with cause and authority, on a task that still waits for the
    observed revision when the transaction decides, whatever other clients do during the visit;
  \<^item> \<open>Runs_Guarantees\<close>: a call of the runs API without the token, scope, grant or claim it needs writes
    nothing, a completion settles only the claim its token belongs to, and a claim strands no run; a
    lemma shows that the modelled calls are executions of the system where drain and broker are.
  \<open>Scenario\<close> holds the concrete execution the witnesses evaluate.

  \<^bold>\<open>Parameters.\<close> What the sources only call is an argument: the string formats zod owns
  (\<open>zodFormats\<close>), \<^verbatim>\<open>localeCompare\<close>, random identifiers, SHA-256, the clock, the deployment's
  admitted repositories, provider authority, and other clients' steps (\<open>env\<close>, \<open>cx_between\<close>,
  \<open>dw_env\<close>). The drain is an argument of the handlers that await it, with its failure (\<open>cx_drain\<close>,
  \<open>rw_drain\<close>). The drain's publishers in other files, its GitHub, Linear and webhook calls
  and the emoji of its comments are fields of \<open>drainWorld\<close>; the answers of GitHub's REST and GraphQL
  services to the delivery monitor are functions of the request (\<open>githubRead\<close>, \<open>reviewRead\<close>). The fields
  of \<open>runsWorld\<close> are the runs API's: bearer and principal, tokens and their hash, the lifecycle of an
  issue, the drain, the credential broker, recipe occurrences and the triage report parser.

  \<^bold>\<open>Bounds.\<close> Numbers are unbounded integers where the code's values stay far below
  \<^verbatim>\<open>MAX_SAFE_INTEGER\<close>; schemas that bound them keep their bounds. Recursion is structural or
  measured; the two cron searches recurse on the step bounds the code has
  (\<open>MAX_LOOKBACK_MINUTES\<close>, \<open>DEFAULT_HORIZON_DAYS\<close>), and the compare-and-set loop has the code's
  two attempts.

  \<^bold>\<open>Not modelled.\<close> \<^verbatim>\<open>firestore-store.ts\<close> and \<^verbatim>\<open>firestore-schedule-store.ts\<close> implement the
  same store contract over the Firestore client, whose transactions are not in the sources. The web
  application's pages, HTTP handlers other than the schedule API and the calls of the runs API named above (its
  briefs, issue pages, recipes, job secrets, checkout tokens and credential downloads are left out), the GitHub, Linear, Slack and
  Kubernetes clients, telemetry, logging, deployment scripts and agent prompts are I/O around the
  modelled core. Lone surrogates and non-ASCII case folding of JavaScript strings are outside the
  character type used here.
\<close>

section \<open>Mutual exclusion and history\<close>

text \<open>C1: in every reachable state a task has at most one live run.\<close>

theorem mutual_exclusion:
  assumes "reachable s" and "r1 \<in> set (allRuns s)" and "r2 \<in> set (allRuns s)"
    and "r_task r1 = r_task r2" and "isLive (r_state r1)" and "isLive (r_state r2)"
  shows "r1 = r2"
proof -
  obtain v1 where v1: "readRun s (r_runId r1) = Some r1" "readTask s (r_task r1) = Some v1"
    "paired (vt_task v1) r1" "validTaskId (r_task r1)" by (rule reachable_run_paired [OF assms(1,2)])
  obtain v2 where v2: "readRun s (r_runId r2) = Some r2" "readTask s (r_task r2) = Some v2"
    "paired (vt_task v2) r2" "validTaskId (r_task r2)" by (rule reachable_run_paired [OF assms(1,3)])
  from v1(2) v2(2) assms(4) have "v2 = v1" by simp
  with paired_live [OF v1(3) assms(5)] paired_live [OF v2(3) assms(6)] have "r_runId r1 = r_runId r2" by simp
  with v1(1) v2(1) have "Some r1 = Some r2" by metis
  then show ?thesis by (rule option.inject [THEN iffD1])
qed

theorem mutual_exclusion_witness:
  "reachable demoSecond \<and> demoStored demoSecond 2 = allRuns demoSecond ! 1"
proof -
  have "length (allRuns demoSecond) = 2" by code_simp
  then have "allRuns demoSecond ! 1 \<in> set (allRuns demoSecond)" by simp
  moreover have "demoStored demoSecond 2 \<in> set (allRuns demoSecond)"
    by (rule readRun_in_allRuns [OF demo_reads(3)])
  moreover have "r_task (demoStored demoSecond 2) = r_task (allRuns demoSecond ! 1) \<and>
      isLive (r_state (demoStored demoSecond 2)) \<and> isLive (r_state (allRuns demoSecond ! 1))"
    by code_simp
  ultimately show ?thesis using mutual_exclusion [OF demoSecond_reachable] demoSecond_reachable by blast
qed

text \<open>C2: the lock names exactly the live run: in every reachable state a task's
  \<^verbatim>\<open>activeRunId\<close> is the identifier of a run if and only if that run is a live run of
  the task.\<close>

theorem lock_is_live_run:
  assumes "reachable s" and "readTask s tid = Some v" and "validTaskId tid"
  shows "t_activeRunId (vt_task v) = Some i \<longleftrightarrow>
    (\<exists>r. readRun s i = Some r \<and> r_task r = tid \<and> isLive (r_state r))"
proof
  have inv: "storeInv s" using assms(1) by (rule reachable_inv)
  note act = activeRun_paired [OF inv assms(2,3)]
  assume "t_activeRunId (vt_task v) = Some i"
  with act show "\<exists>r. readRun s i = Some r \<and> r_task r = tid \<and> isLive (r_state r)"
    using storeInv_task [OF inv assms(2,3)]
    by (auto simp: activeRunIn_def paired_def readRun_def split: option.splits)
next
  have inv: "storeInv s" using assms(1) by (rule reachable_inv)
  assume "\<exists>r. readRun s i = Some r \<and> r_task r = tid \<and> isLive (r_state r)"
  then obtain r where r: "readRun s i = Some r" "r_task r = tid" "isLive (r_state r)" by blast
  from inv r(1) obtain v' where "r_runId r = i" "readTask s (r_task r) = Some v'" "paired (vt_task v') r"
    by (rule storeInv_run)
  with r assms(2) show "t_activeRunId (vt_task v) = Some i" by (simp add: paired_def)
qed

theorem lock_is_live_run_witness:
  "\<exists>v. readTask demoRunning demoTask = Some v \<and> t_activeRunId (vt_task v) = Some (demoRunId 1)"
proof -
  have valid: "validTaskId demoTask" by code_simp
  have live: "r_task (demoStored demoRunning 1) = demoTask \<and> isLive (r_state (demoStored demoRunning 1))"
    by code_simp
  have "readTask demoRunning demoTask \<noteq> None" by code_simp
  then obtain v where v: "readTask demoRunning demoTask = Some v" by blast
  have "\<exists>r. readRun demoRunning (demoRunId 1) = Some r \<and> r_task r = demoTask \<and> isLive (r_state r)"
    using demo_reads(1) live by blast
  then show ?thesis using lock_is_live_run [OF demoRunning_reachable v valid] v by blast
qed

text \<open>C3: history is append-only. Along any execution a stored run keeps its identity (anchor,
  pipeline, class, request, parameters, issue brief, revision, fallback policy and creation time),
  its events only grow at the end, and a terminal run keeps its state and its result.\<close>

theorem run_history_immutable:
  assumes "reachable s" and "steps s s'" and "readRun s i = Some r"
  shows "\<exists>r'. readRun s' i = Some r' \<and> sameIdentity r r' \<and>
    (\<exists>later. r_events r' = r_events r @ later) \<and>
    (isLive (r_state r) \<or> (r_state r' = r_state r \<and> r_result r' = r_result r))"
proof -
  from reachable_keeps [OF assms(1,2)] assms(3) obtain r' where
    r': "readRun s' i = Some r'" and e: "run_evolves r r'"
    unfolding keeps_def evolves_def readRun_def by blast
  have "r_events r' = r_events r @ drop (length (r_events r)) (r_events r')"
    using run_evolvesD(2) [OF e] append_take_drop_id [of "length (r_events r)" "r_events r'"]
    by (simp add: eventsExtend_def)
  with r' run_evolvesD [OF e] show ?thesis by blast
qed

theorem run_history_immutable_witness:
  "\<exists>r'. readRun demoSecond (demoRunId 1) = Some r' \<and> sameIdentity (demoStored demoRunning 1) r' \<and>
    (\<exists>later. r_events r' = r_events (demoStored demoRunning 1) @ later)"
  using run_history_immutable [OF demoRunning_reachable demo_steps demo_reads(1)] by blast

text \<open>C4: no effect is lost. In every reachable state every run has its dispatch entry in the outbox,
  and every settled run, be it finished, lost or cancelled, has its outcome entry, except a cancelled
  run whose task was handed over to a later run of it; each entry is of its kind and for that run.\<close>

theorem effects_published:
  assumes "reachable s" and "readRun s i = Some r"
  shows "(\<exists>e. map_of (ms_outbox s) (''dispatch/'' @ i) = Some e \<and> o_kind e = DispatchRun \<and> o_runId e = i) \<and>
    (isLive (r_state r) \<or>
     (\<exists>e. map_of (ms_outbox s) (''outcome/'' @ i) = Some e \<and> o_kind e = ReportOutcome \<and> o_runId e = i) \<or>
     (r_state r = Canceled \<and> (\<exists>j q. readRun s j = Some q \<and> laterRun r q)))"
proof -
  have inv: "storeInv s" by (rule reachable_inv [OF assms(1)])
  have pub: "publishedOk s i r" using storeInvD(7) [OF inv] assms(2) by (simp add: readRun_def)
  have key: "o_entryId e = k" "named e" if "map_of (ms_outbox s) k = Some e" for k e
    using that entriesKeyedD(2) [OF storeInvD(6) [OF inv]] storeInvD(8) [OF inv] by blast+
  have "o_kind e = DispatchRun \<and> o_runId e = i" if "map_of (ms_outbox s) (dispatchEntryId i) = Some e" for e
    using key [OF that] by (simp add: named_def dispatchEntryId_def)
  moreover have "o_kind e = ReportOutcome \<and> o_runId e = i" if "map_of (ms_outbox s) (outcomeEntryId i) = Some e" for e
    using key [OF that] by (simp add: named_def outcomeEntryId_def)
  ultimately show ?thesis
    using pub unfolding publishedOk_def superseded_def readRun_def dispatchEntryId_def outcomeEntryId_def by blast
qed

theorem effects_published_witness:
  "(\<exists>e. map_of (ms_outbox demoIdle) (''outcome/'' @ demoRunId 2) = Some e \<and> o_kind e = ReportOutcome \<and>
     o_runId e = demoRunId 2)"
proof -
  have r: "case readRun demoIdle (demoRunId 2) of None \<Rightarrow> False | Some r \<Rightarrow> r_state r = Canceled \<and>
      list_all (\<lambda>q. r_runId q = demoRunId 1 \<or> r_runId q = demoRunId 2) (allRuns demoIdle) \<and>
      r_task r = demoTask \<and> r_runId r = demoRunId 2" by code_simp
  then obtain r where r: "readRun demoIdle (demoRunId 2) = Some r" "r_state r = Canceled" "r_task r = demoTask"
    "r_runId r = demoRunId 2" "\<And>q. q \<in> set (allRuns demoIdle) \<Longrightarrow> r_runId q = demoRunId 1 \<or> r_runId q = demoRunId 2"
    by (auto simp: list_all_iff split: option.splits)
  have "\<not> laterRun r q" if "readRun demoIdle j = Some q" for j q
    using r(3,4) r(5) [OF readRun_in_allRuns [OF that]] by (auto simp: laterRun_def demoRunId_def)
  with effects_published [OF demoIdle_reachable r(1)] r(2) show ?thesis by (auto simp: isLive_def)
qed






text \<open>The identifiers of a task's runs are its generations. In every reachable state a run's
  identifier is its task's key with a number between one and the task's run count, which the marker
  parser reads back while it is a safe integer; and no two runs share an identifier.\<close>

lemma run_numbers:
  assumes "reachable s" and "readRun s i = Some r"
  shows "\<exists>v n. readTask s (r_task r) = Some v \<and> 1 \<le> n \<and> n \<le> t_runCount (vt_task v) \<and>
    r_runId r = i \<and> i = runIdFor (r_task r) n \<and>
    (n \<le> MAX_SAFE_INTEGER \<longrightarrow> parseRunGeneration i = Some n)"
proof -
  have inv: "storeInv s" using assms(1) by (rule reachable_inv)
  from inv assms(2) obtain v where v: "r_runId r = i" "readTask s (r_task r) = Some v" "paired (vt_task v) r"
    by (rule storeInv_run)
  then obtain n where "1 \<le> n" "n \<le> t_runCount (vt_task v)" "i = runIdFor (r_task r) n"
    by (auto simp: paired_def numbered_def)
  with v show ?thesis using parseRunGeneration_run_id by (auto simp: runIdFor_def)
qed

text \<open>No lost update. Along any execution a task's entry either stays exactly the same or
  carries a larger revision, so a commit whose expected revision still matches overwrites the very
  entry its decision was made against; the run count never decreases.\<close>

lemma task_revisions_fence:
  assumes "reachable s" and "steps s s'" and "readTask s tid = Some v"
  shows "\<exists>v'. readTask s' tid = Some v' \<and> (v' = v \<or> vt_revision v < vt_revision v') \<and>
    t_runCount (vt_task v) \<le> t_runCount (vt_task v')"
  using reachable_keeps [OF assms(1,2)] assms(3)
  unfolding keeps_def evolves_def readTask_def taskEvolves_def by blast

end
